(* ===== verification/Prelude.thy ===== *)
theory Prelude
  imports Main "HOL-Library.Char_ord" "HOL-Library.List_Lexorder"
    "HOL-Library.Product_Lexorder" "HOL-Library.Option_ord"
begin

text \<open>
  What every component shares: Go's 64-bit integers written as \<open>int\<close> with the wrap-around
  explicit, instants and durations in nanoseconds, tables as lists of rows with the three
  row operations SQL statements are made of, the locale of column updates that keep a
  table's keys, and the locale of transition systems with an invariant.
\<close>

named_theorems table_simps \<open>what a table operation does to the keys and the rows of a table\<close>

section \<open>Integers and times\<close>

type_synonym go_string = "char list"

text \<open>Two's complement truncation of a mathematical result to \<open>int64\<close>.\<close>

definition wrap64 :: "int \<Rightarrow> int" where
  "wrap64 x = signed_take_bit 63 x"

definition is_int64 :: "int \<Rightarrow> bool" where
  "is_int64 x \<longleftrightarrow> - (2 ^ 63) \<le> x \<and> x < 2 ^ 63"

lemma wrap64_id: "is_int64 x \<Longrightarrow> wrap64 x = x"
  by (simp add: wrap64_def is_int64_def signed_take_bit_int_eq_self)

lemma wrap64_int64: "is_int64 (wrap64 x)"
  using signed_take_bit_int_greater_eq_minus_exp [of 63 x] signed_take_bit_int_less_exp [of 63 x]
  by (simp add: wrap64_def is_int64_def)

lemma is_int64_mono: "is_int64 b \<Longrightarrow> 0 \<le> a \<Longrightarrow> a \<le> b \<Longrightarrow> is_int64 a"
  by (simp add: is_int64_def)

lemma is_int64_diff: "is_int64 b \<Longrightarrow> 0 \<le> a \<Longrightarrow> a \<le> b \<Longrightarrow> is_int64 (b - a)"
  by (simp add: is_int64_def)

text \<open>An instant is the number of nanoseconds since 1970-01-01T00:00:00Z; \<open>UTC()\<close> does not
  change the instant. The zero \<open>time.Time\<close> is 0001-01-01T00:00:00Z.\<close>

type_synonym time = int
type_synonym duration = int

definition second :: duration where "second = 1000000000"
definition zero_time :: time where "zero_time = - 62135596800 * 1000000000"

section \<open>Tables\<close>

definition update_where :: "('r \<Rightarrow> bool) \<Rightarrow> ('r \<Rightarrow> 'r) \<Rightarrow> 'r list \<Rightarrow> 'r list" where
  "update_where P f t = map (\<lambda>r. if P r then f r else r) t"

definition count_where :: "('r \<Rightarrow> bool) \<Rightarrow> 'r list \<Rightarrow> nat" where
  "count_where P t = length (filter P t)"

definition delete_where :: "('r \<Rightarrow> bool) \<Rightarrow> 'r list \<Rightarrow> 'r list" where
  "delete_where P t = filter (\<lambda>r. \<not> P r) t"

lemma set_update_where:
  "r \<in> set (update_where P f t) \<longleftrightarrow> (\<exists>s \<in> set t. r = (if P s then f s else s))"
  by (auto simp: update_where_def)

lemma set_delete_where [table_simps]: "set (delete_where P t) = {r \<in> set t. \<not> P r}"
  by (auto simp: delete_where_def)

lemma update_where_none: "\<forall>r \<in> set t. \<not> P r \<Longrightarrow> update_where P f t = t"
  by (induction t) (auto simp: update_where_def)

lemma delete_where_none: "\<forall>r \<in> set t. \<not> P r \<Longrightarrow> delete_where P t = t"
  by (simp add: delete_where_def filter_id_conv)

lemma count_where_0 [simp]: "count_where P t = 0 \<longleftrightarrow> (\<forall>r \<in> set t. \<not> P r)"
  by (auto simp: count_where_def filter_empty_conv)

lemma count_where_pos: "0 < count_where P t \<longleftrightarrow> (\<exists>r \<in> set t. P r)"
  using count_where_0 [of P t] by (auto simp del: count_where_0)

lemma count_where_Cons: "count_where P (r # t) = (if P r then 1 else 0) + count_where P t"
  by (simp add: count_where_def)

lemma count_where_Nil [simp]: "count_where P [] = 0"
  by (simp add: count_where_def)

lemma count_where_append: "count_where P (t @ u) = count_where P t + count_where P u"
  by (simp add: count_where_def)

lemma distinct_map_delete_where [table_simps]:
  "distinct (map k t) \<Longrightarrow> distinct (map k (delete_where P t))"
  by (simp add: delete_where_def distinct_map_filter)

lemma distinct_key_unique:
  "distinct (map k t) \<Longrightarrow> r \<in> set t \<Longrightarrow> s \<in> set t \<Longrightarrow> k r = k s \<Longrightarrow> r = s"
  by (simp add: distinct_map inj_on_def)

lemma find_append:
  "find P (xs @ ys) = (case find P xs of None \<Rightarrow> find P ys | Some x \<Rightarrow> Some x)"
  by (induction xs) auto

lemma find_key_unique:
  assumes "distinct (map k t)" "r \<in> set t"
  shows "find (\<lambda>s. k s = k r) t = Some r"
  using assms by (induction t) auto

lemma find_SomeD: "find P xs = Some x \<Longrightarrow> x \<in> set xs \<and> P x"
  by (auto simp: find_Some_iff)

lemma count_where_key_le1:
  "distinct (map k t) \<Longrightarrow> count_where (\<lambda>r. k r = x \<and> P r) t \<le> 1"
proof (induction t)
  case Nil
  then show ?case by (simp add: count_where_def)
next
  case (Cons a t)
  then show ?case
  proof (cases "k a = x")
    case True
    with Cons.prems have "\<forall>r \<in> set t. \<not> (k r = x \<and> P r)" by (auto simp: image_iff)
    then have "count_where (\<lambda>r. k r = x \<and> P r) t = 0" by simp
    then show ?thesis by (simp only: count_where_Cons) simp
  qed (simp add: count_where_Cons)
qed

lemma count_where_key:
  assumes "distinct (map k t)"
  shows "count_where (\<lambda>r. k r = x \<and> P r) t = (if \<exists>r \<in> set t. k r = x \<and> P r then 1 else 0)"
proof (cases "\<exists>r \<in> set t. k r = x \<and> P r")
  case True
  then have "0 < count_where (\<lambda>r. k r = x \<and> P r) t" by (simp only: count_where_pos)
  with count_where_key_le1 [OF assms, of x P]
  have "count_where (\<lambda>r. k r = x \<and> P r) t = 1" by linarith
  with True show ?thesis by simp
next
  case False
  then have "count_where (\<lambda>r. k r = x \<and> P r) t = 0" by (simp only: count_where_0) auto
  with False show ?thesis by argo
qed

lemma count_where_find:
  assumes "distinct (map k t)"
  shows "count_where (\<lambda>r. k r = x \<and> P r) t =
    (case find (\<lambda>r. k r = x) t of None \<Rightarrow> 0 | Some r \<Rightarrow> if P r then 1 else 0)"
proof (cases "find (\<lambda>r. k r = x) t")
  case None
  then have "count_where (\<lambda>r. k r = x \<and> P r) t = 0"
    by (simp only: count_where_0) (auto simp: find_None_iff)
  with None show ?thesis by simp
next
  case (Some r)
  then have r: "r \<in> set t" "k r = x" by (auto simp: find_Some_iff)
  have "s = r" if "s \<in> set t" "k s = x" for s
    using distinct_key_unique [OF assms that(1) r(1)] that(2) r(2) by simp
  then have "(\<exists>s \<in> set t. k s = x \<and> P s) = P r" using r by blast
  then show ?thesis
    unfolding count_where_key [OF assms, of x P] Some option.case by (rule if_cong) simp_all
qed

lemma find_key_cond:
  assumes "distinct (map k t)" "find (\<lambda>r. k r = x) t = Some r"
  shows "find (\<lambda>q. k q = x \<and> C q) t = (if C r then Some r else None)"
  using assms by (induction t) (auto split: if_splits simp: find_None_iff, metis image_eqI)

lemma count_where_le: "\<forall>r \<in> set t. P r \<longrightarrow> Q r \<Longrightarrow> count_where P t \<le> count_where Q t"
  by (induction t) (auto simp: count_where_def)

lemma count_where_update_le:
  "(\<And>r. r \<in> set t \<Longrightarrow> P r \<Longrightarrow> Q (f r) \<Longrightarrow> Q r) \<Longrightarrow>
   count_where Q (update_where P f t) \<le> count_where Q t"
  by (induction t) (auto simp: count_where_def update_where_def)

lemma count_where_delete_le: "count_where Q (delete_where P t) \<le> count_where Q t"
  by (induction t) (auto simp: count_where_def delete_where_def)

text \<open>The sum of a column over the rows a condition selects, \<open>COALESCE(sum(c), 0)\<close>.\<close>

definition sum_where :: "('r \<Rightarrow> bool) \<Rightarrow> ('r \<Rightarrow> int) \<Rightarrow> 'r list \<Rightarrow> int" where
  "sum_where P c t = sum_list (map c (filter P t))"

lemma sum_where_Cons: "sum_where P c (r # t) = (if P r then c r else 0) + sum_where P c t"
  by (simp add: sum_where_def)

lemma sum_where_Nil [simp]: "sum_where P c [] = 0"
  by (simp add: sum_where_def)

lemma sum_where_append: "sum_where P c (t @ u) = sum_where P c t + sum_where P c u"
  by (simp add: sum_where_def)

lemma sum_where_nonneg: "\<forall>r \<in> set t. P r \<longrightarrow> 0 \<le> c r \<Longrightarrow> 0 \<le> sum_where P c t"
  by (induction t) (auto simp: sum_where_def)

lemma sum_where_delete_le:
  "\<forall>r \<in> set t. Q r \<longrightarrow> 0 \<le> c r \<Longrightarrow> sum_where Q c (delete_where P t) \<le> sum_where Q c t"
  by (induction t) (auto simp: sum_where_def delete_where_def)

lemma sum_where_update_le:
  "(\<And>r. r \<in> set t \<Longrightarrow> P r \<Longrightarrow> Q (f r) \<Longrightarrow> Q r \<and> c (f r) = c r) \<Longrightarrow>
   \<forall>r \<in> set t. Q r \<longrightarrow> 0 \<le> c r \<Longrightarrow>
   sum_where Q c (update_where P f t) \<le> sum_where Q c t"
  by (induction t) (auto simp: sum_where_def update_where_def)

subsection \<open>Column updates that keep the key\<close>

text \<open>
  Every UPDATE of the program writes columns outside the table's key. The laws of such an
  update: the keys of the table are unchanged, so uniqueness and lookups by key survive.
\<close>

locale keyed_update =
  fixes key :: "'r \<Rightarrow> 'k" and upd :: "'r \<Rightarrow> 'r"
  assumes key_upd: "key (upd r) = key r"
begin

lemma keys_update: "map key (update_where P upd t) = map key t"
  by (induction t) (auto simp: update_where_def key_upd)

lemma distinct_update: "distinct (map key t) \<Longrightarrow> distinct (map key (update_where P upd t))"
  by (simp add: keys_update)

lemma find_update:
  "find (\<lambda>r. key r = x) (update_where P upd t) =
   map_option (\<lambda>r. if P r then upd r else r) (find (\<lambda>r. key r = x) t)"
  by (induction t) (auto simp: update_where_def key_upd)

end

section \<open>Transition systems\<close>

text \<open>
  A step relation with an invariant every step keeps: the invariant holds in every state
  that a run from a state satisfying it reaches.
\<close>

locale invariant_system =
  fixes step :: "'s \<Rightarrow> 's \<Rightarrow> bool" and inv :: "'s \<Rightarrow> bool"
  assumes step_inv: "step s t \<Longrightarrow> inv s \<Longrightarrow> inv t"
begin

lemma run_inv: "step\<^sup>*\<^sup>* s t \<Longrightarrow> inv s \<Longrightarrow> inv t"
  by (induction rule: rtranclp_induct) (auto intro: step_inv)

end

end
