(* ===== verification/Go_Strings.thy ===== *)
theory Go_Strings
  imports Prelude
begin

text \<open>
  The operations of Go's \<open>strings\<close> and \<open>strconv\<close> packages the program uses. A Go string is a
  sequence of bytes, and so is \<^typ>\<open>go_string\<close>: a \<^typ>\<open>char\<close> is one byte. White space is
  Unicode's (\<open>unicode.IsSpace\<close>); its UTF-8 encodings are listed, so no decoding is needed.
\<close>

definition has_prefix :: "go_string \<Rightarrow> go_string \<Rightarrow> bool" where
  "has_prefix s p \<longleftrightarrow> take (length p) s = p"

definition trim_prefix :: "go_string \<Rightarrow> go_string \<Rightarrow> go_string" where
  "trim_prefix s p = (if has_prefix s p then drop (length p) s else s)"

definition contains_any :: "go_string \<Rightarrow> go_string \<Rightarrow> bool" where
  "contains_any s cs \<longleftrightarrow> list_ex (\<lambda>c. List.member cs c) s"

lemma has_prefix_append [simp]: "has_prefix (p @ s) p"
  by (simp add: has_prefix_def)

lemma trim_prefix_append [simp]: "trim_prefix (p @ s) p = s"
  by (simp add: trim_prefix_def)

lemma has_prefixE: "has_prefix s p \<Longrightarrow> (\<And>t. s = p @ t \<Longrightarrow> Q) \<Longrightarrow> Q"
  by (metis append_take_drop_id has_prefix_def)

lemma has_prefix_Cons [simp]:
  "has_prefix (c # s) (d # p) \<longleftrightarrow> c = d \<and> has_prefix s p"
  "has_prefix s []"
  "has_prefix [] (d # p) \<longleftrightarrow> False"
  by (auto simp: has_prefix_def)

section \<open>Trimming\<close>

text \<open>Removes from the front every leading occurrence of one of the non-empty strings \<open>es\<close>.\<close>

function strip_any :: "go_string list \<Rightarrow> go_string \<Rightarrow> go_string" where
  "strip_any es s =
     (case find (\<lambda>e. e \<noteq> [] \<and> has_prefix s e) es of
        None \<Rightarrow> s
      | Some e \<Rightarrow> strip_any es (drop (length e) s))"
  by pat_completeness auto
termination
proof (relation "measure (\<lambda>(es, s). length s)", goal_cases)
  case (2 es s e)
  then have "e \<noteq> []" "has_prefix s e" by (auto simp: find_Some_iff)
  then show ?case by (cases s) (auto simp: has_prefix_def)
qed simp

declare strip_any.simps [simp del]

lemma strip_any_none:
  "(\<And>e. e \<in> set es \<Longrightarrow> e \<noteq> [] \<Longrightarrow> \<not> has_prefix s e) \<Longrightarrow> strip_any es s = s"
  by (subst strip_any.simps) (auto simp: find_Some_iff split: option.splits)

lemma strip_any_Nil [simp]: "strip_any es [] = []"
  by (rule strip_any_none) (auto simp: has_prefix_def)

text \<open>What is left starts with none of the strings.\<close>

lemma strip_any_done: "e \<in> set es \<Longrightarrow> e \<noteq> [] \<Longrightarrow> \<not> has_prefix (strip_any es s) e"
proof (induction es s rule: strip_any.induct)
  case (1 es s)
  show ?case
  proof (cases "find (\<lambda>e. e \<noteq> [] \<and> has_prefix s e) es")
    case None
    then have "strip_any es s = s" by (subst strip_any.simps) simp
    with 1 None show ?thesis by (auto simp: find_None_iff)
  next
    case (Some d)
    then have "strip_any es s = strip_any es (drop (length d) s)"
      by (subst strip_any.simps) simp
    with 1 Some show ?thesis by simp
  qed
qed

text \<open>What was removed is a concatenation of the strings.\<close>

lemma strip_any_decomp:
  "\<exists>ds. set ds \<subseteq> {e \<in> set es. e \<noteq> []} \<and> s = concat ds @ strip_any es s"
proof (induction es s rule: strip_any.induct)
  case (1 es s)
  show ?case
  proof (cases "find (\<lambda>e. e \<noteq> [] \<and> has_prefix s e) es")
    case None
    then have "strip_any es s = s" by (subst strip_any.simps) simp
    then show ?thesis by (intro exI [of _ "[]"]) simp
  next
    case (Some d)
    from Some have d: "d \<in> set es" "d \<noteq> []" "has_prefix s d"
      by (auto simp: find_Some_iff)
    from 1 [OF Some] obtain ds where
      "set ds \<subseteq> {e \<in> set es. e \<noteq> []}" "drop (length d) s = concat ds @ strip_any es (drop (length d) s)"
      by blast
    moreover from d(3) have "s = d @ drop (length d) s"
      by (metis append_take_drop_id has_prefix_def)
    moreover from Some have "strip_any es s = strip_any es (drop (length d) s)"
      by (subst strip_any.simps) simp
    ultimately show ?thesis
      using d by (intro exI [of _ "d # ds"]) auto
  qed
qed

text \<open>The UTF-8 encodings of the code points \<open>unicode.IsSpace\<close> accepts: the six ASCII ones,
  U+0085, U+00A0, U+1680, U+2000 to U+200A, U+2028, U+2029, U+202F, U+205F and U+3000.\<close>

definition space_encodings :: "go_string list" where
  "space_encodings =
     [[CHR 0x09], [CHR 0x0A], [CHR 0x0B], [CHR 0x0C], [CHR 0x0D], [CHR 0x20],
      [CHR 0xC2, CHR 0x85], [CHR 0xC2, CHR 0xA0], [CHR 0xE1, CHR 0x9A, CHR 0x80]]
     @ map (\<lambda>c. [CHR 0xE2, CHR 0x80, c])
         [CHR 0x80, CHR 0x81, CHR 0x82, CHR 0x83, CHR 0x84, CHR 0x85, CHR 0x86, CHR 0x87,
          CHR 0x88, CHR 0x89, CHR 0x8A, CHR 0xA8, CHR 0xA9, CHR 0xAF]
     @ [[CHR 0xE2, CHR 0x81, CHR 0x9F], [CHR 0xE3, CHR 0x80, CHR 0x80]]"

definition trim_left_space :: "go_string \<Rightarrow> go_string" where
  "trim_left_space s = strip_any space_encodings s"

definition trim_right_space :: "go_string \<Rightarrow> go_string" where
  "trim_right_space s = rev (strip_any (map rev space_encodings) (rev s))"

definition trim_space :: "go_string \<Rightarrow> go_string" where
  "trim_space s = trim_right_space (trim_left_space s)"

definition is_blank :: "go_string \<Rightarrow> bool" where
  "is_blank s \<longleftrightarrow> trim_space s = []"

lemma trim_left_space_Cons:
  "\<forall>e \<in> set space_encodings. hd e \<noteq> c \<Longrightarrow> trim_left_space (c # s) = c # s"
  unfolding trim_left_space_def
  by (rule strip_any_none) (metis has_prefix_Cons(1) list.exhaust list.sel(1))

lemma trim_right_space_Nil:
  assumes "trim_right_space s = []" and "s \<noteq> []"
  shows "\<exists>e \<in> set space_encodings. e \<noteq> [] \<and> has_prefix s e"
proof -
  from assms(1) have "strip_any (map rev space_encodings) (rev s) = []"
    by (simp add: trim_right_space_def)
  with strip_any_decomp [of "map rev space_encodings" "rev s"]
  obtain ds where ds: "set ds \<subseteq> {e \<in> set (map rev space_encodings). e \<noteq> []}" "rev s = concat ds"
    by auto
  with assms(2) have ne: "ds \<noteq> []" by auto
  then have s: "s = rev (last ds) @ rev (concat (butlast ds))"
    using ds(2) by (metis append_butlast_last_id concat.simps concat_append append_Nil2 rev_append rev_rev_ident)
  from ne ds(1) have "last ds \<in> {e \<in> set (map rev space_encodings). e \<noteq> []}"
    by (meson last_in_set subsetD)
  then have "rev (last ds) \<in> set space_encodings" "rev (last ds) \<noteq> []" by auto
  moreover from s have "has_prefix s (rev (last ds))"
    by (metis has_prefix_append)
  ultimately show ?thesis by blast
qed

lemma trim_space_Nil_iff: "trim_space s = [] \<longleftrightarrow> trim_left_space s = []"
proof
  assume "trim_space s = []"
  then have *: "trim_right_space (trim_left_space s) = []" by (simp add: trim_space_def)
  show "trim_left_space s = []"
  proof (rule ccontr)
    assume "trim_left_space s \<noteq> []"
    with trim_right_space_Nil [OF *] obtain e where
      "e \<in> set space_encodings" "e \<noteq> []" "has_prefix (trim_left_space s) e" by blast
    then show False
      using strip_any_done [of e space_encodings s] by (simp add: trim_left_space_def)
  qed
qed (simp add: trim_space_def trim_right_space_def)

text \<open>A string whose first byte starts no white space encoding is not blank.\<close>

lemma not_blank_Cons: "\<forall>e \<in> set space_encodings. hd e \<noteq> c \<Longrightarrow> \<not> is_blank (c # s)"
  by (simp add: is_blank_def trim_space_Nil_iff trim_left_space_Cons)

lemma not_blank_letter: "c \<in> set ''abcdefghijklmnopqrstuvwxyz'' \<Longrightarrow> \<not> is_blank (c # s)"
  by (rule not_blank_Cons) (auto simp: space_encodings_def)

lemma is_blank_Nil [simp]: "is_blank []"
  by (simp add: is_blank_def trim_space_def trim_left_space_def trim_right_space_def)

section \<open>Decimal integers\<close>

definition digit_value :: "char \<Rightarrow> int option" where
  "digit_value c =
     (let n = of_char c :: int in if 48 \<le> n \<and> n \<le> 57 then Some (n - 48) else None)"

fun digits_value :: "int \<Rightarrow> go_string \<Rightarrow> int option" where
  "digits_value acc [] = Some acc"
| "digits_value acc (c # cs) =
     (case digit_value c of None \<Rightarrow> None | Some d \<Rightarrow> digits_value (10 * acc + d) cs)"

text \<open>\<open>strconv.ParseInt(s, 10, 64)\<close>, and \<open>strconv.Atoi\<close> on a 64-bit platform: an optional sign,
  at least one digit, and a value in range.\<close>

definition parse_int64 :: "go_string \<Rightarrow> int option" where
  "parse_int64 s =
     (let (neg, ds) = (case s of
          c # cs \<Rightarrow> if c = CHR ''-'' then (True, cs) else if c = CHR ''+'' then (False, cs)
                   else (False, s)
        | [] \<Rightarrow> (False, []))
      in if ds = [] then None
         else case digits_value 0 ds of
                None \<Rightarrow> None
              | Some n \<Rightarrow> let v = (if neg then - n else n)
                         in if is_int64 v then Some v else None)"

lemma parse_int64_range: "parse_int64 s = Some v \<Longrightarrow> is_int64 v"
  by (auto simp: parse_int64_def Let_def split: if_splits option.splits prod.splits)

end
