(* ===== verification/Droppoint.thy ===== *)
theory Droppoint
  imports Go_Strings
begin

text \<open>
  The domain package, \<open>internal/droppoint/droppoint.go\<close>: the two status types, the sentinel
  errors, the records, and the lifecycle operations of a drop point and of a submission.
  Go's status types are strings, so a value outside the four constants exists; the
  constructors \<open>StatusOther\<close> and \<open>SubmissionStatusOther\<close> stand for it and reach the code's
  \<open>default\<close> branches. A function that returns a value next to its error returns a pair here.
\<close>

section \<open>Data\<close>

datatype status = StatusOpen | StatusClosed | StatusExpired | StatusFailed | StatusOther go_string

datatype submission_status =
    SubmissionStatusReceiving | SubmissionStatusReady | SubmissionStatusAcknowledged
  | SubmissionStatusFailed | SubmissionStatusOther go_string

text \<open>The causes a failing system call, database call or cancelled context can carry; a missing
  file has a constructor of its own because the code tests for it.\<close>

datatype io_cause =
    ENOSPC | EDQUOT | EAGAIN | EBUSY | ESTALE | ETIMEDOUT | DeadlineExceeded | Canceled | OtherCause

text \<open>The sentinel errors of the package in the order the source declares them, then the errors
  the other packages test for. \<open>ErrSourceRead\<close> wraps the error of the stream it names.\<close>

datatype error =
    ErrDropPointNotFound | ErrDropTokenInvalid | ErrPickupTokenInvalid | ErrDropPointNotOpen
  | ErrDropPointExpired | ErrDropPointClosed | ErrDropPointFailed | ErrSubmissionNotFound
  | ErrSubmissionAlreadyExists | ErrSubmissionNotReady | ErrSubmissionAcknowledged
  | ErrSubmissionFailed | ErrPendingSubmissionQuotaExceeded | ErrPendingBytesQuotaExceeded
  | ErrPayloadTooLarge | ErrEnvelopeInvalid | ErrInvalidTransition | ErrInvalidDropPoint
  | ErrInvalidSubmission | ErrAPITokenInvalid | ErrAPITokenDisabled
  | ErrActiveDropPointQuotaExceeded | ErrAPITokenNotFound | ErrAPITokenHasActiveDropPoints
  | ErrStoreAPITokenNotFound | ErrNoRows | ErrUniqueConstraint | ErrNotExist | ErrMaxBytes
  | ErrIO io_cause | ErrSourceRead error | ErrOther go_string

text \<open>\<open>errors.Is\<close>: the error itself or the one it wraps.\<close>

function errors_is :: "error \<Rightarrow> error \<Rightarrow> bool" where
  "errors_is e x \<longleftrightarrow> e = x \<or> (case e of ErrSourceRead d \<Rightarrow> errors_is d x | _ \<Rightarrow> False)"
  by pat_completeness auto
termination by (relation "measure (\<lambda>(e, x). size e)") auto

declare errors_is.simps [simp del]

lemma errors_is_SourceRead [simp]:
  "errors_is (ErrSourceRead e) x \<longleftrightarrow> ErrSourceRead e = x \<or> errors_is e x"
  by (subst errors_is.simps) simp

lemma errors_is_other [simp]:
  "(\<And>d. e \<noteq> ErrSourceRead d) \<Longrightarrow> errors_is e x \<longleftrightarrow> e = x"
  by (subst errors_is.simps) (simp split: error.split)

record drop_point =
  dp_ID :: go_string
  dp_APITokenID :: go_string
  dp_ClientName :: go_string
  dp_DisplayName :: go_string
  dp_DropTokenHash :: go_string
  dp_PickupTokenHash :: go_string
  dp_Status :: status
  dp_CreatedAt :: time
  dp_ClosedAt :: "time option"
  dp_FailedAt :: "time option"
  dp_ExpiresAt :: time
  dp_MaxBytes :: int
  dp_MaxPendingSubmissions :: int
  dp_MaxPendingBytes :: int

record submission =
  sub_ID :: go_string
  sub_DropPointID :: go_string
  sub_Status :: submission_status
  sub_EnvelopePath :: go_string
  sub_PayloadPath :: go_string
  sub_EncryptedSize :: int
  sub_CreatedAt :: time
  sub_ReceivingStartedAt :: time
  sub_DroppedAt :: "time option"
  sub_FirstPickedUpAt :: "time option"
  sub_AcknowledgedAt :: "time option"
  sub_FailedAt :: "time option"

record create_drop_point_request =
  cr_ID :: go_string
  cr_APITokenID :: go_string
  cr_ClientName :: go_string
  cr_DisplayName :: go_string
  cr_DropTokenHash :: go_string
  cr_PickupTokenHash :: go_string
  cr_TTL :: duration
  cr_MaxBytes :: int
  cr_MaxPendingSubmissions :: int
  cr_MaxPendingBytes :: int

record commit_submission_result =
  cs_EnvelopePath :: go_string
  cs_PayloadPath :: go_string
  cs_EncryptedSize :: int

record create_drop_point_response =
  resp_DropPointID :: go_string
  resp_DisplayName :: go_string
  resp_DropToken :: go_string
  resp_PickupToken :: go_string
  resp_ExpiresAt :: time
  resp_MaxBytes :: int
  resp_MaxPendingSubmissions :: int
  resp_MaxPendingBytes :: int

section \<open>Operations\<close>

definition New :: "create_drop_point_request \<Rightarrow> time \<Rightarrow> error + drop_point" where
  "New req now =
     (if is_blank (cr_ID req) \<or> is_blank (cr_APITokenID req) \<or> is_blank (cr_DisplayName req)
         \<or> is_blank (cr_DropTokenHash req) \<or> is_blank (cr_PickupTokenHash req)
         \<or> cr_TTL req \<le> 0 \<or> cr_MaxBytes req \<le> 0 \<or> cr_MaxPendingSubmissions req \<le> 0
         \<or> cr_MaxPendingBytes req < cr_MaxBytes req
      then Inl ErrInvalidDropPoint
      else Inr \<lparr>dp_ID = cr_ID req, dp_APITokenID = cr_APITokenID req,
                dp_ClientName = cr_ClientName req, dp_DisplayName = cr_DisplayName req,
                dp_DropTokenHash = cr_DropTokenHash req,
                dp_PickupTokenHash = cr_PickupTokenHash req, dp_Status = StatusOpen,
                dp_CreatedAt = now, dp_ClosedAt = None, dp_FailedAt = None,
                dp_ExpiresAt = now + cr_TTL req, dp_MaxBytes = cr_MaxBytes req,
                dp_MaxPendingSubmissions = cr_MaxPendingSubmissions req,
                dp_MaxPendingBytes = cr_MaxPendingBytes req\<rparr>)"

definition RequireOpen :: "drop_point \<Rightarrow> time \<Rightarrow> error option" where
  "RequireOpen dp now =
     (if \<not> now < dp_ExpiresAt dp \<and> dp_Status dp = StatusOpen then Some ErrDropPointExpired
      else case dp_Status dp of
             StatusOpen \<Rightarrow> None
           | StatusClosed \<Rightarrow> Some ErrDropPointClosed
           | StatusExpired \<Rightarrow> Some ErrDropPointExpired
           | StatusFailed \<Rightarrow> Some ErrDropPointFailed
           | StatusOther _ \<Rightarrow> Some ErrDropPointNotOpen)"

definition NewSubmission :: "drop_point \<Rightarrow> go_string \<Rightarrow> time \<Rightarrow> error + submission" where
  "NewSubmission dp sid now =
     (if is_blank sid then Inl ErrInvalidSubmission
      else case RequireOpen dp now of
             Some err \<Rightarrow> Inl err
           | None \<Rightarrow>
               Inr \<lparr>sub_ID = sid, sub_DropPointID = dp_ID dp,
                    sub_Status = SubmissionStatusReceiving, sub_EnvelopePath = [],
                    sub_PayloadPath = [], sub_EncryptedSize = 0, sub_CreatedAt = now,
                    sub_ReceivingStartedAt = now, sub_DroppedAt = None,
                    sub_FirstPickedUpAt = None, sub_AcknowledgedAt = None, sub_FailedAt = None\<rparr>)"

definition CommitSubmission ::
    "submission \<Rightarrow> commit_submission_result \<Rightarrow> time \<Rightarrow> submission \<times> error option" where
  "CommitSubmission s result now =
     (if sub_Status s \<noteq> SubmissionStatusReceiving \<or> cs_EnvelopePath result = []
         \<or> cs_PayloadPath result = [] \<or> cs_EncryptedSize result < 0
      then (s, Some ErrInvalidTransition)
      else (s\<lparr>sub_Status := SubmissionStatusReady, sub_EnvelopePath := cs_EnvelopePath result,
              sub_PayloadPath := cs_PayloadPath result,
              sub_EncryptedSize := cs_EncryptedSize result, sub_DroppedAt := Some now\<rparr>, None))"

definition MarkSubmissionPickedUp :: "submission \<Rightarrow> time \<Rightarrow> submission \<times> error option" where
  "MarkSubmissionPickedUp s now =
     (case sub_Status s of
        SubmissionStatusReady \<Rightarrow>
          (if sub_FirstPickedUpAt s = None then s\<lparr>sub_FirstPickedUpAt := Some now\<rparr> else s, None)
      | SubmissionStatusAcknowledged \<Rightarrow>
          (if sub_FirstPickedUpAt s = None then s\<lparr>sub_FirstPickedUpAt := Some now\<rparr> else s, None)
      | SubmissionStatusFailed \<Rightarrow> (s, Some ErrSubmissionFailed)
      | _ \<Rightarrow> (s, Some ErrSubmissionNotReady))"

definition AcknowledgeSubmission :: "submission \<Rightarrow> time \<Rightarrow> submission \<times> error option" where
  "AcknowledgeSubmission s now =
     (case sub_Status s of
        SubmissionStatusAcknowledged \<Rightarrow> (s, None)
      | SubmissionStatusReady \<Rightarrow>
          (s\<lparr>sub_Status := SubmissionStatusAcknowledged, sub_AcknowledgedAt := Some now\<rparr>, None)
      | SubmissionStatusFailed \<Rightarrow> (s, Some ErrSubmissionFailed)
      | _ \<Rightarrow> (s, Some ErrSubmissionNotReady))"

definition FailSubmission :: "submission \<Rightarrow> time \<Rightarrow> submission" where
  "FailSubmission s now =
     (if sub_Status s = SubmissionStatusFailed then s
      else s\<lparr>sub_Status := SubmissionStatusFailed, sub_FailedAt := Some now\<rparr>)"

definition Expire :: "drop_point \<Rightarrow> time \<Rightarrow> drop_point \<times> bool" where
  "Expire dp now =
     (if dp_Status dp \<noteq> StatusOpen \<or> now < dp_ExpiresAt dp then (dp, False)
      else (dp\<lparr>dp_Status := StatusExpired\<rparr>, True))"

definition Close :: "drop_point \<Rightarrow> time \<Rightarrow> drop_point \<times> error option" where
  "Close dp now =
     (case Expire dp now of
        (expired, True) \<Rightarrow> (expired, Some ErrDropPointExpired)
      | (_, False) \<Rightarrow>
          (case dp_Status dp of
             StatusClosed \<Rightarrow> (dp, None)
           | StatusExpired \<Rightarrow> (dp, Some ErrDropPointExpired)
           | StatusFailed \<Rightarrow> (dp, Some ErrDropPointFailed)
           | StatusOpen \<Rightarrow> (dp\<lparr>dp_Status := StatusClosed, dp_ClosedAt := Some now\<rparr>, None)
           | StatusOther _ \<Rightarrow> (dp, Some ErrInvalidTransition)))"

definition Fail :: "drop_point \<Rightarrow> time \<Rightarrow> drop_point \<times> error option" where
  "Fail dp now =
     (if dp_Status dp = StatusFailed then (dp, None)
      else if dp_Status dp = StatusClosed \<or> dp_Status dp = StatusExpired
      then (dp, Some ErrInvalidTransition)
      else (dp\<lparr>dp_Status := StatusFailed, dp_FailedAt := Some now\<rparr>, None))"

lemmas domain_defs = New_def RequireOpen_def NewSubmission_def CommitSubmission_def
  MarkSubmissionPickedUp_def AcknowledgeSubmission_def FailSubmission_def Expire_def Close_def
  Fail_def

section \<open>Well-formed records\<close>

text \<open>
  What the operations keep between the columns: the status is one of the four, the time stamp
  of a terminal state is set exactly in that state, and the limits satisfy what \<open>New\<close> checks.
\<close>

definition dp_wf :: "drop_point \<Rightarrow> bool" where
  "dp_wf dp \<longleftrightarrow>
     dp_Status dp \<in> {StatusOpen, StatusClosed, StatusExpired, StatusFailed}
     \<and> (dp_ClosedAt dp \<noteq> None \<longleftrightarrow> dp_Status dp = StatusClosed)
     \<and> (dp_FailedAt dp \<noteq> None \<longleftrightarrow> dp_Status dp = StatusFailed)
     \<and> dp_CreatedAt dp < dp_ExpiresAt dp
     \<and> 0 < dp_MaxBytes dp \<and> 0 < dp_MaxPendingSubmissions dp
     \<and> dp_MaxBytes dp \<le> dp_MaxPendingBytes dp"

definition sub_wf :: "submission \<Rightarrow> bool" where
  "sub_wf s \<longleftrightarrow>
     (case sub_Status s of
        SubmissionStatusReceiving \<Rightarrow>
          sub_EnvelopePath s = [] \<and> sub_PayloadPath s = [] \<and> sub_DroppedAt s = None
          \<and> sub_FirstPickedUpAt s = None \<and> sub_AcknowledgedAt s = None \<and> sub_FailedAt s = None
      | SubmissionStatusReady \<Rightarrow>
          sub_DroppedAt s \<noteq> None \<and> sub_AcknowledgedAt s = None \<and> sub_FailedAt s = None
      | SubmissionStatusAcknowledged \<Rightarrow>
          sub_DroppedAt s \<noteq> None \<and> sub_AcknowledgedAt s \<noteq> None \<and> sub_FailedAt s = None
      | SubmissionStatusFailed \<Rightarrow> sub_FailedAt s \<noteq> None
      | SubmissionStatusOther _ \<Rightarrow> False)
     \<and> 0 \<le> sub_EncryptedSize s"

lemma New_wf: "New req now = Inr dp \<Longrightarrow> dp_wf dp \<and> dp_Status dp = StatusOpen"
  by (auto simp: New_def dp_wf_def split: if_splits)

lemma NewSubmission_wf:
  "NewSubmission dp sid now = Inr s \<Longrightarrow> sub_wf s \<and> sub_Status s = SubmissionStatusReceiving"
  by (auto simp: NewSubmission_def sub_wf_def split: if_splits option.splits)

text \<open>One step of a drop point's or of a submission's life is one operation at some instant.\<close>

inductive dp_step :: "drop_point \<Rightarrow> drop_point \<Rightarrow> bool" where
  dp_close: "Close dp now = (dp', e) \<Longrightarrow> dp_step dp dp'"
| dp_fail: "Fail dp now = (dp', e) \<Longrightarrow> dp_step dp dp'"
| dp_expire: "Expire dp now = (dp', c) \<Longrightarrow> dp_step dp dp'"

inductive sub_step :: "submission \<Rightarrow> submission \<Rightarrow> bool" where
  sub_commit: "CommitSubmission s result now = (s', e) \<Longrightarrow> sub_step s s'"
| sub_pickup: "MarkSubmissionPickedUp s now = (s', e) \<Longrightarrow> sub_step s s'"
| sub_acknowledge: "AcknowledgeSubmission s now = (s', e) \<Longrightarrow> sub_step s s'"
| sub_fail: "FailSubmission s now = s' \<Longrightarrow> sub_step s s'"

inductive_simps dp_step_iff: "dp_step dp dp'"
inductive_simps sub_step_iff: "sub_step s s'"

lemma dp_step_wf: "dp_step dp dp' \<Longrightarrow> dp_wf dp \<Longrightarrow> dp_wf dp'"
  by (auto simp: dp_step_iff domain_defs dp_wf_def split: if_splits status.splits prod.splits)

lemma sub_step_wf: "sub_step s s' \<Longrightarrow> sub_wf s \<Longrightarrow> sub_wf s'"
  by (auto simp: sub_step_iff domain_defs sub_wf_def split: if_splits submission_status.splits)

interpretation dp_life: invariant_system dp_step dp_wf
  by unfold_locales (rule dp_step_wf)

interpretation sub_life: invariant_system sub_step sub_wf
  by unfold_locales (rule sub_step_wf)

text \<open>The identity of a drop point and its limits never change, and a terminal one is frozen.\<close>

lemma dp_step_terminal:
  "dp_step dp dp' \<Longrightarrow> dp_Status dp \<in> {StatusClosed, StatusExpired, StatusFailed} \<Longrightarrow> dp' = dp"
  by (auto simp: dp_step_iff domain_defs split: if_splits status.splits prod.splits)

lemma dp_run_terminal:
  "dp_step\<^sup>*\<^sup>* dp dp' \<Longrightarrow> dp_Status dp \<in> {StatusClosed, StatusExpired, StatusFailed} \<Longrightarrow> dp' = dp"
  by (induction rule: rtranclp_induct) (auto dest: dp_step_terminal)

lemma RequireOpen_None:
  "RequireOpen dp now = None \<longleftrightarrow> dp_Status dp = StatusOpen \<and> now < dp_ExpiresAt dp"
  by (auto simp: RequireOpen_def split: status.splits)

lemma RequireOpen_expired:
  "RequireOpen dp now = Some ErrDropPointExpired \<longleftrightarrow>
   dp_Status dp = StatusExpired \<or> dp_Status dp = StatusOpen \<and> dp_ExpiresAt dp \<le> now"
  by (auto simp: RequireOpen_def split: status.splits)

section \<open>Properties\<close>

text \<open>A drop point that \<open>New\<close> accepts stays well formed through every sequence of
  \<open>Close\<close>, \<open>Fail\<close> and \<open>Expire\<close> at any instants: its status is one of the four constants, the
  closing (failing) time is recorded exactly when it is closed (failed), and once the status is
  terminal no later operation changes the record at all.\<close>

theorem drop_point_lifecycle:
  assumes "New req t0 = Inr dp0" and "dp_step\<^sup>*\<^sup>* dp0 dp1" and "dp_step\<^sup>*\<^sup>* dp1 dp2"
  shows "dp_wf dp2 \<and> (dp_Status dp1 \<noteq> StatusOpen \<longrightarrow> dp2 = dp1)"
proof -
  from assms(1) have "dp_wf dp0" by (simp add: New_wf)
  then have "dp_wf dp1" using dp_life.run_inv assms(2) by blast
  moreover from this have "dp_wf dp2" using dp_life.run_inv assms(3) by blast
  ultimately show ?thesis
    using dp_run_terminal [OF assms(3)] by (auto simp: dp_wf_def)
qed

text \<open>\<open>Close\<close> on a well-formed drop point: it succeeds exactly when the drop point is open
  and unexpired or already closed; it is idempotent at any later instant; and closing an open
  drop point at or after its expiry expires it instead and says so.\<close>

theorem close_outcomes:
  assumes "dp_wf dp"
  shows "(snd (Close dp now) = None \<longleftrightarrow>
            dp_Status dp = StatusClosed \<or> dp_Status dp = StatusOpen \<and> now < dp_ExpiresAt dp)
    \<and> (snd (Close dp now) = None \<longrightarrow>
         dp_Status (fst (Close dp now)) = StatusClosed
         \<and> Close (fst (Close dp now)) later = (fst (Close dp now), None))
    \<and> (dp_Status dp = StatusOpen \<and> dp_ExpiresAt dp \<le> now \<longrightarrow>
         Close dp now = (dp\<lparr>dp_Status := StatusExpired\<rparr>, Some ErrDropPointExpired))"
  using assms by (auto simp: Close_def Expire_def dp_wf_def)

lemma sub_step_terminal:
  "sub_step s s' \<Longrightarrow> sub_Status s \<in> {SubmissionStatusAcknowledged, SubmissionStatusFailed} \<Longrightarrow>
   sub_Status s' \<in> {SubmissionStatusAcknowledged, SubmissionStatusFailed}"
  by (auto simp: sub_step_iff domain_defs split: if_splits submission_status.splits)

lemma sub_run_terminal:
  "sub_step\<^sup>*\<^sup>* s s' \<Longrightarrow> sub_Status s \<in> {SubmissionStatusAcknowledged, SubmissionStatusFailed} \<Longrightarrow>
   sub_Status s' \<in> {SubmissionStatusAcknowledged, SubmissionStatusFailed}"
  by (induction rule: rtranclp_induct) (blast dest: sub_step_terminal)+

text \<open>A submission that \<open>NewSubmission\<close> created stays well formed through every sequence
  of commit, pickup, acknowledgement and failure; once it is acknowledged or failed, it never
  becomes receiving or ready again.\<close>

theorem submission_lifecycle:
  assumes "NewSubmission dp sid t0 = Inr s0" and "sub_step\<^sup>*\<^sup>* s0 s1" and "sub_step\<^sup>*\<^sup>* s1 s2"
  shows "sub_wf s2
    \<and> (sub_Status s1 \<in> {SubmissionStatusAcknowledged, SubmissionStatusFailed} \<longrightarrow>
       sub_Status s2 \<in> {SubmissionStatusAcknowledged, SubmissionStatusFailed})"
proof -
  from assms(1) have "sub_wf s0" by (simp add: NewSubmission_wf)
  then have "sub_wf s1" using sub_life.run_inv assms(2) by blast
  then have "sub_wf s2" using sub_life.run_inv assms(3) by blast
  then show ?thesis using sub_run_terminal [OF assms(3)] by blast
qed

section \<open>Witnesses\<close>

definition sample_request :: create_drop_point_request where
  "sample_request =
     \<lparr>cr_ID = ''dp_a'', cr_APITokenID = ''desktop'', cr_ClientName = [],
      cr_DisplayName = ''calm-otter'', cr_DropTokenHash = ''hd'', cr_PickupTokenHash = ''hp'',
      cr_TTL = 10, cr_MaxBytes = 100, cr_MaxPendingSubmissions = 10, cr_MaxPendingBytes = 1000\<rparr>"

definition sample_drop_point :: drop_point where
  "sample_drop_point =
     \<lparr>dp_ID = ''dp_a'', dp_APITokenID = ''desktop'', dp_ClientName = [],
      dp_DisplayName = ''calm-otter'', dp_DropTokenHash = ''hd'', dp_PickupTokenHash = ''hp'',
      dp_Status = StatusOpen, dp_CreatedAt = 5, dp_ClosedAt = None, dp_FailedAt = None,
      dp_ExpiresAt = 15, dp_MaxBytes = 100, dp_MaxPendingSubmissions = 10,
      dp_MaxPendingBytes = 1000\<rparr>"

lemma sample_request_New: "New sample_request 5 = Inr sample_drop_point"
  by (simp add: New_def sample_request_def sample_drop_point_def not_blank_letter)

lemma sample_drop_point_wf: "dp_wf sample_drop_point"
  using New_wf [OF sample_request_New] by simp

theorem drop_point_lifecycle_witness:
  "dp_wf (fst (Close sample_drop_point 7))
   \<and> fst (Fail (fst (Close sample_drop_point 7)) 8) = fst (Close sample_drop_point 7)"
proof -
  let ?c = "fst (Close sample_drop_point 7)"
  have c: "dp_step\<^sup>*\<^sup>* sample_drop_point ?c"
    by (rule r_into_rtranclp) (metis dp_close prod.collapse)
  have f: "dp_step\<^sup>*\<^sup>* ?c (fst (Fail ?c 8))"
    by (rule r_into_rtranclp) (metis dp_fail prod.collapse)
  have s: "dp_Status ?c \<noteq> StatusOpen"
    by (simp add: Close_def Expire_def sample_drop_point_def)
  show ?thesis
    using drop_point_lifecycle [OF sample_request_New c f] s
      drop_point_lifecycle [OF sample_request_New c rtranclp.rtrancl_refl] by simp
qed

theorem close_outcomes_witness:
  "dp_wf sample_drop_point \<and> snd (Close sample_drop_point 7) = None
   \<and> Close (fst (Close sample_drop_point 7)) 100 = (fst (Close sample_drop_point 7), None)"
  using close_outcomes [OF sample_drop_point_wf, of 7 100] sample_drop_point_wf
  by (simp add: sample_drop_point_def)

definition sample_submission :: submission where
  "sample_submission =
     \<lparr>sub_ID = ''sub_x'', sub_DropPointID = ''dp_a'', sub_Status = SubmissionStatusReceiving,
      sub_EnvelopePath = [], sub_PayloadPath = [], sub_EncryptedSize = 0, sub_CreatedAt = 6,
      sub_ReceivingStartedAt = 6, sub_DroppedAt = None, sub_FirstPickedUpAt = None,
      sub_AcknowledgedAt = None, sub_FailedAt = None\<rparr>"

theorem submission_lifecycle_witness:
  "sub_wf (FailSubmission sample_submission 9)"
proof -
  have n: "NewSubmission sample_drop_point ''sub_x'' 6 = Inr sample_submission"
    by (simp add: NewSubmission_def RequireOpen_def sample_submission_def sample_drop_point_def
        not_blank_letter)
  have f: "sub_step\<^sup>*\<^sup>* sample_submission (FailSubmission sample_submission 9)"
    by (rule r_into_rtranclp) (rule sub_fail [OF refl])
  show ?thesis
    using submission_lifecycle [OF n f rtranclp.rtrancl_refl] by blast
qed

end
