(* ===== verification/Sha256.thy ===== *)
theory Sha256
  imports Prelude "HOL-Library.Word"
begin

text \<open>
  \<open>crypto/sha256\<close> of the standard library, the function \<open>Sum256\<close> that every token hash goes
  through: SHA-256 of FIPS 180-4 over bytes, on \<^typ>\<open>32 word\<close> (addition wraps), with the
  message length counted in bits modulo 2^64. The proofs use
  its output length only.
\<close>

unbundle bit_operations_syntax

type_synonym w32 = "32 word"

text \<open>The round constants, 64 words written as eight 256-bit rows.\<close>

definition split_words :: "int \<Rightarrow> w32 list" where
  "split_words row = map (\<lambda>i. word_of_int (row div 2 ^ (32 * i))) [7, 6, 5, 4, 3, 2, 1, 0]"

definition sha_K :: "w32 list" where
  "sha_K = concat (map split_words
    [0x428a2f9871374491b5c0fbcfe9b5dba53956c25b59f111f1923f82a4ab1c5ed5,
     0xd807aa9812835b01243185be550c7dc372be5d7480deb1fe9bdc06a7c19bf174,
     0xe49b69c1efbe47860fc19dc6240ca1cc2de92c6f4a7484aa5cb0a9dc76f988da,
     0x983e5152a831c66db00327c8bf597fc7c6e00bf3d5a7914706ca635114292967,
     0x27b70a852e1b21384d2c6dfc53380d13650a7354766a0abb81c2c92e92722c85,
     0xa2bfe8a1a81a664bc24b8b70c76c51a3d192e819d6990624f40e3585106aa070,
     0x19a4c1161e376c082748774c34b0bcb5391c0cb34ed8aa4a5b9cca4f682e6ff3,
     0x748f82ee78a5636f84c878148cc7020890befffaa4506cebbef9a3f7c67178f2])"

definition sha_init :: "w32 list" where
  "sha_init =
    [0x6a09e667, 0xbb67ae85, 0x3c6ef372, 0xa54ff53a, 0x510e527f, 0x9b05688c, 0x1f83d9ab, 0x5be0cd19]"

definition rotr :: "nat \<Rightarrow> w32 \<Rightarrow> w32" where
  "rotr n x = drop_bit n x OR push_bit (32 - n) x"

definition sha_ch :: "w32 \<Rightarrow> w32 \<Rightarrow> w32 \<Rightarrow> w32" where
  "sha_ch x y z = (x AND y) XOR (NOT x AND z)"

definition sha_maj :: "w32 \<Rightarrow> w32 \<Rightarrow> w32 \<Rightarrow> w32" where
  "sha_maj x y z = (x AND y) XOR (x AND z) XOR (y AND z)"

definition big_sigma0 :: "w32 \<Rightarrow> w32" where
  "big_sigma0 x = rotr 2 x XOR rotr 13 x XOR rotr 22 x"
definition big_sigma1 :: "w32 \<Rightarrow> w32" where
  "big_sigma1 x = rotr 6 x XOR rotr 11 x XOR rotr 25 x"
definition small_sigma0 :: "w32 \<Rightarrow> w32" where
  "small_sigma0 x = rotr 7 x XOR rotr 18 x XOR drop_bit 3 x"
definition small_sigma1 :: "w32 \<Rightarrow> w32" where
  "small_sigma1 x = rotr 17 x XOR rotr 19 x XOR drop_bit 10 x"

text \<open>The message schedule, newest word first: word \<open>t\<close> is made of words \<open>t-2\<close>, \<open>t-7\<close>,
  \<open>t-15\<close> and \<open>t-16\<close>.\<close>

fun sha_extend :: "nat \<Rightarrow> w32 list \<Rightarrow> w32 list" where
  "sha_extend 0 ws = ws"
| "sha_extend (Suc n) ws =
     sha_extend n
       ((small_sigma1 (ws ! 1) + ws ! 6 + small_sigma0 (ws ! 14) + ws ! 15) # ws)"

definition sha_schedule :: "w32 list \<Rightarrow> w32 list" where
  "sha_schedule block = rev (sha_extend 48 (rev block))"

fun sha_round :: "w32 list \<Rightarrow> w32 \<times> w32 \<Rightarrow> w32 list" where
  "sha_round [a, b, c, d, e, f, g, h] (k, w) =
     (let t1 = h + big_sigma1 e + sha_ch e f g + k + w;
          t2 = big_sigma0 a + sha_maj a b c
      in [t1 + t2, a, b, c, d + t1, e, f, g])"
| "sha_round s kw = s"

definition sha_block :: "w32 list \<Rightarrow> w32 list \<Rightarrow> w32 list" where
  "sha_block h block = map2 (+) h (foldl sha_round h (zip sha_K (sha_schedule block)))"

text \<open>Bytes and big-endian words.\<close>

fun be_words :: "int list \<Rightarrow> w32 list" where
  "be_words (a # b # c # d # bs) = word_of_int (((a * 256 + b) * 256 + c) * 256 + d) # be_words bs"
| "be_words _ = []"

definition be_bytes :: "nat \<Rightarrow> int \<Rightarrow> int list" where
  "be_bytes n x = map (\<lambda>i. take_bit 8 (drop_bit (8 * i) x)) (rev [0..<n])"

definition sha_pad :: "int list \<Rightarrow> int list" where
  "sha_pad m =
     m @ [128] @ replicate ((119 - length m mod 64) mod 64) 0
       @ be_bytes 8 (8 * int (length m) mod 2 ^ 64)"

function sha_blocks :: "w32 list \<Rightarrow> w32 list \<Rightarrow> w32 list" where
  "sha_blocks h ws =
     (if length ws < 16 then h else sha_blocks (sha_block h (take 16 ws)) (drop 16 ws))"
  by pat_completeness auto
termination by (relation "measure (\<lambda>(h, ws). length ws)") auto

declare sha_blocks.simps [simp del]

definition sha256_bytes :: "int list \<Rightarrow> int list" where
  "sha256_bytes m =
     concat (map (\<lambda>w. be_bytes 4 (uint w)) (sha_blocks sha_init (be_words (sha_pad m))))"

definition sha256 :: "go_string \<Rightarrow> go_string" where
  "sha256 s = map char_of (sha256_bytes (map of_char s))"

section \<open>The digest has 32 bytes\<close>

lemma length_sha_round: "length (sha_round s kw) = length s"
  by (cases "(s, kw)" rule: sha_round.cases) (simp_all add: Let_def)

lemma length_foldl_sha_round: "length (foldl sha_round s kws) = length s"
  by (induction kws arbitrary: s) (simp_all add: length_sha_round)

lemma length_sha_block: "length (sha_block h b) = length h"
  by (simp add: sha_block_def length_foldl_sha_round)

lemma length_sha_blocks: "length (sha_blocks h ws) = length h"
proof (induction h ws rule: sha_blocks.induct)
  case (1 h ws)
  then show ?case
    by (subst sha_blocks.simps) (simp add: length_sha_block)
qed

lemma length_be_bytes [simp]: "length (be_bytes n x) = n"
  by (simp add: be_bytes_def)

lemma length_concat_const: "\<forall>x \<in> set xs. length (f x) = n \<Longrightarrow> length (concat (map f xs)) = n * length xs"
  by (induction xs) auto

lemma length_sha256_bytes: "length (sha256_bytes m) = 32"
proof -
  have "length (sha256_bytes m) = 4 * length (sha_blocks sha_init (be_words (sha_pad m)))"
    unfolding sha256_bytes_def by (rule length_concat_const) simp
  then show ?thesis by (simp add: length_sha_blocks) (simp add: sha_init_def)
qed

lemma length_sha256 [simp]: "length (sha256 s) = 32"
  by (simp add: sha256_def length_sha256_bytes)

lemma length_sha_pad: "64 dvd length (sha_pad m)"
proof -
  define r q where "r = length m mod 64" and "q = length m div 64"
  have m: "length m = 64 * q + r" and r: "r < 64"
    by (simp_all add: r_def q_def)
  have "\<exists>k. r + 1 + (119 - r) mod 64 + 8 = 64 * k"
  proof (cases "r < 56")
    case True
    then have "(119 - r) mod 64 = 55 - r" by (simp add: mod_if)
    with True have "r + 1 + (119 - r) mod 64 + 8 = 64 * 1" by simp
    then show ?thesis ..
  next
    case False
    with r have "(119 - r) mod 64 = 119 - r" by simp
    with r have "r + 1 + (119 - r) mod 64 + 8 = 64 * 2" by simp
    then show ?thesis ..
  qed
  then obtain k where k: "r + 1 + (119 - r) mod 64 + 8 = 64 * k" ..
  have "length (sha_pad m) = 64 * q + (r + 1 + (119 - r) mod 64 + 8)"
    using m r by (simp add: sha_pad_def)
  then have "length (sha_pad m) = 64 * (q + k)" by (simp only: k distrib_left)
  then show ?thesis by (simp only: dvd_triv_left)
qed

end
