(* ===== verification/Token.thy ===== *)
theory Token
  imports Droppoint Sha256
begin

text \<open>
  \<open>internal/token/token.go\<close>: capability tokens are a type prefix followed by the unpadded
  base64url text of random bytes, and are stored as \<open>sha256:\<close> followed by the hexadecimal
  digest. The base64 routines are those of \<open>encoding/base64\<close>: the decoder skips carriage
  returns and line feeds wherever they stand, and only its strict mode looks at the unused
  bits of the last digit.
\<close>

section \<open>base64url without padding\<close>

definition b64_char :: "int \<Rightarrow> char" where
  "b64_char n =
     char_of (if n < 26 then 65 + n else if n < 52 then 71 + n else if n < 62 then n - 4
              else if n = 62 then 45 else 95)"

definition b64_digit :: "char \<Rightarrow> int option" where
  "b64_digit c =
     (let n = of_char c :: int
      in if 65 \<le> n \<and> n \<le> 90 then Some (n - 65)
         else if 97 \<le> n \<and> n \<le> 122 then Some (n - 71)
         else if 48 \<le> n \<and> n \<le> 57 then Some (n + 4)
         else if n = 45 then Some 62
         else if n = 95 then Some 63
         else None)"

fun b64_enc :: "int list \<Rightarrow> int list" where
  "b64_enc [] = []"
| "b64_enc [a] = [a div 4, (a mod 4) * 16]"
| "b64_enc [a, b] = [a div 4, (a mod 4) * 16 + b div 16, (b mod 16) * 4]"
| "b64_enc (a # b # c # bs) =
     a div 4 # ((a mod 4) * 16 + b div 16) # ((b mod 16) * 4 + c div 64) # (c mod 64) # b64_enc bs"

fun b64_dec :: "bool \<Rightarrow> int list \<Rightarrow> int list option" where
  "b64_dec strict [] = Some []"
| "b64_dec strict [w] = None"
| "b64_dec strict [w, x] = (if strict \<and> x mod 16 \<noteq> 0 then None else Some [w * 4 + x div 16])"
| "b64_dec strict [w, x, y] =
     (if strict \<and> y mod 4 \<noteq> 0 then None
      else Some [w * 4 + x div 16, (x mod 16) * 16 + y div 4])"
| "b64_dec strict (w # x # y # z # ds) =
     map_option (\<lambda>bs. (w * 4 + x div 16) # ((x mod 16) * 16 + y div 4) # ((y mod 4) * 64 + z) # bs)
       (b64_dec strict ds)"

fun digits_of :: "go_string \<Rightarrow> int list option" where
  "digits_of [] = Some []"
| "digits_of (c # cs) =
     (case b64_digit c of None \<Rightarrow> None | Some d \<Rightarrow> map_option ((#) d) (digits_of cs))"

definition is_newline :: "char \<Rightarrow> bool" where
  "is_newline c \<longleftrightarrow> c = CHR 0x0A \<or> c = CHR 0x0D"

definition EncodeToString :: "go_string \<Rightarrow> go_string" where
  "EncodeToString bs = map b64_char (b64_enc (map of_char bs))"

definition DecodeString :: "bool \<Rightarrow> go_string \<Rightarrow> go_string option" where
  "DecodeString strict s =
     map_option (map char_of)
       (Option.bind (digits_of (filter (\<lambda>c. \<not> is_newline c) s)) (b64_dec strict))"

lemma b64_digit_char: "0 \<le> n \<Longrightarrow> n < 64 \<Longrightarrow> b64_digit (b64_char n) = Some n"
  by (auto simp: b64_digit_def b64_char_def Let_def of_char_of take_bit_int_eq_self)

lemma b64_char_not_newline: "0 \<le> n \<Longrightarrow> n < 64 \<Longrightarrow> \<not> is_newline (b64_char n)"
proof -
  assume "0 \<le> n" "n < 64"
  then have "b64_digit (b64_char n) = Some n" by (rule b64_digit_char)
  then show ?thesis by (auto simp: is_newline_def b64_digit_def Let_def)
qed

lemma b64_enc_range:
  "\<forall>b \<in> set bs. 0 \<le> b \<and> b < 256 \<Longrightarrow> \<forall>d \<in> set (b64_enc bs). 0 \<le> d \<and> d < 64"
  by (induction bs rule: b64_enc.induct) auto

lemma digits_of_b64:
  "\<forall>d \<in> set ds. 0 \<le> d \<and> d < 64 \<Longrightarrow> digits_of (map b64_char ds) = Some ds"
  by (induction ds) (auto simp: b64_digit_char)

lemma b64_dec_enc:
  "\<forall>b \<in> set bs. 0 \<le> b \<and> b < 256 \<Longrightarrow> b64_dec strict (b64_enc bs) = Some bs"
  by (induction bs rule: b64_enc.induct) auto

lemma of_char_range: "0 \<le> (of_char c :: int) \<and> (of_char c :: int) < 256"
  by (simp add: of_char_def)

lemma DecodeString_EncodeToString: "DecodeString strict (EncodeToString bs) = Some bs"
proof -
  let ?ds = "b64_enc (map of_char bs)"
  have bytes: "\<forall>b \<in> set (map of_char bs :: int list). 0 \<le> b \<and> b < 256"
    by (auto simp: of_char_range)
  then have ds: "\<forall>d \<in> set ?ds. 0 \<le> d \<and> d < 64" by (rule b64_enc_range)
  then have "filter (\<lambda>c. \<not> is_newline c) (map b64_char ?ds) = map b64_char ?ds"
    by (auto simp: filter_id_conv b64_char_not_newline)
  then show ?thesis
    by (simp add: DecodeString_def EncodeToString_def digits_of_b64 [OF ds] b64_dec_enc [OF bytes]
        comp_def)
qed

lemma digits_of_chars: "digits_of s = Some ds \<Longrightarrow> c \<in> set s \<Longrightarrow> b64_digit c \<noteq> None"
  by (induction s arbitrary: ds) (auto split: option.splits)

lemma DecodeString_chars:
  "DecodeString strict s = Some bs \<Longrightarrow> c \<in> set s \<Longrightarrow> is_newline c \<or> b64_digit c \<noteq> None"
  by (auto simp: DecodeString_def bind_eq_Some_conv dest: digits_of_chars)

section \<open>Hexadecimal\<close>

definition hex_digit :: "int \<Rightarrow> char" where
  "hex_digit n = char_of (if n < 10 then 48 + n else 87 + n)"

definition hex_encode :: "go_string \<Rightarrow> go_string" where
  "hex_encode s = concat (map (\<lambda>c. [hex_digit (of_char c div 16), hex_digit (of_char c mod 16)]) s)"

definition is_lower_hex :: "char \<Rightarrow> bool" where
  "is_lower_hex c =
     (let n = of_char c :: int in 48 \<le> n \<and> n \<le> 57 \<or> 97 \<le> n \<and> n \<le> 102)"

lemma is_lower_hex_digit: "0 \<le> n \<Longrightarrow> n < 16 \<Longrightarrow> is_lower_hex (hex_digit n)"
  by (auto simp: is_lower_hex_def hex_digit_def Let_def of_char_of take_bit_int_eq_self)

lemma hex_encode_hex: "c \<in> set (hex_encode s) \<Longrightarrow> is_lower_hex c"
proof -
  assume "c \<in> set (hex_encode s)"
  then obtain d :: char where
    "c = hex_digit (of_char d div 16) \<or> c = hex_digit (of_char d mod 16)"
    by (auto simp: hex_encode_def)
  moreover have "0 \<le> (of_char d :: int) div 16" "(of_char d :: int) div 16 < 16"
    using of_char_range [of d] by auto
  ultimately show ?thesis by (auto intro: is_lower_hex_digit)
qed

lemma length_hex_encode: "length (hex_encode s) = 2 * length s"
  by (induction s) (auto simp: hex_encode_def)

section \<open>Tokens\<close>

definition DropPointIDPrefix :: go_string where "DropPointIDPrefix = ''dp_''"
definition SubmissionIDPrefix :: go_string where "SubmissionIDPrefix = ''sub_''"
definition DropTokenPrefix :: go_string where "DropTokenPrefix = ''drop_''"
definition PickupTokenPrefix :: go_string where "PickupTokenPrefix = ''pick_''"
definition APITokenPrefix :: go_string where "APITokenPrefix = ''api_''"
definition entropyBytes :: nat where "entropyBytes = 32"
definition minSubmissionEntropyBytes :: nat where "minSubmissionEntropyBytes = 16"
definition maxSubmissionEntropyBytes :: nat where "maxSubmissionEntropyBytes = 32"
definition hashSchemeSHA256 :: go_string where "hashSchemeSHA256 = ''sha256''"

lemmas token_constants = DropPointIDPrefix_def SubmissionIDPrefix_def DropTokenPrefix_def
  PickupTokenPrefix_def APITokenPrefix_def entropyBytes_def minSubmissionEntropyBytes_def
  maxSubmissionEntropyBytes_def hashSchemeSHA256_def

text \<open>The argument \<open>secret\<close> is what \<open>rand.Read\<close> put into the 32-byte buffer, \<open>None\<close> if it
  failed.\<close>

definition generate :: "go_string \<Rightarrow> go_string option \<Rightarrow> error + go_string" where
  "generate prefix secret =
     (if prefix = [] then Inl (ErrOther ''token prefix must not be empty'')
      else case secret of
             None \<Rightarrow> Inl (ErrOther ''generate token entropy'')
           | Some bs \<Rightarrow> Inr (prefix @ EncodeToString bs))"

definition GenerateDropPointID :: "go_string option \<Rightarrow> error + go_string" where
  "GenerateDropPointID = generate DropPointIDPrefix"
definition GenerateSubmissionID :: "go_string option \<Rightarrow> error + go_string" where
  "GenerateSubmissionID = generate SubmissionIDPrefix"
definition GenerateDropToken :: "go_string option \<Rightarrow> error + go_string" where
  "GenerateDropToken = generate DropTokenPrefix"
definition GeneratePickupToken :: "go_string option \<Rightarrow> error + go_string" where
  "GeneratePickupToken = generate PickupTokenPrefix"
definition GenerateAPIToken :: "go_string option \<Rightarrow> error + go_string" where
  "GenerateAPIToken = generate APITokenPrefix"

definition decodeSecret :: "go_string \<Rightarrow> go_string \<Rightarrow> error + go_string" where
  "decodeSecret value prefix =
     (if \<not> has_prefix value prefix then Inl (ErrOther ''token must use prefix'')
      else case DecodeString False (trim_prefix value prefix) of
             None \<Rightarrow> Inl (ErrOther ''decode token secret'')
           | Some secret \<Rightarrow> Inr secret)"

definition ValidSubmissionID :: "go_string \<Rightarrow> bool" where
  "ValidSubmissionID value =
     (case decodeSecret value SubmissionIDPrefix of
        Inl _ \<Rightarrow> False
      | Inr secret \<Rightarrow> minSubmissionEntropyBytes \<le> length secret
                     \<and> length secret \<le> maxSubmissionEntropyBytes)"

definition HashSecret :: "go_string \<Rightarrow> go_string" where
  "HashSecret plaintext = hashSchemeSHA256 @ '':'' @ hex_encode (sha256 plaintext)"

definition ValidSHA256Hash :: "go_string \<Rightarrow> bool" where
  "ValidSHA256Hash hash =
     (length hash = length hashSchemeSHA256 + 1 + 64
      \<and> has_prefix hash (hashSchemeSHA256 @ '':'')
      \<and> list_all is_lower_hex (drop (length hashSchemeSHA256 + 1) hash))"

definition verifySecretHash :: "go_string \<Rightarrow> go_string \<Rightarrow> bool" where
  "verifySecretHash plaintext storedHash =
     (if \<not> ValidSHA256Hash storedHash then False else HashSecret plaintext = storedHash)"

definition EqualHash :: "go_string \<Rightarrow> go_string \<Rightarrow> bool" where
  "EqualHash a b = (if \<not> ValidSHA256Hash a \<or> \<not> ValidSHA256Hash b then False else a = b)"

lemma ValidSHA256Hash_HashSecret [simp]: "ValidSHA256Hash (HashSecret t)"
  by (auto simp: ValidSHA256Hash_def HashSecret_def hashSchemeSHA256_def length_hex_encode
      list_all_iff hex_encode_hex)

lemma ValidSHA256Hash_not_blank: "ValidSHA256Hash h \<Longrightarrow> \<not> is_blank h"
  by (auto simp: ValidSHA256Hash_def hashSchemeSHA256_def not_blank_letter elim!: has_prefixE)

lemma HashSecret_not_blank [simp]: "\<not> is_blank (HashSecret t)"
  by (rule ValidSHA256Hash_not_blank) simp

lemma decodeSecret_generate:
  "generate prefix (Some bs) = Inr t \<Longrightarrow> decodeSecret t prefix = Inr bs"
  by (auto simp: generate_def decodeSecret_def DecodeString_EncodeToString split: if_splits)

lemma generate_not_blank:
  "c \<in> set ''abcdefghijklmnopqrstuvwxyz'' \<Longrightarrow> generate (c # p) s = Inr t \<Longrightarrow> \<not> is_blank t"
  by (auto simp: generate_def not_blank_letter split: option.splits)

text \<open>Every byte of a valid submission ID is one of the 64 digits, or a skipped newline.\<close>

lemma ValidSubmissionID_chars:
  assumes "ValidSubmissionID s" and "c \<in> set s"
  shows "is_newline c \<or> b64_digit c \<noteq> None"
proof -
  from assms(1) obtain t bs where s: "s = ''sub_'' @ t" and d: "DecodeString False t = Some bs"
    by (auto simp: ValidSubmissionID_def decodeSecret_def SubmissionIDPrefix_def trim_prefix_def
        elim!: has_prefixE split: sum.splits if_splits option.splits)
  show ?thesis
  proof (cases "c \<in> set t")
    case True
    then show ?thesis by (rule DecodeString_chars [OF d])
  next
    case False
    with assms(2) s have "c \<in> set ''sub_''" by auto
    then show ?thesis by (auto simp: b64_digit_def)
  qed
qed

lemma ValidSubmissionID_prefix: "ValidSubmissionID s \<Longrightarrow> \<exists>t. s = ''sub_'' @ t"
  by (auto simp: ValidSubmissionID_def decodeSecret_def SubmissionIDPrefix_def
      elim!: has_prefixE split: sum.splits if_splits)

lemma ValidSubmissionID_no_separator:
  assumes "ValidSubmissionID s"
  shows "CHR ''/'' \<notin> set s \<and> CHR 0x5C \<notin> set s \<and> CHR ''.'' \<notin> set s \<and> CHR 0x00 \<notin> set s"
proof -
  have "\<not> is_newline c \<and> b64_digit c = None"
    if "c \<in> {CHR ''/'', CHR 0x5C, CHR ''.'', CHR 0x00}" for c
    using that by (auto simp: is_newline_def b64_digit_def)
  with ValidSubmissionID_chars [OF assms] show ?thesis by blast
qed

section \<open>Properties\<close>

text \<open>C20. Round trip of generated secrets: whatever 32 random bytes a generator gets, the token
  it returns decodes back to exactly these bytes, a generated submission ID passes
  \<open>ValidSubmissionID\<close>, and two generated tokens of one kind are equal only if their random
  bytes are.\<close>

theorem generated_tokens_roundtrip:
  assumes "length bs = 32" and "prefix \<noteq> []"
  shows "(\<exists>t. generate prefix (Some bs) = Inr t \<and> decodeSecret t prefix = Inr bs)
    \<and> (\<exists>t. GenerateSubmissionID (Some bs) = Inr t \<and> ValidSubmissionID t)
    \<and> (generate prefix (Some bs) = generate prefix (Some bs') \<longrightarrow> bs = bs')"
proof (intro conjI impI)
  from assms(2) obtain t where t: "generate prefix (Some bs) = Inr t"
    by (simp add: generate_def)
  then show "\<exists>t. generate prefix (Some bs) = Inr t \<and> decodeSecret t prefix = Inr bs"
    by (auto dest: decodeSecret_generate)
  from assms(1) show "\<exists>t. GenerateSubmissionID (Some bs) = Inr t \<and> ValidSubmissionID t"
    by (auto simp: GenerateSubmissionID_def generate_def ValidSubmissionID_def decodeSecret_def
        DecodeString_EncodeToString token_constants trim_prefix_def)
  show "bs = bs'" if "generate prefix (Some bs) = generate prefix (Some bs')"
    using t that decodeSecret_generate [of prefix bs t] decodeSecret_generate [of prefix bs' t]
    by simp
qed

theorem generated_tokens_roundtrip_witness:
  "(\<exists>t. GenerateSubmissionID (Some (replicate 32 CHR ''x'')) = Inr t \<and> ValidSubmissionID t)"
  using generated_tokens_roundtrip [of "replicate 32 CHR ''x''" "''sub_''"] by simp

text \<open>Path safety of submission IDs, which become directory names: a string that
  \<open>ValidSubmissionID\<close> accepts starts with \<open>sub_\<close>, has no slash, backslash, dot or NUL byte,
  and consists of base64url digits and skipped CR and LF bytes only.\<close>

theorem submission_id_is_path_safe:
  assumes "ValidSubmissionID s"
  shows "(\<exists>t. s = SubmissionIDPrefix @ t)
    \<and> CHR ''/'' \<notin> set s \<and> CHR 0x5C \<notin> set s \<and> CHR ''.'' \<notin> set s \<and> CHR 0x00 \<notin> set s
    \<and> (\<forall>c \<in> set s. b64_digit c \<noteq> None \<or> c = CHR 0x0A \<or> c = CHR 0x0D)"
  using ValidSubmissionID_no_separator [OF assms] ValidSubmissionID_prefix [OF assms]
    ValidSubmissionID_chars [OF assms]
  by (auto simp: is_newline_def SubmissionIDPrefix_def)

theorem submission_id_is_path_safe_witness:
  "ValidSubmissionID ''sub_AAAAAAAAAAAAAAAAAAAAAA'' \<and> CHR ''/'' \<notin> set ''sub_AAAAAAAAAAAAAAAAAAAAAA''"
proof -
  have "ValidSubmissionID ''sub_AAAAAAAAAAAAAAAAAAAAAA''" by code_simp
  then show ?thesis using submission_id_is_path_safe by blast
qed

text \<open>The decoder behind \<open>ValidSubmissionID\<close> is the lenient one: an ID with a line feed in
  its secret is accepted although it is not base64url text, and so are two different IDs that
  carry the same bytes.\<close>

theorem submission_id_newline_accepted:
  "ValidSubmissionID (''sub_AAAAAAAAAAA'' @ [CHR 0x0A] @ ''AAAAAAAAAAA'')
   \<and> ValidSubmissionID ''sub_AAAAAAAAAAAAAAAAAAAAAB''
   \<and> decodeSecret ''sub_AAAAAAAAAAAAAAAAAAAAAB'' SubmissionIDPrefix
     = decodeSecret ''sub_AAAAAAAAAAAAAAAAAAAAAA'' SubmissionIDPrefix"
  by code_simp

text \<open>Stored hashes: the hash of any secret has the one accepted format, \<open>EqualHash\<close>
  accepts exactly equal well-formed hashes, and a presented secret verifies against a stored
  hash exactly when the stored value is its hash.\<close>

theorem stored_hash_checks:
  "ValidSHA256Hash (HashSecret p)
   \<and> (EqualHash a b \<longleftrightarrow> ValidSHA256Hash a \<and> a = b)
   \<and> (verifySecretHash p h \<longleftrightarrow> h = HashSecret p)
   \<and> EqualHash (HashSecret p) (HashSecret p)"
  by (auto simp: EqualHash_def verifySecretHash_def)

end
