(* ===== verification/Dropname.thy ===== *)
theory Dropname
  imports Droppoint
begin

text \<open>
  \<open>internal/dropname/dropname.go\<close>: display names of the shape the regular expression
  \<open>^[a-z]+-[a-z]+$\<close> describes. The words come from the third-party package petname, so the
  names it returns are an argument of \<open>Generate\<close>, a list read one per call.
\<close>

definition is_lower :: "char \<Rightarrow> bool" where
  "is_lower c = (let n = of_char c :: int in 97 \<le> n \<and> n \<le> 122)"

definition Valid :: "go_string \<Rightarrow> bool" where
  "Valid name =
     (takeWhile is_lower name \<noteq> []
      \<and> (case dropWhile is_lower name of
           [] \<Rightarrow> False
         | c # rest \<Rightarrow> c = CHR ''-'' \<and> rest \<noteq> [] \<and> list_all is_lower rest))"

text \<open>\<open>for range 3\<close> over the generator; a list that runs out gives empty names. The unread names
  are returned.\<close>

fun generate_loop :: "nat \<Rightarrow> go_string list \<Rightarrow> (error + go_string) \<times> go_string list" where
  "generate_loop 0 names = (Inl (ErrOther ''generate drop point display name''), names)"
| "generate_loop (Suc n) names =
     (let name = (case names of [] \<Rightarrow> [] | x # _ \<Rightarrow> x)
      in if Valid name then (Inr name, tl names) else generate_loop n (tl names))"

definition Generate :: "go_string list \<Rightarrow> (error + go_string) \<times> go_string list" where
  "Generate names = generate_loop 3 names"

lemma is_lower_dash [simp]: "\<not> is_lower CHR ''-''"
  by (simp add: is_lower_def)

lemma Valid_iff:
  "Valid name \<longleftrightarrow>
   (\<exists>a b. name = a @ ''-'' @ b \<and> a \<noteq> [] \<and> b \<noteq> [] \<and> list_all is_lower a \<and> list_all is_lower b)"
proof
  assume v: "Valid name"
  then obtain rest where r: "dropWhile is_lower name = CHR ''-'' # rest"
    and "rest \<noteq> []" "list_all is_lower rest"
    by (auto simp: Valid_def split: list.splits)
  moreover have "name = takeWhile is_lower name @ ''-'' @ rest"
    using r takeWhile_dropWhile_id [of is_lower name] by simp
  moreover have "list_all is_lower (takeWhile is_lower name)"
    by (auto simp: list_all_iff dest: set_takeWhileD)
  moreover from v have "takeWhile is_lower name \<noteq> []" by (simp add: Valid_def)
  ultimately show "\<exists>a b. name = a @ ''-'' @ b \<and> a \<noteq> [] \<and> b \<noteq> [] \<and> list_all is_lower a \<and> list_all is_lower b"
    by blast
next
  assume "\<exists>a b. name = a @ ''-'' @ b \<and> a \<noteq> [] \<and> b \<noteq> [] \<and> list_all is_lower a \<and> list_all is_lower b"
  then show "Valid name"
    by (auto simp: Valid_def list_all_iff takeWhile_append2 dropWhile_append2)
qed

lemma Valid_not_blank: "Valid name \<Longrightarrow> \<not> is_blank name"
proof -
  assume "Valid name"
  then obtain c s where name: "name = c # s" and "is_lower c"
    by (auto simp: Valid_iff neq_Nil_conv)
  then have "\<forall>e \<in> set space_encodings. hd e \<noteq> c"
    by (auto simp: space_encodings_def is_lower_def)
  with name show ?thesis by (simp add: not_blank_Cons)
qed

lemma generate_loop_Valid: "generate_loop n names = (Inr name, rest) \<Longrightarrow> Valid name"
  by (induction n names rule: generate_loop.induct) (auto simp: Let_def split: if_splits)

lemma Generate_Valid: "Generate names = (Inr name, rest) \<Longrightarrow> Valid name"
  by (simp add: Generate_def generate_loop_Valid)

text \<open>Every display name \<open>Generate\<close> returns is two non-empty lower-case words joined by
  one dash, whatever the word generator returns; so it is never blank, and it is refused only
  when the first three names of the generator are all malformed.\<close>

theorem display_names_valid:
  "(\<forall>name rest. Generate names = (Inr name, rest) \<longrightarrow>
      (\<exists>a b. name = a @ ''-'' @ b \<and> a \<noteq> [] \<and> b \<noteq> [] \<and> list_all is_lower a \<and> list_all is_lower b)
      \<and> \<not> is_blank name)
   \<and> ((\<exists>e. fst (Generate names) = Inl e) \<longleftrightarrow> (\<forall>name \<in> set (take 3 names). \<not> Valid name))"
proof (rule conjI, goal_cases)
  case 1
  then show ?case by (metis Generate_Valid Valid_iff Valid_not_blank)
next
  case 2
  have empty: "\<not> Valid []" by (simp add: Valid_def)
  have "(\<exists>e. fst (generate_loop n ns) = Inl e) \<longleftrightarrow> (\<forall>name \<in> set (take n ns). \<not> Valid name)" for n ns
    by (induction n ns rule: generate_loop.induct)
      (auto simp: Let_def empty take_Cons' split: list.splits)
  then show ?case by (simp add: Generate_def)
qed

theorem display_names_valid_witness:
  "Generate [''Bad'', ''calm-otter''] = (Inr ''calm-otter'', []) \<and> \<not> is_blank ''calm-otter''"
proof -
  have "Generate [''Bad'', ''calm-otter''] = (Inr ''calm-otter'', [])"
    by code_simp
  then show ?thesis using display_names_valid [of "[''Bad'', ''calm-otter'']"] by blast
qed

end
