(* ===== verification/Schema.thy ===== *)
theory Schema
  imports Token
begin

text \<open>
  The SQLite schema of \<open>internal/store/migrate.go\<close> as three tables of rows, and the row mapping
  of \<open>internal/store/repository.go\<close> and \<open>api_tokens.go\<close>. A nullable column is an option. A
  status column holds Go's status string, so it has the Go type. Time columns hold the UTC text
  of \<open>formatTime\<close>; the model keeps the instant itself, and the theory \<open>Timestamps\<close> shows that the
  text is lossless and that SQL's comparison of the texts is the comparison of the instants.
\<close>

section \<open>Rows\<close>

record drop_point_row =
  dpr_id :: go_string
  dpr_api_token_id :: go_string
  dpr_client_name :: "go_string option"
  dpr_display_name :: go_string
  dpr_drop_token_hash :: go_string
  dpr_pickup_token_hash :: go_string
  dpr_status :: status
  dpr_created_at :: time
  dpr_closed_at :: "time option"
  dpr_failed_at :: "time option"
  dpr_expires_at :: time
  dpr_max_bytes :: int
  dpr_max_pending_submissions :: int
  dpr_max_pending_bytes :: int

record submission_row =
  sr_id :: go_string
  sr_drop_point_id :: go_string
  sr_status :: submission_status
  sr_envelope_path :: "go_string option"
  sr_payload_path :: "go_string option"
  sr_encrypted_size :: "int option"
  sr_created_at :: time
  sr_receiving_started_at :: time
  sr_dropped_at :: "time option"
  sr_first_picked_up_at :: "time option"
  sr_acknowledged_at :: "time option"
  sr_failed_at :: "time option"

record api_token_row =
  tr_id :: go_string
  tr_secret_hash :: go_string
  tr_enabled :: int
  tr_max_active_drop_points :: "int option"
  tr_created_at :: time
  tr_disabled_at :: "time option"

record db =
  drop_points :: "drop_point_row list"
  submissions :: "submission_row list"
  api_tokens :: "api_token_row list"

definition empty_db :: db where
  "empty_db = \<lparr>drop_points = [], submissions = [], api_tokens = []\<rparr>"

definition sr_key :: "submission_row \<Rightarrow> go_string \<times> go_string" where
  "sr_key r = (sr_drop_point_id r, sr_id r)"

section \<open>Between rows and Go structs\<close>

definition nullString :: "go_string \<Rightarrow> go_string option" where
  "nullString value = (if value = [] then None else Some value)"

text \<open>The field \<open>String\<close> of a scanned \<open>sql.NullString\<close>: empty for NULL.\<close>

definition string_of_null :: "go_string option \<Rightarrow> go_string" where
  "string_of_null c = (case c of None \<Rightarrow> [] | Some s \<Rightarrow> s)"

lemma string_of_nullString [simp]: "string_of_null (nullString s) = s"
  by (simp add: nullString_def string_of_null_def)

definition row_of_drop_point :: "drop_point \<Rightarrow> drop_point_row" where
  "row_of_drop_point dp =
     \<lparr>dpr_id = dp_ID dp, dpr_api_token_id = dp_APITokenID dp,
      dpr_client_name = nullString (dp_ClientName dp), dpr_display_name = dp_DisplayName dp,
      dpr_drop_token_hash = dp_DropTokenHash dp, dpr_pickup_token_hash = dp_PickupTokenHash dp,
      dpr_status = dp_Status dp, dpr_created_at = dp_CreatedAt dp,
      dpr_closed_at = dp_ClosedAt dp, dpr_failed_at = dp_FailedAt dp,
      dpr_expires_at = dp_ExpiresAt dp, dpr_max_bytes = dp_MaxBytes dp,
      dpr_max_pending_submissions = dp_MaxPendingSubmissions dp,
      dpr_max_pending_bytes = dp_MaxPendingBytes dp\<rparr>"

definition drop_point_of_row :: "drop_point_row \<Rightarrow> drop_point" where
  "drop_point_of_row r =
     \<lparr>dp_ID = dpr_id r, dp_APITokenID = dpr_api_token_id r,
      dp_ClientName = string_of_null (dpr_client_name r), dp_DisplayName = dpr_display_name r,
      dp_DropTokenHash = dpr_drop_token_hash r, dp_PickupTokenHash = dpr_pickup_token_hash r,
      dp_Status = dpr_status r, dp_CreatedAt = dpr_created_at r, dp_ClosedAt = dpr_closed_at r,
      dp_FailedAt = dpr_failed_at r, dp_ExpiresAt = dpr_expires_at r,
      dp_MaxBytes = dpr_max_bytes r, dp_MaxPendingSubmissions = dpr_max_pending_submissions r,
      dp_MaxPendingBytes = dpr_max_pending_bytes r\<rparr>"

definition scanDropPoint :: "drop_point_row \<Rightarrow> error + drop_point" where
  "scanDropPoint r =
     (if dpr_status r \<noteq> StatusOpen \<and> dpr_status r \<noteq> StatusClosed
         \<and> dpr_status r \<noteq> StatusExpired \<and> dpr_status r \<noteq> StatusFailed
      then Inl (ErrOther ''drop point has invalid status'')
      else Inr (drop_point_of_row r))"

definition submission_of_row :: "submission_row \<Rightarrow> submission" where
  "submission_of_row r =
     \<lparr>sub_ID = sr_id r, sub_DropPointID = sr_drop_point_id r, sub_Status = sr_status r,
      sub_EnvelopePath = string_of_null (sr_envelope_path r),
      sub_PayloadPath = string_of_null (sr_payload_path r),
      sub_EncryptedSize = (case sr_encrypted_size r of None \<Rightarrow> 0 | Some n \<Rightarrow> n),
      sub_CreatedAt = sr_created_at r, sub_ReceivingStartedAt = sr_receiving_started_at r,
      sub_DroppedAt = sr_dropped_at r, sub_FirstPickedUpAt = sr_first_picked_up_at r,
      sub_AcknowledgedAt = sr_acknowledged_at r, sub_FailedAt = sr_failed_at r\<rparr>"

definition scanSubmission :: "submission_row \<Rightarrow> error + submission" where
  "scanSubmission r =
     (case sr_status r of
        SubmissionStatusOther _ \<Rightarrow> Inl (ErrOther ''submission has invalid status'')
      | _ \<Rightarrow> Inr (submission_of_row r))"

record api_token =
  tok_ID :: go_string
  tok_Enabled :: bool
  tok_MaxActiveDropPoints :: "int option"
  tok_CreatedAt :: time
  tok_DisabledAt :: "time option"

definition scanAPIToken :: "api_token_row \<Rightarrow> error + api_token" where
  "scanAPIToken r =
     Inr \<lparr>tok_ID = tr_id r, tok_Enabled = (tr_enabled r \<noteq> 0),
          tok_MaxActiveDropPoints = tr_max_active_drop_points r,
          tok_CreatedAt = tr_created_at r, tok_DisabledAt = tr_disabled_at r\<rparr>"

lemmas row_defs = row_of_drop_point_def drop_point_of_row_def submission_of_row_def

lemma drop_point_of_row_of [simp]: "drop_point_of_row (row_of_drop_point dp) = dp"
  by (simp add: row_defs)

lemma scanDropPoint_row_of: "dp_wf dp \<Longrightarrow> scanDropPoint (row_of_drop_point dp) = Inr dp"
  by (auto simp: scanDropPoint_def dp_wf_def) (simp_all add: row_of_drop_point_def)

lemma scanDropPoint_Inr: "scanDropPoint r = Inr dp \<Longrightarrow> dp = drop_point_of_row r"
  by (auto simp: scanDropPoint_def split: if_splits)

lemma scanSubmission_Inr: "scanSubmission r = Inr s \<Longrightarrow> s = submission_of_row r"
  by (auto simp: scanSubmission_def split: submission_status.splits)

lemma scanDropPoint_wf: "dp_wf (drop_point_of_row r) \<Longrightarrow> scanDropPoint r = Inr (drop_point_of_row r)"
  by (auto simp: scanDropPoint_def dp_wf_def) (simp_all add: drop_point_of_row_def)

lemma scanSubmission_wf: "sub_wf (submission_of_row r) \<Longrightarrow> scanSubmission r = Inr (submission_of_row r)"
  by (auto simp: scanSubmission_def sub_wf_def submission_of_row_def split: submission_status.splits)

text \<open>A list of rows is scanned row by row; the first bad row is the error.\<close>

fun scan_all :: "('r \<Rightarrow> error + 'a) \<Rightarrow> 'r list \<Rightarrow> error + 'a list" where
  "scan_all scan [] = Inr []"
| "scan_all scan (r # rs) =
     (case scan r of
        Inl e \<Rightarrow> Inl e
      | Inr x \<Rightarrow> (case scan_all scan rs of Inl e \<Rightarrow> Inl e | Inr xs \<Rightarrow> Inr (x # xs)))"

lemma scan_all_map: "\<forall>r \<in> set rs. scan r = Inr (f r) \<Longrightarrow> scan_all scan rs = Inr (map f rs)"
  by (induction rs) auto

lemma scan_all_Inr_set:
  "scan_all scan rs = Inr xs \<Longrightarrow> x \<in> set xs \<Longrightarrow> \<exists>r \<in> set rs. scan r = Inr x"
  by (induction rs arbitrary: xs) (auto split: sum.splits)

section \<open>Conditions the statements share\<close>

definition is_pending :: "submission_row \<Rightarrow> bool" where
  "is_pending r \<longleftrightarrow> sr_status r \<in> {SubmissionStatusReceiving, SubmissionStatusReady}"

definition has_pointers :: "submission_row \<Rightarrow> bool" where
  "has_pointers r \<longleftrightarrow> sr_envelope_path r \<noteq> None \<or> sr_payload_path r \<noteq> None"

definition is_terminal :: "status \<Rightarrow> bool" where
  "is_terminal s \<longleftrightarrow> s \<in> {StatusClosed, StatusExpired, StatusFailed}"

definition pending_count :: "db \<Rightarrow> go_string \<Rightarrow> nat" where
  "pending_count d dpid = count_where (\<lambda>r. sr_drop_point_id r = dpid \<and> is_pending r) (submissions d)"

definition size_of :: "submission_row \<Rightarrow> int" where
  "size_of r = (case sr_encrypted_size r of None \<Rightarrow> 0 | Some n \<Rightarrow> n)"

definition ready_bytes :: "db \<Rightarrow> go_string \<Rightarrow> int" where
  "ready_bytes d dpid =
     sum_where (\<lambda>r. sr_drop_point_id r = dpid \<and> sr_status r = SubmissionStatusReady) size_of
       (submissions d)"

definition active_count :: "db \<Rightarrow> go_string \<Rightarrow> time \<Rightarrow> nat" where
  "active_count d tok now =
     count_where (\<lambda>r. dpr_api_token_id r = tok \<and> dpr_status r = StatusOpen \<and> dpr_expires_at r > now)
       (drop_points d)"

lemma counts_frame [simp]:
  "pending_count (d\<lparr>drop_points := t\<rparr>) = pending_count d"
  "ready_bytes (d\<lparr>drop_points := t\<rparr>) = ready_bytes d"
  "pending_count (d\<lparr>api_tokens := u\<rparr>) = pending_count d"
  "ready_bytes (d\<lparr>api_tokens := u\<rparr>) = ready_bytes d"
  "active_count (d\<lparr>submissions := v\<rparr>) = active_count d"
  "active_count (d\<lparr>api_tokens := u\<rparr>) = active_count d"
  by (simp_all add: pending_count_def ready_bytes_def active_count_def fun_eq_iff)

end
