(* ===== verification/Filesystem.thy ===== *)
theory Filesystem
  imports Droppoint "HOL-Library.AList"
begin

text \<open>
  The directory tree below the data directory as the operations of Go's \<open>os\<close> package see it: an
  association list from paths (lists of names, relative to the data directory) to nodes. The
  data directory itself, the empty path, always exists. Each operation returns its error and the
  tree it leaves; permissions and durability are not part of the tree.
\<close>

type_synonym path = "go_string list"

datatype node = Dir | File (file_data: go_string)

type_synonym fs = "(path \<times> node) list"

definition fs_get :: "fs \<Rightarrow> path \<Rightarrow> node option" where
  "fs_get fs p = (if p = [] then Some Dir else map_of fs p)"

definition fs_put :: "path \<Rightarrow> node \<Rightarrow> fs \<Rightarrow> fs" where
  "fs_put p n fs = AList.update p n fs"

definition fs_del :: "path \<Rightarrow> fs \<Rightarrow> fs" where
  "fs_del p fs = AList.delete p fs"

text \<open>\<open>below p q\<close>: the path \<open>q\<close> is \<open>p\<close> or lies in the directory \<open>p\<close>.\<close>

definition below :: "path \<Rightarrow> path \<Rightarrow> bool" where
  "below p q \<longleftrightarrow> take (length p) q = p"

definition has_children :: "fs \<Rightarrow> path \<Rightarrow> bool" where
  "has_children fs p \<longleftrightarrow> list_ex (\<lambda>(q, _). below p q \<and> q \<noteq> p) fs"

lemma fs_get_put [simp]:
  "p \<noteq> [] \<Longrightarrow> fs_get (fs_put p n fs) q = (if q = p then Some n else fs_get fs q)"
  by (simp add: fs_get_def fs_put_def update_conv')

lemma fs_get_del [simp]:
  "p \<noteq> [] \<Longrightarrow> fs_get (fs_del p fs) q = (if q = p then None else fs_get fs q)"
  by (simp add: fs_get_def fs_del_def delete_conv')

lemma fs_get_root [simp]: "fs_get fs [] = Some Dir"
  by (simp add: fs_get_def)

lemma below_refl [simp]: "below p p"
  by (simp add: below_def)

lemma below_append [simp]: "below p (p @ q)"
  by (simp add: below_def)

lemma below_Cons [simp]: "below (a # p) (b # q) \<longleftrightarrow> a = b \<and> below p q" "below [] q"
  "\<not> below (a # p) []"
  by (auto simp: below_def)

section \<open>Operations\<close>

text \<open>\<open>os.MkdirAll\<close>: creates the missing directories from the top down.\<close>

fun mkdirs :: "path list \<Rightarrow> fs \<Rightarrow> (error + unit) \<times> fs" where
  "mkdirs [] fs = (Inr (), fs)"
| "mkdirs (p # ps) fs =
     (case fs_get fs p of
        Some Dir \<Rightarrow> mkdirs ps fs
      | Some (File _) \<Rightarrow> (Inl (ErrIO OtherCause), fs)
      | None \<Rightarrow> mkdirs ps (fs_put p Dir fs))"

definition os_MkdirAll :: "path \<Rightarrow> fs \<Rightarrow> (error + unit) \<times> fs" where
  "os_MkdirAll p fs = mkdirs (map (\<lambda>n. take (Suc n) p) [0..<length p]) fs"

definition os_Chmod :: "path \<Rightarrow> fs \<Rightarrow> (error + unit) \<times> fs" where
  "os_Chmod p fs = (if fs_get fs p = None then Inl ErrNotExist else Inr (), fs)"

text \<open>\<open>os.OpenFile\<close> with \<open>O_CREATE|O_EXCL|O_WRONLY\<close>.\<close>

definition os_OpenExcl :: "path \<Rightarrow> fs \<Rightarrow> (error + unit) \<times> fs" where
  "os_OpenExcl p fs =
     (if fs_get fs p \<noteq> None then (Inl (ErrIO OtherCause), fs)
      else if fs_get fs (butlast p) \<noteq> Some Dir then (Inl ErrNotExist, fs)
      else (Inr (), fs_put p (File []) fs))"

definition file_Write :: "path \<Rightarrow> go_string \<Rightarrow> fs \<Rightarrow> (error + unit) \<times> fs" where
  "file_Write p bs fs =
     (case fs_get fs p of
        Some (File old) \<Rightarrow> (Inr (), fs_put p (File (old @ bs)) fs)
      | _ \<Rightarrow> (Inl (ErrIO OtherCause), fs))"

definition os_Rename :: "path \<Rightarrow> path \<Rightarrow> fs \<Rightarrow> (error + unit) \<times> fs" where
  "os_Rename p q fs =
     (case fs_get fs p of
        Some (File bs) \<Rightarrow>
          (if fs_get fs q = Some Dir then (Inl (ErrIO OtherCause), fs)
           else (Inr (), fs_put q (File bs) (fs_del p fs)))
      | Some Dir \<Rightarrow> (Inl (ErrIO OtherCause), fs)
      | None \<Rightarrow> (Inl ErrNotExist, fs))"

text \<open>\<open>os.Remove\<close>, which refuses a directory that is not empty.\<close>

definition os_Remove :: "path \<Rightarrow> fs \<Rightarrow> (error + unit) \<times> fs" where
  "os_Remove p fs =
     (case fs_get fs p of
        None \<Rightarrow> (Inl ErrNotExist, fs)
      | Some (File _) \<Rightarrow> (Inr (), fs_del p fs)
      | Some Dir \<Rightarrow>
          if p = [] \<or> has_children fs p then (Inl (ErrIO OtherCause), fs) else (Inr (), fs_del p fs))"

text \<open>The entries \<open>os.RemoveAll\<close> visits, children before their directory.\<close>

definition tree_entries :: "fs \<Rightarrow> path \<Rightarrow> path list" where
  "tree_entries fs p = rev (sort_key length (map fst (filter (\<lambda>(q, _). below p q) fs)))"

definition os_ReadFile :: "path \<Rightarrow> fs \<Rightarrow> error + go_string" where
  "os_ReadFile p fs =
     (case fs_get fs p of
        None \<Rightarrow> Inl ErrNotExist
      | Some (File bs) \<Rightarrow> Inr bs
      | Some Dir \<Rightarrow> Inl (ErrIO OtherCause))"

text \<open>\<open>syncDir\<close> opens the directory, syncs it and closes it.\<close>

definition os_SyncDir :: "path \<Rightarrow> fs \<Rightarrow> (error + unit) \<times> fs" where
  "os_SyncDir p fs = (if fs_get fs p = None then Inl ErrNotExist else Inr (), fs)"

text \<open>\<open>os.ReadDir\<close>: the names in a directory in lexical order, with \<open>entry.IsDir()\<close>.\<close>

definition os_ReadDir :: "path \<Rightarrow> fs \<Rightarrow> error + (go_string \<times> bool) list" where
  "os_ReadDir p fs =
     (case fs_get fs p of
        None \<Rightarrow> Inl ErrNotExist
      | Some (File _) \<Rightarrow> Inl (ErrIO OtherCause)
      | Some Dir \<Rightarrow>
          Inr (sort_key fst
            (map (\<lambda>(q, n). (last q, n = Dir))
              (filter (\<lambda>(q, _). q \<noteq> [] \<and> butlast q = p) fs))))"

lemmas os_defs = os_MkdirAll_def os_Chmod_def os_OpenExcl_def file_Write_def os_Rename_def
  os_Remove_def os_SyncDir_def

text \<open>What an operation can change.\<close>

lemma mkdirs_get:
  "\<forall>p \<in> set ps. p \<noteq> [] \<Longrightarrow> q \<notin> set ps \<Longrightarrow> fs_get (snd (mkdirs ps fs)) q = fs_get fs q"
  by (induction ps fs rule: mkdirs.induct) (auto split: option.splits node.splits)

lemma mkdirs_file:
  "\<forall>p \<in> set ps. p \<noteq> [] \<Longrightarrow>
   fs_get (snd (mkdirs ps fs)) q = Some (File bs) \<longleftrightarrow> fs_get fs q = Some (File bs)"
  by (induction ps fs rule: mkdirs.induct) (auto split: option.splits node.splits)

lemma prefixes_nonempty: "q \<in> set (map (\<lambda>n. take (Suc n) p) [0..<length p]) \<Longrightarrow> q \<noteq> []"
  by auto

lemma os_MkdirAll_file:
  "fs_get (snd (os_MkdirAll p fs)) q = Some (File bs) \<longleftrightarrow> fs_get fs q = Some (File bs)"
  unfolding os_MkdirAll_def by (rule mkdirs_file) (blast dest: prefixes_nonempty)

lemma mkdirs_ok:
  "\<forall>p \<in> set ps. p \<noteq> [] \<and> (\<forall>bs. fs_get fs p \<noteq> Some (File bs)) \<Longrightarrow>
   fst (mkdirs ps fs) = Inr () \<and> (\<forall>q \<in> set ps. fs_get (snd (mkdirs ps fs)) q = Some Dir)
   \<and> (\<forall>q. fs_get fs q \<noteq> None \<longrightarrow> fs_get (snd (mkdirs ps fs)) q = fs_get fs q)"
proof (induction ps fs rule: mkdirs.induct)
  case (2 p ps fs)
  then have ne: "p \<noteq> []" and ps: "\<forall>q \<in> set ps. q \<noteq> [] \<and> (\<forall>bs. fs_get fs q \<noteq> Some (File bs))"
    by auto
  show ?case
  proof (cases "fs_get fs p")
    case None
    with ps ne have "\<forall>q \<in> set ps. q \<noteq> [] \<and> (\<forall>bs. fs_get (fs_put p Dir fs) q \<noteq> Some (File bs))"
      by auto
    from "2.IH"(1) [OF None this] ne None show ?thesis by auto
  next
    case (Some n)
    with "2.prems" have "n = Dir" by (cases n) auto
    with Some "2.IH"(2) [of n] ps show ?thesis by auto
  qed
qed simp

end
