(* ===== verification/World.thy ===== *)
theory World
  imports Schema Filesystem "HOL-Library.State_Monad"
begin

text \<open>
  The state the relay's operations run on and the primitive effects they are made of. A world
  holds the database, the directory tree, the clock with the time that passes before each of
  its readings, the tape \<open>crypto/rand\<close> reads, the names the petname package will return, and a
  schedule of faults. Every database statement, system call or context check consumes one entry
  of the schedule: it runs normally, or it reports an error without having taken effect, or it
  reports an error although it has taken effect (a commit whose acknowledgement was lost). An
  empty schedule is a world without failures. All theorems that do not fix the schedule hold for
  every schedule.
\<close>

datatype fault = NoFault | FaultBefore io_cause | FaultAfter io_cause

record world =
  w_db :: db
  w_fs :: fs
  w_faults :: "fault list"
  w_now :: time
  w_ticks :: "nat list"
  w_entropy :: go_string
  w_names :: "go_string list"

type_synonym 'a io = "(world, 'a) state"
type_synonym 'a result = "error + 'a"

section \<open>Primitive effects\<close>

definition effect :: "(world \<Rightarrow> 'a result \<times> world) \<Rightarrow> 'a result io" where
  "effect f = State (\<lambda>w.
     case w_faults w of
       [] \<Rightarrow> f w
     | NoFault # fs \<Rightarrow> f (w\<lparr>w_faults := fs\<rparr>)
     | FaultBefore c # fs \<Rightarrow> (Inl (ErrIO c), w\<lparr>w_faults := fs\<rparr>)
     | FaultAfter c # fs \<Rightarrow> (Inl (ErrIO c), snd (f (w\<lparr>w_faults := fs\<rparr>))))"

text \<open>A statement or a whole transaction: rolled back when it returns an error.\<close>

definition sql_exec :: "(db \<Rightarrow> error + 'a \<times> db) \<Rightarrow> 'a result io" where
  "sql_exec stmt = effect (\<lambda>w.
     case stmt (w_db w) of
       Inl e \<Rightarrow> (Inl e, w)
     | Inr (x, d) \<Rightarrow> (Inr x, w\<lparr>w_db := d\<rparr>))"

definition sql_query :: "(db \<Rightarrow> 'a result) \<Rightarrow> 'a result io" where
  "sql_query q = effect (\<lambda>w. (q (w_db w), w))"

definition rows_affected :: "nat \<Rightarrow> nat result io" where
  "rows_affected n = effect (\<lambda>w. (Inr n, w))"

definition fs_exec :: "(fs \<Rightarrow> 'a result \<times> fs) \<Rightarrow> 'a result io" where
  "fs_exec f = effect (\<lambda>w. case f (w_fs w) of (r, t) \<Rightarrow> (r, w\<lparr>w_fs := t\<rparr>))"

definition fs_read :: "(fs \<Rightarrow> 'a result) \<Rightarrow> 'a result io" where
  "fs_read q = effect (\<lambda>w. (q (w_fs w), w))"

text \<open>A step that touches nothing but can fail: checking the context, writing a response.\<close>

definition may_fail :: "unit result io" where
  "may_fail = effect (\<lambda>w. (Inr (), w))"

definition now_io :: "time io" where
  "now_io = State (\<lambda>w.
     case w_ticks w of
       [] \<Rightarrow> (w_now w, w)
     | d # ds \<Rightarrow> (w_now w + int d, w\<lparr>w_now := w_now w + int d, w_ticks := ds\<rparr>))"

text \<open>\<open>rand.Read\<close> of \<open>n\<close> bytes, \<open>None\<close> when the source fails.\<close>

definition rand_read :: "nat \<Rightarrow> go_string option io" where
  "rand_read n = State (\<lambda>w.
     if length (w_entropy w) < n then (None, w)
     else (Some (take n (w_entropy w)), w\<lparr>w_entropy := drop n (w_entropy w)\<rparr>))"

section \<open>Relations every program keeps\<close>

text \<open>\<open>keeps R m\<close>: every run of \<open>m\<close>, whatever the faults, ends in a state related to the one it
  started in.\<close>

definition keeps :: "(world \<Rightarrow> world \<Rightarrow> bool) \<Rightarrow> 'a io \<Rightarrow> bool" where
  "keeps R m \<longleftrightarrow> (\<forall>w. R w (snd (run_state m w)))"

lemma keepsI: "(\<And>w x w'. run_state m w = (x, w') \<Longrightarrow> R w w') \<Longrightarrow> keeps R m"
  by (simp add: keeps_def) (metis prod.collapse)

lemma keepsD: "keeps R m \<Longrightarrow> run_state m w = (x, w') \<Longrightarrow> R w w'"
  by (auto simp: keeps_def dest: spec [of _ w])

lemma keeps_if: "(b \<Longrightarrow> keeps R m) \<Longrightarrow> (\<not> b \<Longrightarrow> keeps R n) \<Longrightarrow> keeps R (if b then m else n)"
  by simp

lemma keeps_sum:
  "(\<And>e. r = Inl e \<Longrightarrow> keeps R (f e)) \<Longrightarrow> (\<And>x. r = Inr x \<Longrightarrow> keeps R (g x)) \<Longrightarrow>
   keeps R (case r of Inl e \<Rightarrow> f e | Inr x \<Rightarrow> g x)"
  by (cases r) auto

lemma keeps_option:
  "(r = None \<Longrightarrow> keeps R m) \<Longrightarrow> (\<And>x. r = Some x \<Longrightarrow> keeps R (g x)) \<Longrightarrow>
   keeps R (case r of None \<Rightarrow> m | Some x \<Rightarrow> g x)"
  by (cases r) auto

lemma keeps_list:
  "(r = [] \<Longrightarrow> keeps R m) \<Longrightarrow> (\<And>x xs. r = x # xs \<Longrightarrow> keeps R (g x xs)) \<Longrightarrow>
   keeps R (case r of [] \<Rightarrow> m | x # xs \<Rightarrow> g x xs)"
  by (cases r) auto

lemma keeps_prod:
  "(\<And>x y. r = (x, y) \<Longrightarrow> keeps R (g x y)) \<Longrightarrow> keeps R (case r of (x, y) \<Rightarrow> g x y)"
  by (cases r) auto

lemma keeps_let: "(\<And>x. x = t \<Longrightarrow> keeps R (f x)) \<Longrightarrow> keeps R (Let t f)"
  by simp

lemma keeps_status:
  "keeps R a \<Longrightarrow> keeps R b \<Longrightarrow> keeps R c \<Longrightarrow> keeps R d \<Longrightarrow> (\<And>x. keeps R (e x)) \<Longrightarrow>
   keeps R (case s of StatusOpen \<Rightarrow> a | StatusClosed \<Rightarrow> b | StatusExpired \<Rightarrow> c
            | StatusFailed \<Rightarrow> d | StatusOther x \<Rightarrow> e x)"
  by (cases s) auto

lemma keeps_submission_status:
  "keeps R a \<Longrightarrow> keeps R b \<Longrightarrow> keeps R c \<Longrightarrow> keeps R d \<Longrightarrow> (\<And>x. keeps R (e x)) \<Longrightarrow>
   keeps R (case s of SubmissionStatusReceiving \<Rightarrow> a | SubmissionStatusReady \<Rightarrow> b
            | SubmissionStatusAcknowledged \<Rightarrow> c | SubmissionStatusFailed \<Rightarrow> d
            | SubmissionStatusOther x \<Rightarrow> e x)"
  by (cases s) auto

lemmas keeps_cases = keeps_if keeps_sum keeps_option keeps_list keeps_prod keeps_let keeps_status
  keeps_submission_status

text \<open>The relations of interest are preorders that do not look at the clock, the entropy, the
  names and the fault schedule. Such a relation is kept by a program as soon as its statements
  and system calls keep it.\<close>

locale io_frame =
  fixes R :: "world \<Rightarrow> world \<Rightarrow> bool"
  assumes R_refl: "R w w"
    and R_trans: "R u v \<Longrightarrow> R v w \<Longrightarrow> R u w"
    and R_env: "w_db w = w_db v \<Longrightarrow> w_fs w = w_fs v \<Longrightarrow> R v w"
begin

lemma keeps_return: "keeps R (State_Monad.return x)"
  by (simp add: keeps_def R_refl)

lemma keeps_bind: "keeps R m \<Longrightarrow> (\<And>x. keeps R (f x)) \<Longrightarrow> keeps R (State_Monad.bind m f)"
  unfolding keeps_def by (auto split: prod.splits) (metis R_trans snd_conv)

text \<open>The same when what follows depends on what the first part can return.\<close>

lemma keeps_bind_value:
  "keeps R m \<Longrightarrow> (\<And>w x w'. run_state m w = (x, w') \<Longrightarrow> keeps R (f x)) \<Longrightarrow>
   keeps R (State_Monad.bind m f)"
  unfolding keeps_def by (auto split: prod.splits) (metis R_trans snd_conv)

lemma keeps_effect:
  assumes "\<And>w. R w (snd (f w))"
  shows "keeps R (effect f)"
proof (rule keepsI)
  fix w x w' assume run: "run_state (effect f) w = (x, w')"
  have env: "R w (w\<lparr>w_faults := fs\<rparr>)" for fs by (rule R_env) simp_all
  have step: "R w (snd (f (w\<lparr>w_faults := fs\<rparr>)))" for fs
    using env assms R_trans by blast
  show "R w w'"
  proof (cases "w_faults w")
    case Nil
    with run assms [of w] show ?thesis by (simp add: effect_def)
  next
    case (Cons c fs)
    with run env [of fs] step [of fs] show ?thesis by (cases c) (auto simp: effect_def)
  qed
qed

lemma keeps_query: "keeps R (sql_query q)"
  unfolding sql_query_def by (rule keeps_effect) (simp add: R_refl)

lemma keeps_rows: "keeps R (rows_affected n)"
  unfolding rows_affected_def by (rule keeps_effect) (simp add: R_refl)

lemma keeps_read: "keeps R (fs_read q)"
  unfolding fs_read_def by (rule keeps_effect) (simp add: R_refl)

lemma keeps_may_fail: "keeps R may_fail"
  unfolding may_fail_def by (rule keeps_effect) (simp add: R_refl)

lemma keeps_now: "keeps R now_io"
  by (rule keepsI) (auto simp: now_io_def R_refl intro: R_env split: list.splits)

lemma keeps_rand: "keeps R (rand_read n)"
  by (rule keepsI) (auto simp: rand_read_def R_refl intro: R_env split: if_splits)

lemma keeps_exec:
  "(\<And>w x d. stmt (w_db w) = Inr (x, d) \<Longrightarrow> R w (w\<lparr>w_db := d\<rparr>)) \<Longrightarrow> keeps R (sql_exec stmt)"
  unfolding sql_exec_def by (rule keeps_effect) (auto simp: R_refl split: sum.splits)

lemma keeps_fs:
  "(\<And>w r t. f (w_fs w) = (r, t) \<Longrightarrow> R w (w\<lparr>w_fs := t\<rparr>)) \<Longrightarrow> keeps R (fs_exec f)"
  unfolding fs_exec_def by (rule keeps_effect) (auto split: prod.splits)

lemmas keeps_prims = keeps_return keeps_bind keeps_query keeps_rows keeps_read keeps_may_fail
  keeps_now keeps_rand

end

section \<open>Triples\<close>

text \<open>\<open>triple P m Q\<close>: from a world with \<open>P\<close>, every run of \<open>m\<close> ends with a value and a world
  that satisfy \<open>Q\<close>.\<close>

definition triple :: "(world \<Rightarrow> bool) \<Rightarrow> 'a io \<Rightarrow> ('a \<Rightarrow> world \<Rightarrow> bool) \<Rightarrow> bool" where
  "triple P m Q \<longleftrightarrow> (\<forall>w x w'. P w \<longrightarrow> run_state m w = (x, w') \<longrightarrow> Q x w')"

lemma tripleI: "(\<And>w x w'. P w \<Longrightarrow> run_state m w = (x, w') \<Longrightarrow> Q x w') \<Longrightarrow> triple P m Q"
  by (simp add: triple_def)

lemma tripleD: "triple P m Q \<Longrightarrow> P w \<Longrightarrow> run_state m w = (x, w') \<Longrightarrow> Q x w'"
  by (simp add: triple_def)

lemma triple_return: "(\<And>w. P w \<Longrightarrow> Q x w) \<Longrightarrow> triple P (State_Monad.return x) Q"
  by (simp add: triple_def)

lemma triple_bind:
  "triple P m Q \<Longrightarrow> (\<And>x. triple (Q x) (f x) S) \<Longrightarrow> triple P (State_Monad.bind m f) S"
  by (auto simp: triple_def split: prod.splits)

lemma triple_weaken:
  "triple P m Q \<Longrightarrow> (\<And>w. P' w \<Longrightarrow> P w) \<Longrightarrow> (\<And>x w. Q x w \<Longrightarrow> Q' x w) \<Longrightarrow> triple P' m Q'"
  unfolding triple_def by meson

lemma triple_pure: "(b \<Longrightarrow> triple P m Q) \<Longrightarrow> triple (\<lambda>w. P w \<and> b) m Q"
  by (auto simp: triple_def)

lemma triple_False: "triple (\<lambda>w. False) m Q"
  by (simp add: triple_def)

lemma triple_if: "(b \<Longrightarrow> triple P m Q) \<Longrightarrow> (\<not> b \<Longrightarrow> triple P n Q) \<Longrightarrow> triple P (if b then m else n) Q"
  by simp

lemma triple_sum:
  "(\<And>e. x = Inl e \<Longrightarrow> triple P (f e) Q) \<Longrightarrow> (\<And>v. x = Inr v \<Longrightarrow> triple P (g v) Q) \<Longrightarrow>
   triple P (case x of Inl e \<Rightarrow> f e | Inr v \<Rightarrow> g v) Q"
  by (cases x) auto

lemma triple_option:
  "(x = None \<Longrightarrow> triple P m Q) \<Longrightarrow> (\<And>v. x = Some v \<Longrightarrow> triple P (g v) Q) \<Longrightarrow>
   triple P (case x of None \<Rightarrow> m | Some v \<Rightarrow> g v) Q"
  by (cases x) auto

lemma triple_prod:
  "(\<And>a b. x = (a, b) \<Longrightarrow> triple P (f a b) Q) \<Longrightarrow> triple P (case x of (a, b) \<Rightarrow> f a b) Q"
  by (cases x) auto

lemmas triple_cases = triple_if triple_sum triple_option triple_prod

lemma triple_keeps:
  "keeps R m \<Longrightarrow> (\<And>w w'. R w w' \<Longrightarrow> P w \<Longrightarrow> P w') \<Longrightarrow> triple P m (\<lambda>_. P)"
  by (rule tripleI) (blast dest: keepsD)

section \<open>A reported success is real\<close>

lemma sql_exec_Inr:
  assumes "run_state (sql_exec stmt) w = (Inr x, w')"
  shows "stmt (w_db w) = Inr (x, w_db w') \<and> w_fs w' = w_fs w"
  using assms by (auto simp: sql_exec_def effect_def split: list.splits fault.splits sum.splits)

lemma sql_query_Inr:
  assumes "run_state (sql_query q) w = (Inr x, w')"
  shows "q (w_db w) = Inr x \<and> w_db w' = w_db w \<and> w_fs w' = w_fs w"
  using assms by (auto simp: sql_query_def effect_def split: list.splits fault.splits)

lemma rows_affected_run:
  assumes "run_state (rows_affected n) w = (r, w')"
  shows "(r = Inr n \<or> (\<exists>c. r = Inl (ErrIO c))) \<and> w_db w' = w_db w \<and> w_fs w' = w_fs w"
  using assms by (auto simp: rows_affected_def effect_def split: list.splits fault.splits)

lemma fs_exec_Inr:
  assumes "run_state (fs_exec f) w = (Inr x, w')"
  shows "f (w_fs w) = (Inr x, w_fs w') \<and> w_db w' = w_db w"
  using assms by (auto simp: fs_exec_def effect_def split: list.splits fault.splits prod.splits)

lemma fs_read_Inr:
  assumes "run_state (fs_read q) w = (Inr x, w')"
  shows "q (w_fs w) = Inr x \<and> w_fs w' = w_fs w \<and> w_db w' = w_db w"
  using assms by (auto simp: fs_read_def effect_def split: list.splits fault.splits)

lemma may_fail_run:
  assumes "run_state may_fail w = (r, w')"
  shows "w_fs w' = w_fs w \<and> w_db w' = w_db w"
  using assms by (auto simp: may_fail_def effect_def split: list.splits fault.splits)

lemma rand_read_run:
  assumes "run_state (rand_read n) w = (r, w')"
  shows "w_fs w' = w_fs w \<and> w_db w' = w_db w \<and> w_faults w' = w_faults w"
  using assms by (auto simp: rand_read_def split: if_splits)

text \<open>Whatever a system call reports, the tree is either untouched or as the call leaves it.\<close>

lemma fs_exec_run:
  assumes "run_state (fs_exec f) w = (r, w')"
  shows "(w_fs w' = w_fs w \<or> w_fs w' = snd (f (w_fs w))) \<and> w_db w' = w_db w"
  using assms by (auto simp: fs_exec_def effect_def split: list.splits fault.splits prod.splits)

section \<open>Running without faults\<close>

lemma effect_no_fault [simp]: "w_faults w = [] \<Longrightarrow> run_state (effect f) w = f w"
  by (simp add: effect_def)

lemma sql_exec_no_fault:
  "w_faults w = [] \<Longrightarrow> run_state (sql_exec stmt) w =
     (case stmt (w_db w) of Inl e \<Rightarrow> (Inl e, w) | Inr (x, d) \<Rightarrow> (Inr x, w\<lparr>w_db := d\<rparr>))"
  by (simp add: sql_exec_def)

lemma sql_query_no_fault:
  "w_faults w = [] \<Longrightarrow> run_state (sql_query q) w = (q (w_db w), w)"
  by (simp add: sql_query_def)

lemma rows_affected_no_fault: "w_faults w = [] \<Longrightarrow> run_state (rows_affected n) w = (Inr n, w)"
  by (simp add: rows_affected_def)

lemma fs_exec_no_fault:
  "w_faults w = [] \<Longrightarrow> run_state (fs_exec f) w = (fst (f (w_fs w)), w\<lparr>w_fs := snd (f (w_fs w))\<rparr>)"
  by (simp add: fs_exec_def split: prod.splits)

lemma fs_read_no_fault: "w_faults w = [] \<Longrightarrow> run_state (fs_read q) w = (q (w_fs w), w)"
  by (simp add: fs_read_def)

lemma may_fail_no_fault: "w_faults w = [] \<Longrightarrow> run_state may_fail w = (Inr (), w)"
  by (simp add: may_fail_def)

lemma now_no_ticks: "w_ticks w = [] \<Longrightarrow> run_state now_io w = (w_now w, w)"
  by (simp add: now_io_def)

lemmas no_fault = sql_exec_no_fault sql_query_no_fault rows_affected_no_fault fs_exec_no_fault
  fs_read_no_fault may_fail_no_fault now_no_ticks

end
