(* ===== verification/Statements.thy ===== *)
theory Statements
  imports World
begin

text \<open>
  The SQL statements of \<open>internal/store/repository.go\<close> and \<open>api_tokens.go\<close> as functions on the database. A
  writing statement returns the number of rows it affected and the new database, or the
  constraint it violates; a reading one its scanned result. Each is atomic, so an interleaving of
  concurrent requests is a sequence of them.
\<close>

type_synonym stmt = "db \<Rightarrow> error + nat \<times> db"

definition update_drop_points ::
    "(drop_point_row \<Rightarrow> bool) \<Rightarrow> (drop_point_row \<Rightarrow> drop_point_row) \<Rightarrow> stmt" where
  "update_drop_points P f d =
     Inr (count_where P (drop_points d), d\<lparr>drop_points := update_where P f (drop_points d)\<rparr>)"

definition update_submissions ::
    "(submission_row \<Rightarrow> bool) \<Rightarrow> (submission_row \<Rightarrow> submission_row) \<Rightarrow> stmt" where
  "update_submissions P f d =
     Inr (count_where P (submissions d), d\<lparr>submissions := update_where P f (submissions d)\<rparr>)"

lemmas update_stmt_defs = update_drop_points_def update_submissions_def

section \<open>Drop points\<close>

text \<open>SQLite's \<open>length\<close> of a text stops at the first NUL.\<close>

definition sql_length :: "go_string \<Rightarrow> nat" where
  "sql_length s = length (takeWhile (\<lambda>c. c \<noteq> CHR 0x00) s)"

definition stmt_insert_drop_point :: "drop_point \<Rightarrow> int \<Rightarrow> time \<Rightarrow> stmt" where
  "stmt_insert_drop_point dp maxActive now d =
     (if \<not> int (active_count d (dp_APITokenID dp) now) < maxActive then Inr (0, d)
      else if list_ex (\<lambda>r. dpr_id r = dp_ID dp \<or> dpr_drop_token_hash r = dp_DropTokenHash dp)
                (drop_points d)
      then Inl ErrUniqueConstraint
      else if sql_length (dp_DisplayName dp) = 0 then Inl (ErrOther ''CHECK constraint failed'')
      else Inr (1, d\<lparr>drop_points := drop_points d @ [row_of_drop_point dp]\<rparr>))"

definition query_drop_point :: "(drop_point_row \<Rightarrow> bool) \<Rightarrow> db \<Rightarrow> drop_point result" where
  "query_drop_point P d =
     (case find P (drop_points d) of None \<Rightarrow> Inl ErrNoRows | Some r \<Rightarrow> scanDropPoint r)"

definition set_expired :: "drop_point_row \<Rightarrow> drop_point_row" where
  "set_expired r = r\<lparr>dpr_status := StatusExpired\<rparr>"

definition stmt_mark_expired :: "go_string \<Rightarrow> stmt" where
  "stmt_mark_expired dpid =
     update_drop_points (\<lambda>r. dpr_id r = dpid \<and> dpr_status r = StatusOpen) set_expired"

definition set_closed :: "time \<Rightarrow> drop_point_row \<Rightarrow> drop_point_row" where
  "set_closed now r = r\<lparr>dpr_status := StatusClosed, dpr_closed_at := Some now\<rparr>"

definition stmt_close :: "go_string \<Rightarrow> time \<Rightarrow> stmt" where
  "stmt_close dpid now =
     update_drop_points
       (\<lambda>r. dpr_id r = dpid \<and> dpr_status r = StatusOpen \<and> dpr_expires_at r > now) (set_closed now)"

text \<open>SQL's \<open>COALESCE(column, value)\<close>.\<close>

definition coalesce :: "'a option \<Rightarrow> 'a \<Rightarrow> 'a option" where
  "coalesce c v = (case c of None \<Rightarrow> Some v | Some x \<Rightarrow> Some x)"

definition set_failed :: "time \<Rightarrow> drop_point_row \<Rightarrow> drop_point_row" where
  "set_failed now r =
     r\<lparr>dpr_status := StatusFailed, dpr_failed_at := coalesce (dpr_failed_at r) now\<rparr>"

definition stmt_fail_drop_point :: "go_string \<Rightarrow> time \<Rightarrow> stmt" where
  "stmt_fail_drop_point dpid now =
     update_drop_points (\<lambda>r. dpr_id r = dpid \<and> dpr_status r = StatusOpen) (set_failed now)"

definition query_expired :: "time \<Rightarrow> db \<Rightarrow> drop_point list result" where
  "query_expired now d =
     scan_all scanDropPoint
       (sort_key dpr_id
         (filter (\<lambda>r. dpr_status r = StatusOpen \<and> dpr_expires_at r \<le> now) (drop_points d)))"

definition query_terminal :: "db \<Rightarrow> drop_point list result" where
  "query_terminal d =
     scan_all scanDropPoint
       (sort_key dpr_id (filter (\<lambda>r. is_terminal (dpr_status r)) (drop_points d)))"

definition query_ids :: "db \<Rightarrow> go_string list result" where
  "query_ids d = Inr (map dpr_id (drop_points d))"

definition purgeable :: "db \<Rightarrow> time \<Rightarrow> drop_point_row \<Rightarrow> bool" where
  "purgeable d cutoff r \<longleftrightarrow>
     is_terminal (dpr_status r)
     \<and> \<not> list_ex (\<lambda>s. sr_drop_point_id s = dpr_id r \<and> has_pointers s) (submissions d)
     \<and> (dpr_status r = StatusClosed \<and> (case dpr_closed_at r of None \<Rightarrow> False | Some t \<Rightarrow> t \<le> cutoff)
        \<or> dpr_status r = StatusExpired \<and> dpr_expires_at r \<le> cutoff
        \<or> dpr_status r = StatusFailed \<and> (case dpr_failed_at r of None \<Rightarrow> False | Some t \<Rightarrow> t \<le> cutoff))"

text \<open>Deleting a drop point deletes its submissions, \<open>ON DELETE CASCADE\<close>.\<close>

definition stmt_purge :: "time \<Rightarrow> stmt" where
  "stmt_purge cutoff d =
     (let kept = delete_where (purgeable d cutoff) (drop_points d)
      in Inr (count_where (purgeable d cutoff) (drop_points d),
              d\<lparr>drop_points := kept,
                submissions := filter (\<lambda>s. list_ex (\<lambda>r. dpr_id r = sr_drop_point_id s) kept)
                                 (submissions d)\<rparr>))"

section \<open>Submissions\<close>

definition new_submission_row :: "go_string \<Rightarrow> go_string \<Rightarrow> time \<Rightarrow> submission_row" where
  "new_submission_row dpid sid now =
     \<lparr>sr_id = sid, sr_drop_point_id = dpid, sr_status = SubmissionStatusReceiving,
      sr_envelope_path = None, sr_payload_path = None, sr_encrypted_size = None,
      sr_created_at = now, sr_receiving_started_at = now, sr_dropped_at = None,
      sr_first_picked_up_at = None, sr_acknowledged_at = None, sr_failed_at = None\<rparr>"

definition stmt_begin :: "go_string \<Rightarrow> go_string \<Rightarrow> time \<Rightarrow> stmt" where
  "stmt_begin dpid sid now d =
     (case find (\<lambda>r. dpr_id r = dpid \<and> dpr_status r = StatusOpen \<and> dpr_expires_at r > now
                     \<and> int (pending_count d dpid) < dpr_max_pending_submissions r) (drop_points d) of
        None \<Rightarrow> Inr (0, d)
      | Some _ \<Rightarrow>
          (if list_ex (\<lambda>s. sr_key s = (dpid, sid)) (submissions d) then Inl ErrUniqueConstraint
           else Inr (1, d\<lparr>submissions := submissions d @ [new_submission_row dpid sid now]\<rparr>)))"

definition query_submission :: "go_string \<Rightarrow> go_string \<Rightarrow> db \<Rightarrow> submission result" where
  "query_submission dpid sid d =
     (case find (\<lambda>s. sr_key s = (dpid, sid)) (submissions d) of
        None \<Rightarrow> Inl ErrNoRows
      | Some r \<Rightarrow> scanSubmission r)"

definition set_ready :: "commit_submission_result \<Rightarrow> time \<Rightarrow> submission_row \<Rightarrow> submission_row" where
  "set_ready stored now r =
     r\<lparr>sr_status := SubmissionStatusReady, sr_envelope_path := Some (cs_EnvelopePath stored),
       sr_payload_path := Some (cs_PayloadPath stored),
       sr_encrypted_size := Some (cs_EncryptedSize stored), sr_dropped_at := Some now\<rparr>"

definition submissionUnavailableError :: "submission_status \<Rightarrow> error" where
  "submissionUnavailableError s =
     (case s of
        SubmissionStatusAcknowledged \<Rightarrow> ErrSubmissionAcknowledged
      | SubmissionStatusFailed \<Rightarrow> ErrSubmissionFailed
      | SubmissionStatusReady \<Rightarrow> ErrSubmissionAlreadyExists
      | _ \<Rightarrow> ErrSubmissionNotReady)"

definition unavailableDropPointError :: "status \<Rightarrow> error" where
  "unavailableDropPointError s =
     (case s of
        StatusClosed \<Rightarrow> ErrDropPointClosed
      | StatusExpired \<Rightarrow> ErrDropPointExpired
      | StatusFailed \<Rightarrow> ErrDropPointFailed
      | _ \<Rightarrow> ErrDropPointNotOpen)"

text \<open>The body of the transaction of \<open>CommitSubmission\<close>: every early return rolls back. The
  subtraction is the code's on \<open>int64\<close>.\<close>

definition tx_commit ::
    "go_string \<Rightarrow> go_string \<Rightarrow> commit_submission_result \<Rightarrow> time \<Rightarrow> db \<Rightarrow> error + unit \<times> db" where
  "tx_commit dpid sid stored now d =
     (case query_drop_point (\<lambda>r. dpr_id r = dpid) d of
        Inl e \<Rightarrow> Inl (if e = ErrNoRows then ErrDropPointNotFound else e)
      | Inr dp \<Rightarrow>
      (case RequireOpen dp now of
        Some e \<Rightarrow> Inl e
      | None \<Rightarrow>
      (case query_submission dpid sid d of
        Inl e \<Rightarrow> Inl (if e = ErrNoRows then ErrSubmissionNotFound else e)
      | Inr s \<Rightarrow>
          if sub_Status s \<noteq> SubmissionStatusReceiving
          then Inl (submissionUnavailableError (sub_Status s))
          else let pendingBytes = ready_bytes d dpid in
          if cs_EncryptedSize stored > wrap64 (dp_MaxPendingBytes dp - pendingBytes)
          then Inl ErrPendingBytesQuotaExceeded
          else case update_submissions
                      (\<lambda>r. sr_key r = (dpid, sid) \<and> sr_status r = SubmissionStatusReceiving)
                      (set_ready stored now) d of
                 Inl e \<Rightarrow> Inl e
               | Inr (changed, d') \<Rightarrow>
                   if changed \<noteq> 1 then Inl (ErrOther ''commit submission changed rows'')
                   else Inr ((), d'))))"

definition stmt_delete_receiving :: "go_string \<Rightarrow> go_string \<Rightarrow> stmt" where
  "stmt_delete_receiving dpid sid d =
     (let P = (\<lambda>r. sr_key r = (dpid, sid) \<and> sr_status r = SubmissionStatusReceiving)
      in Inr (count_where P (submissions d), d\<lparr>submissions := delete_where P (submissions d)\<rparr>))"

definition query_submissions ::
    "(submission_row \<Rightarrow> bool) \<Rightarrow> (submission_row \<Rightarrow> 'k::linorder) \<Rightarrow> db \<Rightarrow> submission list result" where
  "query_submissions P order d = scan_all scanSubmission (sort_key order (filter P (submissions d)))"

definition set_picked_up :: "time \<Rightarrow> submission_row \<Rightarrow> submission_row" where
  "set_picked_up now r = r\<lparr>sr_first_picked_up_at := coalesce (sr_first_picked_up_at r) now\<rparr>"

definition stmt_mark_picked_up :: "go_string \<Rightarrow> go_string \<Rightarrow> time \<Rightarrow> stmt" where
  "stmt_mark_picked_up dpid sid now =
     update_submissions
       (\<lambda>r. sr_key r = (dpid, sid)
            \<and> sr_status r \<in> {SubmissionStatusReady, SubmissionStatusAcknowledged})
       (set_picked_up now)"

definition set_acknowledged :: "time \<Rightarrow> submission_row \<Rightarrow> submission_row" where
  "set_acknowledged now r =
     r\<lparr>sr_status := SubmissionStatusAcknowledged,
       sr_acknowledged_at := coalesce (sr_acknowledged_at r) now\<rparr>"

definition stmt_acknowledge :: "go_string \<Rightarrow> go_string \<Rightarrow> time \<Rightarrow> stmt" where
  "stmt_acknowledge dpid sid now =
     update_submissions (\<lambda>r. sr_key r = (dpid, sid) \<and> sr_status r = SubmissionStatusReady)
       (set_acknowledged now)"

definition set_submission_failed :: "time \<Rightarrow> submission_row \<Rightarrow> submission_row" where
  "set_submission_failed now r =
     r\<lparr>sr_status := SubmissionStatusFailed, sr_failed_at := coalesce (sr_failed_at r) now\<rparr>"

definition stmt_fail_submission :: "go_string \<Rightarrow> go_string \<Rightarrow> time \<Rightarrow> stmt" where
  "stmt_fail_submission dpid sid now =
     update_submissions (\<lambda>r. sr_key r = (dpid, sid) \<and> is_pending r) (set_submission_failed now)"

definition clear_pointers :: "submission_row \<Rightarrow> submission_row" where
  "clear_pointers r = r\<lparr>sr_envelope_path := None, sr_payload_path := None\<rparr>"

definition stmt_clear_submission :: "go_string \<Rightarrow> go_string \<Rightarrow> stmt" where
  "stmt_clear_submission dpid sid =
     update_submissions (\<lambda>r. sr_key r = (dpid, sid)) clear_pointers"

definition stmt_clear_drop_point :: "go_string \<Rightarrow> stmt" where
  "stmt_clear_drop_point dpid =
     update_submissions (\<lambda>r. sr_drop_point_id r = dpid) clear_pointers"

section \<open>API tokens\<close>

record add_api_token_params =
  ap_ID :: go_string
  ap_SecretHash :: go_string
  ap_MaxActiveDropPoints :: "int option"
  ap_CreatedAt :: time

definition new_api_token_row :: "add_api_token_params \<Rightarrow> api_token_row" where
  "new_api_token_row p =
     \<lparr>tr_id = ap_ID p, tr_secret_hash = ap_SecretHash p, tr_enabled = 1,
      tr_max_active_drop_points = ap_MaxActiveDropPoints p, tr_created_at = ap_CreatedAt p,
      tr_disabled_at = None\<rparr>"

definition stmt_add_token :: "add_api_token_params \<Rightarrow> stmt" where
  "stmt_add_token p d =
     (if list_ex (\<lambda>r. tr_id r = ap_ID p \<or> tr_secret_hash r = ap_SecretHash p) (api_tokens d)
      then Inl ErrUniqueConstraint
      else Inr (1, d\<lparr>api_tokens := api_tokens d @ [new_api_token_row p]\<rparr>))"

definition query_enabled_token :: "go_string \<Rightarrow> db \<Rightarrow> api_token result" where
  "query_enabled_token hash d =
     (case find (\<lambda>r. tr_secret_hash r = hash \<and> tr_enabled r = 1) (api_tokens d) of
        None \<Rightarrow> Inl ErrNoRows
      | Some r \<Rightarrow> scanAPIToken r)"

definition query_tokens :: "db \<Rightarrow> api_token list result" where
  "query_tokens d = scan_all scanAPIToken (sort_key tr_id (api_tokens d))"

definition set_disabled :: "time \<Rightarrow> api_token_row \<Rightarrow> api_token_row" where
  "set_disabled now r = r\<lparr>tr_enabled := 0, tr_disabled_at := coalesce (tr_disabled_at r) now\<rparr>"

definition stmt_disable_token :: "go_string \<Rightarrow> time \<Rightarrow> stmt" where
  "stmt_disable_token tid now d =
     Inr (count_where (\<lambda>r. tr_id r = tid) (api_tokens d),
          d\<lparr>api_tokens := update_where (\<lambda>r. tr_id r = tid) (set_disabled now) (api_tokens d)\<rparr>)"

definition stmt_remove_token :: "go_string \<Rightarrow> stmt" where
  "stmt_remove_token tid d =
     Inr (count_where (\<lambda>r. tr_id r = tid) (api_tokens d),
          d\<lparr>api_tokens := delete_where (\<lambda>r. tr_id r = tid) (api_tokens d)\<rparr>)"

lemmas setter_defs = set_expired_def set_closed_def set_failed_def set_ready_def set_picked_up_def
  set_acknowledged_def set_submission_failed_def clear_pointers_def set_disabled_def

lemmas stmt_defs = stmt_mark_expired_def stmt_close_def stmt_fail_drop_point_def
  stmt_mark_picked_up_def stmt_acknowledge_def stmt_fail_submission_def
  stmt_clear_submission_def stmt_clear_drop_point_def update_stmt_defs

text \<open>Every update keeps the key of its table.\<close>

interpretation exp: keyed_update dpr_id set_expired
  by unfold_locales (simp add: set_expired_def)
interpretation exp_hash: keyed_update dpr_drop_token_hash set_expired
  by unfold_locales (simp add: set_expired_def)
interpretation cls: keyed_update dpr_id "set_closed now" for now
  by unfold_locales (simp add: set_closed_def)
interpretation cls_hash: keyed_update dpr_drop_token_hash "set_closed now" for now
  by unfold_locales (simp add: set_closed_def)
interpretation fld: keyed_update dpr_id "set_failed now" for now
  by unfold_locales (simp add: set_failed_def)
interpretation fld_hash: keyed_update dpr_drop_token_hash "set_failed now" for now
  by unfold_locales (simp add: set_failed_def)
interpretation rdy: keyed_update sr_key "set_ready stored now" for stored now
  by unfold_locales (simp add: set_ready_def sr_key_def)
interpretation pck: keyed_update sr_key "set_picked_up now" for now
  by unfold_locales (simp add: set_picked_up_def sr_key_def)
interpretation ack: keyed_update sr_key "set_acknowledged now" for now
  by unfold_locales (simp add: set_acknowledged_def sr_key_def)
interpretation sfl: keyed_update sr_key "set_submission_failed now" for now
  by unfold_locales (simp add: set_submission_failed_def sr_key_def)
interpretation clr: keyed_update sr_key clear_pointers
  by unfold_locales (simp add: clear_pointers_def sr_key_def)

interpretation dis: keyed_update tr_id "set_disabled now" for now
  by unfold_locales (simp add: set_disabled_def)
interpretation dis_hash: keyed_update tr_secret_hash "set_disabled now" for now
  by unfold_locales (simp add: set_disabled_def)

lemmas dp_keys = exp.keys_update exp_hash.keys_update cls.keys_update cls_hash.keys_update
  fld.keys_update fld_hash.keys_update
lemmas sub_keys = rdy.keys_update pck.keys_update ack.keys_update sfl.keys_update clr.keys_update
lemmas token_keys = dis.keys_update dis_hash.keys_update

end
