(* ===== verification/Db_Invariant.thy ===== *)
theory Db_Invariant
  imports Statements
begin

text \<open>
  What every statement keeps of the database: unique keys, submissions that refer to an existing
  drop point, well-formed rows, and the two queue quotas. A database step is one writing
  statement with the arguments the program passes; the invariant holds in every database that
  any interleaving of such steps reaches from the empty one.
\<close>

section \<open>The invariant\<close>

definition keys_inv :: "db \<Rightarrow> bool" where
  "keys_inv d \<longleftrightarrow>
     distinct (map dpr_id (drop_points d)) \<and> distinct (map dpr_drop_token_hash (drop_points d))
     \<and> distinct (map sr_key (submissions d))
     \<and> distinct (map tr_id (api_tokens d)) \<and> distinct (map tr_secret_hash (api_tokens d))"

definition fk_inv :: "db \<Rightarrow> bool" where
  "fk_inv d \<longleftrightarrow> (\<forall>s \<in> set (submissions d). sr_drop_point_id s \<in> dpr_id ` set (drop_points d))"

definition dpr_wf :: "drop_point_row \<Rightarrow> bool" where
  "dpr_wf r \<longleftrightarrow> dp_wf (drop_point_of_row r) \<and> is_int64 (dpr_max_pending_bytes r)"

definition sr_wf :: "submission_row \<Rightarrow> bool" where
  "sr_wf s \<longleftrightarrow>
     sub_wf (submission_of_row s)
     \<and> (sr_status s = SubmissionStatusReady \<longrightarrow> sr_encrypted_size s \<noteq> None)"

definition tr_wf :: "api_token_row \<Rightarrow> bool" where
  "tr_wf t \<longleftrightarrow>
     ValidSHA256Hash (tr_secret_hash t)
     \<and> (tr_enabled t = 1 \<and> tr_disabled_at t = None \<or> tr_enabled t = 0 \<and> tr_disabled_at t \<noteq> None)
     \<and> (case tr_max_active_drop_points t of None \<Rightarrow> True | Some n \<Rightarrow> 0 < n)"

definition rows_inv :: "db \<Rightarrow> bool" where
  "rows_inv d \<longleftrightarrow>
     (\<forall>r \<in> set (drop_points d). dpr_wf r) \<and> (\<forall>s \<in> set (submissions d). sr_wf s)
     \<and> (\<forall>t \<in> set (api_tokens d). tr_wf t)"

definition quota_inv :: "db \<Rightarrow> bool" where
  "quota_inv d \<longleftrightarrow>
     (\<forall>r \<in> set (drop_points d).
        int (pending_count d (dpr_id r)) \<le> dpr_max_pending_submissions r
        \<and> ready_bytes d (dpr_id r) \<le> dpr_max_pending_bytes r)"

definition db_inv :: "db \<Rightarrow> bool" where
  "db_inv d \<longleftrightarrow> keys_inv d \<and> fk_inv d \<and> rows_inv d \<and> quota_inv d"

lemmas inv_defs = db_inv_def keys_inv_def fk_inv_def rows_inv_def quota_inv_def

lemma db_inv_empty: "db_inv empty_db"
  by (simp add: inv_defs empty_db_def)

section \<open>Steps\<close>

definition validateAPITokenFields :: "go_string \<Rightarrow> go_string \<Rightarrow> int option \<Rightarrow> error option" where
  "validateAPITokenFields tid secretHash maxActive =
     (if tid = [] then Some (ErrOther ''api token id must not be empty'')
      else if \<not> ValidSHA256Hash secretHash then Some (ErrOther ''api token secret_hash'')
      else case maxActive of
             None \<Rightarrow> None
           | Some n \<Rightarrow> if n \<le> 0 then Some (ErrOther ''max_active_drop_points must be positive'')
                       else None)"

inductive db_step :: "db \<Rightarrow> db \<Rightarrow> bool" where
  step_create:
    "dp_wf dp \<Longrightarrow> dp_Status dp = StatusOpen \<Longrightarrow> is_int64 (dp_MaxPendingBytes dp) \<Longrightarrow>
     stmt_insert_drop_point dp maxActive now d = Inr (n, d') \<Longrightarrow> db_step d d'"
| step_begin: "stmt_begin dpid sid now d = Inr (n, d') \<Longrightarrow> db_step d d'"
| step_commit:
    "cs_EnvelopePath stored \<noteq> [] \<Longrightarrow> cs_PayloadPath stored \<noteq> [] \<Longrightarrow> 0 \<le> cs_EncryptedSize stored \<Longrightarrow>
     is_int64 (cs_EncryptedSize stored) \<Longrightarrow>
     tx_commit dpid sid stored now d = Inr ((), d') \<Longrightarrow> db_step d d'"
| step_delete: "stmt_delete_receiving dpid sid d = Inr (n, d') \<Longrightarrow> db_step d d'"
| step_pickup: "stmt_mark_picked_up dpid sid now d = Inr (n, d') \<Longrightarrow> db_step d d'"
| step_acknowledge: "stmt_acknowledge dpid sid now d = Inr (n, d') \<Longrightarrow> db_step d d'"
| step_fail_submission: "stmt_fail_submission dpid sid now d = Inr (n, d') \<Longrightarrow> db_step d d'"
| step_clear_submission: "stmt_clear_submission dpid sid d = Inr (n, d') \<Longrightarrow> db_step d d'"
| step_clear_drop_point: "stmt_clear_drop_point dpid d = Inr (n, d') \<Longrightarrow> db_step d d'"
| step_mark_expired: "stmt_mark_expired dpid d = Inr (n, d') \<Longrightarrow> db_step d d'"
| step_close: "stmt_close dpid now d = Inr (n, d') \<Longrightarrow> db_step d d'"
| step_fail_drop_point: "stmt_fail_drop_point dpid now d = Inr (n, d') \<Longrightarrow> db_step d d'"
| step_purge: "stmt_purge cutoff d = Inr (n, d') \<Longrightarrow> db_step d d'"
| step_add_token:
    "validateAPITokenFields (ap_ID p) (ap_SecretHash p) (ap_MaxActiveDropPoints p) = None \<Longrightarrow>
     stmt_add_token p d = Inr (n, d') \<Longrightarrow> db_step d d'"
| step_disable_token: "stmt_disable_token tid now d = Inr (n, d') \<Longrightarrow> db_step d d'"
| step_remove_token: "stmt_remove_token tid d = Inr (n, d') \<Longrightarrow> db_step d d'"

section \<open>Preservation\<close>

text \<open>An update of drop points that keeps keys, limits and well-formedness.\<close>

lemma drop_point_update_inv:
  assumes inv: "db_inv d"
    and keys: "\<And>r. dpr_id (f r) = dpr_id r" "\<And>r. dpr_drop_token_hash (f r) = dpr_drop_token_hash r"
    and limits: "\<And>r. dpr_max_pending_submissions (f r) = dpr_max_pending_submissions r"
      "\<And>r. dpr_max_pending_bytes (f r) = dpr_max_pending_bytes r"
    and wf: "\<And>r. P r \<Longrightarrow> dpr_wf r \<Longrightarrow> dpr_wf (f r)"
    and upd: "update_drop_points P f d = Inr (n, d')"
  shows "db_inv d'"
proof -
  have d': "d' = d\<lparr>drop_points := update_where P f (drop_points d)\<rparr>"
    using upd by (simp add: update_drop_points_def)
  have ids: "map dpr_id (update_where P f (drop_points d)) = map dpr_id (drop_points d)"
    and hashes: "map dpr_drop_token_hash (update_where P f (drop_points d))
        = map dpr_drop_token_hash (drop_points d)"
    by (simp_all add: update_where_def keys)
  have "dpr_id ` set (update_where P f (drop_points d)) = dpr_id ` set (drop_points d)"
    using ids by (metis list.set_map)
  then show ?thesis
    using inv ids hashes unfolding d' db_inv_def
    by (auto simp: keys_inv_def fk_inv_def rows_inv_def quota_inv_def set_update_where limits keys
        pending_count_def ready_bytes_def wf split: if_splits)
qed

text \<open>An update of submissions that keeps keys and well-formedness and never makes a row pending,
  ready, or larger.\<close>

lemma submission_update_inv:
  assumes inv: "db_inv d"
    and keys: "\<And>r. sr_key (f r) = sr_key r"
    and wf: "\<And>r. P r \<Longrightarrow> sr_wf r \<Longrightarrow> sr_wf (f r)"
    and pending: "\<And>r. P r \<Longrightarrow> is_pending (f r) \<Longrightarrow> is_pending r"
    and ready: "\<And>r. P r \<Longrightarrow> sr_status (f r) = SubmissionStatusReady \<Longrightarrow>
        sr_status r = SubmissionStatusReady \<and> size_of (f r) = size_of r"
    and upd: "update_submissions P f d = Inr (n, d')"
  shows "db_inv d'"
proof -
  have d': "d' = d\<lparr>submissions := update_where P f (submissions d)\<rparr>"
    using upd by (simp add: update_submissions_def)
  have dpid: "sr_drop_point_id (f r) = sr_drop_point_id r" for r
    using keys [of r] by (simp add: sr_key_def)
  have nonneg: "\<forall>s \<in> set (submissions d). 0 \<le> size_of s"
    using inv by (auto simp: db_inv_def rows_inv_def sr_wf_def sub_wf_def submission_of_row_def
        size_of_def)
  have count: "pending_count d' i \<le> pending_count d i" for i
    unfolding pending_count_def d' using pending dpid by (auto intro!: count_where_update_le)
  have bytes: "ready_bytes d' i \<le> ready_bytes d i" for i
    unfolding ready_bytes_def d' using ready dpid nonneg by (auto intro!: sum_where_update_le)
  have "quota_inv d'"
    unfolding quota_inv_def
  proof
    fix r assume "r \<in> set (drop_points d')"
    with inv have "int (pending_count d (dpr_id r)) \<le> dpr_max_pending_submissions r
        \<and> ready_bytes d (dpr_id r) \<le> dpr_max_pending_bytes r"
      by (simp add: d' db_inv_def quota_inv_def)
    with count [of "dpr_id r"] bytes [of "dpr_id r"]
    show "int (pending_count d' (dpr_id r)) \<le> dpr_max_pending_submissions r
        \<and> ready_bytes d' (dpr_id r) \<le> dpr_max_pending_bytes r"
      by linarith
  qed
  moreover have "map sr_key (update_where P f (submissions d)) = map sr_key (submissions d)"
    by (simp add: update_where_def keys)
  ultimately show ?thesis
    using inv unfolding db_inv_def
    by (auto simp: d' keys_inv_def fk_inv_def rows_inv_def set_update_where dpid wf
        split: if_splits)
qed

text \<open>Removing submissions keeps everything.\<close>

lemma submission_delete_inv:
  assumes inv: "db_inv d" and d': "d' = d\<lparr>submissions := delete_where P (submissions d)\<rparr>"
  shows "db_inv d'"
proof -
  have nonneg: "\<forall>s \<in> set (submissions d). 0 \<le> size_of s"
    using inv by (auto simp: db_inv_def rows_inv_def sr_wf_def sub_wf_def submission_of_row_def
        size_of_def)
  have count: "pending_count d' i \<le> pending_count d i" for i
    unfolding pending_count_def d' by (simp add: count_where_delete_le)
  have bytes: "ready_bytes d' i \<le> ready_bytes d i" for i
    unfolding ready_bytes_def d' using nonneg by (simp add: sum_where_delete_le)
  have "quota_inv d'"
    unfolding quota_inv_def
  proof
    fix r assume "r \<in> set (drop_points d')"
    with inv have "int (pending_count d (dpr_id r)) \<le> dpr_max_pending_submissions r
        \<and> ready_bytes d (dpr_id r) \<le> dpr_max_pending_bytes r"
      by (simp add: d' db_inv_def quota_inv_def)
    with count [of "dpr_id r"] bytes [of "dpr_id r"]
    show "int (pending_count d' (dpr_id r)) \<le> dpr_max_pending_submissions r
        \<and> ready_bytes d' (dpr_id r) \<le> dpr_max_pending_bytes r"
      by linarith
  qed
  then show ?thesis
    using inv by (auto simp: d' db_inv_def keys_inv_def fk_inv_def rows_inv_def table_simps)
qed

subsection \<open>Statement by statement\<close>

lemma dpr_wf_setters:
  "dpr_status r = StatusOpen \<Longrightarrow> dpr_wf r \<Longrightarrow>
   dpr_wf (set_expired r) \<and> dpr_wf (set_closed now r) \<and> dpr_wf (set_failed now r)"
  by (auto simp: dpr_wf_def dp_wf_def drop_point_of_row_def setter_defs coalesce_def
      split: option.splits)

lemma sr_wf_setters:
  "sr_wf r \<Longrightarrow> sr_status r \<in> {SubmissionStatusReady, SubmissionStatusAcknowledged} \<Longrightarrow>
     sr_wf (set_picked_up now r)"
  "sr_wf r \<Longrightarrow> sr_status r = SubmissionStatusReady \<Longrightarrow> sr_wf (set_acknowledged now r)"
  "sr_wf r \<Longrightarrow> sr_wf (set_submission_failed now r)"
  "sr_wf r \<Longrightarrow> sr_wf (clear_pointers r)"
  by (auto simp: sr_wf_def sub_wf_def submission_of_row_def setter_defs coalesce_def
      string_of_null_def split: option.splits submission_status.splits)

lemma pick_inv: "db_inv d \<Longrightarrow> stmt_mark_picked_up dpid sid now d = Inr (n, d') \<Longrightarrow> db_inv d'"
  unfolding stmt_mark_picked_up_def
  by (erule submission_update_inv [rotated -1])
    (auto simp: sr_key_def sr_wf_setters, auto simp: setter_defs is_pending_def size_of_def)

lemma acknowledge_inv: "db_inv d \<Longrightarrow> stmt_acknowledge dpid sid now d = Inr (n, d') \<Longrightarrow> db_inv d'"
  unfolding stmt_acknowledge_def
  by (erule submission_update_inv [rotated -1])
    (auto simp: sr_key_def sr_wf_setters, auto simp: setter_defs is_pending_def size_of_def)

lemma fail_submission_inv:
  "db_inv d \<Longrightarrow> stmt_fail_submission dpid sid now d = Inr (n, d') \<Longrightarrow> db_inv d'"
  unfolding stmt_fail_submission_def
  by (erule submission_update_inv [rotated -1])
    (auto simp: sr_key_def sr_wf_setters, auto simp: setter_defs is_pending_def size_of_def)

lemma clear_inv:
  "db_inv d \<Longrightarrow> update_submissions P clear_pointers d = Inr (n, d') \<Longrightarrow> db_inv d'"
  by (erule submission_update_inv [rotated -1])
    (auto simp: sr_key_def sr_wf_setters, auto simp: setter_defs is_pending_def size_of_def)

lemma expired_inv: "db_inv d \<Longrightarrow> stmt_mark_expired dpid d = Inr (n, d') \<Longrightarrow> db_inv d'"
  unfolding stmt_mark_expired_def
  by (erule drop_point_update_inv [rotated -1]) (auto simp: dpr_wf_setters, auto simp: setter_defs)

lemma close_inv: "db_inv d \<Longrightarrow> stmt_close dpid now d = Inr (n, d') \<Longrightarrow> db_inv d'"
  unfolding stmt_close_def
  by (erule drop_point_update_inv [rotated -1]) (auto simp: dpr_wf_setters, auto simp: setter_defs)

lemma fail_drop_point_inv:
  "db_inv d \<Longrightarrow> stmt_fail_drop_point dpid now d = Inr (n, d') \<Longrightarrow> db_inv d'"
  unfolding stmt_fail_drop_point_def
  by (erule drop_point_update_inv [rotated -1]) (auto simp: dpr_wf_setters, auto simp: setter_defs)

lemma create_inv:
  assumes inv: "db_inv d" and dp: "dp_wf dp" "is_int64 (dp_MaxPendingBytes dp)"
    and ins: "stmt_insert_drop_point dp maxActive now d = Inr (n, d')"
  shows "db_inv d'"
proof (cases "d' = d")
  case False
  let ?r = "row_of_drop_point dp"
  from ins False have d': "d' = d\<lparr>drop_points := drop_points d @ [?r]\<rparr>"
    and new: "\<forall>r \<in> set (drop_points d). dpr_id r \<noteq> dp_ID dp \<and> dpr_drop_token_hash r \<noteq> dp_DropTokenHash dp"
    by (auto simp: stmt_insert_drop_point_def list_ex_iff split: if_splits)
  have "\<forall>s \<in> set (submissions d). sr_drop_point_id s \<noteq> dp_ID dp"
    using inv new by (fastforce simp: db_inv_def fk_inv_def)
  then have none: "pending_count d (dp_ID dp) = 0" "ready_bytes d (dp_ID dp) = 0"
    by (auto simp: pending_count_def ready_bytes_def sum_where_def filter_empty_conv)
  have r: "dpr_id ?r = dp_ID dp" "dpr_drop_token_hash ?r = dp_DropTokenHash dp"
    "dpr_max_pending_submissions ?r = dp_MaxPendingSubmissions dp"
    "dpr_max_pending_bytes ?r = dp_MaxPendingBytes dp"
    by (simp_all add: row_of_drop_point_def)
  have "dpr_wf ?r" using dp by (simp add: dpr_wf_def r)
  moreover from dp(1) have "0 < dp_MaxPendingSubmissions dp" "0 < dp_MaxPendingBytes dp"
    by (auto simp: dp_wf_def)
  ultimately show ?thesis
    using inv new none unfolding d'
    by (auto simp: inv_defs r)
qed (use inv in simp)

lemma new_submission_row_wf: "sr_wf (new_submission_row dpid sid now)"
  by (simp add: sr_wf_def sub_wf_def submission_of_row_def new_submission_row_def string_of_null_def)

lemma begin_inv:
  assumes inv: "db_inv d" and ins: "stmt_begin dpid sid now d = Inr (n, d')"
  shows "db_inv d'"
proof (cases "d' = d")
  case False
  let ?s = "new_submission_row dpid sid now"
  from ins False obtain r where r: "r \<in> set (drop_points d)" "dpr_id r = dpid"
    "int (pending_count d dpid) < dpr_max_pending_submissions r"
    and d': "d' = d\<lparr>submissions := submissions d @ [?s]\<rparr>"
    and new: "\<forall>s \<in> set (submissions d). sr_key s \<noteq> (dpid, sid)"
    by (auto simp: stmt_begin_def list_ex_iff dest!: find_SomeD split: if_splits option.splits)
  have s: "sr_key ?s = (dpid, sid)" "sr_drop_point_id ?s = dpid" "is_pending ?s"
    "sr_status ?s = SubmissionStatusReceiving" "sr_id ?s = sid"
    by (simp_all add: sr_key_def new_submission_row_def is_pending_def)
  have uniq: "q = r" if "q \<in> set (drop_points d)" "dpr_id q = dpid" for q
    using inv that r by (auto simp: db_inv_def keys_inv_def intro: distinct_key_unique)
  have "quota_inv d'"
    unfolding quota_inv_def
  proof
    fix q assume q: "q \<in> set (drop_points d')"
    with inv have old: "int (pending_count d (dpr_id q)) \<le> dpr_max_pending_submissions q"
      "ready_bytes d (dpr_id q) \<le> dpr_max_pending_bytes q"
      by (simp_all add: d' db_inv_def quota_inv_def)
    have "pending_count d' (dpr_id q)
        = (if dpr_id q = dpid then 1 else 0) + pending_count d (dpr_id q)"
      by (simp add: pending_count_def d' count_where_append count_where_Cons s)
    moreover have "ready_bytes d' (dpr_id q) = ready_bytes d (dpr_id q)"
      by (simp add: ready_bytes_def d' sum_where_append sum_where_Cons s)
    ultimately show "int (pending_count d' (dpr_id q)) \<le> dpr_max_pending_submissions q
        \<and> ready_bytes d' (dpr_id q) \<le> dpr_max_pending_bytes q"
      using old r(3) uniq [of q] q by (auto simp: d')
  qed
  then show ?thesis
    using inv new r(1,2) new_submission_row_wf
    by (auto simp: d' db_inv_def keys_inv_def fk_inv_def rows_inv_def s)
qed (use inv in simp)

text \<open>The commit: exactly one receiving row becomes ready, and the guard leaves room for it.\<close>

lemma query_drop_point_Inr:
  "query_drop_point P d = Inr dp \<Longrightarrow> \<exists>r \<in> set (drop_points d). P r \<and> dp = drop_point_of_row r"
  by (auto simp: query_drop_point_def dest!: find_SomeD scanDropPoint_Inr split: option.splits)

lemma query_submission_Inr:
  "query_submission dpid sid d = Inr s \<Longrightarrow>
   \<exists>r \<in> set (submissions d). sr_key r = (dpid, sid) \<and> s = submission_of_row r"
  by (auto simp: query_submission_def dest!: find_SomeD scanSubmission_Inr split: option.splits)

lemma tx_commitE:
  assumes "tx_commit dpid sid stored now d = Inr ((), d')"
  obtains r s where "r \<in> set (drop_points d)" "dpr_id r = dpid" "dpr_status r = StatusOpen"
    "now < dpr_expires_at r" "s \<in> set (submissions d)" "sr_key s = (dpid, sid)"
    "sr_status s = SubmissionStatusReceiving"
    "cs_EncryptedSize stored \<le> wrap64 (dpr_max_pending_bytes r - ready_bytes d dpid)"
    "d' = d\<lparr>submissions := update_where
       (\<lambda>q. sr_key q = (dpid, sid) \<and> sr_status q = SubmissionStatusReceiving)
       (set_ready stored now) (submissions d)\<rparr>"
  using assms unfolding tx_commit_def Let_def
  by (auto simp: update_submissions_def RequireOpen_None drop_point_of_row_def submission_of_row_def
      dest!: query_drop_point_Inr query_submission_Inr
      split: sum.splits option.splits if_splits)

lemma sum_where_update_one:
  assumes "distinct (map k t)" "s \<in> set t" "P s" "\<not> Q s" "Q (f s)"
    and "\<And>r. r \<in> set t \<Longrightarrow> P r \<Longrightarrow> k r = k s"
  shows "sum_where Q c (update_where P f t) = sum_where Q c t + c (f s)"
  using assms
proof (induction t)
  case (Cons a t)
  have key: "\<And>r. r \<in> set (a # t) \<Longrightarrow> P r \<Longrightarrow> k r = k s" by (fact Cons.prems(6))
  have fresh: "k a \<notin> k ` set t" and d: "distinct (map k t)" using Cons.prems(1) by auto
  have split: "sum_where Q c (update_where P f (a # t))
      = sum_where Q c [if P a then f a else a] + sum_where Q c (update_where P f t)"
    by (simp add: update_where_def sum_where_Cons)
  show ?case
  proof (cases "a = s")
    case True
    then have "\<forall>r \<in> set t. \<not> P r" using fresh key by (metis image_eqI list.set_intros(2))
    then have "update_where P f t = t" by (rule update_where_none)
    then show ?thesis
      unfolding split using True Cons.prems(3-5) by (simp add: sum_where_Cons)
  next
    case False
    then have s: "s \<in> set t" using Cons.prems(2) by simp
    then have "\<not> P a" using fresh key by (metis image_eqI list.set_intros(1))
    moreover have "sum_where Q c (update_where P f t) = sum_where Q c t + c (f s)"
      by (rule Cons.IH [OF d s Cons.prems(3-5)]) (rule key, auto)
    ultimately show ?thesis
      unfolding split by (simp add: sum_where_Cons)
  qed
qed simp

lemma commit_inv:
  assumes inv: "db_inv d"
    and stored: "cs_EnvelopePath stored \<noteq> []" "cs_PayloadPath stored \<noteq> []"
      "0 \<le> cs_EncryptedSize stored"
    and tx: "tx_commit dpid sid stored now d = Inr ((), d')"
  shows "db_inv d'"
  using tx
proof (rule tx_commitE)
  fix r s
  let ?P = "\<lambda>q. sr_key q = (dpid, sid) \<and> sr_status q = SubmissionStatusReceiving"
  assume r: "r \<in> set (drop_points d)" "dpr_id r = dpid"
    and s: "s \<in> set (submissions d)" "sr_key s = (dpid, sid)"
      "sr_status s = SubmissionStatusReceiving"
    and room: "cs_EncryptedSize stored \<le> wrap64 (dpr_max_pending_bytes r - ready_bytes d dpid)"
    and d': "d' = d\<lparr>submissions := update_where ?P (set_ready stored now) (submissions d)\<rparr>"
  have nonneg: "\<forall>q \<in> set (submissions d). 0 \<le> size_of q"
    using inv by (auto simp: db_inv_def rows_inv_def sr_wf_def sub_wf_def submission_of_row_def
        size_of_def)
  then have ready0: "0 \<le> ready_bytes d i" for i
    unfolding ready_bytes_def by (intro sum_where_nonneg) auto
  from inv r have "is_int64 (dpr_max_pending_bytes r)" "ready_bytes d dpid \<le> dpr_max_pending_bytes r"
    by (auto simp: db_inv_def rows_inv_def dpr_wf_def quota_inv_def)
  then have "wrap64 (dpr_max_pending_bytes r - ready_bytes d dpid)
      = dpr_max_pending_bytes r - ready_bytes d dpid"
    using ready0 by (intro wrap64_id is_int64_diff)
  with room have room': "ready_bytes d dpid + cs_EncryptedSize stored \<le> dpr_max_pending_bytes r"
    by simp
  have key: "sr_key (set_ready stored now q) = sr_key q"
    "sr_drop_point_id (set_ready stored now q) = sr_drop_point_id q"
    "sr_status (set_ready stored now q) = SubmissionStatusReady"
    "size_of (set_ready stored now q) = cs_EncryptedSize stored" for q
    by (simp_all add: set_ready_def sr_key_def size_of_def)
  have wf: "sr_wf (set_ready stored now q)" if "sr_wf q" "sr_status q = SubmissionStatusReceiving" for q
    using that stored by (auto simp: sr_wf_def sub_wf_def submission_of_row_def set_ready_def)
  have distinct: "distinct (map sr_key (submissions d))"
    using inv by (simp add: db_inv_def keys_inv_def)
  have count: "pending_count d' i \<le> pending_count d i" for i
    unfolding pending_count_def d'
    by (auto simp: key is_pending_def intro!: count_where_update_le)
  have bytes: "ready_bytes d' i \<le> ready_bytes d i + (if i = dpid then cs_EncryptedSize stored else 0)" for i
  proof (cases "i = dpid")
    case True
    have "ready_bytes d' i = ready_bytes d i + size_of (set_ready stored now s)"
      unfolding ready_bytes_def d' using distinct s True
      by (simp, intro sum_where_update_one [where k = sr_key and s = s])
        (auto simp: key, simp add: sr_key_def)
    with True show ?thesis by (simp add: key)
  next
    case False
    have "ready_bytes d' i \<le> ready_bytes d i"
      unfolding ready_bytes_def d' using False nonneg
      by (auto simp: key sr_key_def intro!: sum_where_update_le)
    with False show ?thesis by simp
  qed
  have "quota_inv d'"
    unfolding quota_inv_def
  proof
    fix q assume q: "q \<in> set (drop_points d')"
    with inv have old: "int (pending_count d (dpr_id q)) \<le> dpr_max_pending_submissions q"
      "ready_bytes d (dpr_id q) \<le> dpr_max_pending_bytes q"
      by (simp_all add: d' db_inv_def quota_inv_def)
    have uniq: "q = r" if "dpr_id q = dpid"
      using inv that q r by (auto simp: d' db_inv_def keys_inv_def intro: distinct_key_unique)
    show "int (pending_count d' (dpr_id q)) \<le> dpr_max_pending_submissions q
        \<and> ready_bytes d' (dpr_id q) \<le> dpr_max_pending_bytes q"
    proof
      show "int (pending_count d' (dpr_id q)) \<le> dpr_max_pending_submissions q"
        using count [of "dpr_id q"] old(1) by linarith
      show "ready_bytes d' (dpr_id q) \<le> dpr_max_pending_bytes q"
        using bytes [of "dpr_id q"] old(2) room' uniq by (cases "dpr_id q = dpid") auto
    qed
  qed
  moreover have "distinct (map sr_key (submissions d'))"
    using rdy.distinct_update [OF distinct] by (simp add: d')
  ultimately show ?thesis
    using inv by (auto simp: d' db_inv_def keys_inv_def fk_inv_def rows_inv_def set_update_where
        key wf split: if_splits)
qed

lemma purge_inv:
  assumes inv: "db_inv d" and purge: "stmt_purge cutoff d = Inr (n, d')"
  shows "db_inv d'"
proof -
  let ?kept = "delete_where (purgeable d cutoff) (drop_points d)"
  let ?gone = "\<lambda>s. \<not> list_ex (\<lambda>r. dpr_id r = sr_drop_point_id s) ?kept"
  let ?d1 = "d\<lparr>submissions := delete_where ?gone (submissions d)\<rparr>"
  have d': "d' = ?d1\<lparr>drop_points := ?kept\<rparr>"
    using purge by (cases d) (auto simp: stmt_purge_def Let_def delete_where_def)
  have "db_inv ?d1" by (rule submission_delete_inv [OF inv refl])
  moreover have "fk_inv d'"
    by (force simp: fk_inv_def d' table_simps list_ex_iff image_iff)
  ultimately show ?thesis
    by (auto simp: d' db_inv_def keys_inv_def rows_inv_def quota_inv_def table_simps)
qed

lemma token_inv:
  assumes inv: "db_inv d" and d': "d' = d\<lparr>api_tokens := ts\<rparr>"
    and ts: "distinct (map tr_id ts)" "distinct (map tr_secret_hash ts)" "\<forall>t \<in> set ts. tr_wf t"
  shows "db_inv d'"
  using assms by (auto simp: inv_defs)

lemma add_token_inv:
  assumes inv: "db_inv d"
    and valid: "validateAPITokenFields (ap_ID p) (ap_SecretHash p) (ap_MaxActiveDropPoints p) = None"
    and add: "stmt_add_token p d = Inr (n, d')"
  shows "db_inv d'"
proof -
  from add have d': "d' = d\<lparr>api_tokens := api_tokens d @ [new_api_token_row p]\<rparr>"
    and new: "\<forall>t \<in> set (api_tokens d). tr_id t \<noteq> ap_ID p \<and> tr_secret_hash t \<noteq> ap_SecretHash p"
    by (auto simp: stmt_add_token_def list_ex_iff split: if_splits)
  have "tr_wf (new_api_token_row p)"
    using valid by (auto simp: tr_wf_def new_api_token_row_def validateAPITokenFields_def
        split: if_splits option.splits)
  with inv new show ?thesis
    by (intro token_inv [OF inv d']) (auto simp: inv_defs new_api_token_row_def)
qed

lemma disable_token_inv:
  assumes inv: "db_inv d" and stmt: "stmt_disable_token tid now d = Inr (n, d')"
  shows "db_inv d'"
proof -
  from stmt have d': "d' = d\<lparr>api_tokens := update_where (\<lambda>r. tr_id r = tid) (set_disabled now) (api_tokens d)\<rparr>"
    by (simp add: stmt_disable_token_def)
  have "tr_wf (set_disabled now t)" if "tr_wf t" for t
    using that by (auto simp: tr_wf_def set_disabled_def coalesce_def split: option.splits)
  with inv show ?thesis
    by (intro token_inv [OF inv d'])
      (auto simp: inv_defs set_update_where dis.distinct_update dis_hash.distinct_update)
qed

lemma remove_token_inv:
  assumes inv: "db_inv d" and stmt: "stmt_remove_token tid d = Inr (n, d')"
  shows "db_inv d'"
  using inv stmt by (intro token_inv [OF inv, of d'])
    (auto simp: stmt_remove_token_def inv_defs table_simps)

lemmas stmt_inv = create_inv begin_inv commit_inv pick_inv acknowledge_inv fail_submission_inv
  expired_inv close_inv fail_drop_point_inv purge_inv add_token_inv disable_token_inv
  remove_token_inv submission_delete_inv

lemma db_step_inv: "db_step d d' \<Longrightarrow> db_inv d \<Longrightarrow> db_inv d'"
proof (induction rule: db_step.induct)
  case (step_delete dpid sid d n d')
  then show ?case
    by (auto simp: stmt_delete_receiving_def Let_def intro: submission_delete_inv)
next
  case (step_clear_submission dpid sid d n d')
  then show ?case unfolding stmt_clear_submission_def by (blast intro: clear_inv)
next
  case (step_clear_drop_point dpid d n d')
  then show ?case unfolding stmt_clear_drop_point_def by (blast intro: clear_inv)
qed (blast intro: stmt_inv)+

interpretation relay_db: invariant_system db_step db_inv
  by unfold_locales (rule db_step_inv)

end
