(* ===== verification/Store.thy ===== *)
theory Store
  imports Db_Invariant
begin

text \<open>
  The repository of \<open>internal/store/repository.go\<close> and \<open>internal/store/api_tokens.go\<close>: one
  operation per method, statement by statement, with every error check of the source. The
  receiver is never nil here, so \<open>ensureReady\<close> always succeeds. Two kinds of facts follow: under
  any faults a method only performs database steps, hence keeps the database invariant; without
  faults it computes the pure function given next to it.
\<close>

section \<open>Drop points\<close>

definition repo_markExpired :: "go_string \<Rightarrow> unit result io" where
  "repo_markExpired dpid = do {
     r \<leftarrow> sql_exec (stmt_mark_expired dpid);
     State_Monad.return (case r of Inl err \<Rightarrow> Inl err | Inr _ \<Rightarrow> Inr ())
   }"

definition repo_CreateDropPointWithinQuota :: "drop_point \<Rightarrow> int \<Rightarrow> time \<Rightarrow> unit result io" where
  "repo_CreateDropPointWithinQuota dp maxActive now =
     (if maxActive \<le> 0 then State_Monad.return (Inl (ErrOther ''max active drop points must be positive''))
      else do {
        r \<leftarrow> sql_exec (stmt_insert_drop_point dp maxActive now);
        case r of
          Inl err \<Rightarrow> State_Monad.return (Inl err)
        | Inr n \<Rightarrow> do {
            changed \<leftarrow> rows_affected n;
            State_Monad.return (case changed of
                Inl err \<Rightarrow> Inl err
              | Inr c \<Rightarrow> if c = 0 then Inl ErrActiveDropPointQuotaExceeded else Inr ())
          }
      })"

definition repo_FindDropPointByID :: "go_string \<Rightarrow> drop_point result io" where
  "repo_FindDropPointByID dpid = do {
     r \<leftarrow> sql_query (query_drop_point (\<lambda>r. dpr_id r = dpid));
     State_Monad.return (case r of
         Inl err \<Rightarrow> Inl (if errors_is err ErrNoRows then ErrDropPointNotFound else err)
       | Inr dp \<Rightarrow> Inr dp)
   }"

text \<open>The shared tail of the two lookups that expire lazily.\<close>

definition expire_if_elapsed :: "drop_point \<Rightarrow> time \<Rightarrow> drop_point result io" where
  "expire_if_elapsed dp now =
     (if \<not> now < dp_ExpiresAt dp \<and> dp_Status dp = StatusOpen then do {
        r \<leftarrow> repo_markExpired (dp_ID dp);
        State_Monad.return (case r of
            Inl err \<Rightarrow> Inl err
          | Inr _ \<Rightarrow> Inr (dp\<lparr>dp_Status := StatusExpired\<rparr>))
      }
      else State_Monad.return (Inr dp))"

definition repo_FindDropPointByDropTokenHash :: "go_string \<Rightarrow> time \<Rightarrow> drop_point result io" where
  "repo_FindDropPointByDropTokenHash hash now = do {
     r \<leftarrow> sql_query (query_drop_point (\<lambda>r. dpr_drop_token_hash r = hash));
     case r of
       Inl err \<Rightarrow>
         State_Monad.return (Inl (if errors_is err ErrNoRows then ErrDropTokenInvalid else err))
     | Inr dp \<Rightarrow> expire_if_elapsed dp now
   }"

definition repo_FindOpenDropPointByDropTokenHash :: "go_string \<Rightarrow> time \<Rightarrow> drop_point result io" where
  "repo_FindOpenDropPointByDropTokenHash hash now = do {
     r \<leftarrow> repo_FindDropPointByDropTokenHash hash now;
     State_Monad.return (case r of
         Inl err \<Rightarrow> Inl err
       | Inr dp \<Rightarrow> (case RequireOpen dp now of Some err \<Rightarrow> Inl err | None \<Rightarrow> Inr dp))
   }"

definition repo_AuthorizePickupToken :: "go_string \<Rightarrow> go_string \<Rightarrow> time \<Rightarrow> drop_point result io" where
  "repo_AuthorizePickupToken dpid pickupTokenHash now = do {
     r \<leftarrow> repo_FindDropPointByID dpid;
     case r of
       Inl err \<Rightarrow> State_Monad.return (Inl err)
     | Inr dp \<Rightarrow>
         if \<not> EqualHash (dp_PickupTokenHash dp) pickupTokenHash
         then State_Monad.return (Inl ErrPickupTokenInvalid)
         else expire_if_elapsed dp now
   }"

definition repo_CloseDropPoint :: "go_string \<Rightarrow> time \<Rightarrow> unit result io" where
  "repo_CloseDropPoint dpid now = do {
     r \<leftarrow> repo_FindDropPointByID dpid;
     case r of
       Inl err \<Rightarrow> State_Monad.return (Inl err)
     | Inr dp \<Rightarrow>
     if dp_Status dp = StatusClosed then State_Monad.return (Inr ())
     else case RequireOpen dp now of
       Some err \<Rightarrow>
         if errors_is err ErrDropPointExpired then do {
           m \<leftarrow> repo_markExpired dpid;
           State_Monad.return (case m of Inl markErr \<Rightarrow> Inl markErr | Inr _ \<Rightarrow> Inl err)
         }
         else State_Monad.return (Inl err)
     | None \<Rightarrow> do {
         u \<leftarrow> sql_exec (stmt_close dpid now);
         case u of
           Inl err \<Rightarrow> State_Monad.return (Inl err)
         | Inr n \<Rightarrow> do {
         changed \<leftarrow> rows_affected n;
         case changed of
           Inl err \<Rightarrow> State_Monad.return (Inl err)
         | Inr c \<Rightarrow>
         if c = 1 then State_Monad.return (Inr ())
         else do {
           r2 \<leftarrow> repo_FindDropPointByID dpid;
           case r2 of
             Inl err \<Rightarrow> State_Monad.return (Inl err)
           | Inr dp2 \<Rightarrow>
           if dp_Status dp2 = StatusClosed then State_Monad.return (Inr ())
           else case RequireOpen dp2 now of
             Some err \<Rightarrow>
               if errors_is err ErrDropPointExpired then do {
                 m \<leftarrow> repo_markExpired dpid;
                 State_Monad.return (case m of Inl markErr \<Rightarrow> Inl markErr | Inr _ \<Rightarrow> Inl err)
               }
               else State_Monad.return (Inl err)
           | None \<Rightarrow> State_Monad.return (Inl ErrDropPointNotOpen)
         }}
       }
   }"

definition repo_FailDropPoint :: "go_string \<Rightarrow> time \<Rightarrow> unit result io" where
  "repo_FailDropPoint dpid now = do {
     u \<leftarrow> sql_exec (stmt_fail_drop_point dpid now);
     case u of
       Inl err \<Rightarrow> State_Monad.return (Inl err)
     | Inr n \<Rightarrow> do {
     changed \<leftarrow> rows_affected n;
     if changed = Inr 1 then State_Monad.return (Inr ())
     else do {
       r \<leftarrow> repo_FindDropPointByID dpid;
       State_Monad.return (case r of
           Inl findErr \<Rightarrow> Inl findErr
         | Inr dp \<Rightarrow> if dp_Status dp = StatusFailed then Inr ()
                    else Inl (unavailableDropPointError (dp_Status dp)))
     }}
   }"

text \<open>The loop of \<open>ExpireDropPoints\<close> stops at the first failing update.\<close>

fun mark_all_expired :: "drop_point list \<Rightarrow> unit result io" where
  "mark_all_expired [] = State_Monad.return (Inr ())"
| "mark_all_expired (dp # dps) = do {
     r \<leftarrow> repo_markExpired (dp_ID dp);
     case r of Inl err \<Rightarrow> State_Monad.return (Inl err) | Inr _ \<Rightarrow> mark_all_expired dps
   }"

definition repo_ExpireDropPoints :: "time \<Rightarrow> drop_point list result io" where
  "repo_ExpireDropPoints now = do {
     r \<leftarrow> sql_query (query_expired now);
     case r of
       Inl err \<Rightarrow> State_Monad.return (Inl err)
     | Inr expired \<Rightarrow> do {
         m \<leftarrow> mark_all_expired expired;
         State_Monad.return (case m of Inl err \<Rightarrow> Inl err | Inr _ \<Rightarrow> Inr expired)
       }
   }"

definition repo_TerminalDropPoints :: "drop_point list result io" where
  "repo_TerminalDropPoints = sql_query query_terminal"

definition repo_DropPointIDs :: "go_string list result io" where
  "repo_DropPointIDs = sql_query query_ids"

definition repo_PurgeTerminalDropPoints :: "time \<Rightarrow> nat result io" where
  "repo_PurgeTerminalDropPoints cutoff = do {
     r \<leftarrow> sql_exec (stmt_purge cutoff);
     case r of Inl err \<Rightarrow> State_Monad.return (Inl err) | Inr n \<Rightarrow> rows_affected n
   }"

section \<open>Submissions\<close>

definition repo_FindSubmission :: "go_string \<Rightarrow> go_string \<Rightarrow> submission result io" where
  "repo_FindSubmission dpid sid = do {
     r \<leftarrow> sql_query (query_submission dpid sid);
     State_Monad.return (case r of
         Inl err \<Rightarrow> Inl (if errors_is err ErrNoRows then ErrSubmissionNotFound else err)
       | Inr s \<Rightarrow> Inr s)
   }"

definition repo_BeginSubmission :: "go_string \<Rightarrow> go_string \<Rightarrow> time \<Rightarrow> unit result io" where
  "repo_BeginSubmission dpid sid now = do {
     r \<leftarrow> sql_exec (stmt_begin dpid sid now);
     case r of
       Inl err \<Rightarrow>
         State_Monad.return (Inl (if errors_is err ErrUniqueConstraint then ErrSubmissionAlreadyExists else err))
     | Inr n \<Rightarrow> do {
     changed \<leftarrow> rows_affected n;
     case changed of
       Inl err \<Rightarrow> State_Monad.return (Inl err)
     | Inr c \<Rightarrow>
     if c = 1 then State_Monad.return (Inr ())
     else do {
       f \<leftarrow> repo_FindDropPointByID dpid;
       case f of
         Inl err \<Rightarrow> State_Monad.return (Inl err)
       | Inr dp \<Rightarrow>
       (case RequireOpen dp now of
         Some err \<Rightarrow>
           if errors_is err ErrDropPointExpired then do {
             m \<leftarrow> repo_markExpired dpid;
             State_Monad.return (case m of Inl markErr \<Rightarrow> Inl markErr | Inr _ \<Rightarrow> Inl err)
           }
           else State_Monad.return (Inl err)
       | None \<Rightarrow> do {
           s \<leftarrow> repo_FindSubmission dpid sid;
           State_Monad.return (case s of
               Inr _ \<Rightarrow> Inl ErrSubmissionAlreadyExists
             | Inl err \<Rightarrow> if \<not> errors_is err ErrSubmissionNotFound then Inl err
                          else Inl ErrPendingSubmissionQuotaExceeded)
         })
     }}
   }"

definition repo_CommitSubmission ::
    "go_string \<Rightarrow> go_string \<Rightarrow> commit_submission_result \<Rightarrow> time \<Rightarrow> unit result io" where
  "repo_CommitSubmission dpid sid stored now =
     (if cs_EnvelopePath stored = [] \<or> cs_PayloadPath stored = [] \<or> cs_EncryptedSize stored < 0
      then State_Monad.return (Inl (ErrOther ''commit submission: invalid stored result''))
      else sql_exec (tx_commit dpid sid stored now))"

definition repo_DeleteReceivingSubmission :: "go_string \<Rightarrow> go_string \<Rightarrow> unit result io" where
  "repo_DeleteReceivingSubmission dpid sid = do {
     r \<leftarrow> sql_exec (stmt_delete_receiving dpid sid);
     State_Monad.return (case r of Inl err \<Rightarrow> Inl err | Inr _ \<Rightarrow> Inr ())
   }"

definition repo_ListReadySubmissions :: "go_string \<Rightarrow> submission list result io" where
  "repo_ListReadySubmissions dpid =
     sql_query (query_submissions
       (\<lambda>r. sr_drop_point_id r = dpid \<and> sr_status r = SubmissionStatusReady)
       (\<lambda>r. (sr_dropped_at r, sr_id r)))"

definition repo_PendingStats :: "go_string \<Rightarrow> (nat \<times> int) result io" where
  "repo_PendingStats dpid = sql_query (\<lambda>d. Inr (pending_count d dpid, ready_bytes d dpid))"

definition repo_MarkSubmissionPickedUp :: "go_string \<Rightarrow> go_string \<Rightarrow> time \<Rightarrow> unit result io" where
  "repo_MarkSubmissionPickedUp dpid sid now = do {
     u \<leftarrow> sql_exec (stmt_mark_picked_up dpid sid now);
     case u of
       Inl err \<Rightarrow> State_Monad.return (Inl err)
     | Inr n \<Rightarrow> do {
     changed \<leftarrow> rows_affected n;
     case changed of
       Inl err \<Rightarrow> State_Monad.return (Inl err)
     | Inr c \<Rightarrow>
     if c = 1 then State_Monad.return (Inr ())
     else do {
       s \<leftarrow> repo_FindSubmission dpid sid;
       State_Monad.return (case s of
           Inl findErr \<Rightarrow> Inl findErr
         | Inr s \<Rightarrow> Inl (submissionUnavailableError (sub_Status s)))
     }}
   }"

definition repo_AcknowledgeSubmission :: "go_string \<Rightarrow> go_string \<Rightarrow> time \<Rightarrow> unit result io" where
  "repo_AcknowledgeSubmission dpid sid now = do {
     u \<leftarrow> sql_exec (stmt_acknowledge dpid sid now);
     case u of
       Inl err \<Rightarrow> State_Monad.return (Inl err)
     | Inr n \<Rightarrow> do {
     changed \<leftarrow> rows_affected n;
     case changed of
       Inl err \<Rightarrow> State_Monad.return (Inl err)
     | Inr c \<Rightarrow>
     if c = 1 then State_Monad.return (Inr ())
     else do {
       s \<leftarrow> repo_FindSubmission dpid sid;
       State_Monad.return (case s of
           Inl findErr \<Rightarrow> Inl findErr
         | Inr s \<Rightarrow> if sub_Status s = SubmissionStatusAcknowledged then Inr ()
                   else Inl (submissionUnavailableError (sub_Status s)))
     }}
   }"

definition repo_FailSubmission :: "go_string \<Rightarrow> go_string \<Rightarrow> time \<Rightarrow> unit result io" where
  "repo_FailSubmission dpid sid now = do {
     u \<leftarrow> sql_exec (stmt_fail_submission dpid sid now);
     case u of
       Inl err \<Rightarrow> State_Monad.return (Inl err)
     | Inr n \<Rightarrow> do {
     changed \<leftarrow> rows_affected n;
     if changed = Inr 1 then State_Monad.return (Inr ())
     else do {
       s \<leftarrow> repo_FindSubmission dpid sid;
       State_Monad.return (case s of
           Inl findErr \<Rightarrow> Inl findErr
         | Inr s \<Rightarrow> if sub_Status s = SubmissionStatusFailed then Inr ()
                   else Inl (submissionUnavailableError (sub_Status s)))
     }}
   }"

definition repo_ClearSubmissionFiles :: "go_string \<Rightarrow> go_string \<Rightarrow> unit result io" where
  "repo_ClearSubmissionFiles dpid sid = do {
     r \<leftarrow> sql_exec (stmt_clear_submission dpid sid);
     State_Monad.return (case r of Inl err \<Rightarrow> Inl err | Inr _ \<Rightarrow> Inr ())
   }"

definition repo_ClearDropPointFiles :: "go_string \<Rightarrow> unit result io" where
  "repo_ClearDropPointFiles dpid = do {
     r \<leftarrow> sql_exec (stmt_clear_drop_point dpid);
     State_Monad.return (case r of Inl err \<Rightarrow> Inl err | Inr _ \<Rightarrow> Inr ())
   }"

definition repo_ReceivingSubmissions :: "submission list result io" where
  "repo_ReceivingSubmissions =
     sql_query (query_submissions (\<lambda>r. sr_status r = SubmissionStatusReceiving) sr_key)"

definition repo_ReceivingSubmissionsStartedBefore :: "time \<Rightarrow> submission list result io" where
  "repo_ReceivingSubmissionsStartedBefore cutoff =
     sql_query (query_submissions
       (\<lambda>r. sr_status r = SubmissionStatusReceiving \<and> sr_receiving_started_at r \<le> cutoff) sr_key)"

definition repo_CleanupSubmissions :: "submission list result io" where
  "repo_CleanupSubmissions =
     sql_query (query_submissions
       (\<lambda>r. sr_status r \<in> {SubmissionStatusAcknowledged, SubmissionStatusFailed}) sr_key)"

definition repo_SubmissionFilesForDropPoint :: "go_string \<Rightarrow> submission list result io" where
  "repo_SubmissionFilesForDropPoint dpid =
     sql_query (query_submissions (\<lambda>r. sr_drop_point_id r = dpid \<and> has_pointers r) sr_id)"

section \<open>API tokens\<close>

definition repo_AddAPIToken :: "add_api_token_params \<Rightarrow> unit result io" where
  "repo_AddAPIToken p =
     (case validateAPITokenFields (ap_ID p) (ap_SecretHash p) (ap_MaxActiveDropPoints p) of
        Some err \<Rightarrow> State_Monad.return (Inl err)
      | None \<Rightarrow>
          if ap_CreatedAt p = zero_time
          then State_Monad.return (Inl (ErrOther ''api token created_at must not be zero''))
          else do {
            r \<leftarrow> sql_exec (stmt_add_token p);
            State_Monad.return (case r of Inl err \<Rightarrow> Inl err | Inr _ \<Rightarrow> Inr ())
          })"

definition repo_FindEnabledAPITokenBySecretHash :: "go_string \<Rightarrow> api_token result io" where
  "repo_FindEnabledAPITokenBySecretHash hash =
     (if \<not> ValidSHA256Hash hash then State_Monad.return (Inl ErrStoreAPITokenNotFound)
      else do {
        r \<leftarrow> sql_query (query_enabled_token hash);
        State_Monad.return (case r of
            Inl err \<Rightarrow> Inl (if errors_is err ErrNoRows then ErrStoreAPITokenNotFound else err)
          | Inr t \<Rightarrow> Inr t)
      })"

definition repo_ListAPITokens :: "api_token list result io" where
  "repo_ListAPITokens = sql_query query_tokens"

text \<open>The shared shape of \<open>DisableAPIToken\<close> and \<open>RemoveAPIToken\<close>: no row is an error.\<close>

definition exec_on_token :: "stmt \<Rightarrow> unit result io" where
  "exec_on_token stmt = do {
     r \<leftarrow> sql_exec stmt;
     case r of
       Inl err \<Rightarrow> State_Monad.return (Inl err)
     | Inr n \<Rightarrow> do {
         changed \<leftarrow> rows_affected n;
         State_Monad.return (case changed of
             Inl err \<Rightarrow> Inl err
           | Inr c \<Rightarrow> if c = 0 then Inl ErrStoreAPITokenNotFound else Inr ())
       }
   }"

definition repo_DisableAPIToken :: "go_string \<Rightarrow> time \<Rightarrow> unit result io" where
  "repo_DisableAPIToken tid now =
     (if tid = [] then State_Monad.return (Inl (ErrOther ''api token id must not be empty''))
      else if now = zero_time
      then State_Monad.return (Inl (ErrOther ''api token disabled_at must not be zero''))
      else exec_on_token (stmt_disable_token tid now))"

definition repo_RemoveAPIToken :: "go_string \<Rightarrow> unit result io" where
  "repo_RemoveAPIToken tid =
     (if tid = [] then State_Monad.return (Inl (ErrOther ''api token id must not be empty''))
      else exec_on_token (stmt_remove_token tid))"

end
