(* ===== verification/Store_Facts.thy ===== *)
theory Store_Facts
  imports Store
begin

text \<open>
  What the repository guarantees. First, under every fault schedule: each method only performs
  database steps and never touches the file system, so it keeps the database invariant, and a
  success it reports is real. Then, without faults: the exact outcome of the methods that carry
  the lifecycle, which is the domain operation of the same name applied to the stored record.
\<close>

section \<open>Every method only performs database steps\<close>

definition db_only :: "world \<Rightarrow> world \<Rightarrow> bool" where
  "db_only w w' \<longleftrightarrow> db_step\<^sup>*\<^sup>* (w_db w) (w_db w') \<and> w_fs w' = w_fs w"

interpretation store: io_frame db_only
  by unfold_locales (auto simp: db_only_def intro: rtranclp_trans)

lemma keeps_step:
  "(\<And>d x d'. stmt d = Inr (x, d') \<Longrightarrow> db_step d d') \<Longrightarrow> keeps db_only (sql_exec stmt)"
  by (rule store.keeps_exec) (auto simp: db_only_def)

lemma keeps_statements:
  "keeps db_only (sql_exec (stmt_begin dpid sid now))"
  "keeps db_only (sql_exec (stmt_delete_receiving dpid sid))"
  "keeps db_only (sql_exec (stmt_mark_picked_up dpid sid now))"
  "keeps db_only (sql_exec (stmt_acknowledge dpid sid now))"
  "keeps db_only (sql_exec (stmt_fail_submission dpid sid now))"
  "keeps db_only (sql_exec (stmt_clear_submission dpid sid))"
  "keeps db_only (sql_exec (stmt_clear_drop_point dpid))"
  "keeps db_only (sql_exec (stmt_mark_expired dpid))"
  "keeps db_only (sql_exec (stmt_close dpid now))"
  "keeps db_only (sql_exec (stmt_fail_drop_point dpid now))"
  "keeps db_only (sql_exec (stmt_purge cutoff))"
  "keeps db_only (sql_exec (stmt_disable_token tid now))"
  "keeps db_only (sql_exec (stmt_remove_token tid))"
  by (rule keeps_step, blast intro: db_step.intros)+

lemma keeps_create:
  "dp_wf dp \<Longrightarrow> dp_Status dp = StatusOpen \<Longrightarrow> is_int64 (dp_MaxPendingBytes dp) \<Longrightarrow>
   keeps db_only (sql_exec (stmt_insert_drop_point dp maxActive now))"
  by (rule keeps_step) (blast intro: db_step.intros)

lemma keeps_commit:
  "\<not> (cs_EnvelopePath stored = [] \<or> cs_PayloadPath stored = [] \<or> cs_EncryptedSize stored < 0) \<Longrightarrow>
   is_int64 (cs_EncryptedSize stored) \<Longrightarrow>
   keeps db_only (sql_exec (tx_commit dpid sid stored now))"
  by (rule keeps_step) (auto intro!: step_commit)

lemma keeps_add_token:
  "validateAPITokenFields (ap_ID p) (ap_SecretHash p) (ap_MaxActiveDropPoints p) = None \<Longrightarrow>
   keeps db_only (sql_exec (stmt_add_token p))"
  by (rule keeps_step) (blast intro: db_step.intros)

lemmas keeps_store = store.keeps_prims keeps_cases keeps_statements keeps_create keeps_commit
  keeps_add_token

lemma keeps_repo_basic:
  "keeps db_only (repo_markExpired dpid)"
  "keeps db_only (repo_FindDropPointByID dpid)"
  "keeps db_only (repo_FindSubmission dpid sid)"
  unfolding repo_markExpired_def repo_FindDropPointByID_def repo_FindSubmission_def
  by (intro keeps_store)+

lemma keeps_expire_if_elapsed: "keeps db_only (expire_if_elapsed dp now)"
  unfolding expire_if_elapsed_def by (intro keeps_store keeps_repo_basic)

lemma keeps_find_by_hash: "keeps db_only (repo_FindDropPointByDropTokenHash h now)"
  unfolding repo_FindDropPointByDropTokenHash_def by (intro keeps_store keeps_expire_if_elapsed)

lemma keeps_mark_all: "keeps db_only (mark_all_expired dps)"
  by (induction dps) (simp_all, (intro keeps_store keeps_repo_basic; simp)+)

lemma keeps_repo_drop_points:
  "dp_wf dp \<Longrightarrow> dp_Status dp = StatusOpen \<Longrightarrow> is_int64 (dp_MaxPendingBytes dp) \<Longrightarrow>
     keeps db_only (repo_CreateDropPointWithinQuota dp maxActive now)"
  "keeps db_only (repo_FindOpenDropPointByDropTokenHash h now)"
  "keeps db_only (repo_AuthorizePickupToken dpid h now)"
  "keeps db_only (repo_CloseDropPoint dpid now)"
  "keeps db_only (repo_FailDropPoint dpid now)"
  "keeps db_only (repo_ExpireDropPoints now)"
  "keeps db_only repo_TerminalDropPoints"
  "keeps db_only repo_DropPointIDs"
  "keeps db_only (repo_PurgeTerminalDropPoints cutoff)"
  unfolding repo_CreateDropPointWithinQuota_def repo_FindOpenDropPointByDropTokenHash_def
    repo_AuthorizePickupToken_def repo_CloseDropPoint_def repo_FailDropPoint_def
    repo_ExpireDropPoints_def repo_TerminalDropPoints_def repo_DropPointIDs_def
    repo_PurgeTerminalDropPoints_def
  by (intro keeps_store keeps_repo_basic keeps_find_by_hash keeps_expire_if_elapsed keeps_mark_all;
      assumption?)+

lemma keeps_repo_submissions:
  "keeps db_only (repo_BeginSubmission dpid sid now)"
  "is_int64 (cs_EncryptedSize stored) \<Longrightarrow> keeps db_only (repo_CommitSubmission dpid sid stored now)"
  "keeps db_only (repo_DeleteReceivingSubmission dpid sid)"
  "keeps db_only (repo_ListReadySubmissions dpid)"
  "keeps db_only (repo_PendingStats dpid)"
  "keeps db_only (repo_MarkSubmissionPickedUp dpid sid now)"
  "keeps db_only (repo_AcknowledgeSubmission dpid sid now)"
  "keeps db_only (repo_FailSubmission dpid sid now)"
  "keeps db_only (repo_ClearSubmissionFiles dpid sid)"
  "keeps db_only (repo_ClearDropPointFiles dpid)"
  "keeps db_only repo_ReceivingSubmissions"
  "keeps db_only (repo_ReceivingSubmissionsStartedBefore cutoff)"
  "keeps db_only repo_CleanupSubmissions"
  "keeps db_only (repo_SubmissionFilesForDropPoint dpid)"
  unfolding repo_BeginSubmission_def repo_CommitSubmission_def repo_DeleteReceivingSubmission_def
    repo_ListReadySubmissions_def repo_PendingStats_def repo_MarkSubmissionPickedUp_def
    repo_AcknowledgeSubmission_def repo_FailSubmission_def repo_ClearSubmissionFiles_def
    repo_ClearDropPointFiles_def repo_ReceivingSubmissions_def
    repo_ReceivingSubmissionsStartedBefore_def repo_CleanupSubmissions_def
    repo_SubmissionFilesForDropPoint_def
  by (intro keeps_store keeps_repo_basic; assumption?)+

lemma keeps_repo_tokens:
  "keeps db_only (repo_AddAPIToken p)"
  "keeps db_only (repo_FindEnabledAPITokenBySecretHash h)"
  "keeps db_only repo_ListAPITokens"
  "keeps db_only (repo_DisableAPIToken tid now)"
  "keeps db_only (repo_RemoveAPIToken tid)"
  unfolding repo_AddAPIToken_def repo_FindEnabledAPITokenBySecretHash_def repo_ListAPITokens_def
    repo_DisableAPIToken_def repo_RemoveAPIToken_def exec_on_token_def
  by (intro keeps_store; assumption?)+

lemmas keeps_repo = keeps_repo_basic keeps_find_by_hash keeps_mark_all keeps_repo_drop_points
  keeps_repo_submissions keeps_repo_tokens

section \<open>Stored records\<close>

definition drop_point_at :: "db \<Rightarrow> go_string \<Rightarrow> drop_point option" where
  "drop_point_at d dpid = map_option drop_point_of_row (find (\<lambda>r. dpr_id r = dpid) (drop_points d))"

definition submission_at :: "db \<Rightarrow> go_string \<Rightarrow> go_string \<Rightarrow> submission option" where
  "submission_at d dpid sid =
     map_option submission_of_row (find (\<lambda>r. sr_key r = (dpid, sid)) (submissions d))"

lemma drop_point_at_wf:
  assumes "db_inv d" "drop_point_at d dpid = Some dp"
  shows "dp_wf dp \<and> dp_ID dp = dpid"
  using assms by (auto simp: drop_point_at_def db_inv_def rows_inv_def dpr_wf_def find_Some_iff)
    (simp add: drop_point_of_row_def)

lemma submission_at_wf:
  assumes "db_inv d" "submission_at d dpid sid = Some s"
  shows "sub_wf s \<and> sub_DropPointID s = dpid \<and> sub_ID s = sid"
  using assms by (auto simp: submission_at_def db_inv_def rows_inv_def sr_wf_def find_Some_iff)
    (simp_all add: submission_of_row_def sr_key_def)

lemma inv_distinct:
  "db_inv d \<Longrightarrow> distinct (map dpr_id (drop_points d))"
  "db_inv d \<Longrightarrow> distinct (map sr_key (submissions d))"
  by (simp_all add: db_inv_def keys_inv_def)

lemma query_drop_point_at:
  assumes "db_inv d"
  shows "query_drop_point (\<lambda>r. dpr_id r = dpid) d =
    (case drop_point_at d dpid of None \<Rightarrow> Inl ErrNoRows | Some dp \<Rightarrow> Inr dp)"
  using assms
  by (auto simp: query_drop_point_def drop_point_at_def db_inv_def rows_inv_def dpr_wf_def
      scanDropPoint_wf dest!: find_SomeD split: option.splits)

lemma query_submission_at:
  assumes "db_inv d"
  shows "query_submission dpid sid d =
    (case submission_at d dpid sid of None \<Rightarrow> Inl ErrNoRows | Some s \<Rightarrow> Inr s)"
  using assms
  by (auto simp: query_submission_def submission_at_def db_inv_def rows_inv_def sr_wf_def
      scanSubmission_wf dest!: find_SomeD split: option.splits)

text \<open>A statement that updates the record with one key: what it reports, and what every stored
  record is afterwards.\<close>

definition dp_updated ::
    "db \<Rightarrow> db \<Rightarrow> go_string \<Rightarrow> (drop_point \<Rightarrow> bool) \<Rightarrow> (drop_point \<Rightarrow> drop_point) \<Rightarrow> bool" where
  "dp_updated d d' dpid C g \<longleftrightarrow>
     (\<forall>j. drop_point_at d' j =
        map_option (\<lambda>dp. if j = dpid \<and> C dp then g dp else dp) (drop_point_at d j))
     \<and> submissions d' = submissions d \<and> api_tokens d' = api_tokens d"

definition sub_updated ::
    "db \<Rightarrow> db \<Rightarrow> go_string \<Rightarrow> go_string \<Rightarrow> (submission \<Rightarrow> bool) \<Rightarrow> (submission \<Rightarrow> submission) \<Rightarrow> bool" where
  "sub_updated d d' dpid sid C g \<longleftrightarrow>
     (\<forall>i j. submission_at d' i j =
        map_option (\<lambda>s. if (i, j) = (dpid, sid) \<and> C s then g s else s) (submission_at d i j))
     \<and> drop_points d' = drop_points d \<and> api_tokens d' = api_tokens d"

definition hits :: "('a \<Rightarrow> bool) \<Rightarrow> 'a option \<Rightarrow> nat" where
  "hits C x = (case x of None \<Rightarrow> 0 | Some a \<Rightarrow> if C a then 1 else 0)"

lemma update_drop_point_at:
  assumes inv: "db_inv d"
    and key: "\<And>r. dpr_id (f r) = dpr_id r"
    and view: "\<And>r. drop_point_of_row (f r) = g (drop_point_of_row r)"
    and cond: "\<And>r. Q r \<longleftrightarrow> C (drop_point_of_row r)"
  shows "\<exists>d'. update_drop_points (\<lambda>r. dpr_id r = dpid \<and> Q r) f d =
      Inr (hits C (drop_point_at d dpid), d') \<and> dp_updated d d' dpid C g"
proof -
  have find_update: "find (\<lambda>r. dpr_id r = x) (update_where P f t) =
      map_option (\<lambda>r. if P r then f r else r) (find (\<lambda>r. dpr_id r = x) t)" for x P t
    by (rule keyed_update.find_update) (simp add: keyed_update_def key)
  let ?d' = "d\<lparr>drop_points := update_where (\<lambda>r. dpr_id r = dpid \<and> Q r) f (drop_points d)\<rparr>"
  have "update_drop_points (\<lambda>r. dpr_id r = dpid \<and> Q r) f d =
      Inr (hits C (drop_point_at d dpid), ?d')"
    by (auto simp: update_drop_points_def count_where_find [OF inv_distinct(1) [OF inv]]
        drop_point_at_def cond hits_def split: option.splits)
  moreover have "dp_updated d ?d' dpid C g"
    by (auto simp: dp_updated_def drop_point_at_def find_update view cond option.map_comp
        find_Some_iff intro!: map_option_cong)
  ultimately show ?thesis by blast
qed

lemma update_submission_at:
  assumes inv: "db_inv d"
    and key: "\<And>r. sr_key (f r) = sr_key r"
    and view: "\<And>r. submission_of_row (f r) = g (submission_of_row r)"
    and cond: "\<And>r. Q r \<longleftrightarrow> C (submission_of_row r)"
  shows "\<exists>d'. update_submissions (\<lambda>r. sr_key r = (dpid, sid) \<and> Q r) f d =
      Inr (hits C (submission_at d dpid sid), d') \<and> sub_updated d d' dpid sid C g"
proof -
  have find_update: "find (\<lambda>r. sr_key r = x) (update_where P f t) =
      map_option (\<lambda>r. if P r then f r else r) (find (\<lambda>r. sr_key r = x) t)" for x P t
    by (rule keyed_update.find_update) (simp add: keyed_update_def key)
  let ?d' = "d\<lparr>submissions := update_where (\<lambda>r. sr_key r = (dpid, sid) \<and> Q r) f (submissions d)\<rparr>"
  have "update_submissions (\<lambda>r. sr_key r = (dpid, sid) \<and> Q r) f d =
      Inr (hits C (submission_at d dpid sid), ?d')"
    by (auto simp: update_submissions_def count_where_find [OF inv_distinct(2) [OF inv]]
        submission_at_def cond hits_def split: option.splits)
  moreover have "sub_updated d ?d' dpid sid C g"
    by (auto simp: sub_updated_def submission_at_def find_update view cond option.map_comp
        find_Some_iff intro!: map_option_cong)
  ultimately show ?thesis by blast
qed

lemma stmt_mark_expired_at:
  "db_inv d \<Longrightarrow> \<exists>d'. stmt_mark_expired dpid d =
      Inr (hits (\<lambda>dp. dp_Status dp = StatusOpen) (drop_point_at d dpid), d')
    \<and> dp_updated d d' dpid (\<lambda>dp. dp_Status dp = StatusOpen) (\<lambda>dp. dp\<lparr>dp_Status := StatusExpired\<rparr>)"
  unfolding stmt_mark_expired_def
  by (rule update_drop_point_at) (auto simp: set_expired_def drop_point_of_row_def)

lemma stmt_close_at:
  "db_inv d \<Longrightarrow> \<exists>d'. stmt_close dpid now d =
      Inr (hits (\<lambda>dp. dp_Status dp = StatusOpen \<and> now < dp_ExpiresAt dp) (drop_point_at d dpid), d')
    \<and> dp_updated d d' dpid (\<lambda>dp. dp_Status dp = StatusOpen \<and> now < dp_ExpiresAt dp)
        (\<lambda>dp. dp\<lparr>dp_Status := StatusClosed, dp_ClosedAt := Some now\<rparr>)"
  unfolding stmt_close_def
  by (rule update_drop_point_at) (auto simp: set_closed_def drop_point_of_row_def)

lemma stmt_fail_drop_point_at:
  "db_inv d \<Longrightarrow> \<exists>d'. stmt_fail_drop_point dpid now d =
      Inr (hits (\<lambda>dp. dp_Status dp = StatusOpen) (drop_point_at d dpid), d')
    \<and> dp_updated d d' dpid (\<lambda>dp. dp_Status dp = StatusOpen)
        (\<lambda>dp. dp\<lparr>dp_Status := StatusFailed, dp_FailedAt := coalesce (dp_FailedAt dp) now\<rparr>)"
  unfolding stmt_fail_drop_point_def
  by (rule update_drop_point_at) (auto simp: set_failed_def drop_point_of_row_def)

lemma stmt_mark_picked_up_at:
  "db_inv d \<Longrightarrow> \<exists>d'. stmt_mark_picked_up dpid sid now d =
      Inr (hits (\<lambda>s. sub_Status s \<in> {SubmissionStatusReady, SubmissionStatusAcknowledged})
             (submission_at d dpid sid), d')
    \<and> sub_updated d d' dpid sid
        (\<lambda>s. sub_Status s \<in> {SubmissionStatusReady, SubmissionStatusAcknowledged})
        (\<lambda>s. s\<lparr>sub_FirstPickedUpAt := coalesce (sub_FirstPickedUpAt s) now\<rparr>)"
  unfolding stmt_mark_picked_up_def
  by (rule update_submission_at) (auto simp: set_picked_up_def submission_of_row_def sr_key_def)

lemma stmt_acknowledge_at:
  "db_inv d \<Longrightarrow> \<exists>d'. stmt_acknowledge dpid sid now d =
      Inr (hits (\<lambda>s. sub_Status s = SubmissionStatusReady) (submission_at d dpid sid), d')
    \<and> sub_updated d d' dpid sid (\<lambda>s. sub_Status s = SubmissionStatusReady)
        (\<lambda>s. s\<lparr>sub_Status := SubmissionStatusAcknowledged,
               sub_AcknowledgedAt := coalesce (sub_AcknowledgedAt s) now\<rparr>)"
  unfolding stmt_acknowledge_def
  by (rule update_submission_at) (auto simp: set_acknowledged_def submission_of_row_def sr_key_def)

lemma stmt_fail_submission_at:
  "db_inv d \<Longrightarrow> \<exists>d'. stmt_fail_submission dpid sid now d =
      Inr (hits (\<lambda>s. sub_Status s \<in> {SubmissionStatusReceiving, SubmissionStatusReady})
             (submission_at d dpid sid), d')
    \<and> sub_updated d d' dpid sid
        (\<lambda>s. sub_Status s \<in> {SubmissionStatusReceiving, SubmissionStatusReady})
        (\<lambda>s. s\<lparr>sub_Status := SubmissionStatusFailed, sub_FailedAt := coalesce (sub_FailedAt s) now\<rparr>)"
  unfolding stmt_fail_submission_def
  by (rule update_submission_at)
    (auto simp: is_pending_def set_submission_failed_def submission_of_row_def sr_key_def)

section \<open>Outcomes without faults\<close>

lemma find_by_id_run:
  assumes "w_faults w = []" "db_inv (w_db w)"
  shows "run_state (repo_FindDropPointByID dpid) w =
    (case drop_point_at (w_db w) dpid of None \<Rightarrow> Inl ErrDropPointNotFound | Some dp \<Rightarrow> Inr dp, w)"
  using assms by (simp add: repo_FindDropPointByID_def no_fault query_drop_point_at split: option.splits)

lemma find_submission_run:
  assumes "w_faults w = []" "db_inv (w_db w)"
  shows "run_state (repo_FindSubmission dpid sid) w =
    (case submission_at (w_db w) dpid sid of None \<Rightarrow> Inl ErrSubmissionNotFound | Some s \<Rightarrow> Inr s, w)"
  using assms by (simp add: repo_FindSubmission_def no_fault query_submission_at split: option.splits)

lemma sub_updated_at:
  "sub_updated d d' dpid sid C g \<Longrightarrow> submission_at d dpid sid = Some s \<Longrightarrow>
   submission_at d' dpid sid = Some (if C s then g s else s)"
  by (simp add: sub_updated_def)

lemma dp_updated_at:
  "dp_updated d d' dpid C g \<Longrightarrow> drop_point_at d dpid = Some dp \<Longrightarrow>
   drop_point_at d' dpid = Some (if C dp then g dp else dp)"
  by (simp add: dp_updated_def)

lemma dp_updated_refl: "dp_updated d d dpid (\<lambda>_. False) g"
  by (simp add: dp_updated_def option.map_ident)

lemma sub_updated_cong:
  assumes "sub_updated d d' dpid sid C g" "submission_at d dpid sid = Some s"
    and "(if C s then g s else s) = (if C' s then g' s else s)"
  shows "sub_updated d d' dpid sid C' g'"
  using assms by (auto simp: sub_updated_def intro!: map_option_cong)

lemma dp_updated_cong:
  assumes "dp_updated d d' dpid C g" "drop_point_at d dpid = Some dp"
    and "(if C dp then g dp else dp) = (if C' dp then g' dp else dp)"
  shows "dp_updated d d' dpid C' g'"
  using assms by (auto simp: dp_updated_def intro!: map_option_cong)

lemma new_submission_view:
  "\<not> is_blank sid \<Longrightarrow> RequireOpen dp now = None \<Longrightarrow> dp_ID dp = dpid \<Longrightarrow>
   NewSubmission dp sid now = Inr (submission_of_row (new_submission_row dpid sid now))"
  by (simp add: NewSubmission_def submission_of_row_def new_submission_row_def string_of_null_def)

lemma stmt_begin_at:
  assumes inv: "db_inv d" and dp: "drop_point_at d dpid = Some dp"
  shows "stmt_begin dpid sid now d =
    (if RequireOpen dp now = None \<and> int (pending_count d dpid) < dp_MaxPendingSubmissions dp then
       if submission_at d dpid sid = None
       then Inr (1, d\<lparr>submissions := submissions d @ [new_submission_row dpid sid now]\<rparr>)
       else Inl ErrUniqueConstraint
     else Inr (0, d))"
proof -
  from dp obtain r where r: "find (\<lambda>r. dpr_id r = dpid) (drop_points d) = Some r"
    "dp = drop_point_of_row r" by (auto simp: drop_point_at_def)
  then have mem: "r \<in> set (drop_points d)" "dpr_id r = dpid" by (auto simp: find_Some_iff)
  let ?C = "\<lambda>r. dpr_status r = StatusOpen \<and> dpr_expires_at r > now
    \<and> int (pending_count d dpid) < dpr_max_pending_submissions r"
  have "find (\<lambda>q. dpr_id q = dpid \<and> ?C q) (drop_points d) = (if ?C r then Some r else None)"
    by (rule find_key_cond [OF inv_distinct(1) [OF inv] r(1)])
  moreover have "list_ex (\<lambda>s. sr_key s = (dpid, sid)) (submissions d) \<longleftrightarrow> submission_at d dpid sid \<noteq> None"
    by (auto simp: submission_at_def list_ex_iff find_None_iff find_Some_iff)
  ultimately show ?thesis
    by (auto simp: stmt_begin_def r(2) RequireOpen_None drop_point_of_row_def)
qed

text \<open>The subtraction of the byte quota cannot wrap, because the stored sizes never exceed it.\<close>

lemma ready_bytes_room:
  assumes inv: "db_inv d" and dp: "drop_point_at d dpid = Some dp"
  shows "wrap64 (dp_MaxPendingBytes dp - ready_bytes d dpid) = dp_MaxPendingBytes dp - ready_bytes d dpid"
proof -
  from dp obtain r where r: "r \<in> set (drop_points d)" "dpr_id r = dpid" "dp = drop_point_of_row r"
    by (auto simp: drop_point_at_def dest!: find_SomeD)
  have "\<forall>q \<in> set (submissions d). 0 \<le> size_of q"
    using inv by (auto simp: db_inv_def rows_inv_def sr_wf_def sub_wf_def submission_of_row_def
        size_of_def)
  then have "0 \<le> ready_bytes d dpid" unfolding ready_bytes_def by (intro sum_where_nonneg) auto
  moreover from inv r have "is_int64 (dpr_max_pending_bytes r)"
    "ready_bytes d dpid \<le> dpr_max_pending_bytes r"
    by (auto simp: db_inv_def rows_inv_def dpr_wf_def quota_inv_def)
  ultimately show ?thesis
    by (intro wrap64_id is_int64_diff) (simp_all add: r(3) drop_point_of_row_def)
qed

lemma tx_commit_at:
  assumes inv: "db_inv d" and dp: "drop_point_at d dpid = Some dp"
    and s: "submission_at d dpid sid = Some s"
  shows "\<exists>d'. sub_updated d d' dpid sid (\<lambda>s. sub_Status s = SubmissionStatusReceiving)
      (\<lambda>s. s\<lparr>sub_Status := SubmissionStatusReady, sub_EnvelopePath := cs_EnvelopePath stored,
             sub_PayloadPath := cs_PayloadPath stored,
             sub_EncryptedSize := cs_EncryptedSize stored, sub_DroppedAt := Some now\<rparr>)
    \<and> tx_commit dpid sid stored now d =
      (case RequireOpen dp now of
         Some e \<Rightarrow> Inl e
       | None \<Rightarrow>
           if sub_Status s \<noteq> SubmissionStatusReceiving then Inl (submissionUnavailableError (sub_Status s))
           else if dp_MaxPendingBytes dp < ready_bytes d dpid + cs_EncryptedSize stored
           then Inl ErrPendingBytesQuotaExceeded
           else Inr ((), d'))"
proof -
  obtain d' where d': "update_submissions
      (\<lambda>r. sr_key r = (dpid, sid) \<and> sr_status r = SubmissionStatusReceiving) (set_ready stored now) d =
      Inr (hits (\<lambda>s. sub_Status s = SubmissionStatusReceiving) (submission_at d dpid sid), d')"
    "sub_updated d d' dpid sid (\<lambda>s. sub_Status s = SubmissionStatusReceiving)
      (\<lambda>s. s\<lparr>sub_Status := SubmissionStatusReady, sub_EnvelopePath := cs_EnvelopePath stored,
             sub_PayloadPath := cs_PayloadPath stored,
             sub_EncryptedSize := cs_EncryptedSize stored, sub_DroppedAt := Some now\<rparr>)"
    using update_submission_at [OF inv, of "set_ready stored now"
      "\<lambda>s. s\<lparr>sub_Status := SubmissionStatusReady, sub_EnvelopePath := cs_EnvelopePath stored,
             sub_PayloadPath := cs_PayloadPath stored,
             sub_EncryptedSize := cs_EncryptedSize stored, sub_DroppedAt := Some now\<rparr>"
      "\<lambda>r. sr_status r = SubmissionStatusReceiving" "\<lambda>s. sub_Status s = SubmissionStatusReceiving"
      dpid sid]
    by (auto simp: set_ready_def sr_key_def submission_of_row_def string_of_null_def)
  have room: "wrap64 (dp_MaxPendingBytes dp - ready_bytes d dpid) < cs_EncryptedSize stored \<longleftrightarrow>
      dp_MaxPendingBytes dp < ready_bytes d dpid + cs_EncryptedSize stored"
    unfolding ready_bytes_room [OF inv dp] by linarith
  have "tx_commit dpid sid stored now d =
      (case RequireOpen dp now of
         Some e \<Rightarrow> Inl e
       | None \<Rightarrow>
           if sub_Status s \<noteq> SubmissionStatusReceiving then Inl (submissionUnavailableError (sub_Status s))
           else if dp_MaxPendingBytes dp < ready_bytes d dpid + cs_EncryptedSize stored
           then Inl ErrPendingBytesQuotaExceeded
           else Inr ((), d'))"
    by (simp add: tx_commit_def query_drop_point_at [OF inv] query_submission_at [OF inv] dp s room
        Let_def d'(1) hits_def split: option.splits)
  with d'(2) show ?thesis by blast
qed

section \<open>Lookup by drop token\<close>

lemma open_lookup:
  assumes "db_inv (w_db w)"
    and run: "run_state (repo_FindOpenDropPointByDropTokenHash h now) w = (Inr dp, w')"
  shows "drop_point_at (w_db w) (dp_ID dp) = Some dp \<and> dp_DropTokenHash dp = h
    \<and> dp_Status dp = StatusOpen \<and> now < dp_ExpiresAt dp \<and> w_db w' = w_db w \<and> w_fs w' = w_fs w"
proof -
  obtain dp0 w1 where q: "run_state (sql_query (query_drop_point (\<lambda>r. dpr_drop_token_hash r = h))) w = (Inr dp0, w1)"
    and e: "run_state (expire_if_elapsed dp0 now) w1 = (Inr dp, w')"
    and op: "RequireOpen dp now = None"
    using run by (auto simp: repo_FindOpenDropPointByDropTokenHash_def
        repo_FindDropPointByDropTokenHash_def split: sum.splits prod.splits option.splits)
  from op have st: "dp_Status dp = StatusOpen" "now < dp_ExpiresAt dp" by (simp_all add: RequireOpen_None)
  from e st have same: "dp0 = dp" "w' = w1"
    by (auto simp: expire_if_elapsed_def split: if_splits sum.splits prod.splits)
  have "query_drop_point (\<lambda>r. dpr_drop_token_hash r = h) (w_db w) = Inr dp" "w_db w1 = w_db w"
    "w_fs w1 = w_fs w"
    using sql_query_Inr [OF q] same by simp_all
  then obtain r where r: "r \<in> set (drop_points (w_db w))" "dpr_drop_token_hash r = h"
    "dp = drop_point_of_row r" by (auto dest!: query_drop_point_Inr)
  have "find (\<lambda>q. dpr_id q = dpr_id r) (drop_points (w_db w)) = Some r"
    by (rule find_key_unique [OF inv_distinct(1) [OF assms(1)] r(1)])
  with r have "drop_point_at (w_db w) (dp_ID dp) = Some dp"
    by (simp add: drop_point_at_def drop_point_of_row_def)
  with st r same \<open>w_db w1 = w_db w\<close> \<open>w_fs w1 = w_fs w\<close> show ?thesis by (simp add: drop_point_of_row_def)
qed

end
