(* ===== verification/Samples.thy ===== *)
theory Samples
  imports Store_Facts
begin

text \<open>
  A concrete database and world on which the properties of the relay are instantiated: one open
  drop point with a ready and a receiving submission, and one enabled API token.
\<close>

definition sample_dp :: drop_point where
  "sample_dp = sample_drop_point\<lparr>dp_PickupTokenHash := HashSecret ''pick''\<rparr>"

definition ready_row :: submission_row where
  "ready_row =
     \<lparr>sr_id = ''sub_r'', sr_drop_point_id = ''dp_a'', sr_status = SubmissionStatusReady,
      sr_envelope_path = Some ''e'', sr_payload_path = Some ''p'', sr_encrypted_size = Some 40,
      sr_created_at = 6, sr_receiving_started_at = 6, sr_dropped_at = Some 7,
      sr_first_picked_up_at = None, sr_acknowledged_at = None, sr_failed_at = None\<rparr>"

definition sample_token_row :: api_token_row where
  "sample_token_row =
     \<lparr>tr_id = ''desktop'', tr_secret_hash = HashSecret ''s'', tr_enabled = 1,
      tr_max_active_drop_points = Some 3, tr_created_at = 1, tr_disabled_at = None\<rparr>"

definition sample_db :: db where
  "sample_db =
     \<lparr>drop_points = [row_of_drop_point sample_dp],
      submissions = [ready_row, new_submission_row ''dp_a'' ''sub_x'' 6],
      api_tokens = [sample_token_row]\<rparr>"

definition world_of :: "db \<Rightarrow> world" where
  "world_of d =
     \<lparr>w_db = d, w_fs = [], w_faults = [], w_now = 7, w_ticks = [], w_entropy = [], w_names = []\<rparr>"

lemma world_of_simps [simp]:
  "w_db (world_of d) = d" "w_faults (world_of d) = []" "w_fs (world_of d) = []"
  by (simp_all add: world_of_def)

lemma sample_dp_wf: "dp_wf sample_dp"
  using sample_drop_point_wf by (simp add: sample_dp_def dp_wf_def)

lemma sample_rows_wf:
  "dpr_wf (row_of_drop_point sample_dp)" "sr_wf ready_row" "tr_wf sample_token_row"
  using sample_dp_wf
  by (simp_all add: dpr_wf_def sr_wf_def sub_wf_def submission_of_row_def ready_row_def tr_wf_def
      sample_token_row_def)
    (simp add: row_of_drop_point_def sample_dp_def sample_drop_point_def is_int64_def)

lemma sample_counts:
  "pending_count sample_db ''dp_a'' = 2" "ready_bytes sample_db ''dp_a'' = 40"
  by (simp_all add: pending_count_def ready_bytes_def sample_db_def count_where_Cons sum_where_Cons
      ready_row_def new_submission_row_def is_pending_def size_of_def)

lemma sample_db_inv: "db_inv sample_db"
proof -
  have "keys_inv sample_db"
    by (simp add: keys_inv_def sample_db_def sr_key_def ready_row_def new_submission_row_def)
  moreover have "fk_inv sample_db"
    by (simp add: fk_inv_def sample_db_def ready_row_def new_submission_row_def sample_dp_def
        row_of_drop_point_def sample_drop_point_def)
  moreover have "rows_inv sample_db"
    using sample_rows_wf new_submission_row_wf by (simp add: rows_inv_def sample_db_def)
  moreover have "quota_inv sample_db"
    using sample_counts
    by (simp add: quota_inv_def, simp add: sample_db_def row_of_drop_point_def sample_dp_def
        sample_drop_point_def)
  ultimately show ?thesis by (simp add: db_inv_def)
qed

lemma sample_at:
  "drop_point_at sample_db ''dp_a'' = Some sample_dp"
  "submission_at sample_db ''dp_a'' ''sub_r'' = Some (submission_of_row ready_row)"
  "submission_at sample_db ''dp_a'' ''sub_x'' = Some (submission_of_row (new_submission_row ''dp_a'' ''sub_x'' 6))"
  "submission_at sample_db ''dp_a'' ''sub_n'' = None"
  by (simp_all add: drop_point_at_def submission_at_def sample_db_def sr_key_def ready_row_def
      new_submission_row_def)
    (simp add: row_of_drop_point_def sample_dp_def sample_drop_point_def)

end
