(* ===== verification/Store_Properties.thy ===== *)
theory Store_Properties
  imports Samples
begin

text \<open>
  The properties of the repository: the queue quotas and the other database invariants in every
  state any calls reach under any faults, the exact outcomes of the lifecycle methods, which are
  those of the domain operations, and what the reading methods return.
\<close>

section \<open>Lifecycle methods\<close>

text \<open>C13. \<open>CloseDropPoint\<close> on a stored drop point does to the stored record exactly what the
  domain operation \<open>Close\<close> does, returns its error, and leaves every other drop point and all
  submissions alone.\<close>

theorem close_refines_domain:
  assumes "w_faults w = []" "db_inv (w_db w)" "drop_point_at (w_db w) dpid = Some dp"
    and run: "run_state (repo_CloseDropPoint dpid now) w = (r, w')"
  shows "r = (case snd (Close dp now) of None \<Rightarrow> Inr () | Some e \<Rightarrow> Inl e)
    \<and> drop_point_at (w_db w') dpid = Some (fst (Close dp now))
    \<and> (\<forall>j. j \<noteq> dpid \<longrightarrow> drop_point_at (w_db w') j = drop_point_at (w_db w) j)
    \<and> submissions (w_db w') = submissions (w_db w)"
proof -
  obtain d1 where d1: "stmt_mark_expired dpid (w_db w) =
      Inr (hits (\<lambda>dp. dp_Status dp = StatusOpen) (drop_point_at (w_db w) dpid), d1)"
    "dp_updated (w_db w) d1 dpid (\<lambda>dp. dp_Status dp = StatusOpen) (\<lambda>dp. dp\<lparr>dp_Status := StatusExpired\<rparr>)"
    using stmt_mark_expired_at [OF assms(2)] by blast
  obtain d2 where d2: "stmt_close dpid now (w_db w) =
      Inr (hits (\<lambda>dp. dp_Status dp = StatusOpen \<and> now < dp_ExpiresAt dp)
             (drop_point_at (w_db w) dpid), d2)"
    "dp_updated (w_db w) d2 dpid (\<lambda>dp. dp_Status dp = StatusOpen \<and> now < dp_ExpiresAt dp)
        (\<lambda>dp. dp\<lparr>dp_Status := StatusClosed, dp_ClosedAt := Some now\<rparr>)"
    using stmt_close_at [OF assms(2)] by blast
  have wf: "dp_wf dp" using drop_point_at_wf [OF assms(2,3)] by simp
  show ?thesis
    using run assms wf d1 d2
    by (auto simp: repo_CloseDropPoint_def repo_markExpired_def find_by_id_run no_fault RequireOpen_def
        Close_def Expire_def dp_updated_def hits_def dp_wf_def option.map_ident
        split: option.splits if_splits status.splits)
qed

text \<open>C14. \<open>AcknowledgeSubmission\<close> and \<open>MarkSubmissionPickedUp\<close> on a stored submission do
  exactly what the domain operations of the same names do, error for error, and leave every other
  submission alone.\<close>

theorem receipt_refines_domain:
  assumes "w_faults w = []" "db_inv (w_db w)" "submission_at (w_db w) dpid sid = Some s"
    and ack: "run_state (repo_AcknowledgeSubmission dpid sid now) w = (r, w')"
    and pick: "run_state (repo_MarkSubmissionPickedUp dpid sid now) w = (q, w'')"
  shows "r = (case snd (AcknowledgeSubmission s now) of None \<Rightarrow> Inr () | Some e \<Rightarrow> Inl e)
    \<and> sub_updated (w_db w) (w_db w') dpid sid (\<lambda>_. True) (\<lambda>s. fst (AcknowledgeSubmission s now))
    \<and> q = (case snd (MarkSubmissionPickedUp s now) of None \<Rightarrow> Inr () | Some e \<Rightarrow> Inl e)
    \<and> sub_updated (w_db w) (w_db w'') dpid sid (\<lambda>_. True) (\<lambda>s. fst (MarkSubmissionPickedUp s now))"
proof -
  obtain d1 where d1: "stmt_acknowledge dpid sid now (w_db w) =
      Inr (hits (\<lambda>s. sub_Status s = SubmissionStatusReady) (submission_at (w_db w) dpid sid), d1)"
    "sub_updated (w_db w) d1 dpid sid (\<lambda>s. sub_Status s = SubmissionStatusReady)
       (\<lambda>s. s\<lparr>sub_Status := SubmissionStatusAcknowledged,
              sub_AcknowledgedAt := coalesce (sub_AcknowledgedAt s) now\<rparr>)"
    using stmt_acknowledge_at [OF assms(2)] by blast
  obtain d2 where d2: "stmt_mark_picked_up dpid sid now (w_db w) =
      Inr (hits (\<lambda>s. sub_Status s \<in> {SubmissionStatusReady, SubmissionStatusAcknowledged})
             (submission_at (w_db w) dpid sid), d2)"
    "sub_updated (w_db w) d2 dpid sid
       (\<lambda>s. sub_Status s \<in> {SubmissionStatusReady, SubmissionStatusAcknowledged})
       (\<lambda>s. s\<lparr>sub_FirstPickedUpAt := coalesce (sub_FirstPickedUpAt s) now\<rparr>)"
    using stmt_mark_picked_up_at [OF assms(2)] by blast
  have inv: "db_inv d1" "db_inv d2"
    using acknowledge_inv [OF assms(2) d1(1)] pick_inv [OF assms(2) d2(1)] by simp_all
  have wf: "sub_wf s" using submission_at_wf [OF assms(2,3)] by simp
  note at = assms(3) sub_updated_at [OF d1(2) assms(3)] sub_updated_at [OF d2(2) assms(3)]
  have s1: "w_db w' = d1 \<and> r = (case snd (AcknowledgeSubmission s now) of None \<Rightarrow> Inr () | Some e \<Rightarrow> Inl e)"
    using ack assms(1,2) d1(1) inv(1) wf at
    by (cases "sub_Status s") (auto simp: repo_AcknowledgeSubmission_def find_submission_run no_fault
        AcknowledgeSubmission_def hits_def submissionUnavailableError_def sub_wf_def)
  have s2: "w_db w'' = d2 \<and> q = (case snd (MarkSubmissionPickedUp s now) of None \<Rightarrow> Inr () | Some e \<Rightarrow> Inl e)"
    using pick assms(1,2) d2(1) inv(2) wf at
    by (cases "sub_Status s") (auto simp: repo_MarkSubmissionPickedUp_def find_submission_run no_fault
        MarkSubmissionPickedUp_def hits_def submissionUnavailableError_def sub_wf_def)
  have "sub_updated (w_db w) d1 dpid sid (\<lambda>_. True) (\<lambda>s. fst (AcknowledgeSubmission s now))"
    by (rule sub_updated_cong [OF d1(2) assms(3)])
       (use wf in \<open>auto simp: AcknowledgeSubmission_def sub_wf_def coalesce_def split: submission_status.splits\<close>)
  moreover have "sub_updated (w_db w) d2 dpid sid (\<lambda>_. True) (\<lambda>s. fst (MarkSubmissionPickedUp s now))"
    by (rule sub_updated_cong [OF d2(2) assms(3)])
       (use wf in \<open>auto simp: MarkSubmissionPickedUp_def sub_wf_def coalesce_def split: submission_status.splits option.splits\<close>)
  ultimately show ?thesis using s1 s2 by simp
qed

text \<open>C10. \<open>CommitSubmission\<close>, under any faults: a reported success means that the drop point
  was open, the submission receiving, its size fitted into the byte quota without wrap-around, and
  the stored record is what the domain's \<open>CommitSubmission\<close> makes of it. Without faults a failure
  changes nothing and has one of these causes.\<close>

theorem commit_refines_domain:
  assumes "db_inv (w_db w)" "drop_point_at (w_db w) dpid = Some dp"
    and s: "submission_at (w_db w) dpid sid = Some s"
    and run: "run_state (repo_CommitSubmission dpid sid stored now) w = (r, w')"
  shows "(r = Inr () \<longrightarrow>
      RequireOpen dp now = None \<and> snd (CommitSubmission s stored now) = None
      \<and> ready_bytes (w_db w) dpid + cs_EncryptedSize stored \<le> dp_MaxPendingBytes dp
      \<and> sub_updated (w_db w) (w_db w') dpid sid (\<lambda>_. True) (\<lambda>s. fst (CommitSubmission s stored now)))
    \<and> (w_faults w = [] \<longrightarrow> r \<noteq> Inr () \<longrightarrow>
      w_db w' = w_db w
      \<and> (RequireOpen dp now \<noteq> None \<or> snd (CommitSubmission s stored now) \<noteq> None
         \<or> dp_MaxPendingBytes dp < ready_bytes (w_db w) dpid + cs_EncryptedSize stored))"
proof (cases "cs_EnvelopePath stored = [] \<or> cs_PayloadPath stored = [] \<or> cs_EncryptedSize stored < 0")
  case True
  with run show ?thesis by (auto simp: repo_CommitSubmission_def CommitSubmission_def)
next
  case False
  obtain d' where d': "sub_updated (w_db w) d' dpid sid (\<lambda>s. sub_Status s = SubmissionStatusReceiving)
      (\<lambda>s. s\<lparr>sub_Status := SubmissionStatusReady, sub_EnvelopePath := cs_EnvelopePath stored,
             sub_PayloadPath := cs_PayloadPath stored,
             sub_EncryptedSize := cs_EncryptedSize stored, sub_DroppedAt := Some now\<rparr>)"
    and tx: "tx_commit dpid sid stored now (w_db w) =
      (case RequireOpen dp now of
         Some e \<Rightarrow> Inl e
       | None \<Rightarrow>
           if sub_Status s \<noteq> SubmissionStatusReceiving then Inl (submissionUnavailableError (sub_Status s))
           else if dp_MaxPendingBytes dp < ready_bytes (w_db w) dpid + cs_EncryptedSize stored
           then Inl ErrPendingBytesQuotaExceeded
           else Inr ((), d'))"
    using tx_commit_at [OF assms(1-3), where stored = stored and now = now] by blast
  from False run have exec: "run_state (sql_exec (tx_commit dpid sid stored now)) w = (r, w')"
    by (simp add: repo_CommitSubmission_def)
  have upd: "sub_updated (w_db w) d' dpid sid (\<lambda>_. True) (\<lambda>s. fst (CommitSubmission s stored now))"
    if "sub_Status s = SubmissionStatusReceiving"
    by (rule sub_updated_cong [OF d' s]) (use that False in \<open>auto simp: CommitSubmission_def\<close>)
  have "w_db w' = w_db w" if "w_faults w = []" "r \<noteq> Inr ()"
    using exec that by (auto simp: no_fault split: sum.splits)
  moreover have "tx_commit dpid sid stored now (w_db w) = Inr ((), w_db w')" if "r = Inr ()"
    using exec that by (auto dest: sql_exec_Inr)
  ultimately show ?thesis
    using tx upd False exec
    by (auto simp: CommitSubmission_def no_fault split: option.splits if_splits sum.splits)
qed
section \<open>Every reachable database\<close>

text \<open>One call of a repository method, with the arguments the program can pass, under any faults:
  the drop point of a creation comes from \<open>New\<close>, sizes and quotas are 64-bit integers.\<close>

inductive repo_call :: "world \<Rightarrow> world \<Rightarrow> bool" where
  call_create:
    "New req t = Inr dp \<Longrightarrow> is_int64 (cr_MaxPendingBytes req) \<Longrightarrow>
     run_state (repo_CreateDropPointWithinQuota dp maxActive now) w = (u, w') \<Longrightarrow> repo_call w w'"
| call_find_by_hash:
    "run_state (repo_FindDropPointByDropTokenHash h now) w = (dpr, w') \<Longrightarrow> repo_call w w'"
| call_find_open:
    "run_state (repo_FindOpenDropPointByDropTokenHash h now) w = (dpr, w') \<Longrightarrow> repo_call w w'"
| call_authorize: "run_state (repo_AuthorizePickupToken i h now) w = (dpr, w') \<Longrightarrow> repo_call w w'"
| call_close: "run_state (repo_CloseDropPoint i now) w = (u, w') \<Longrightarrow> repo_call w w'"
| call_fail: "run_state (repo_FailDropPoint i now) w = (u, w') \<Longrightarrow> repo_call w w'"
| call_expire: "run_state (repo_ExpireDropPoints now) w = (dps, w') \<Longrightarrow> repo_call w w'"
| call_purge: "run_state (repo_PurgeTerminalDropPoints cutoff) w = (n, w') \<Longrightarrow> repo_call w w'"
| call_begin: "run_state (repo_BeginSubmission i j now) w = (u, w') \<Longrightarrow> repo_call w w'"
| call_commit:
    "is_int64 (cs_EncryptedSize stored) \<Longrightarrow>
     run_state (repo_CommitSubmission i j stored now) w = (u, w') \<Longrightarrow> repo_call w w'"
| call_delete: "run_state (repo_DeleteReceivingSubmission i j) w = (u, w') \<Longrightarrow> repo_call w w'"
| call_pickup: "run_state (repo_MarkSubmissionPickedUp i j now) w = (u, w') \<Longrightarrow> repo_call w w'"
| call_acknowledge: "run_state (repo_AcknowledgeSubmission i j now) w = (u, w') \<Longrightarrow> repo_call w w'"
| call_fail_submission: "run_state (repo_FailSubmission i j now) w = (u, w') \<Longrightarrow> repo_call w w'"
| call_clear: "run_state (repo_ClearSubmissionFiles i j) w = (u, w') \<Longrightarrow> repo_call w w'"
| call_clear_all: "run_state (repo_ClearDropPointFiles i) w = (u, w') \<Longrightarrow> repo_call w w'"
| call_add_token: "run_state (repo_AddAPIToken p) w = (u, w') \<Longrightarrow> repo_call w w'"
| call_disable_token: "run_state (repo_DisableAPIToken i now) w = (u, w') \<Longrightarrow> repo_call w w'"
| call_remove_token: "run_state (repo_RemoveAPIToken i) w = (u, w') \<Longrightarrow> repo_call w w'"

lemma repo_call_db_only: "repo_call w w' \<Longrightarrow> db_only w w'"
proof (induction rule: repo_call.induct)
  case (call_create req t dp maxActive now w u w')
  then have "dp_wf dp" "dp_Status dp = StatusOpen" "is_int64 (dp_MaxPendingBytes dp)"
    using New_wf by (auto simp: New_def split: if_splits)
  with call_create show ?case by (blast intro: keepsD keeps_repo)
qed (blast intro: keepsD keeps_repo)+

interpretation calls: invariant_system repo_call "\<lambda>w. db_inv (w_db w)"
proof
  fix w w' assume "repo_call w w'" "db_inv (w_db w)"
  then show "db_inv (w_db w')"
    using repo_call_db_only relay_db.run_inv by (auto simp: db_only_def)
qed

text \<open>C5. Starting from the empty database, after any calls of repository methods with any
  arguments the program can pass and under any faults, no drop point has more pending submissions
  than its count quota, nor more bytes in ready submissions than its byte quota.\<close>

theorem queue_quotas_hold:
  assumes "w_db w = empty_db" "repo_call\<^sup>*\<^sup>* w w'" "r \<in> set (drop_points (w_db w'))"
  shows "int (pending_count (w_db w') (dpr_id r)) \<le> dpr_max_pending_submissions r
    \<and> ready_bytes (w_db w') (dpr_id r) \<le> dpr_max_pending_bytes r"
  using calls.run_inv [OF assms(2)] assms db_inv_empty by (simp add: db_inv_def quota_inv_def)

text \<open>C21. In the same reachable databases every stored drop point and submission is well
  formed, is found under its own ID, and a submission's drop point exists.\<close>

theorem stored_records_well_formed:
  assumes "w_db w = empty_db" "repo_call\<^sup>*\<^sup>* w w'"
  shows "(\<forall>i dp. drop_point_at (w_db w') i = Some dp \<longrightarrow> dp_wf dp \<and> dp_ID dp = i)
    \<and> (\<forall>i j s. submission_at (w_db w') i j = Some s \<longrightarrow>
         sub_wf s \<and> sub_ID s = j \<and> drop_point_at (w_db w') i \<noteq> None)"
proof -
  have inv: "db_inv (w_db w')" using calls.run_inv [OF assms(2)] assms(1) db_inv_empty by simp
  have "drop_point_at (w_db w') i \<noteq> None" if "submission_at (w_db w') i j = Some s" for i j s
    using inv that
    by (auto simp: submission_at_def drop_point_at_def db_inv_def fk_inv_def sr_key_def
        find_None_iff dest!: find_SomeD) (force dest!: bspec)
  with drop_point_at_wf [OF inv] submission_at_wf [OF inv] show ?thesis by blast
qed

section \<open>The quota of active drop points\<close>

text \<open>The creations of one API token over time, each with a limit of at most \<open>m\<close> and with the
  clock never running backwards, among any other database steps.\<close>

inductive token_run :: "go_string \<Rightarrow> int \<Rightarrow> time \<Rightarrow> db \<Rightarrow> bool" for tok m where
  run_empty: "token_run tok m t empty_db"
| run_create:
    "token_run tok m t d \<Longrightarrow> t \<le> now \<Longrightarrow> (dp_APITokenID dp = tok \<Longrightarrow> maxActive \<le> m) \<Longrightarrow>
     stmt_insert_drop_point dp maxActive now d = Inr (n, d') \<Longrightarrow> token_run tok m now d'"
| run_other:
    "token_run tok m t d \<Longrightarrow> t \<le> now \<Longrightarrow> db_step d d' \<Longrightarrow>
     length (drop_points d') \<le> length (drop_points d) \<Longrightarrow> token_run tok m now d'"

lemma active_count_time: "t \<le> now \<Longrightarrow> active_count d tok now \<le> active_count d tok t"
  unfolding active_count_def by (rule count_where_le) auto

lemma active_count_update:
  assumes "update_drop_points P f d = Inr (n, d')"
    and "\<And>r. P r \<Longrightarrow> dpr_status (f r) \<noteq> StatusOpen"
  shows "active_count d' tok now \<le> active_count d tok now"
  using assms unfolding active_count_def update_drop_points_def
  by (auto intro!: count_where_update_le)

lemma active_count_step:
  assumes "db_step d d'" "length (drop_points d') \<le> length (drop_points d)"
  shows "active_count d' tok now \<le> active_count d tok now"
  using assms
proof (induction rule: db_step.induct)
  case (step_create dp maxActive now d n d')
  then show ?case by (auto simp: stmt_insert_drop_point_def split: if_splits)
next
  case (step_commit stored dpid sid now d d')
  then show ?case by (auto elim!: tx_commitE)
next
  case (step_purge cutoff d n d')
  then show ?case by (auto simp: stmt_purge_def Let_def active_count_def count_where_delete_le)
qed (auto simp: stmt_begin_def stmt_delete_receiving_def Let_def update_submissions_def
    stmt_mark_picked_up_def stmt_acknowledge_def stmt_fail_submission_def stmt_clear_submission_def
    stmt_clear_drop_point_def stmt_mark_expired_def stmt_close_def stmt_fail_drop_point_def
    stmt_add_token_def stmt_disable_token_def stmt_remove_token_def setter_defs
    elim!: active_count_update split: option.splits if_splits)

text \<open>C15. The quota of an API token: if every creation for the token is made with a limit of
  at most \<open>m\<close> and the clock never runs backwards, then whatever else happens to the database in
  between, the token never has more than \<open>m\<close> drop points that are open and unexpired.\<close>

theorem active_quota_holds:
  assumes "token_run tok m t d" "0 \<le> m"
  shows "int (active_count d tok t) \<le> m"
  using assms
proof (induction rule: token_run.induct)
  case (run_empty t)
  then show ?case by (simp add: active_count_def empty_db_def)
next
  case (run_create t d now dp maxActive n d')
  have "int (active_count d tok now) \<le> m"
    using run_create active_count_time [of t now d tok] by linarith
  with run_create show ?case
    by (auto simp: stmt_insert_drop_point_def active_count_def count_where_append count_where_Cons
        row_of_drop_point_def split: if_splits)
next
  case (run_other t d now d')
  then show ?case
    using active_count_time [of t now d tok] active_count_step [of d d' tok now] by linarith
qed

section \<open>Committed submissions are durable\<close>

text \<open>What a stored submission keeps from its commit on.\<close>

definition same_payload :: "submission_row \<Rightarrow> submission_row \<Rightarrow> bool" where
  "same_payload s s' \<longleftrightarrow>
     sr_key s' = sr_key s \<and> sr_encrypted_size s' = sr_encrypted_size s
     \<and> sr_dropped_at s' = sr_dropped_at s \<and> sr_created_at s' = sr_created_at s
     \<and> (has_pointers s' \<longrightarrow>
          sr_envelope_path s' = sr_envelope_path s \<and> sr_payload_path s' = sr_payload_path s)"

definition committed :: "submission_row \<Rightarrow> bool" where
  "committed s \<longleftrightarrow>
     sr_status s \<in> {SubmissionStatusReady, SubmissionStatusAcknowledged, SubmissionStatusFailed}"

text \<open>Rows of the submissions table survive an update that keeps payloads and committed rows.\<close>

lemma durable_update:
  assumes upd: "update_submissions P f d = Inr (n, d')" and s: "s \<in> set (submissions d)" "committed s"
    and keep: "P s \<Longrightarrow> same_payload s (f s) \<and> committed (f s)"
  shows "\<exists>s' \<in> set (submissions d'). same_payload s s' \<and> committed s'"
proof -
  have mem: "(if P s then f s else s) \<in> set (submissions d')"
    using upd s(1) by (auto simp: update_submissions_def set_update_where)
  have "same_payload s s" by (simp add: same_payload_def)
  with s(2) keep have "same_payload s (if P s then f s else s) \<and> committed (if P s then f s else s)"
    by simp
  with mem show ?thesis by blast
qed

lemma durable_stay:
  "s \<in> set (submissions d') \<Longrightarrow> committed s \<Longrightarrow>
   \<exists>s' \<in> set (submissions d'). same_payload s s' \<and> committed s'"
  by (rule bexI [of _ s]) (simp_all add: same_payload_def)

lemma durable_step:
  assumes "db_step d d'" "db_inv d" "s \<in> set (submissions d)" "committed s"
  shows "(\<exists>s' \<in> set (submissions d'). same_payload s s' \<and> committed s')
    \<or> \<not> has_pointers s
      \<and> (\<exists>r \<in> set (drop_points d). dpr_id r = sr_drop_point_id s \<and> is_terminal (dpr_status r))"
proof -
  have refl: "same_payload s s" by (simp add: same_payload_def)
  from assms show ?thesis
  proof (induction rule: db_step.induct)
    case (step_purge cutoff d n d')
    then have d': "drop_points d' = delete_where (purgeable d cutoff) (drop_points d)"
      "submissions d' = filter (\<lambda>s. list_ex (\<lambda>r. dpr_id r = sr_drop_point_id s)
          (delete_where (purgeable d cutoff) (drop_points d))) (submissions d)"
      by (auto simp: stmt_purge_def Let_def)
    show ?case
    proof (cases "\<exists>r \<in> set (drop_points d'). dpr_id r = sr_drop_point_id s")
      case True
      with step_purge(3,4) refl show ?thesis by (auto simp: d' list_ex_iff)
    next
      case False
      from step_purge(2,3) obtain r where r: "r \<in> set (drop_points d)" "dpr_id r = sr_drop_point_id s"
        by (auto simp: db_inv_def fk_inv_def dest!: bspec)
      with False have "purgeable d cutoff r" by (auto simp: d' table_simps)
      with r step_purge(3) show ?thesis by (auto simp: purgeable_def list_ex_iff)
    qed
  next
    case (step_commit stored dpid sid now d d')
    then have "\<not> sr_status s = SubmissionStatusReceiving" by (auto simp: committed_def)
    with step_commit have "s \<in> set (submissions d')"
      by (auto elim!: tx_commitE simp: set_update_where intro!: bexI [of _ s])
    with refl step_commit(8) show ?case by blast
  next
    case (step_delete dpid sid d n d')
    then show ?case
      using refl by (auto simp: stmt_delete_receiving_def Let_def table_simps committed_def)
  next
    case (step_pickup dpid sid now d n d')
    then show ?case unfolding stmt_mark_picked_up_def
      by (intro disjI1) (erule durable_update, auto simp: same_payload_def set_picked_up_def
          has_pointers_def sr_key_def committed_def)
  next
    case (step_acknowledge dpid sid now d n d')
    then show ?case unfolding stmt_acknowledge_def
      by (intro disjI1) (erule durable_update, auto simp: same_payload_def set_acknowledged_def
          has_pointers_def sr_key_def committed_def)
  next
    case (step_fail_submission dpid sid now d n d')
    then show ?case unfolding stmt_fail_submission_def
      by (intro disjI1) (erule durable_update, auto simp: same_payload_def set_submission_failed_def
          has_pointers_def sr_key_def committed_def)
  next
    case (step_clear_submission dpid sid d n d')
    then show ?case unfolding stmt_clear_submission_def
      by (intro disjI1) (erule durable_update, auto simp: same_payload_def clear_pointers_def
          has_pointers_def sr_key_def committed_def)
  next
    case (step_clear_drop_point dpid d n d')
    then show ?case unfolding stmt_clear_drop_point_def
      by (intro disjI1) (erule durable_update, auto simp: same_payload_def clear_pointers_def
          has_pointers_def sr_key_def committed_def)
  next
    case (step_create dp maxActive now d n d')
    then show ?case
      by (intro disjI1 durable_stay) (auto simp: stmt_insert_drop_point_def split: if_splits)
  next
    case (step_begin dpid sid now d n d')
    then show ?case
      by (intro disjI1 durable_stay) (auto simp: stmt_begin_def split: option.splits if_splits)
  next
    case (step_mark_expired dpid d n d')
    then show ?case
      by (intro disjI1 durable_stay) (auto simp: stmt_mark_expired_def update_drop_points_def)
  next
    case (step_close dpid now d n d')
    then show ?case
      by (intro disjI1 durable_stay) (auto simp: stmt_close_def update_drop_points_def)
  next
    case (step_fail_drop_point dpid now d n d')
    then show ?case
      by (intro disjI1 durable_stay) (auto simp: stmt_fail_drop_point_def update_drop_points_def)
  next
    case (step_add_token p d n d')
    then show ?case
      by (intro disjI1 durable_stay) (auto simp: stmt_add_token_def split: if_splits)
  next
    case (step_disable_token tid now d n d')
    then show ?case
      by (intro disjI1 durable_stay) (auto simp: stmt_disable_token_def)
  next
    case (step_remove_token tid d n d')
    then show ?case
      by (intro disjI1 durable_stay) (auto simp: stmt_remove_token_def)
  qed
qed

lemma same_payload_trans: "same_payload s s' \<Longrightarrow> same_payload s' s'' \<Longrightarrow> same_payload s s''"
  unfolding same_payload_def has_pointers_def by (metis (no_types))

text \<open>C6. A committed submission is never lost or altered: through any database steps its
  row stays with the same size, times and, unless cleared, file pointers, and it never becomes
  receiving again; the one exception is a purge of its drop point, which by then is terminal and
  after its file pointers have been cleared.\<close>

theorem committed_submission_durable:
  assumes "db_step\<^sup>*\<^sup>* d d'" "db_inv d" "s \<in> set (submissions d)" "committed s"
  shows "(\<exists>s' \<in> set (submissions d'). same_payload s s' \<and> committed s')
    \<or> (\<exists>d1 s1 r. db_step\<^sup>*\<^sup>* d d1 \<and> db_step\<^sup>*\<^sup>* d1 d' \<and> s1 \<in> set (submissions d1)
        \<and> same_payload s s1 \<and> \<not> has_pointers s1
        \<and> r \<in> set (drop_points d1) \<and> dpr_id r = sr_drop_point_id s \<and> is_terminal (dpr_status r))"
  using assms(1)
proof (induction rule: rtranclp_induct)
  case base
  have "same_payload s s" by (simp add: same_payload_def)
  with assms show ?case by blast
next
  case (step d1 d2)
  from step.IH show ?case
  proof (elim disjE)
    assume "\<exists>s' \<in> set (submissions d1). same_payload s s' \<and> committed s'"
    then obtain s1 where s1: "s1 \<in> set (submissions d1)" "same_payload s s1" "committed s1" by blast
    have inv: "db_inv d1" using relay_db.run_inv [OF step.hyps(1) assms(2)] .
    have key: "sr_drop_point_id s1 = sr_drop_point_id s"
      using s1(2) by (simp add: same_payload_def sr_key_def)
    from durable_step [OF step.hyps(2) inv s1(1,3)] show ?thesis
    proof (elim disjE)
      assume "\<exists>s' \<in> set (submissions d2). same_payload s1 s' \<and> committed s'"
      then show ?thesis using same_payload_trans [OF s1(2)] by blast
    next
      assume "\<not> has_pointers s1 \<and> (\<exists>r \<in> set (drop_points d1).
        dpr_id r = sr_drop_point_id s1 \<and> is_terminal (dpr_status r))"
      then obtain r where r: "\<not> has_pointers s1" "r \<in> set (drop_points d1)"
        "dpr_id r = sr_drop_point_id s" "is_terminal (dpr_status r)" unfolding key by blast
      have "db_step\<^sup>*\<^sup>* d1 d2" using step.hyps(2) by blast
      with step.hyps(1) s1(1,2) r show ?thesis by blast
    qed
  qed (meson rtranclp.rtrancl_into_rtrancl step.hyps(2))
qed

section \<open>Lookups\<close>

text \<open>Under any faults, a drop point the open lookup by drop token returns is stored, has
  that token hash, is open and unexpired at the time of the request, and the lookup changed
  nothing.\<close>

theorem open_lookup_is_open:
  assumes "db_inv (w_db w)"
    and "run_state (repo_FindOpenDropPointByDropTokenHash h now) w = (Inr dp, w')"
  shows "drop_point_at (w_db w) (dp_ID dp) = Some dp \<and> dp_DropTokenHash dp = h
    \<and> dp_Status dp = StatusOpen \<and> now < dp_ExpiresAt dp \<and> w_db w' = w_db w"
  using open_lookup [OF assms] by blast

text \<open>C16. Under any faults, \<open>AuthorizePickupToken\<close> lets a secret through only if it verifies
  against the stored pickup hash of that very drop point, and returns the stored record with a
  due expiry applied.\<close>

theorem pickup_authorization_sound:
  assumes "db_inv (w_db w)"
    and run: "run_state (repo_AuthorizePickupToken dpid (HashSecret secret) now) w = (Inr dp, w')"
  shows "\<exists>stored. drop_point_at (w_db w) dpid = Some stored
    \<and> verifySecretHash secret (dp_PickupTokenHash stored)
    \<and> dp = fst (Expire stored now)"
proof -
  obtain dp0 w1 where q: "run_state (repo_FindDropPointByID dpid) w = (Inr dp0, w1)"
    and h: "EqualHash (dp_PickupTokenHash dp0) (HashSecret secret)"
    and e: "run_state (expire_if_elapsed dp0 now) w1 = (Inr dp, w')"
    using run by (auto simp: repo_AuthorizePickupToken_def split: sum.splits prod.splits if_splits)
  obtain w2 where "run_state (sql_query (query_drop_point (\<lambda>r. dpr_id r = dpid))) w = (Inr dp0, w2)"
    using q by (auto simp: repo_FindDropPointByID_def split: sum.splits prod.splits)
  then have "drop_point_at (w_db w) dpid = Some dp0"
    by (auto dest!: sql_query_Inr simp: query_drop_point_at [OF assms(1)] split: option.splits)
  moreover have "dp = fst (Expire dp0 now)"
    using e by (auto simp: expire_if_elapsed_def Expire_def split: if_splits sum.splits prod.splits)
  ultimately show ?thesis using h by (auto simp: verifySecretHash_def EqualHash_def split: if_splits)
qed

text \<open>\<open>ListReadySubmissions\<close> returns exactly the ready submissions of the drop point, each
  once, in the order of their drop time and then their ID, and at most as many as are pending.\<close>

theorem ready_list_exact:
  assumes "w_faults w = []" "db_inv (w_db w)"
    and run: "run_state (repo_ListReadySubmissions dpid) w = (r, w')"
  shows "\<exists>xs. r = Inr xs \<and> w_db w' = w_db w
    \<and> (\<forall>s. s \<in> set xs \<longleftrightarrow> submission_at (w_db w) dpid (sub_ID s) = Some s
          \<and> sub_Status s = SubmissionStatusReady)
    \<and> distinct (map sub_ID xs)
    \<and> sorted (map (\<lambda>s. (sub_DroppedAt s, sub_ID s)) xs)
    \<and> length xs \<le> pending_count (w_db w) dpid"
proof -
  let ?P = "\<lambda>r. sr_drop_point_id r = dpid \<and> sr_status r = SubmissionStatusReady"
  let ?key = "\<lambda>r. (sr_dropped_at r, sr_id r)"
  let ?rows = "sort_key ?key (filter ?P (submissions (w_db w)))"
  have scan: "\<forall>r \<in> set ?rows. scanSubmission r = Inr (submission_of_row r)"
    using assms(2) by (auto simp: db_inv_def rows_inv_def sr_wf_def intro!: scanSubmission_wf)
  have r: "r = Inr (map submission_of_row ?rows)" "w' = w"
    using run assms(1) scan_all_map [OF scan]
    by (auto simp: repo_ListReadySubmissions_def no_fault query_submissions_def)
  have d: "distinct (map sr_key (submissions (w_db w)))" by (rule inv_distinct(2) [OF assms(2)])
  have mem: "s \<in> set (map submission_of_row ?rows) \<longleftrightarrow>
      submission_at (w_db w) dpid (sub_ID s) = Some s \<and> sub_Status s = SubmissionStatusReady" for s
  proof
    assume "s \<in> set (map submission_of_row ?rows)"
    then obtain q where q: "q \<in> set (submissions (w_db w))" "?P q" "s = submission_of_row q" by auto
    have "find (\<lambda>r. sr_key r = sr_key q) (submissions (w_db w)) = Some q"
      by (rule find_key_unique [OF d q(1)])
    with q show "submission_at (w_db w) dpid (sub_ID s) = Some s \<and> sub_Status s = SubmissionStatusReady"
      by (simp add: submission_at_def submission_of_row_def sr_key_def)
  next
    assume "submission_at (w_db w) dpid (sub_ID s) = Some s \<and> sub_Status s = SubmissionStatusReady"
    then obtain q where "q \<in> set (submissions (w_db w))" "sr_key q = (dpid, sub_ID s)"
      "s = submission_of_row q" "sub_Status s = SubmissionStatusReady"
      by (auto simp: submission_at_def dest!: find_SomeD)
    then show "s \<in> set (map submission_of_row ?rows)"
      by (auto simp: sr_key_def submission_of_row_def)
  qed
  have "inj_on sr_key (set (submissions (w_db w)))" "distinct (submissions (w_db w))"
    using d by (simp_all add: distinct_map)
  then have "inj_on sr_id (set ?rows)" "distinct ?rows"
    by (auto simp: inj_on_def sr_key_def)
  then have ids: "distinct (map sub_ID (map submission_of_row ?rows))"
    by (auto simp: distinct_map inj_on_def submission_of_row_def)
  have "map (\<lambda>s. (sub_DroppedAt s, sub_ID s)) (map submission_of_row ?rows) = map ?key ?rows"
    by (simp add: submission_of_row_def)
  then have sorted: "sorted (map (\<lambda>s. (sub_DroppedAt s, sub_ID s)) (map submission_of_row ?rows))"
    by (simp only: sorted_sort_key)
  have "length (map submission_of_row ?rows) \<le> pending_count (w_db w) dpid"
    using count_where_le [of "submissions (w_db w)" ?P "\<lambda>r. sr_drop_point_id r = dpid \<and> is_pending r"]
    by (simp add: pending_count_def count_where_def is_pending_def)
  with r mem ids sorted show ?thesis by blast
qed

section \<open>Expiry and purge\<close>

lemma mark_all_run:
  assumes "w_faults w = []" "db_inv (w_db w)"
  shows "\<exists>d'. run_state (mark_all_expired dps) w = (Inr (), w\<lparr>w_db := d'\<rparr>)
    \<and> (\<forall>j. drop_point_at d' j = map_option (\<lambda>dp. if j \<in> dp_ID ` set dps \<and> dp_Status dp = StatusOpen
          then dp\<lparr>dp_Status := StatusExpired\<rparr> else dp) (drop_point_at (w_db w) j))
    \<and> submissions d' = submissions (w_db w)"
  using assms
proof (induction dps arbitrary: w)
  case Nil
  then show ?case by (intro exI [of _ "w_db w"]) (simp add: option.map_ident)
next
  case (Cons dp dps)
  obtain d1 where d1: "stmt_mark_expired (dp_ID dp) (w_db w) =
      Inr (hits (\<lambda>dp. dp_Status dp = StatusOpen) (drop_point_at (w_db w) (dp_ID dp)), d1)"
    "dp_updated (w_db w) d1 (dp_ID dp) (\<lambda>dp. dp_Status dp = StatusOpen) (\<lambda>dp. dp\<lparr>dp_Status := StatusExpired\<rparr>)"
    using stmt_mark_expired_at [OF Cons.prems(2)] by blast
  have inv: "db_inv d1" by (rule expired_inv [OF Cons.prems(2) d1(1)])
  have w1: "w_faults (w\<lparr>w_db := d1\<rparr>) = []" "db_inv (w_db (w\<lparr>w_db := d1\<rparr>))"
    using Cons.prems(1) inv by simp_all
  obtain d2 where d2: "run_state (mark_all_expired dps) (w\<lparr>w_db := d1\<rparr>) = (Inr (), w\<lparr>w_db := d2\<rparr>)"
    "\<forall>j. drop_point_at d2 j = map_option (\<lambda>dp. if j \<in> dp_ID ` set dps \<and> dp_Status dp = StatusOpen
        then dp\<lparr>dp_Status := StatusExpired\<rparr> else dp) (drop_point_at d1 j)"
    "submissions d2 = submissions d1"
    using Cons.IH [OF w1] by auto
  have "run_state (mark_all_expired (dp # dps)) w = (Inr (), w\<lparr>w_db := d2\<rparr>)"
    using Cons.prems(1) d1(1) d2(1) by (simp add: repo_markExpired_def no_fault)
  moreover have "drop_point_at d2 j = map_option (\<lambda>q. if j \<in> dp_ID ` set (dp # dps) \<and> dp_Status q = StatusOpen
        then q\<lparr>dp_Status := StatusExpired\<rparr> else q) (drop_point_at (w_db w) j)" for j
    using d2(2) d1(2) by (auto simp: dp_updated_def option.map_comp intro!: map_option_cong)
  ultimately show ?case
    using d1(2) d2(3) by (intro exI [of _ d2]) (simp add: dp_updated_def)
qed

lemma query_expired_at:
  assumes "db_inv d"
  shows "\<exists>xs. query_expired now d = Inr xs
    \<and> (\<forall>dp. dp \<in> set xs \<longleftrightarrow> drop_point_at d (dp_ID dp) = Some dp
          \<and> dp_Status dp = StatusOpen \<and> dp_ExpiresAt dp \<le> now)"
proof (intro exI conjI allI)
  let ?P = "\<lambda>r. dpr_status r = StatusOpen \<and> dpr_expires_at r \<le> now"
  let ?rows = "sort_key dpr_id (filter ?P (drop_points d))"
  let ?xs = "map drop_point_of_row ?rows"
  have scan: "\<forall>r \<in> set ?rows. scanDropPoint r = Inr (drop_point_of_row r)"
    using assms by (auto simp: db_inv_def rows_inv_def dpr_wf_def intro!: scanDropPoint_wf)
  show "query_expired now d = Inr ?xs"
    unfolding query_expired_def by (rule scan_all_map [OF scan])
  show "dp \<in> set ?xs \<longleftrightarrow> drop_point_at d (dp_ID dp) = Some dp
      \<and> dp_Status dp = StatusOpen \<and> dp_ExpiresAt dp \<le> now" for dp
  proof
    assume "dp \<in> set ?xs"
    then obtain q where q: "q \<in> set (drop_points d)" "?P q" "dp = drop_point_of_row q" by auto
    have "find (\<lambda>r. dpr_id r = dpr_id q) (drop_points d) = Some q"
      by (rule find_key_unique [OF inv_distinct(1) [OF assms] q(1)])
    with q show "drop_point_at d (dp_ID dp) = Some dp \<and> dp_Status dp = StatusOpen
        \<and> dp_ExpiresAt dp \<le> now"
      by (simp add: drop_point_at_def drop_point_of_row_def)
  next
    assume "drop_point_at d (dp_ID dp) = Some dp \<and> dp_Status dp = StatusOpen
        \<and> dp_ExpiresAt dp \<le> now"
    then obtain q where "q \<in> set (drop_points d)" "dp = drop_point_of_row q" "?P q"
      by (auto simp: drop_point_at_def drop_point_of_row_def dest!: find_SomeD)
    then show "dp \<in> set ?xs" by auto
  qed
qed

text \<open>\<open>ExpireDropPoints\<close> returns exactly the open drop points whose expiry has come, and
  leaves every stored drop point as the domain's \<open>Expire\<close> makes it at that time.\<close>

theorem expire_drop_points_exact:
  assumes "w_faults w = []" "db_inv (w_db w)"
    and run: "run_state (repo_ExpireDropPoints now) w = (r, w')"
  shows "\<exists>xs. r = Inr xs
    \<and> (\<forall>dp. dp \<in> set xs \<longleftrightarrow> drop_point_at (w_db w) (dp_ID dp) = Some dp
          \<and> dp_Status dp = StatusOpen \<and> dp_ExpiresAt dp \<le> now)
    \<and> (\<forall>j. drop_point_at (w_db w') j = map_option (\<lambda>dp. fst (Expire dp now)) (drop_point_at (w_db w) j))
    \<and> submissions (w_db w') = submissions (w_db w)"
proof -
  obtain xs where q: "query_expired now (w_db w) = Inr xs"
    and mem: "\<And>dp. dp \<in> set xs \<longleftrightarrow> drop_point_at (w_db w) (dp_ID dp) = Some dp
      \<and> dp_Status dp = StatusOpen \<and> dp_ExpiresAt dp \<le> now"
    using query_expired_at [OF assms(2), of now] by blast
  obtain d' where d': "run_state (mark_all_expired xs) w = (Inr (), w\<lparr>w_db := d'\<rparr>)"
    "\<forall>j. drop_point_at d' j = map_option (\<lambda>dp. if j \<in> dp_ID ` set xs \<and> dp_Status dp = StatusOpen
          then dp\<lparr>dp_Status := StatusExpired\<rparr> else dp) (drop_point_at (w_db w) j)"
    "submissions d' = submissions (w_db w)"
    using mark_all_run [OF assms(1,2), of xs] by blast
  have r: "r = Inr xs" "w_db w' = d'"
    using run assms(1) q d'(1) by (auto simp: repo_ExpireDropPoints_def no_fault)
  have "drop_point_at d' j = map_option (\<lambda>dp. fst (Expire dp now)) (drop_point_at (w_db w) j)" for j
  proof (cases "drop_point_at (w_db w) j")
    case (Some dp)
    then have id: "dp_ID dp = j" using drop_point_at_wf [OF assms(2)] by blast
    have "j \<in> dp_ID ` set xs \<longleftrightarrow> dp_Status dp = StatusOpen \<and> dp_ExpiresAt dp \<le> now"
    proof
      assume "j \<in> dp_ID ` set xs"
      then obtain q where "q \<in> set xs" "dp_ID q = j" by blast
      then show "dp_Status dp = StatusOpen \<and> dp_ExpiresAt dp \<le> now" using mem [of q] Some by simp
    next
      assume "dp_Status dp = StatusOpen \<and> dp_ExpiresAt dp \<le> now"
      then have "dp \<in> set xs" using mem [of dp] Some id by simp
      then show "j \<in> dp_ID ` set xs" using id by blast
    qed
    then show ?thesis using Some d'(2) [rule_format, of j] by (simp add: Expire_def)
  qed (simp add: d'(2))
  with r mem d'(3) show ?thesis by blast
qed

section \<open>API tokens\<close>

definition token_disabled :: "db \<Rightarrow> go_string \<Rightarrow> go_string \<Rightarrow> bool" where
  "token_disabled d tid h \<longleftrightarrow>
     (\<exists>t \<in> set (api_tokens d). tr_id t = tid \<and> tr_secret_hash t = h \<and> tr_enabled t = 0)"

lemma api_tokens_frame:
  assumes "db_step d d'"
  shows "api_tokens d' = api_tokens d
    \<or> (\<exists>p. api_tokens d' = api_tokens d @ [new_api_token_row p])
    \<or> (\<exists>tid now. api_tokens d' = update_where (\<lambda>r. tr_id r = tid) (set_disabled now) (api_tokens d))
    \<or> (\<exists>tid. api_tokens d' = delete_where (\<lambda>r. tr_id r = tid) (api_tokens d))"
  using assms
proof (induction rule: db_step.induct)
  case (step_add_token p d n d')
  then show ?case by (auto simp: stmt_add_token_def split: if_splits)
next
  case (step_disable_token tid now d n d')
  then have "api_tokens d' = update_where (\<lambda>r. tr_id r = tid) (set_disabled now) (api_tokens d)"
    by (auto simp: stmt_disable_token_def)
  then show ?case by blast
next
  case (step_remove_token tid d n d')
  then have "api_tokens d' = delete_where (\<lambda>r. tr_id r = tid) (api_tokens d)"
    by (auto simp: stmt_remove_token_def)
  then show ?case by blast
next
  case (step_commit stored dpid sid now d d')
  then show ?case by (auto elim!: tx_commitE)
qed (rule disjI1, auto simp: stmt_insert_drop_point_def stmt_begin_def stmt_delete_receiving_def
    stmt_purge_def Let_def stmt_defs split: option.splits if_splits)

lemma token_disabled_step:
  assumes "db_step d d'" "token_disabled d tid h" "tid \<in> tr_id ` set (api_tokens d')"
  shows "token_disabled d' tid h"
proof -
  from assms(2) obtain t where t: "t \<in> set (api_tokens d)" "tr_id t = tid" "tr_secret_hash t = h"
    "tr_enabled t = 0" by (auto simp: token_disabled_def)
  from api_tokens_frame [OF assms(1)] show ?thesis
  proof (elim disjE exE)
    fix i now assume u: "api_tokens d' = update_where (\<lambda>r. tr_id r = i) (set_disabled now) (api_tokens d)"
    have "(if tr_id t = i then set_disabled now t else t) \<in> set (api_tokens d')"
      unfolding u set_update_where using t(1) by blast
    then show ?thesis
      unfolding token_disabled_def by (rule bexI [rotated]) (use t in \<open>simp add: set_disabled_def\<close>)
  next
    fix i assume r: "api_tokens d' = delete_where (\<lambda>r. tr_id r = i) (api_tokens d)"
    with assms(3) have "i \<noteq> tid" by (auto simp: table_simps)
    with t r show ?thesis by (auto simp: token_disabled_def table_simps)
  qed (use t in \<open>auto simp: token_disabled_def\<close>)
qed

text \<open>Once \<open>DisableAPIToken\<close> has reported success, no lookup by the token's secret finds
  it again, under any faults and after any later database steps that do not remove its row.\<close>

theorem disabled_token_rejected:
  assumes "db_inv (w_db w)"
    and t: "t \<in> set (api_tokens (w_db w))" "tr_secret_hash t = h"
    and run: "run_state (repo_DisableAPIToken (tr_id t) now) w = (Inr (), w')"
    and later: "(\<lambda>d d'. db_step d d' \<and> tr_id t \<in> tr_id ` set (api_tokens d'))\<^sup>*\<^sup>* (w_db w') (w_db v)"
  shows "fst (run_state (repo_FindEnabledAPITokenBySecretHash h) v) \<noteq> Inr tok"
proof -
  obtain n w1 where "run_state (sql_exec (stmt_disable_token (tr_id t) now)) w = (Inr n, w1)"
    "w_db w1 = w_db w'"
    using run by (auto simp: repo_DisableAPIToken_def exec_on_token_def dest!: rows_affected_run
        split: if_splits sum.splits prod.splits)
  then have st: "stmt_disable_token (tr_id t) now (w_db w) = Inr (n, w_db w')"
    by (auto dest!: sql_exec_Inr)
  have inv: "db_inv (w_db w')" by (rule disable_token_inv [OF assms(1) st])
  from st have "w_db w' = (w_db w)\<lparr>api_tokens :=
      update_where (\<lambda>r. tr_id r = tr_id t) (set_disabled now) (api_tokens (w_db w))\<rparr>"
    by (auto simp: stmt_disable_token_def)
  then have "set_disabled now t \<in> set (api_tokens (w_db w'))"
    using t(1) by (auto simp: set_update_where)
  then have dis: "token_disabled (w_db w') (tr_id t) h"
    unfolding token_disabled_def by (rule bexI [rotated]) (use t in \<open>simp add: set_disabled_def\<close>)
  from later have "token_disabled (w_db v) (tr_id t) h \<and> db_inv (w_db v)"
    by (induction rule: rtranclp_induct) (use dis inv token_disabled_step db_step_inv in blast)+
  then obtain q where q: "q \<in> set (api_tokens (w_db v))" "tr_secret_hash q = h" "tr_enabled q = 0"
    and d: "distinct (map tr_secret_hash (api_tokens (w_db v)))"
    by (auto simp: token_disabled_def db_inv_def keys_inv_def)
  have none: "query_enabled_token h (w_db v) \<noteq> Inr tok"
  proof
    assume "query_enabled_token h (w_db v) = Inr tok"
    then obtain p where p: "p \<in> set (api_tokens (w_db v))" "tr_secret_hash p = h" "tr_enabled p = 1"
      by (auto simp: query_enabled_token_def dest!: find_SomeD split: option.splits)
    have "p = q" by (rule distinct_key_unique [OF d p(1) q(1)]) (simp add: p q)
    with p q show False by simp
  qed
  show ?thesis
  proof
    assume f: "fst (run_state (repo_FindEnabledAPITokenBySecretHash h) v) = Inr tok"
    then obtain v1 where "run_state (sql_query (query_enabled_token h)) v = (Inr tok, v1)"
      by (auto simp: repo_FindEnabledAPITokenBySecretHash_def split: if_splits sum.splits prod.splits)
    with none show False by (auto dest: sql_query_Inr)
  qed
qed

lemma fail_agrees:
  assumes "sub_wf s" "sub_Status s \<noteq> SubmissionStatusAcknowledged"
  shows "(if sub_Status s \<in> {SubmissionStatusReceiving, SubmissionStatusReady}
     then s\<lparr>sub_Status := SubmissionStatusFailed, sub_FailedAt := coalesce (sub_FailedAt s) now\<rparr> else s)
   = FailSubmission s now"
proof (cases "sub_Status s")
  case SubmissionStatusReceiving
  with assms(1) show ?thesis by (simp add: FailSubmission_def sub_wf_def coalesce_def)
next
  case SubmissionStatusReady
  with assms(1) show ?thesis by (simp add: FailSubmission_def sub_wf_def coalesce_def)
next
  case SubmissionStatusFailed
  with assms(1) show ?thesis by (simp add: FailSubmission_def)
next
  case SubmissionStatusAcknowledged with assms show ?thesis by simp
next
  case SubmissionStatusOther with assms show ?thesis by (simp add: sub_wf_def)
qed
text \<open>\<open>FailSubmission\<close> on a stored submission does what the domain operation does, except
  that it refuses an acknowledged one, which the domain operation would turn into a failed one.\<close>

theorem fail_submission_outcome:
  assumes "w_faults w = []" "db_inv (w_db w)" "submission_at (w_db w) dpid sid = Some s"
    and run: "run_state (repo_FailSubmission dpid sid now) w = (r, w')"
  shows "if sub_Status s = SubmissionStatusAcknowledged
    then r = Inl ErrSubmissionAcknowledged \<and> submission_at (w_db w') dpid sid = Some s
      \<and> FailSubmission s now \<noteq> s
    else r = Inr () \<and> sub_updated (w_db w) (w_db w') dpid sid (\<lambda>_. True) (\<lambda>s. FailSubmission s now)"
proof -
  obtain d1 where d1: "stmt_fail_submission dpid sid now (w_db w) =
      Inr (hits (\<lambda>s. sub_Status s \<in> {SubmissionStatusReceiving, SubmissionStatusReady})
             (submission_at (w_db w) dpid sid), d1)"
    "sub_updated (w_db w) d1 dpid sid
        (\<lambda>s. sub_Status s \<in> {SubmissionStatusReceiving, SubmissionStatusReady})
        (\<lambda>s. s\<lparr>sub_Status := SubmissionStatusFailed, sub_FailedAt := coalesce (sub_FailedAt s) now\<rparr>)"
    using stmt_fail_submission_at [OF assms(2)] by blast
  have inv: "db_inv d1" by (rule fail_submission_inv [OF assms(2) d1(1)])
  have wf: "sub_wf s" using submission_at_wf [OF assms(2,3)] by simp
  note at = assms(3) sub_updated_at [OF d1(2) assms(3)]
  have upd: "sub_updated (w_db w) d1 dpid sid (\<lambda>_. True) (\<lambda>s. FailSubmission s now)"
    if "sub_Status s \<noteq> SubmissionStatusAcknowledged"
    by (rule sub_updated_cong [OF d1(2) assms(3)])
      (simp add: fail_agrees [OF wf that, symmetric])
  have neq: "FailSubmission s now \<noteq> s" if "sub_Status s = SubmissionStatusAcknowledged"
  proof
    assume "FailSubmission s now = s"
    then have "sub_Status (FailSubmission s now) = sub_Status s" by simp
    with that show False by (simp add: FailSubmission_def)
  qed
  have "w_db w' = d1 \<and> r = (if sub_Status s = SubmissionStatusAcknowledged
      then Inl ErrSubmissionAcknowledged else Inr ())"
    using run assms(1,2) d1(1) inv wf at
    by (cases "sub_Status s") (auto simp: repo_FailSubmission_def find_submission_run no_fault
        hits_def submissionUnavailableError_def sub_wf_def)
  with upd neq at(2) show ?thesis by simp
qed


section \<open>Creation and purge\<close>

text \<open>Under any faults, a successful \<open>CreateDropPointWithinQuota\<close> means that the token was
  below its limit at that time and that the new drop point is stored as given, next to the
  unchanged others; without faults it fails only at the limit or on a taken ID or token hash, and
  then changes nothing.\<close>

theorem create_within_quota_outcome:
  assumes "db_inv (w_db w)" "dp_wf dp" "sql_length (dp_DisplayName dp) \<noteq> 0"
    and run: "run_state (repo_CreateDropPointWithinQuota dp maxActive now) w = (r, w')"
  shows "(r = Inr () \<longrightarrow>
      int (active_count (w_db w) (dp_APITokenID dp) now) < maxActive
      \<and> drop_point_at (w_db w) (dp_ID dp) = None \<and> drop_point_at (w_db w') (dp_ID dp) = Some dp
      \<and> (\<forall>j. j \<noteq> dp_ID dp \<longrightarrow> drop_point_at (w_db w') j = drop_point_at (w_db w) j)
      \<and> submissions (w_db w') = submissions (w_db w))
    \<and> (w_faults w = [] \<longrightarrow> r \<noteq> Inr () \<longrightarrow>
      w_db w' = w_db w
      \<and> (maxActive \<le> int (active_count (w_db w) (dp_APITokenID dp) now)
         \<or> (\<exists>q \<in> set (drop_points (w_db w)).
              dpr_id q = dp_ID dp \<or> dpr_drop_token_hash q = dp_DropTokenHash dp)))"
proof (intro conjI impI)
  assume ok: "r = Inr ()"
  with run obtain n w1 where "run_state (sql_exec (stmt_insert_drop_point dp maxActive now)) w = (Inr n, w1)"
    "n \<noteq> 0" "w_db w1 = w_db w'"
    by (auto simp: repo_CreateDropPointWithinQuota_def dest!: rows_affected_run
        split: if_splits sum.splits prod.splits)
  then have "stmt_insert_drop_point dp maxActive now (w_db w) = Inr (n, w_db w')" "n \<noteq> 0"
    by (auto dest!: sql_exec_Inr)
  then have ins: "int (active_count (w_db w) (dp_APITokenID dp) now) < maxActive"
    "\<forall>q \<in> set (drop_points (w_db w)). dpr_id q \<noteq> dp_ID dp"
    "w_db w' = (w_db w)\<lparr>drop_points := drop_points (w_db w) @ [row_of_drop_point dp]\<rparr>"
    by (auto simp: stmt_insert_drop_point_def list_ex_iff split: if_splits)
  have row: "dpr_id (row_of_drop_point dp) = dp_ID dp" by (simp add: row_of_drop_point_def)
  have none: "find (\<lambda>r. dpr_id r = dp_ID dp) (drop_points (w_db w)) = None"
    using ins(2) by (simp add: find_None_iff)
  show "int (active_count (w_db w) (dp_APITokenID dp) now) < maxActive" by (rule ins(1))
  show "drop_point_at (w_db w) (dp_ID dp) = None" by (simp add: drop_point_at_def none)
  show "drop_point_at (w_db w') (dp_ID dp) = Some dp"
    by (simp add: drop_point_at_def ins(3) find_append none row)
  show "\<forall>j. j \<noteq> dp_ID dp \<longrightarrow> drop_point_at (w_db w') j = drop_point_at (w_db w) j"
    by (auto simp: drop_point_at_def ins(3) find_append row split: option.splits)
  show "submissions (w_db w') = submissions (w_db w)" by (simp add: ins(3))
next
  assume "w_faults w = []" "r \<noteq> Inr ()"
  with run assms(3) show "w_db w' = w_db w"
    "maxActive \<le> int (active_count (w_db w) (dp_APITokenID dp) now)
     \<or> (\<exists>q \<in> set (drop_points (w_db w)).
          dpr_id q = dp_ID dp \<or> dpr_drop_token_hash q = dp_DropTokenHash dp)"
    by (auto simp: repo_CreateDropPointWithinQuota_def no_fault stmt_insert_drop_point_def
        list_ex_iff split: if_splits)
qed

text \<open>A purge never removes a drop point that is open or ended after the cutoff, nor one with
  a submission that still points to files: the rows that lead to stored files all stay.\<close>

theorem purge_keeps_referenced_files:
  assumes "db_inv (w_db w)"
    and run: "run_state (repo_PurgeTerminalDropPoints cutoff) w = (r, w')"
  shows "(\<forall>s \<in> set (submissions (w_db w)). has_pointers s \<longrightarrow> s \<in> set (submissions (w_db w')))
    \<and> (\<forall>q \<in> set (drop_points (w_db w)). q \<notin> set (drop_points (w_db w')) \<longrightarrow>
         is_terminal (dpr_status q)
         \<and> (dpr_status q = StatusExpired \<longrightarrow> dpr_expires_at q \<le> cutoff)
         \<and> (\<forall>t. dpr_status q = StatusClosed \<and> dpr_closed_at q = Some t \<longrightarrow> t \<le> cutoff)
         \<and> (\<forall>t. dpr_status q = StatusFailed \<and> dpr_failed_at q = Some t \<longrightarrow> t \<le> cutoff))"
proof -
  have "w_db w' = w_db w \<or> (\<exists>n. stmt_purge cutoff (w_db w) = Inr (n, w_db w'))"
    using run
    by (auto simp: repo_PurgeTerminalDropPoints_def sql_exec_def effect_def rows_affected_def
        split: list.splits fault.splits sum.splits)
  then show ?thesis
  proof
    assume "\<exists>n. stmt_purge cutoff (w_db w) = Inr (n, w_db w')"
    then have d': "w_db w' = (w_db w)\<lparr>drop_points := delete_where (purgeable (w_db w) cutoff) (drop_points (w_db w)),
        submissions := filter (\<lambda>s. list_ex (\<lambda>r. dpr_id r = sr_drop_point_id s)
          (delete_where (purgeable (w_db w) cutoff) (drop_points (w_db w)))) (submissions (w_db w))\<rparr>"
      by (auto simp: stmt_purge_def Let_def)
    have "s \<in> set (submissions (w_db w'))" if s: "s \<in> set (submissions (w_db w))" "has_pointers s" for s
    proof -
      from s(1) assms(1) obtain q where q: "q \<in> set (drop_points (w_db w))" "dpr_id q = sr_drop_point_id s"
        by (auto simp: db_inv_def fk_inv_def dest!: bspec)
      then have "\<not> purgeable (w_db w) cutoff q" using s by (auto simp: purgeable_def list_ex_iff)
      with q s(1) show ?thesis by (auto simp: d' list_ex_iff table_simps)
    qed
    then show ?thesis by (auto simp: d' table_simps purgeable_def)
  qed simp
qed

section \<open>Witnesses\<close>

abbreviation sample_world :: world where
  "sample_world \<equiv> world_of sample_db"

lemmas sample_facts = sample_db_inv sample_at sample_counts

lemma sample_dp_simps:
  "RequireOpen sample_dp 8 = None" "dp_ID sample_dp = ''dp_a''" "dp_APITokenID sample_dp = ''desktop''"
  "dp_DropTokenHash sample_dp = ''hd''" "dp_PickupTokenHash sample_dp = HashSecret ''pick''"
  "dp_Status sample_dp = StatusOpen" "dp_ExpiresAt sample_dp = 15" "dp_CreatedAt sample_dp = 5"
  "dp_MaxPendingSubmissions sample_dp = 10" "dp_MaxPendingBytes sample_dp = 1000"
  "dp_DisplayName sample_dp = ''calm-otter''"
  by (simp_all add: sample_dp_def sample_drop_point_def RequireOpen_def)

theorem close_refines_domain_witness:
  "drop_point_at (w_db (snd (run_state (repo_CloseDropPoint ''dp_a'' 8) sample_world))) ''dp_a''
     = Some (fst (Close sample_dp 8)) \<and> snd (Close sample_dp 8) = None"
  using close_refines_domain [of sample_world "''dp_a''" sample_dp 8, OF _ _ _ surjective_pairing]
  by (simp add: sample_facts Close_def Expire_def sample_dp_simps)

theorem receipt_refines_domain_witness:
  "fst (run_state (repo_AcknowledgeSubmission ''dp_a'' ''sub_r'' 9) sample_world) = Inr ()
   \<and> fst (run_state (repo_MarkSubmissionPickedUp ''dp_a'' ''sub_r'' 9) sample_world) = Inr ()"
  using receipt_refines_domain [of sample_world "''dp_a''" "''sub_r''" "submission_of_row ready_row" 9,
      OF _ _ _ surjective_pairing surjective_pairing]
  by (simp add: sample_facts AcknowledgeSubmission_def MarkSubmissionPickedUp_def
      submission_of_row_def ready_row_def)


definition sample_stored :: commit_submission_result where
  "sample_stored = \<lparr>cs_EnvelopePath = ''e'', cs_PayloadPath = ''p'', cs_EncryptedSize = 60\<rparr>"

theorem commit_refines_domain_witness:
  "fst (run_state (repo_CommitSubmission ''dp_a'' ''sub_x'' sample_stored 8) sample_world) = Inr ()"
proof (rule ccontr)
  assume "\<not> ?thesis"
  then show False
    using commit_refines_domain [of sample_world "''dp_a''" sample_dp "''sub_x''" _ sample_stored 8,
        OF _ _ _ surjective_pairing]
    by (simp add: sample_facts sample_dp_simps CommitSubmission_def sample_stored_def
        submission_of_row_def new_submission_row_def)
qed

definition created_world :: world where
  "created_world =
     snd (run_state (repo_CreateDropPointWithinQuota sample_drop_point 3 5) (world_of empty_db))"

lemma created_db:
  "w_db created_world = empty_db\<lparr>drop_points := [row_of_drop_point sample_drop_point]\<rparr>"
  by (simp add: created_world_def repo_CreateDropPointWithinQuota_def no_fault
      stmt_insert_drop_point_def empty_db_def active_count_def sql_length_def sample_drop_point_def)

lemma created_call: "repo_call (world_of empty_db) created_world"
  unfolding created_world_def
  by (rule call_create [OF sample_request_New _ surjective_pairing])
    (simp add: sample_request_def is_int64_def)

lemma created_run: "repo_call\<^sup>*\<^sup>* (world_of empty_db) created_world"
  using created_call by (rule r_into_rtranclp)

theorem queue_quotas_hold_witness:
  "int (pending_count (w_db created_world) ''dp_a'') \<le> 10"
  using queue_quotas_hold [of "world_of empty_db" created_world "row_of_drop_point sample_drop_point",
      OF _ created_run]
  by (simp add: created_db) (simp add: row_of_drop_point_def sample_drop_point_def)

theorem stored_records_well_formed_witness:
  "drop_point_at (w_db created_world) ''dp_a'' = Some sample_drop_point \<and> dp_wf sample_drop_point"
proof -
  have "drop_point_at (w_db created_world) ''dp_a'' = Some sample_drop_point"
    by (simp add: created_db drop_point_at_def) (simp add: row_of_drop_point_def sample_drop_point_def)
  then show ?thesis
    using stored_records_well_formed [of "world_of empty_db" created_world,
        OF _ created_run] by simp
qed

theorem active_quota_holds_witness:
  "int (active_count (w_db created_world) ''desktop'' 6) \<le> 3"
proof (rule active_quota_holds)
  show "token_run ''desktop'' 3 6 (w_db created_world)"
    by (rule run_create [where t = 5 and maxActive = 3 and dp = sample_drop_point and n = 1, OF run_empty])
      (simp_all add: created_db stmt_insert_drop_point_def empty_db_def active_count_def sql_length_def
        sample_drop_point_def)
qed simp

theorem committed_submission_durable_witness:
  "\<exists>d'. stmt_acknowledge ''dp_a'' ''sub_r'' 9 sample_db = Inr (1, d')
     \<and> ((\<exists>s' \<in> set (submissions d'). same_payload ready_row s' \<and> committed s')
        \<or> (\<exists>d1 s1 r. db_step\<^sup>*\<^sup>* sample_db d1 \<and> db_step\<^sup>*\<^sup>* d1 d' \<and> s1 \<in> set (submissions d1)
            \<and> same_payload ready_row s1 \<and> \<not> has_pointers s1 \<and> r \<in> set (drop_points d1)
            \<and> dpr_id r = sr_drop_point_id ready_row \<and> is_terminal (dpr_status r)))"
proof -
  obtain d' where d': "stmt_acknowledge ''dp_a'' ''sub_r'' 9 sample_db = Inr (1, d')"
    using stmt_acknowledge_at [OF sample_db_inv, of "''dp_a''" "''sub_r''" 9]
    by (auto simp: sample_at hits_def submission_of_row_def ready_row_def)
  then have "db_step sample_db d'" by (rule step_acknowledge)
  then show ?thesis
    using d' committed_submission_durable [OF r_into_rtranclp sample_db_inv, of d' ready_row]
    by (simp add: sample_db_def committed_def ready_row_def)
qed

lemma sample_query:
  "query_drop_point (\<lambda>r. dpr_drop_token_hash r = ''hd'') sample_db = Inr sample_dp"
  "query_drop_point (\<lambda>r. dpr_id r = ''dp_a'') sample_db = Inr sample_dp"
  using scanDropPoint_row_of [OF sample_dp_wf]
  by (simp_all add: query_drop_point_def sample_db_def)
    (simp_all add: row_of_drop_point_def sample_dp_def sample_drop_point_def)

lemma sample_not_elapsed: "expire_if_elapsed sample_dp 8 = State_Monad.return (Inr sample_dp)"
  by (simp add: expire_if_elapsed_def sample_dp_simps)

theorem open_lookup_is_open_witness:
  "fst (run_state (repo_FindOpenDropPointByDropTokenHash ''hd'' 8) sample_world) = Inr sample_dp
   \<and> dp_DropTokenHash sample_dp = ''hd''"
proof -
  have r: "run_state (repo_FindOpenDropPointByDropTokenHash ''hd'' 8) sample_world
      = (Inr sample_dp, sample_world)"
    by (simp add: repo_FindOpenDropPointByDropTokenHash_def repo_FindDropPointByDropTokenHash_def
        no_fault sample_query sample_not_elapsed sample_dp_simps)
  with open_lookup_is_open [OF _ r] show ?thesis by (simp add: sample_facts)
qed

theorem pickup_authorization_sound_witness:
  "\<exists>dp. fst (run_state (repo_AuthorizePickupToken ''dp_a'' (HashSecret ''pick'') 8) sample_world) = Inr dp
     \<and> (\<exists>stored. drop_point_at sample_db ''dp_a'' = Some stored
          \<and> verifySecretHash ''pick'' (dp_PickupTokenHash stored) \<and> dp = fst (Expire stored 8))"
proof -
  have r: "run_state (repo_AuthorizePickupToken ''dp_a'' (HashSecret ''pick'') 8) sample_world
      = (Inr sample_dp, sample_world)"
    by (simp add: repo_AuthorizePickupToken_def repo_FindDropPointByID_def no_fault sample_query
        sample_not_elapsed sample_dp_simps EqualHash_def)
  with pickup_authorization_sound [OF _ r] show ?thesis by (simp add: sample_facts)
qed

theorem ready_list_exact_witness:
  "\<exists>xs. fst (run_state (repo_ListReadySubmissions ''dp_a'') sample_world) = Inr xs
     \<and> submission_of_row ready_row \<in> set xs"
  using ready_list_exact [of sample_world "''dp_a''", OF _ _ surjective_pairing]
  by (auto simp: sample_facts submission_of_row_def ready_row_def)

theorem expire_drop_points_exact_witness:
  "drop_point_at (w_db (snd (run_state (repo_ExpireDropPoints 15) sample_world))) ''dp_a''
     = Some (sample_dp\<lparr>dp_Status := StatusExpired\<rparr>)"
  using expire_drop_points_exact [of sample_world 15, OF _ _ surjective_pairing]
  by (auto simp: sample_facts Expire_def sample_dp_simps)

theorem disabled_token_rejected_witness:
  "\<forall>tok. fst (run_state (repo_FindEnabledAPITokenBySecretHash (HashSecret ''s''))
     (snd (run_state (repo_DisableAPIToken ''desktop'' 9) sample_world))) \<noteq> Inr tok"
proof (rule allI, rule disabled_token_rejected [where w = sample_world and t = sample_token_row and now = 9])
  show "run_state (repo_DisableAPIToken (tr_id sample_token_row) 9) sample_world =
      (Inr (), snd (run_state (repo_DisableAPIToken ''desktop'' 9) sample_world))"
    by (simp add: repo_DisableAPIToken_def exec_on_token_def no_fault stmt_disable_token_def
        sample_db_def sample_token_row_def zero_time_def count_where_Cons)
qed (simp_all add: sample_db_inv, simp_all add: sample_db_def sample_token_row_def)

theorem fail_submission_outcome_witness:
  "fst (run_state (repo_FailSubmission ''dp_a'' ''sub_x'' 9) sample_world) = Inr ()"
  using fail_submission_outcome [of sample_world "''dp_a''" "''sub_x''" _ 9, OF _ _ _ surjective_pairing]
  by (simp add: sample_facts submission_of_row_def new_submission_row_def)

theorem create_within_quota_outcome_witness:
  "drop_point_at (w_db created_world) ''dp_a'' = Some sample_drop_point
   \<and> int (active_count empty_db ''desktop'' 5) < 3"
proof -
  have r: "run_state (repo_CreateDropPointWithinQuota sample_drop_point 3 5) (world_of empty_db)
      = (Inr (), created_world)"
    by (simp add: created_world_def repo_CreateDropPointWithinQuota_def no_fault
        stmt_insert_drop_point_def empty_db_def active_count_def sql_length_def sample_drop_point_def)
  show ?thesis
    using create_within_quota_outcome [OF _ sample_drop_point_wf _ r]
    by (simp add: db_inv_empty) (simp add: sample_drop_point_def sql_length_def)
qed

theorem purge_keeps_referenced_files_witness:
  "ready_row \<in> set (submissions (w_db (snd (run_state (repo_PurgeTerminalDropPoints 99) sample_world))))"
proof -
  have "ready_row \<in> set (submissions sample_db)" "has_pointers ready_row"
    by (simp_all add: sample_db_def ready_row_def has_pointers_def)
  then show ?thesis
    using purge_keeps_referenced_files [of sample_world 99, OF _ surjective_pairing]
    by (simp add: sample_db_inv)
qed

end
