(* ===== verification/Blobstore.thy ===== *)
theory Blobstore
  imports Token World
begin

text \<open>
  The blob store of \<open>internal/blobstore/blobstore.go\<close> on the directory tree: names and paths, the
  atomic write of a submission, reading, and deletion. A path is the list of names below the data
  directory. The payload stream of an upload is the list of the results its \<open>Read\<close> calls return;
  after the last one the reader reports the end of the stream. A write either happens as a whole
  or not at all. Every context check, system call and \<open>Sync\<close> can fail.
\<close>

section \<open>Names and paths\<close>

definition DropPointsDirName :: go_string where "DropPointsDirName = ''drop-points''"
definition PayloadFileName :: go_string where "PayloadFileName = ''payload.bin''"
definition EnvelopeFileName :: go_string where "EnvelopeFileName = ''envelope.json''"

lemmas blob_names = DropPointsDirName_def PayloadFileName_def EnvelopeFileName_def

text \<open>\<open>filepath.Base\<close> on Unix.\<close>

definition filepath_Base :: "go_string \<Rightarrow> go_string" where
  "filepath_Base p =
     (if p = [] then ''.''
      else let q = rev (dropWhile (\<lambda>c. c = CHR ''/'') (rev p))
           in if q = [] then ''/''
              else rev (takeWhile (\<lambda>c. c \<noteq> CHR ''/'') (rev q)))"

definition id_char :: "char \<Rightarrow> bool" where
  "id_char c \<longleftrightarrow>
     CHR ''A'' \<le> c \<and> c \<le> CHR ''Z'' \<or> CHR ''a'' \<le> c \<and> c \<le> CHR ''z''
     \<or> CHR ''0'' \<le> c \<and> c \<le> CHR ''9'' \<or> c = CHR ''-'' \<or> c = CHR ''_''"

definition validateDropPointID :: "go_string \<Rightarrow> error option" where
  "validateDropPointID id0 =
     (if id0 = [] \<or> id0 = ''.'' \<or> id0 = ''..'' \<or> filepath_Base id0 \<noteq> id0
         \<or> contains_any id0 [CHR ''/'', CHR 0x5C, CHR 0x5C]
      then Some (ErrOther ''invalid drop point id'')
      else if \<not> has_prefix id0 DropPointIDPrefix then Some (ErrOther ''invalid drop point id'')
      else let secret = trim_prefix id0 DropPointIDPrefix in
      if secret = [] then Some (ErrOther ''invalid drop point id'')
      else if \<not> list_all id_char secret then Some (ErrOther ''invalid drop point id'')
      else None)"

definition dropDir :: "go_string \<Rightarrow> path" where
  "dropDir dpid = [DropPointsDirName, dpid]"

definition submissionDir :: "go_string \<Rightarrow> go_string \<Rightarrow> path" where
  "submissionDir dpid sid = dropDir dpid @ [sid]"

text \<open>\<open>filepath.Clean\<close> on Unix: whether the result is absolute, and its components. The empty
  list of components of a relative path is Go's \<open>"."\<close>.\<close>

fun split_on :: "char \<Rightarrow> go_string \<Rightarrow> go_string list" where
  "split_on sep [] = [[]]"
| "split_on sep (c # s) =
     (if c = sep then [] # split_on sep s
      else case split_on sep s of [] \<Rightarrow> [[c]] | w # ws \<Rightarrow> (c # w) # ws)"

fun clean_step :: "bool \<Rightarrow> go_string list \<Rightarrow> go_string \<Rightarrow> go_string list" where
  "clean_step rooted out name =
     (if name = [] \<or> name = ''.'' then out
      else if name = ''..'' then
        (case out of
           [] \<Rightarrow> if rooted then [] else [''..'']
         | prev # rest \<Rightarrow> if prev = ''..'' then ''..'' # out else rest)
      else name # out)"

definition filepath_Clean :: "go_string \<Rightarrow> bool \<times> path" where
  "filepath_Clean p =
     (let rooted = has_prefix p ''/''
      in (rooted, rev (foldl (clean_step rooted) [] (split_on CHR ''/'' p))))"

definition Path :: "go_string \<Rightarrow> path result" where
  "Path relative =
     (case filepath_Clean relative of
        (isAbs, clean) \<Rightarrow>
          if clean = [] \<and> \<not> isAbs \<or> isAbs \<or> (clean \<noteq> [] \<and> hd clean = ''..'')
          then Inl (ErrOther ''invalid blob path'')
          else Inr clean)"

text \<open>\<open>filepath.ToSlash(filepath.Join(names...))\<close> of clean, non-empty names.\<close>

fun join_slash :: "go_string list \<Rightarrow> go_string" where
  "join_slash [] = []"
| "join_slash [n] = n"
| "join_slash (n # ns) = n @ CHR ''/'' # join_slash ns"

definition tempToken :: "go_string result io" where
  "tempToken = do {
     r \<leftarrow> rand_read 16;
     State_Monad.return (case r of
         None \<Rightarrow> Inl (ErrOther ''generate blob temp token'')
       | Some b \<Rightarrow> Inr (hex_encode b))
   }"

section \<open>Failure classes\<close>

datatype failure_class = FailureInternal | FailureClientInput | FailureCapacity | FailureUnavailable

text \<open>\<open>errors.Is(err, ErrSourceRead)\<close>.\<close>

definition is_source_read :: "error \<Rightarrow> bool" where
  "is_source_read e \<longleftrightarrow> (case e of ErrSourceRead _ \<Rightarrow> True | _ \<Rightarrow> False)"

definition ClassifyFailure :: "error \<Rightarrow> failure_class" where
  "ClassifyFailure e =
     (if is_source_read e then FailureClientInput
      else if errors_is e (ErrIO ENOSPC) \<or> errors_is e (ErrIO EDQUOT) then FailureCapacity
      else if errors_is e (ErrIO EAGAIN) \<or> errors_is e (ErrIO EBUSY) \<or> errors_is e (ErrIO ESTALE)
              \<or> errors_is e (ErrIO ETIMEDOUT) \<or> errors_is e (ErrIO DeadlineExceeded)
              \<or> errors_is e (ErrIO Canceled)
      then FailureUnavailable
      else FailureInternal)"

section \<open>Writing a submission\<close>

text \<open>What one \<open>Read\<close> of the payload stream returns besides its bytes.\<close>

datatype read_status = ReadOk | ReadEOF | ReadErr error
datatype read_event = Read go_string read_status

definition writeFileAtomicPart :: "path \<Rightarrow> go_string \<Rightarrow> unit result io" where
  "writeFileAtomicPart p data = do {
     c \<leftarrow> may_fail;
     case c of Inl err \<Rightarrow> State_Monad.return (Inl err) | Inr _ \<Rightarrow> do {
     opened \<leftarrow> fs_exec (os_OpenExcl p);
     case opened of Inl err \<Rightarrow> State_Monad.return (Inl err) | Inr _ \<Rightarrow> do {
     written \<leftarrow> fs_exec (file_Write p data);
     case written of Inl err \<Rightarrow> State_Monad.return (Inl err) | Inr _ \<Rightarrow> do {
     c2 \<leftarrow> may_fail;
     case c2 of Inl err \<Rightarrow> State_Monad.return (Inl err) | Inr _ \<Rightarrow> do {
     synced \<leftarrow> may_fail;
     case synced of Inl err \<Rightarrow> State_Monad.return (Inl err) | Inr _ \<Rightarrow> may_fail
     }}}}
   }"

text \<open>The copy loop; \<open>n\<close> is the number of bytes written so far, an \<open>int64\<close>.\<close>

fun copyPayload :: "path \<Rightarrow> read_event list \<Rightarrow> int \<Rightarrow> int \<Rightarrow> int result io" where
  "copyPayload p [] maxBytes n = do {
     c \<leftarrow> may_fail;
     State_Monad.return (case c of Inl err \<Rightarrow> Inl (ErrSourceRead err) | Inr _ \<Rightarrow> Inr n)
   }"
| "copyPayload p (Read bs readErr # events) maxBytes n = do {
     c \<leftarrow> may_fail;
     case c of
       Inl err \<Rightarrow> State_Monad.return (Inl (ErrSourceRead err))
     | Inr _ \<Rightarrow>
         if bs \<noteq> [] \<and> int (length bs) > wrap64 (maxBytes - n)
         then State_Monad.return (Inl ErrPayloadTooLarge)
         else do {
           written \<leftarrow> (if bs \<noteq> [] then fs_exec (file_Write p bs) else State_Monad.return (Inr ()));
           case written of
             Inl err \<Rightarrow> State_Monad.return (Inl err)
           | Inr _ \<Rightarrow>
               let n1 = wrap64 (n + int (length bs)) in
               (case readErr of
                  ReadEOF \<Rightarrow> State_Monad.return (Inr n1)
                | ReadErr err \<Rightarrow> State_Monad.return (Inl (ErrSourceRead err))
                | ReadOk \<Rightarrow>
                    if bs = []
                    then State_Monad.return (Inl (ErrSourceRead (ErrOther ''reader returned no data or error'')))
                    else copyPayload p events maxBytes n1)
         }
   }"

definition writeStreamAtomicPart :: "path \<Rightarrow> read_event list \<Rightarrow> int \<Rightarrow> int result io" where
  "writeStreamAtomicPart p events maxBytes = do {
     c \<leftarrow> may_fail;
     case c of Inl err \<Rightarrow> State_Monad.return (Inl err) | Inr _ \<Rightarrow> do {
     opened \<leftarrow> fs_exec (os_OpenExcl p);
     case opened of Inl err \<Rightarrow> State_Monad.return (Inl err) | Inr _ \<Rightarrow> do {
     copied \<leftarrow> copyPayload p events maxBytes 0;
     syncErr \<leftarrow> may_fail;
     closeErr \<leftarrow> may_fail;
     State_Monad.return (case copied of
         Inl err \<Rightarrow> Inl err
       | Inr n \<Rightarrow> (case syncErr of
           Inl err \<Rightarrow> Inl err
         | Inr _ \<Rightarrow> (case closeErr of Inl err \<Rightarrow> Inl err | Inr _ \<Rightarrow> Inr n)))
     }}
   }"

text \<open>From the two temporary files to the two final ones; the deferred removal of the temporary
  files follows in \<open>WriteSubmission\<close>.\<close>

definition write_parts ::
    "path \<Rightarrow> path \<Rightarrow> path \<Rightarrow> go_string \<Rightarrow> read_event list \<Rightarrow> int \<Rightarrow> int result io" where
  "write_parts dir envelopeTemp payloadTemp envelope events maxBytes = do {
     r1 \<leftarrow> writeFileAtomicPart envelopeTemp envelope;
     case r1 of Inl err \<Rightarrow> State_Monad.return (Inl err) | Inr _ \<Rightarrow> do {
     r2 \<leftarrow> writeStreamAtomicPart payloadTemp events maxBytes;
     case r2 of Inl err \<Rightarrow> State_Monad.return (Inl err) | Inr n \<Rightarrow> do {
     r3 \<leftarrow> fs_exec (os_Rename payloadTemp (dir @ [PayloadFileName]));
     case r3 of Inl err \<Rightarrow> State_Monad.return (Inl err) | Inr _ \<Rightarrow> do {
     r4 \<leftarrow> fs_exec (os_Rename envelopeTemp (dir @ [EnvelopeFileName]));
     case r4 of
       Inl err \<Rightarrow> do {
         _ \<leftarrow> fs_exec (os_Remove (dir @ [PayloadFileName]));
         State_Monad.return (Inl err)
       }
     | Inr _ \<Rightarrow> do {
     r5 \<leftarrow> fs_exec (os_SyncDir dir);
     case r5 of Inl err \<Rightarrow> State_Monad.return (Inl err) | Inr _ \<Rightarrow> do {
     c \<leftarrow> may_fail;
     State_Monad.return (case c of Inl err \<Rightarrow> Inl err | Inr _ \<Rightarrow> Inr n)
     }}}}}
   }"

text \<open>\<open>defer cleanup()\<close>: the temporary files are removed whatever the outcome, errors ignored.\<close>

definition with_temps_removed :: "path \<Rightarrow> path \<Rightarrow> 'a result io \<Rightarrow> 'a result io" where
  "with_temps_removed e q m = do {
     r \<leftarrow> m;
     _ \<leftarrow> fs_exec (os_Remove e);
     _ \<leftarrow> fs_exec (os_Remove q);
     State_Monad.return r
   }"

definition envelope_temp :: "path \<Rightarrow> go_string \<Rightarrow> path" where
  "envelope_temp dir tok = dir @ [''.'' @ EnvelopeFileName @ ''.'' @ tok @ ''.tmp'']"

definition payload_temp :: "path \<Rightarrow> go_string \<Rightarrow> path" where
  "payload_temp dir tok = dir @ [''.'' @ PayloadFileName @ ''.'' @ tok @ ''.tmp'']"

definition stored_result :: "go_string \<Rightarrow> go_string \<Rightarrow> int \<Rightarrow> commit_submission_result" where
  "stored_result dpid sid n =
     \<lparr>cs_EnvelopePath = join_slash [DropPointsDirName, dpid, sid, EnvelopeFileName],
      cs_PayloadPath = join_slash [DropPointsDirName, dpid, sid, PayloadFileName],
      cs_EncryptedSize = n\<rparr>"

text \<open>Preparing the directory: created, its mode set, the parents synced.\<close>

definition prepare_dir :: "path \<Rightarrow> path \<Rightarrow> path \<Rightarrow> unit result io" where
  "prepare_dir dir parentDir dropDir0 = do {
     r1 \<leftarrow> fs_exec (os_MkdirAll dir);
     case r1 of Inl err \<Rightarrow> State_Monad.return (Inl err) | Inr _ \<Rightarrow> do {
     r2 \<leftarrow> fs_exec (os_Chmod dir);
     case r2 of Inl err \<Rightarrow> State_Monad.return (Inl err) | Inr _ \<Rightarrow> do {
     r3 \<leftarrow> fs_exec (os_SyncDir parentDir);
     case r3 of Inl err \<Rightarrow> State_Monad.return (Inl err) | Inr _ \<Rightarrow> do {
     r4 \<leftarrow> fs_exec (os_SyncDir dropDir0);
     case r4 of Inl err \<Rightarrow> State_Monad.return (Inl err) | Inr _ \<Rightarrow> may_fail
     }}}
   }"

definition WriteSubmission ::
    "go_string \<Rightarrow> go_string \<Rightarrow> go_string \<Rightarrow> read_event list \<Rightarrow> int
     \<Rightarrow> commit_submission_result result io" where
  "WriteSubmission dpid sid envelope events maxBytes = do {
     c \<leftarrow> may_fail;
     case c of Inl err \<Rightarrow> State_Monad.return (Inl err) | Inr _ \<Rightarrow>
     case validateDropPointID dpid of Some err \<Rightarrow> State_Monad.return (Inl err) | None \<Rightarrow>
     if \<not> ValidSubmissionID sid then State_Monad.return (Inl (ErrOther ''invalid submission id''))
     else if maxBytes \<le> 0 then State_Monad.return (Inl (ErrOther ''max bytes must be positive''))
     else if envelope = [] then State_Monad.return (Inl ErrEnvelopeInvalid)
     else do {
       let dir = submissionDir dpid sid;
       prepared \<leftarrow> prepare_dir dir [DropPointsDirName] (dropDir dpid);
       case prepared of Inl err \<Rightarrow> State_Monad.return (Inl err) | Inr _ \<Rightarrow> do {
       tok \<leftarrow> tempToken;
       case tok of Inl err \<Rightarrow> State_Monad.return (Inl err) | Inr t \<Rightarrow> do {
         r \<leftarrow> with_temps_removed (envelope_temp dir t) (payload_temp dir t)
                (write_parts dir (envelope_temp dir t) (payload_temp dir t) envelope events maxBytes);
         State_Monad.return (case r of
             Inl err \<Rightarrow> Inl err
           | Inr n \<Rightarrow> Inr (stored_result dpid sid n))
       }}
     }
   }"

section \<open>Reading\<close>

definition ReadEnvelope :: "go_string \<Rightarrow> go_string result io" where
  "ReadEnvelope relative = do {
     c \<leftarrow> may_fail;
     case c of Inl err \<Rightarrow> State_Monad.return (Inl err) | Inr _ \<Rightarrow>
     case Path relative of Inl err \<Rightarrow> State_Monad.return (Inl err) | Inr p \<Rightarrow> do {
     r \<leftarrow> fs_read (os_ReadFile p);
     case r of Inl err \<Rightarrow> State_Monad.return (Inl err) | Inr data \<Rightarrow> do {
     c2 \<leftarrow> may_fail;
     State_Monad.return (case c2 of Inl err \<Rightarrow> Inl err | Inr _ \<Rightarrow> Inr data)
     }}
   }"

text \<open>\<open>os.Open\<close> and \<open>Stat\<close>: the open file is its content at that time, with its size.\<close>

definition OpenPayload :: "go_string \<Rightarrow> (go_string \<times> int) result io" where
  "OpenPayload relative = do {
     c \<leftarrow> may_fail;
     case c of Inl err \<Rightarrow> State_Monad.return (Inl err) | Inr _ \<Rightarrow>
     case Path relative of Inl err \<Rightarrow> State_Monad.return (Inl err) | Inr p \<Rightarrow> do {
     r \<leftarrow> fs_read (os_ReadFile p);
     case r of Inl err \<Rightarrow> State_Monad.return (Inl err) | Inr data \<Rightarrow> do {
     s \<leftarrow> may_fail;
     State_Monad.return (case s of Inl err \<Rightarrow> Inl err | Inr _ \<Rightarrow> Inr (data, int (length data)))
     }}
   }"

section \<open>Deleting\<close>

text \<open>\<open>os.RemoveAll\<close>: removes the entries it finds, children first; an entry that has vanished is
  not an error, and the first other error is reported after the rest has been tried.\<close>

fun remove_entries :: "path list \<Rightarrow> unit result io" where
  "remove_entries [] = State_Monad.return (Inr ())"
| "remove_entries (p # ps) = do {
     r \<leftarrow> fs_exec (os_Remove p);
     rest \<leftarrow> remove_entries ps;
     State_Monad.return (case r of
         Inl err \<Rightarrow> if err = ErrNotExist then rest else Inl err
       | Inr _ \<Rightarrow> rest)
   }"

definition os_RemoveAll :: "path \<Rightarrow> unit result io" where
  "os_RemoveAll p = do {
     es \<leftarrow> fs_read (\<lambda>t. Inr (tree_entries t p));
     case es of Inl err \<Rightarrow> State_Monad.return (Inl err) | Inr entries \<Rightarrow> remove_entries entries
   }"

definition DeleteDropPoint :: "go_string \<Rightarrow> unit result io" where
  "DeleteDropPoint dpid = do {
     c \<leftarrow> may_fail;
     case c of Inl err \<Rightarrow> State_Monad.return (Inl err) | Inr _ \<Rightarrow>
     case validateDropPointID dpid of Some err \<Rightarrow> State_Monad.return (Inl err) | None \<Rightarrow> do {
     r \<leftarrow> os_RemoveAll (dropDir dpid);
     case r of Inl err \<Rightarrow> State_Monad.return (Inl err) | Inr _ \<Rightarrow> do {
     s \<leftarrow> fs_exec (os_SyncDir [DropPointsDirName]);
     case s of Inl err \<Rightarrow> State_Monad.return (Inl err) | Inr _ \<Rightarrow> may_fail
     }}
   }"

definition DeleteSubmission :: "go_string \<Rightarrow> go_string \<Rightarrow> unit result io" where
  "DeleteSubmission dpid sid = do {
     c \<leftarrow> may_fail;
     case c of Inl err \<Rightarrow> State_Monad.return (Inl err) | Inr _ \<Rightarrow>
     case validateDropPointID dpid of Some err \<Rightarrow> State_Monad.return (Inl err) | None \<Rightarrow>
     if \<not> ValidSubmissionID sid then State_Monad.return (Inl (ErrOther ''invalid submission id''))
     else do {
     r \<leftarrow> os_RemoveAll (submissionDir dpid sid);
     case r of Inl err \<Rightarrow> State_Monad.return (Inl err) | Inr _ \<Rightarrow> do {
     s \<leftarrow> fs_exec (os_SyncDir (dropDir dpid));
     case s of
       Inl err \<Rightarrow> if \<not> errors_is err ErrNotExist then State_Monad.return (Inl err) else may_fail
     | Inr _ \<Rightarrow> may_fail
     }}
   }"

text \<open>The loop over the entries checks the context at each of them.\<close>

fun collect_ids :: "(go_string \<times> bool) list \<Rightarrow> go_string list result io" where
  "collect_ids [] = State_Monad.return (Inr [])"
| "collect_ids ((name, isDir) # entries) = do {
     c \<leftarrow> may_fail;
     case c of Inl err \<Rightarrow> State_Monad.return (Inl err) | Inr _ \<Rightarrow> do {
     rest \<leftarrow> collect_ids entries;
     State_Monad.return (case rest of
         Inl err \<Rightarrow> Inl err
       | Inr ids \<Rightarrow> Inr (if \<not> isDir \<or> validateDropPointID name \<noteq> None then ids else name # ids))
     }
   }"

definition blob_DropPointIDs :: "go_string list result io" where
  "blob_DropPointIDs = do {
     c \<leftarrow> may_fail;
     case c of Inl err \<Rightarrow> State_Monad.return (Inl err) | Inr _ \<Rightarrow> do {
     r \<leftarrow> fs_read (os_ReadDir [DropPointsDirName]);
     case r of
       Inl err \<Rightarrow> State_Monad.return (if errors_is err ErrNotExist then Inr [] else Inl err)
     | Inr entries \<Rightarrow> collect_ids entries
     }
   }"

end
