(* ===== verification/Blob_Facts.thy ===== *)
theory Blob_Facts
  imports Blobstore
begin

text \<open>
  What the blob store's operations guarantee under any faults: each one changes nothing outside
  its own directory, a reported deletion is complete, and a reported write has stored exactly the
  bytes of the envelope and of the payload stream.
\<close>

section \<open>What the operations can change\<close>

text \<open>\<open>blob_frame p\<close>: the database is unchanged, and outside the directory \<open>p\<close> nothing changed but
  missing directories on the way to \<open>p\<close>, which may have been created.\<close>

definition fs_frame :: "path \<Rightarrow> fs \<Rightarrow> fs \<Rightarrow> bool" where
  "fs_frame p t t' \<longleftrightarrow>
     (\<forall>q. \<not> below p q \<longrightarrow>
        fs_get t' q = fs_get t q
        \<or> fs_get t q = None \<and> fs_get t' q = Some Dir \<and> below q p)"

definition blob_frame :: "path \<Rightarrow> world \<Rightarrow> world \<Rightarrow> bool" where
  "blob_frame p w w' \<longleftrightarrow> w_db w' = w_db w \<and> fs_frame p (w_fs w) (w_fs w')"

lemma fs_frame_refl [simp]: "fs_frame p t t"
  by (simp add: fs_frame_def)

lemma fs_frame_trans: "fs_frame p t u \<Longrightarrow> fs_frame p u v \<Longrightarrow> fs_frame p t v"
  unfolding fs_frame_def by (metis option.distinct(1))

interpretation blob: io_frame "blob_frame p" for p
  by unfold_locales (auto simp: blob_frame_def intro: fs_frame_trans)

lemma keeps_fs_frame: "(\<And>t. fs_frame p t (snd (f t))) \<Longrightarrow> keeps (blob_frame p) (fs_exec f)"
  by (rule blob.keeps_fs) (auto simp: blob_frame_def, metis snd_conv)

lemma below_self_append: "below p (p @ q)"
  by simp

lemma fs_frame_ops:
  assumes "below p q" "q \<noteq> []"
  shows "fs_frame p t (snd (os_OpenExcl q t))" "fs_frame p t (snd (file_Write q bs t))"
    "fs_frame p t (snd (os_Remove q t))" "fs_frame p t (snd (os_Chmod q t))"
  using assms by (auto simp: fs_frame_def os_defs split: option.splits node.splits)

lemma fs_frame_sync: "fs_frame p t (snd (os_SyncDir q t))"
  by (simp add: os_SyncDir_def)

lemma fs_frame_rename:
  assumes "below p q" "q \<noteq> []" "below p r" "r \<noteq> []"
  shows "fs_frame p t (snd (os_Rename q r t))"
  using assms by (auto simp: fs_frame_def os_defs split: option.splits node.splits)

lemma mkdirs_change:
  "\<forall>p \<in> set ps. p \<noteq> [] \<Longrightarrow>
   fs_get (snd (mkdirs ps t)) q = fs_get t q
   \<or> fs_get t q = None \<and> fs_get (snd (mkdirs ps t)) q = Some Dir \<and> q \<in> set ps"
proof (induction ps t rule: mkdirs.induct)
  case (2 p ps t)
  show ?case
  proof (cases "fs_get t p")
    case None
    with 2 show ?thesis by (cases "q = p") auto
  next
    case (Some n)
    with 2 show ?thesis by (cases n) auto
  qed
qed simp

lemma fs_frame_mkdir: "fs_frame p t (snd (os_MkdirAll p t))"
proof -
  let ?ps = "map (\<lambda>n. take (Suc n) p) [0..<length p]"
  have ne: "\<forall>q \<in> set ?ps. q \<noteq> []" by (intro ballI) (rule prefixes_nonempty)
  have "below q p" if "q \<in> set ?ps" for q
    using that by (auto simp: below_def)
  then show ?thesis
    unfolding fs_frame_def os_MkdirAll_def using mkdirs_change [OF ne, of t] by blast
qed

lemma keeps_ops:
  "below p q \<Longrightarrow> q \<noteq> [] \<Longrightarrow> keeps (blob_frame p) (fs_exec (os_OpenExcl q))"
  "below p q \<Longrightarrow> q \<noteq> [] \<Longrightarrow> keeps (blob_frame p) (fs_exec (file_Write q bs))"
  "below p q \<Longrightarrow> q \<noteq> [] \<Longrightarrow> keeps (blob_frame p) (fs_exec (os_Remove q))"
  "below p q \<Longrightarrow> q \<noteq> [] \<Longrightarrow> keeps (blob_frame p) (fs_exec (os_Chmod q))"
  "below p q \<Longrightarrow> q \<noteq> [] \<Longrightarrow> below p r \<Longrightarrow> r \<noteq> [] \<Longrightarrow> keeps (blob_frame p) (fs_exec (os_Rename q r))"
  "keeps (blob_frame p) (fs_exec (os_SyncDir q))"
  "keeps (blob_frame p) (fs_exec (os_MkdirAll p))"
  by (rule keeps_fs_frame, simp add: fs_frame_ops fs_frame_rename fs_frame_sync fs_frame_mkdir)+

lemmas keeps_blob = blob.keeps_prims keeps_cases keeps_ops

lemma keeps_read_status:
  "keeps R a \<Longrightarrow> keeps R b \<Longrightarrow> (\<And>e. keeps R (c e)) \<Longrightarrow>
   keeps R (case st of ReadOk \<Rightarrow> a | ReadEOF \<Rightarrow> b | ReadErr e \<Rightarrow> c e)"
  by (cases st) auto

lemma keeps_copyPayload:
  assumes "below p q" "q \<noteq> []"
  shows "keeps (blob_frame p) (copyPayload q events maxBytes n)"
proof (induction events arbitrary: n)
  case Nil
  show ?case by (simp, intro keeps_blob)
next
  case (Cons ev events)
  obtain bs st where ev: "ev = Read bs st" by (cases ev)
  show ?case
    unfolding ev copyPayload.simps Let_def
    by (intro keeps_blob keeps_read_status Cons.IH assms)
qed

lemma keeps_writers:
  assumes "below p q" "q \<noteq> []"
  shows "keeps (blob_frame p) (writeFileAtomicPart q data)"
    "keeps (blob_frame p) (writeStreamAtomicPart q events maxBytes)"
  unfolding writeFileAtomicPart_def writeStreamAtomicPart_def
  by (intro keeps_blob keeps_copyPayload assms)+

lemma keeps_write_parts:
  assumes "below p e" "e \<noteq> []" "below p q" "q \<noteq> []"
  shows "keeps (blob_frame p) (write_parts p e q envelope events maxBytes)"
  unfolding write_parts_def by (intro keeps_blob keeps_writers assms; simp)

lemma keeps_with_temps:
  "below p e \<Longrightarrow> e \<noteq> [] \<Longrightarrow> below p q \<Longrightarrow> q \<noteq> [] \<Longrightarrow> keeps (blob_frame p) m \<Longrightarrow>
   keeps (blob_frame p) (with_temps_removed e q m)"
  unfolding with_temps_removed_def by (intro keeps_blob)

lemma keeps_tempToken: "keeps (blob_frame p) tempToken"
  unfolding tempToken_def by (intro keeps_blob)

lemma keeps_WriteSubmission:
  "keeps (blob_frame (submissionDir dpid sid)) (WriteSubmission dpid sid envelope events maxBytes)"
  unfolding WriteSubmission_def prepare_dir_def Let_def
  by (intro keeps_blob keeps_with_temps keeps_write_parts keeps_tempToken;
      simp add: submissionDir_def dropDir_def envelope_temp_def payload_temp_def)

lemma keeps_collect_ids: "keeps (blob_frame p) (collect_ids entries)"
  by (induction entries rule: collect_ids.induct) (simp_all, (intro keeps_blob; simp)+)

lemma keeps_reads:
  "keeps (blob_frame p) (ReadEnvelope rel)" "keeps (blob_frame p) (OpenPayload rel)"
  "keeps (blob_frame p) blob_DropPointIDs"
  unfolding ReadEnvelope_def OpenPayload_def blob_DropPointIDs_def
  by (intro keeps_blob keeps_collect_ids)+

lemma keeps_remove_entries:
  "\<forall>e \<in> set es. below p e \<and> e \<noteq> [] \<Longrightarrow> keeps (blob_frame p) (remove_entries es)"
  by (induction es) (simp_all, (intro keeps_blob; simp)+)

lemma tree_entries_below: "e \<in> set (tree_entries t p) \<Longrightarrow> below p e"
  by (auto simp: tree_entries_def)

lemma below_nonempty: "below p q \<Longrightarrow> p \<noteq> [] \<Longrightarrow> q \<noteq> []"
  by (cases p; cases q) auto

lemma keeps_RemoveAll:
  assumes "p \<noteq> []"
  shows "keeps (blob_frame p) (os_RemoveAll p)"
  unfolding os_RemoveAll_def
proof (rule blob.keeps_bind_value)
  fix w x w' assume run: "run_state (fs_read (\<lambda>t. Inr (tree_entries t p))) w = (x, w')"
  show "keeps (blob_frame p) (case x of Inl err \<Rightarrow> State_Monad.return (Inl err) | Inr es \<Rightarrow> remove_entries es)"
  proof (cases x)
    case (Inr es)
    with run have "es = tree_entries (w_fs w) p" by (auto dest: fs_read_Inr)
    with assms have "\<forall>e \<in> set es. below p e \<and> e \<noteq> []"
      by (auto dest: tree_entries_below below_nonempty)
    with Inr show ?thesis by (simp add: keeps_remove_entries)
  qed (simp add: blob.keeps_return)
qed (intro keeps_blob)

lemma keeps_deletes:
  "keeps (blob_frame (dropDir dpid)) (DeleteDropPoint dpid)"
  "keeps (blob_frame (submissionDir dpid sid)) (DeleteSubmission dpid sid)"
  unfolding DeleteDropPoint_def DeleteSubmission_def
  by (intro keeps_blob keeps_RemoveAll; simp add: submissionDir_def dropDir_def)+

section \<open>Deletion\<close>

lemma fs_get_entry: "fs_get t q \<noteq> None \<Longrightarrow> q \<noteq> [] \<Longrightarrow> below p q \<Longrightarrow> q \<in> set (tree_entries t p)"
  by (force simp: tree_entries_def fs_get_def dest: map_of_SomeD)

lemma os_Remove_Inr: "os_Remove p t = (Inr (), t') \<Longrightarrow> t' = fs_del p t \<and> p \<noteq> []"
  by (auto simp: os_Remove_def split: option.splits node.splits if_splits)

lemma os_Remove_gone: "os_Remove p t = (Inl ErrNotExist, t') \<Longrightarrow> t' = t \<and> fs_get t p = None"
  by (auto simp: os_Remove_def split: option.splits node.splits if_splits)

lemma fs_exec_NotExist:
  assumes "run_state (fs_exec f) w = (Inl ErrNotExist, w')"
  shows "f (w_fs w) = (Inl ErrNotExist, w_fs w')"
  using assms by (auto simp: fs_exec_def effect_def split: list.splits fault.splits prod.splits)

lemma remove_entries_Inr:
  assumes "run_state (remove_entries es) w = (Inr (), w')"
  shows "(\<forall>e \<in> set es. fs_get (w_fs w') e = None \<or> e = [])
    \<and> (\<forall>q. fs_get (w_fs w) q = None \<longrightarrow> fs_get (w_fs w') q = None)"
  using assms
proof (induction es arbitrary: w)
  case (Cons e es)
  obtain r w1 where r: "run_state (fs_exec (os_Remove e)) w = (r, w1)"
    by (cases "run_state (fs_exec (os_Remove e)) w")
  obtain r2 w2 where r2: "run_state (remove_entries es) w1 = (r2, w2)"
    by (cases "run_state (remove_entries es) w1")
  from Cons.prems r r2 have w2: "r2 = Inr ()" "w2 = w'" and ok: "r = Inr () \<or> r = Inl ErrNotExist"
    by (auto split: sum.splits if_splits)
  have e: "(fs_get (w_fs w1) e = None \<or> e = []) \<and> (\<forall>q. fs_get (w_fs w) q = None \<longrightarrow> fs_get (w_fs w1) q = None)"
    using ok
  proof
    assume "r = Inr ()"
    with r have "os_Remove e (w_fs w) = (Inr (), w_fs w1)" by (auto dest: fs_exec_Inr)
    then have "w_fs w1 = fs_del e (w_fs w)" "e \<noteq> []" by (auto dest: os_Remove_Inr)
    then show ?thesis by simp
  next
    assume "r = Inl ErrNotExist"
    with r have "os_Remove e (w_fs w) = (Inl ErrNotExist, w_fs w1)" by (auto dest: fs_exec_NotExist)
    then show ?thesis by (auto dest: os_Remove_gone)
  qed
  from Cons.IH [of w1] r2 w2 e show ?case by auto
qed simp

lemma RemoveAll_Inr:
  assumes "run_state (os_RemoveAll p) w = (Inr (), w')" "below p q" "q \<noteq> []"
  shows "fs_get (w_fs w') q = None"
proof -
  obtain es w1 where es: "run_state (fs_read (\<lambda>t. Inr (tree_entries t p))) w = (Inr es, w1)"
    and rm: "run_state (remove_entries es) w1 = (Inr (), w')"
    using assms(1) by (auto simp: os_RemoveAll_def split: sum.splits prod.splits)
  from es have "es = tree_entries (w_fs w) p" "w_fs w1 = w_fs w" by (auto dest: fs_read_Inr)
  with remove_entries_Inr [OF rm] fs_get_entry [of "w_fs w" q p] assms(2,3) show ?thesis by auto
qed
section \<open>Writing\<close>

text \<open>The bytes a stream delivers up to its end, if it ends without an error.\<close>

fun stream_data :: "read_event list \<Rightarrow> go_string option" where
  "stream_data [] = Some []"
| "stream_data (Read bs st # events) =
     (case st of
        ReadEOF \<Rightarrow> Some bs
      | ReadErr _ \<Rightarrow> None
      | ReadOk \<Rightarrow> if bs = [] then None else map_option (\<lambda>rest. bs @ rest) (stream_data events))"

definition put_file :: "path \<Rightarrow> go_string \<Rightarrow> fs \<Rightarrow> fs \<Rightarrow> bool" where
  "put_file p data t t' \<longleftrightarrow> (\<forall>q. fs_get t' q = (if q = p then Some (File data) else fs_get t q))"

lemma put_file_trans: "put_file p a t u \<Longrightarrow> put_file p b u v \<Longrightarrow> put_file p b t v"
  by (simp add: put_file_def)

lemma OpenExcl_Inr:
  assumes "run_state (fs_exec (os_OpenExcl p)) w = (Inr (), w')"
  shows "fs_get (w_fs w) p = None \<and> put_file p [] (w_fs w) (w_fs w')"
proof -
  have p: "fs_get (w_fs w) p = None" and t: "w_fs w' = fs_put p (File []) (w_fs w)"
    using fs_exec_Inr [OF assms] by (auto simp: os_OpenExcl_def split: if_splits)
  then have "p \<noteq> []" by auto
  with p t show ?thesis by (simp add: put_file_def)
qed

lemma Write_Inr:
  assumes "run_state (fs_exec (file_Write p bs)) w = (Inr (), w')" "fs_get (w_fs w) p = Some (File old)"
  shows "put_file p (old @ bs) (w_fs w) (w_fs w')"
proof -
  have "p \<noteq> []" using assms(2) by auto
  moreover have "w_fs w' = fs_put p (File (old @ bs)) (w_fs w)"
    using fs_exec_Inr [OF assms(1)] assms(2) by (auto simp: file_Write_def)
  ultimately show ?thesis by (simp add: put_file_def)
qed

lemma may_fail_fs: "run_state may_fail w = (r, w') \<Longrightarrow> w_fs w' = w_fs w"
  by (simp add: may_fail_run)

lemma writeFileAtomicPart_Inr:
  assumes "run_state (writeFileAtomicPart p data) w = (Inr (), w')"
  shows "fs_get (w_fs w) p = None \<and> put_file p data (w_fs w) (w_fs w')"
proof -
  obtain w1 w2 w3 w4 w5 where r: "run_state may_fail w = (Inr (), w1)"
    "run_state (fs_exec (os_OpenExcl p)) w1 = (Inr (), w2)"
    "run_state (fs_exec (file_Write p data)) w2 = (Inr (), w3)"
    "run_state may_fail w3 = (Inr (), w4)" "run_state may_fail w4 = (Inr (), w5)"
    "run_state may_fail w5 = (Inr (), w')"
    using assms by (auto simp: writeFileAtomicPart_def split: sum.splits prod.splits)
  have o: "fs_get (w_fs w) p = None \<and> put_file p [] (w_fs w) (w_fs w2)"
    using OpenExcl_Inr [OF r(2)] may_fail_fs [OF r(1)] by simp
  then have "put_file p data (w_fs w2) (w_fs w3)"
    using Write_Inr [OF r(3), of "[]"] by (simp add: put_file_def)
  with o show ?thesis
    using may_fail_fs [OF r(4)] may_fail_fs [OF r(5)] may_fail_fs [OF r(6)]
    by (auto intro: put_file_trans)
qed

lemma copyPayload_Inr:
  assumes "run_state (copyPayload p events maxBytes n) w = (Inr n', w')"
    and "fs_get (w_fs w) p = Some (File old)" "0 \<le> n" "n \<le> maxBytes" "is_int64 maxBytes"
  shows "\<exists>data. stream_data events = Some data \<and> n' = n + int (length data) \<and> n' \<le> maxBytes
    \<and> put_file p (old @ data) (w_fs w) (w_fs w')"
  using assms
proof (induction events arbitrary: n w old)
  case Nil
  then have "n' = n" "w_fs w' = w_fs w"
    by (auto dest: may_fail_fs split: sum.splits prod.splits)
  with Nil show ?case by (auto simp: put_file_def)
next
  case (Cons ev events)
  obtain bs st where ev: "ev = Read bs st" by (cases ev)
  obtain c w1 where c: "run_state may_fail w = (Inr c, w1)"
    and fits: "\<not> (bs \<noteq> [] \<and> wrap64 (maxBytes - n) < int (length bs))"
    using Cons.prems(1) by (auto simp: ev split: sum.splits prod.splits if_splits)
  have w1: "w_fs w1 = w_fs w" by (rule may_fail_fs [OF c])
  have room: "wrap64 (maxBytes - n) = maxBytes - n"
    using Cons.prems(3-5) by (intro wrap64_id is_int64_diff)
  have le: "n + int (length bs) \<le> maxBytes" using fits room Cons.prems(4) by (cases "bs = []") auto
  have size: "wrap64 (n + int (length bs)) = n + int (length bs)"
    using le Cons.prems(3,5) by (intro wrap64_id is_int64_mono [OF Cons.prems(5)]) auto
  obtain u w2 where wr: "run_state (if bs \<noteq> [] then fs_exec (file_Write p bs)
      else State_Monad.return (Inr ())) w1 = (Inr u, w2)"
    and rest: "run_state (case st of
        ReadEOF \<Rightarrow> State_Monad.return (Inr (n + int (length bs)))
      | ReadErr err \<Rightarrow> State_Monad.return (Inl (ErrSourceRead err))
      | ReadOk \<Rightarrow> if bs = []
          then State_Monad.return (Inl (ErrSourceRead (ErrOther ''reader returned no data or error'')))
          else copyPayload p events maxBytes (n + int (length bs))) w2 = (Inr n', w')"
    using Cons.prems(1) c fits by (auto simp: ev Let_def size split: sum.splits prod.splits)
  have put: "put_file p (old @ bs) (w_fs w) (w_fs w2)"
  proof (cases "bs = []")
    case True
    with wr w1 Cons.prems(2) show ?thesis by (auto simp: put_file_def)
  next
    case False
    with wr have "run_state (fs_exec (file_Write p bs)) w1 = (Inr (), w2)" by simp
    from Write_Inr [OF this] show ?thesis using w1 Cons.prems(2) by simp
  qed
  show ?case
  proof (cases st)
    case ReadEOF
    with rest put le show ?thesis by (auto simp: ev)
  next
    case ReadOk
    with rest have ne: "bs \<noteq> []"
      and run: "run_state (copyPayload p events maxBytes (n + int (length bs))) w2 = (Inr n', w')"
      by (auto split: if_splits)
    have "fs_get (w_fs w2) p = Some (File (old @ bs))" using put by (simp add: put_file_def)
    from Cons.IH [OF run this _ le Cons.prems(5)] Cons.prems(3) obtain data
      where "stream_data events = Some data" "n' = n + int (length bs) + int (length data)"
        "n' \<le> maxBytes" "put_file p ((old @ bs) @ data) (w_fs w2) (w_fs w')" by auto
    with ReadOk ne put show ?thesis
      by (auto simp: ev intro: put_file_trans)
  next
    case (ReadErr e)
    with rest show ?thesis by simp
  qed
qed

lemma writeStreamAtomicPart_Inr:
  assumes "run_state (writeStreamAtomicPart p events maxBytes) w = (Inr n, w')"
    and "0 < maxBytes" "is_int64 maxBytes"
  shows "\<exists>data. stream_data events = Some data \<and> n = int (length data) \<and> n \<le> maxBytes
    \<and> fs_get (w_fs w) p = None \<and> put_file p data (w_fs w) (w_fs w')"
proof -
  obtain w1 w2 w3 w4 where r: "run_state may_fail w = (Inr (), w1)"
    "run_state (fs_exec (os_OpenExcl p)) w1 = (Inr (), w2)"
    "run_state (copyPayload p events maxBytes 0) w2 = (Inr n, w3)"
    "run_state may_fail w3 = (Inr (), w4)" "run_state may_fail w4 = (Inr (), w')"
    using assms(1) by (auto simp: writeStreamAtomicPart_def split: sum.splits prod.splits)
  have o: "fs_get (w_fs w) p = None \<and> put_file p [] (w_fs w) (w_fs w2)"
    using OpenExcl_Inr [OF r(2)] may_fail_fs [OF r(1)] by simp
  then have "fs_get (w_fs w2) p = Some (File [])" by (simp add: put_file_def)
  from copyPayload_Inr [OF r(3) this] assms(2,3) o may_fail_fs [OF r(4)] may_fail_fs [OF r(5)]
  show ?thesis by (auto intro: put_file_trans)
qed

lemma Rename_Inr:
  assumes "run_state (fs_exec (os_Rename p q)) w = (Inr (), w')"
    and "fs_get (w_fs w) p = Some (File data)" "p \<noteq> q"
  shows "\<forall>r. fs_get (w_fs w') r =
    (if r = q then Some (File data) else if r = p then None else fs_get (w_fs w) r)"
proof -
  have "p \<noteq> []" using assms(2) by auto
  moreover have "q \<noteq> []" using fs_exec_Inr [OF assms(1)] assms(2)
    by (auto simp: os_Rename_def split: if_splits)
  moreover have "w_fs w' = fs_put q (File data) (fs_del p (w_fs w))"
    using fs_exec_Inr [OF assms(1)] assms(2) by (auto simp: os_Rename_def split: if_splits)
  ultimately show ?thesis using assms(3) by simp
qed

lemma write_parts_Inr:
  assumes "run_state (write_parts dir e q envelope events maxBytes) w = (Inr n, w')"
    and "0 < maxBytes" "is_int64 maxBytes"
    and "distinct [e, q, dir @ [EnvelopeFileName], dir @ [PayloadFileName]]"
  shows "\<exists>data. stream_data events = Some data \<and> n = int (length data) \<and> n \<le> maxBytes
    \<and> fs_get (w_fs w') (dir @ [EnvelopeFileName]) = Some (File envelope)
    \<and> fs_get (w_fs w') (dir @ [PayloadFileName]) = Some (File data)
    \<and> fs_get (w_fs w') e = None \<and> fs_get (w_fs w') q = None"
proof -
  obtain w1 w2 w3 w4 w5 where r: "run_state (writeFileAtomicPart e envelope) w = (Inr (), w1)"
    "run_state (writeStreamAtomicPart q events maxBytes) w1 = (Inr n, w2)"
    "run_state (fs_exec (os_Rename q (dir @ [PayloadFileName]))) w2 = (Inr (), w3)"
    "run_state (fs_exec (os_Rename e (dir @ [EnvelopeFileName]))) w3 = (Inr (), w4)"
    "run_state (fs_exec (os_SyncDir dir)) w4 = (Inr (), w5)" "run_state may_fail w5 = (Inr (), w')"
    using assms(1) by (auto simp: write_parts_def split: sum.splits prod.splits)
  have f: "put_file e envelope (w_fs w) (w_fs w1)" using writeFileAtomicPart_Inr [OF r(1)] by simp
  obtain data where d: "stream_data events = Some data" "n = int (length data)" "n \<le> maxBytes"
    "put_file q data (w_fs w1) (w_fs w2)"
    using writeStreamAtomicPart_Inr [OF r(2) assms(2,3)] by blast
  have "fs_get (w_fs w2) q = Some (File data)" "fs_get (w_fs w2) e = Some (File envelope)"
    using f d(4) assms(4) by (simp_all add: put_file_def)
  with Rename_Inr [OF r(3), of data] assms(4)
  have w3: "fs_get (w_fs w3) (dir @ [PayloadFileName]) = Some (File data)" "fs_get (w_fs w3) q = None"
    "fs_get (w_fs w3) e = Some (File envelope)" by auto
  have "w_fs w' = w_fs w4"
    using fs_exec_Inr [OF r(5)] may_fail_fs [OF r(6)] by (auto simp: os_SyncDir_def)
  with Rename_Inr [OF r(4) w3(3)] w3 assms(4) d(1-3) show ?thesis by auto
qed
section \<open>Names\<close>

definition clean_name :: "go_string \<Rightarrow> bool" where
  "clean_name n \<longleftrightarrow> n \<noteq> [] \<and> n \<noteq> ''.'' \<and> n \<noteq> ''..'' \<and> CHR ''/'' \<notin> set n"

lemma id_char_safe: "id_char c \<Longrightarrow> c \<noteq> CHR ''/'' \<and> c \<noteq> CHR 0x5C \<and> c \<noteq> CHR ''.'' \<and> c \<noteq> CHR 0x00"
  by (auto simp: id_char_def)

lemma validateDropPointID_None:
  assumes "validateDropPointID dpid = None"
  shows "\<exists>secret. dpid = ''dp_'' @ secret \<and> secret \<noteq> [] \<and> list_all id_char secret"
  using assms by (auto simp: validateDropPointID_def Let_def DropPointIDPrefix_def trim_prefix_def
      elim!: has_prefixE split: if_splits)

lemma dropPointID_clean:
  assumes "validateDropPointID dpid = None"
  shows "clean_name dpid"
proof -
  obtain secret where s: "dpid = ''dp_'' @ secret" "list_all id_char secret"
    using validateDropPointID_None [OF assms] by blast
  then have "CHR ''/'' \<notin> set dpid" by (auto simp: list_all_iff dest: id_char_safe)
  with s(1) show ?thesis by (simp add: clean_name_def)
qed

lemma submissionID_clean:
  assumes "ValidSubmissionID sid"
  shows "clean_name sid"
  using ValidSubmissionID_no_separator [OF assms] ValidSubmissionID_prefix [OF assms]
  by (auto simp: clean_name_def)

lemma split_on_no_sep: "sep \<notin> set s \<Longrightarrow> split_on sep s = [s]"
  by (induction s) auto

lemma split_on_append:
  "sep \<notin> set s \<Longrightarrow> split_on sep (s @ sep # t) = s # split_on sep t"
  by (induction s) auto

lemma split_on_join:
  "ns \<noteq> [] \<Longrightarrow> \<forall>n \<in> set ns. CHR ''/'' \<notin> set n \<Longrightarrow> split_on CHR ''/'' (join_slash ns) = ns"
  by (induction ns rule: join_slash.induct) (auto simp: split_on_no_sep split_on_append)

lemma clean_fold:
  "\<forall>n \<in> set ns. clean_name n \<Longrightarrow> foldl (clean_step rooted) out ns = rev ns @ out"
  by (induction ns arbitrary: out) (auto simp: clean_name_def)

lemma join_slash_relative:
  "\<forall>n \<in> set ns. clean_name n \<Longrightarrow> \<not> has_prefix (join_slash ns) ''/''"
proof (induction ns rule: join_slash.induct)
  case (2 n)
  then show ?case by (cases n) (auto simp: clean_name_def)
next
  case (3 n m ns)
  then show ?case by (cases n) (auto simp: clean_name_def)
qed simp

lemma Path_join:
  assumes "ns \<noteq> []" "\<forall>n \<in> set ns. clean_name n"
  shows "Path (join_slash ns) = Inr ns"
proof -
  have "split_on CHR ''/'' (join_slash ns) = ns"
    by (rule split_on_join [OF assms(1)]) (use assms(2) in \<open>auto simp: clean_name_def\<close>)
  then have "filepath_Clean (join_slash ns) = (False, ns)"
    using join_slash_relative [OF assms(2)] clean_fold [OF assms(2), of False "[]"]
    by (simp add: filepath_Clean_def Let_def)
  moreover have "hd ns \<noteq> ''..''" using assms by (cases ns) (auto simp: clean_name_def)
  ultimately show ?thesis using assms(1) by (simp add: Path_def)
qed

lemma blob_names_clean: "clean_name DropPointsDirName" "clean_name EnvelopeFileName" "clean_name PayloadFileName"
  by (simp_all add: clean_name_def blob_names)

text \<open>A resolved path consists of plain names.\<close>

lemma split_on_names: "n \<in> set (split_on sep s) \<Longrightarrow> sep \<notin> set n"
  by (induction s arbitrary: n) (auto split: if_splits list.splits)

text \<open>The stack of the cleaning loop: plain names above a run of parent references, the latter
  only for a relative path.\<close>

definition clean_stack :: "bool \<Rightarrow> go_string list \<Rightarrow> bool" where
  "clean_stack rooted out \<longleftrightarrow>
     (\<exists>ns k. out = ns @ replicate k ''..'' \<and> (\<forall>n \<in> set ns. clean_name n) \<and> (rooted \<longrightarrow> k = 0))"

lemma clean_step_stack:
  assumes "clean_stack rooted out" "CHR ''/'' \<notin> set name"
  shows "clean_stack rooted (clean_step rooted out name)"
proof -
  obtain ns k where o: "out = ns @ replicate k ''..''" "\<forall>n \<in> set ns. clean_name n" "rooted \<longrightarrow> k = 0"
    using assms(1) by (auto simp: clean_stack_def)
  show ?thesis
  proof (cases "name = ''..''")
    case False
    show ?thesis
    proof (cases "name = [] \<or> name = ''.''")
      case True
      then show ?thesis using assms(1) by auto
    next
      case plain: False
      with False assms(2) have "clean_name name" by (simp add: clean_name_def)
      with o plain False show ?thesis
        unfolding clean_stack_def by (intro exI [of _ "name # ns"] exI [of _ k]) auto
    qed
  next
    case True
    show ?thesis
    proof (cases ns)
      case (Cons n ns')
      with o have "n \<noteq> ''..''" by (simp add: clean_name_def)
      with o Cons True show ?thesis
        unfolding clean_stack_def by (intro exI [of _ ns'] exI [of _ k]) auto
    next
      case Nil
      show ?thesis
      proof (cases "k")
        case 0
        with o Nil True show ?thesis
          unfolding clean_stack_def
          by (intro exI [of _ "[]"] exI [of _ "if rooted then 0 else 1"]) auto
      next
        case (Suc m)
        with o Nil True show ?thesis
          unfolding clean_stack_def by (intro exI [of _ "[]"] exI [of _ "Suc k"]) auto
      qed
    qed
  qed
qed

lemma clean_foldl_stack:
  "clean_stack rooted out \<Longrightarrow> \<forall>n \<in> set ns. CHR ''/'' \<notin> set n \<Longrightarrow>
   clean_stack rooted (foldl (clean_step rooted) out ns)"
  by (induction ns arbitrary: out) (auto simp del: clean_step.simps intro: clean_step_stack)

lemma Path_names:
  assumes "Path rel = Inr p"
  shows "p \<noteq> [] \<and> (\<forall>n \<in> set p. clean_name n)"
proof -
  let ?out = "foldl (clean_step False) [] (split_on CHR ''/'' rel)"
  have p: "p = rev ?out" "\<not> has_prefix rel ''/''" "p \<noteq> []" "hd p \<noteq> ''..''"
    using assms by (auto simp: Path_def filepath_Clean_def Let_def split: if_splits)
  have "clean_stack False []" by (auto simp: clean_stack_def)
  then have "clean_stack False ?out" by (rule clean_foldl_stack) (auto dest: split_on_names)
  then obtain ns k where o: "?out = ns @ replicate k ''..''" "\<forall>n \<in> set ns. clean_name n"
    by (auto simp: clean_stack_def)
  have "k = 0"
  proof (rule ccontr)
    assume "k \<noteq> 0"
    then have "p = ''..'' # rev (ns @ replicate (k - 1) ''..'')"
      using p(1) o(1) by (cases k) (auto simp: replicate_append_same [symmetric])
    with p(4) show False by simp
  qed
  with o p show ?thesis by auto
qed

section \<open>A whole write\<close>

lemma Remove_absent:
  assumes "run_state (fs_exec (os_Remove p)) w = (r, w')" "fs_get (w_fs w) p = None"
  shows "w_fs w' = w_fs w"
  using fs_exec_run [OF assms(1)] assms(2) by (auto simp: os_Remove_def)

lemma temp_names_distinct:
  "distinct [envelope_temp dir t, payload_temp dir t, dir @ [EnvelopeFileName], dir @ [PayloadFileName]]"
  by (simp add: envelope_temp_def payload_temp_def blob_names)

lemma WriteSubmission_Inr:
  assumes run: "run_state (WriteSubmission dpid sid envelope events maxBytes) w = (Inr res, w')"
    and int64: "is_int64 maxBytes"
  shows "\<exists>data. stream_data events = Some data \<and> res = stored_result dpid sid (int (length data))
    \<and> int (length data) \<le> maxBytes \<and> envelope \<noteq> []
    \<and> validateDropPointID dpid = None \<and> ValidSubmissionID sid
    \<and> fs_get (w_fs w') (submissionDir dpid sid @ [EnvelopeFileName]) = Some (File envelope)
    \<and> fs_get (w_fs w') (submissionDir dpid sid @ [PayloadFileName]) = Some (File data)"
proof -
  let ?dir = "submissionDir dpid sid"
  have valid: "validateDropPointID dpid = None" "ValidSubmissionID sid" "0 < maxBytes" "envelope \<noteq> []"
    using run by (auto simp: WriteSubmission_def split: sum.splits prod.splits option.splits if_splits)
  obtain t n w1 w2 w3 u v where parts: "run_state (write_parts ?dir (envelope_temp ?dir t)
        (payload_temp ?dir t) envelope events maxBytes) w1 = (Inr n, w2)"
    and rm: "run_state (fs_exec (os_Remove (envelope_temp ?dir t))) w2 = (u, w3)"
      "run_state (fs_exec (os_Remove (payload_temp ?dir t))) w3 = (v, w')"
    and res: "res = stored_result dpid sid n"
    using run valid
    by (auto simp: WriteSubmission_def with_temps_removed_def Let_def
        split: sum.splits prod.splits if_splits)
  obtain data where d: "stream_data events = Some data" "n = int (length data)" "n \<le> maxBytes"
    "fs_get (w_fs w2) (?dir @ [EnvelopeFileName]) = Some (File envelope)"
    "fs_get (w_fs w2) (?dir @ [PayloadFileName]) = Some (File data)"
    "fs_get (w_fs w2) (envelope_temp ?dir t) = None" "fs_get (w_fs w2) (payload_temp ?dir t) = None"
    using write_parts_Inr [OF parts valid(3) int64 temp_names_distinct] by blast
  have "w_fs w3 = w_fs w2" by (rule Remove_absent [OF rm(1) d(6)])
  moreover have "w_fs w' = w_fs w3" using Remove_absent [OF rm(2)] d(7) calculation by simp
  ultimately show ?thesis using d valid res by auto
qed

lemma stored_paths:
  assumes "validateDropPointID dpid = None" "ValidSubmissionID sid"
  shows "Path (cs_EnvelopePath (stored_result dpid sid n)) = Inr (submissionDir dpid sid @ [EnvelopeFileName])"
    "Path (cs_PayloadPath (stored_result dpid sid n)) = Inr (submissionDir dpid sid @ [PayloadFileName])"
  using Path_join [of "[DropPointsDirName, dpid, sid, EnvelopeFileName]"]
    Path_join [of "[DropPointsDirName, dpid, sid, PayloadFileName]"] assms
    blob_names_clean dropPointID_clean submissionID_clean
  by (simp_all add: stored_result_def submissionDir_def dropDir_def del: join_slash.simps)

section \<open>Writing without faults\<close>

text \<open>What the copy loop stores, as a function of the stream and the room left.\<close>

fun copy_spec :: "read_event list \<Rightarrow> int \<Rightarrow> error + go_string" where
  "copy_spec [] room = Inr []"
| "copy_spec (Read bs st # events) room =
     (if room < int (length bs) then Inl ErrPayloadTooLarge
      else case st of
             ReadEOF \<Rightarrow> Inr bs
           | ReadErr err \<Rightarrow> Inl (ErrSourceRead err)
           | ReadOk \<Rightarrow>
               if bs = [] then Inl (ErrSourceRead (ErrOther ''reader returned no data or error''))
               else case copy_spec events (room - int (length bs)) of
                      Inl err \<Rightarrow> Inl err
                    | Inr rest \<Rightarrow> Inr (bs @ rest))"

lemma run_fs_quiet:
  "w_faults w = [] \<Longrightarrow> f (w_fs w) = (r, t) \<Longrightarrow> run_state (fs_exec f) w = (r, w\<lparr>w_fs := t\<rparr>)"
  by (simp add: fs_exec_no_fault)

lemma put_file_put: "p \<noteq> [] \<Longrightarrow> put_file p data t (fs_put p (File data) t)"
  by (simp add: put_file_def)

lemma copyPayload_quiet:
  assumes "w_faults w = []" "fs_get (w_fs w) p = Some (File old)" "0 \<le> n" "n \<le> maxBytes" "is_int64 maxBytes"
  shows "\<exists>t data. put_file p data (w_fs w) t
    \<and> (\<forall>d. copy_spec events (maxBytes - n) = Inr d \<longrightarrow> data = old @ d)
    \<and> run_state (copyPayload p events maxBytes n) w =
    ((case copy_spec events (maxBytes - n) of Inl e \<Rightarrow> Inl e | Inr d \<Rightarrow> Inr (n + int (length d))),
     w\<lparr>w_fs := t\<rparr>)"
  using assms
proof (induction events arbitrary: n w old)
  case Nil
  then show ?case by (intro exI [of _ "w_fs w"] exI [of _ old]) (simp add: no_fault put_file_def)
next
  case (Cons ev events)
  obtain bs st where ev: "ev = Read bs st" by (cases ev)
  have p: "p \<noteq> []" using Cons.prems(2) by auto
  have room: "wrap64 (maxBytes - n) = maxBytes - n"
    using Cons.prems(3-5) by (intro wrap64_id is_int64_diff)
  show ?case
  proof (cases "maxBytes - n < int (length bs)")
    case True
    then have "bs \<noteq> []" using Cons.prems(4) by auto
    with True show ?thesis
      using Cons.prems(1,2) by (intro exI [of _ "w_fs w"] exI [of _ old])
        (simp add: ev no_fault room put_file_def)
  next
    case False
    have size: "wrap64 (n + int (length bs)) = n + int (length bs)"
      using False Cons.prems(3,5) by (intro wrap64_id is_int64_mono [OF Cons.prems(5)]) auto
    let ?w1 = "if bs = [] then w else w\<lparr>w_fs := fs_put p (File (old @ bs)) (w_fs w)\<rparr>"
    have wr: "run_state (if bs \<noteq> [] then fs_exec (file_Write p bs) else State_Monad.return (Inr ())) w
        = (Inr (), ?w1)"
      using Cons.prems(1,2) by (simp add: fs_exec_no_fault file_Write_def)
    have w1: "w_faults ?w1 = []" "fs_get (w_fs ?w1) p = Some (File (old @ bs))"
      "put_file p (old @ bs) (w_fs w) (w_fs ?w1)"
      using Cons.prems(1,2) p by (auto simp: put_file_def)
    have eq: "run_state (copyPayload p (ev # events) maxBytes n) w = run_state (case st of
        ReadEOF \<Rightarrow> State_Monad.return (Inr (n + int (length bs)))
      | ReadErr err \<Rightarrow> State_Monad.return (Inl (ErrSourceRead err))
      | ReadOk \<Rightarrow> if bs = []
          then State_Monad.return (Inl (ErrSourceRead (ErrOther ''reader returned no data or error'')))
          else copyPayload p events maxBytes (n + int (length bs))) ?w1"
      using False Cons.prems(1) wr by (simp add: ev no_fault room size Let_def)
    show ?thesis
    proof (cases "st = ReadOk \<and> bs \<noteq> []")
      case True
      have le: "0 \<le> n + int (length bs)" "n + int (length bs) \<le> maxBytes"
        using False Cons.prems(3) by auto
      obtain t data where t: "put_file p data (w_fs ?w1) t"
        "\<forall>d. copy_spec events (maxBytes - (n + int (length bs))) = Inr d \<longrightarrow> data = (old @ bs) @ d"
        "run_state (copyPayload p events maxBytes (n + int (length bs))) ?w1 =
          ((case copy_spec events (maxBytes - (n + int (length bs))) of Inl e \<Rightarrow> Inl e
            | Inr d \<Rightarrow> Inr (n + int (length bs) + int (length d))), ?w1\<lparr>w_fs := t\<rparr>)"
        using Cons.IH [OF w1(1,2) le Cons.prems(5)] by blast
      have "maxBytes - (n + int (length bs)) = maxBytes - n - int (length bs)" by simp
      with t True False eq put_file_trans [OF w1(3) t(1)] show ?thesis
        by (intro exI [of _ t] exI [of _ data]) (simp add: ev split: sum.splits)
    next
      case False2: False
      with eq w1(3) False show ?thesis
        by (intro exI [of _ "w_fs ?w1"] exI [of _ "old @ bs"])
          (auto simp: ev split: read_status.splits)
    qed
  qed
qed

lemma writeFile_quiet:
  assumes "w_faults w = []" "fs_get (w_fs w) p = None" "fs_get (w_fs w) (butlast p) = Some Dir"
  shows "\<exists>t. put_file p data (w_fs w) t
    \<and> run_state (writeFileAtomicPart p data) w = (Inr (), w\<lparr>w_fs := t\<rparr>)"
proof -
  have p: "p \<noteq> []" using assms(2) by auto
  let ?t = "fs_put p (File data) (fs_put p (File []) (w_fs w))"
  have "run_state (writeFileAtomicPart p data) w = (Inr (), w\<lparr>w_fs := ?t\<rparr>)"
    using assms p by (simp add: writeFileAtomicPart_def no_fault os_OpenExcl_def file_Write_def)
  moreover have "put_file p data (w_fs w) ?t" using p by (simp add: put_file_def)
  ultimately show ?thesis by blast
qed

lemma writeStream_quiet:
  assumes "w_faults w = []" "fs_get (w_fs w) p = None" "fs_get (w_fs w) (butlast p) = Some Dir"
    and "0 < maxBytes" "is_int64 maxBytes"
  shows "\<exists>t data. put_file p data (w_fs w) t \<and> (\<forall>d. copy_spec events maxBytes = Inr d \<longrightarrow> data = d)
    \<and> run_state (writeStreamAtomicPart p events maxBytes) w =
      ((case copy_spec events maxBytes of Inl e \<Rightarrow> Inl e | Inr d \<Rightarrow> Inr (int (length d))), w\<lparr>w_fs := t\<rparr>)"
proof -
  have p: "p \<noteq> []" using assms(2) by auto
  let ?w1 = "w\<lparr>w_fs := fs_put p (File []) (w_fs w)\<rparr>"
  have w1: "w_faults ?w1 = []" "fs_get (w_fs ?w1) p = Some (File [])" using assms(1) p by simp_all
  obtain t data where t: "put_file p data (w_fs ?w1) t"
    "\<forall>d. copy_spec events maxBytes = Inr d \<longrightarrow> data = d"
    "run_state (copyPayload p events maxBytes 0) ?w1 =
      ((case copy_spec events maxBytes of Inl e \<Rightarrow> Inl e | Inr d \<Rightarrow> Inr (int (length d))), ?w1\<lparr>w_fs := t\<rparr>)"
    using copyPayload_quiet [OF w1 _ _ assms(5), of 0 events, unfolded add_0 append_Nil diff_0_right]
      assms(4) by auto
  have "run_state (writeStreamAtomicPart p events maxBytes) w =
      ((case copy_spec events maxBytes of Inl e \<Rightarrow> Inl e | Inr d \<Rightarrow> Inr (int (length d))), w\<lparr>w_fs := t\<rparr>)"
    using assms(1-3) t(3)
    by (simp add: writeStreamAtomicPart_def no_fault os_OpenExcl_def split: sum.splits)
  moreover have "put_file p data (w_fs w) t" using t(1) p by (simp add: put_file_def)
  ultimately show ?thesis using t(2) by blast
qed

text \<open>The tree after a whole write: the two final files on success, and no temporary ones.\<close>

definition installed :: "path \<Rightarrow> go_string \<Rightarrow> (error + go_string) \<Rightarrow> fs \<Rightarrow> fs \<Rightarrow> bool" where
  "installed dir envelope r t t' \<longleftrightarrow>
     (\<forall>q. fs_get t' q =
        (case r of
           Inl _ \<Rightarrow> fs_get t q
         | Inr d \<Rightarrow> if q = dir @ [EnvelopeFileName] then Some (File envelope)
                  else if q = dir @ [PayloadFileName] then Some (File d) else fs_get t q))"

lemma write_parts_quiet:
  assumes "w_faults w = []" "fs_get (w_fs w) dir = Some Dir"
    and fresh: "\<forall>n. fs_get (w_fs w) (dir @ [n]) = None"
    and "0 < maxBytes" "is_int64 maxBytes"
    and tmp: "e = envelope_temp dir tok" "q = payload_temp dir tok"
  shows "\<exists>t. installed dir envelope (copy_spec events maxBytes) (w_fs w) t
    \<and> run_state (with_temps_removed e q (write_parts dir e q envelope events maxBytes)) w =
      ((case copy_spec events maxBytes of Inl e \<Rightarrow> Inl e | Inr d \<Rightarrow> Inr (int (length d))), w\<lparr>w_fs := t\<rparr>)"
proof -
  let ?E = "dir @ [EnvelopeFileName]" and ?P = "dir @ [PayloadFileName]"
  have dist: "distinct [e, q, ?E, ?P]" unfolding tmp by (rule temp_names_distinct)
  have last: "e \<noteq> []" "q \<noteq> []" "butlast e = dir" "butlast q = dir"
    by (simp_all add: tmp envelope_temp_def payload_temp_def)
  have none: "fs_get (w_fs w) e = None" "fs_get (w_fs w) q = None" "fs_get (w_fs w) ?E = None"
    "fs_get (w_fs w) ?P = None"
    using fresh by (simp_all add: tmp envelope_temp_def payload_temp_def)
  have qe: "q \<noteq> e" using dist by auto
  have dir: "e \<noteq> dir" "q \<noteq> dir" "?E \<noteq> dir" "?P \<noteq> dir"
    by (simp_all add: tmp envelope_temp_def payload_temp_def)
  obtain t1 where t1: "put_file e envelope (w_fs w) t1"
    "run_state (writeFileAtomicPart e envelope) w = (Inr (), w\<lparr>w_fs := t1\<rparr>)"
    using writeFile_quiet [OF assms(1) none(1)] assms(2) last by auto
  let ?w1 = "w\<lparr>w_fs := t1\<rparr>"
  have w1: "w_faults ?w1 = []" "fs_get (w_fs ?w1) q = None" "fs_get (w_fs ?w1) (butlast q) = Some Dir"
    using assms(1,2) t1(1) none dist dir last by (auto simp: put_file_def)
  obtain t2 data where t2: "put_file q data t1 t2" "\<forall>d. copy_spec events maxBytes = Inr d \<longrightarrow> data = d"
    "run_state (writeStreamAtomicPart q events maxBytes) ?w1 =
      ((case copy_spec events maxBytes of Inl e \<Rightarrow> Inl e | Inr d \<Rightarrow> Inr (int (length d))), w\<lparr>w_fs := t2\<rparr>)"
    using writeStream_quiet [OF w1 assms(4,5), of events] by auto
  have t2e: "fs_get t2 e = Some (File envelope)" "fs_get t2 q = Some (File data)"
    "fs_get t2 ?E = None" "fs_get t2 ?P = None" "fs_get t2 dir = Some Dir"
    using t1(1) t2(1) none dist dir assms(2) by (auto simp: put_file_def)
  show ?thesis
  proof (cases "copy_spec events maxBytes")
    case (Inl err)
    let ?t = "fs_del q (fs_del e t2)"
    have "run_state (with_temps_removed e q (write_parts dir e q envelope events maxBytes)) w
        = (Inl err, w\<lparr>w_fs := ?t\<rparr>)"
      using assms(1) t1(2) t2(3) t2e Inl dist last qe
      by (simp add: with_temps_removed_def write_parts_def no_fault os_Remove_def)
    moreover have "installed dir envelope (copy_spec events maxBytes) (w_fs w) ?t"
      using t1(1) t2(1) none last by (auto simp: installed_def Inl put_file_def)
    ultimately show ?thesis using Inl by auto
  next
    case (Inr d)
    with t2(2) have data: "data = d" by simp
    let ?t3 = "fs_put ?P (File d) (fs_del q t2)"
    let ?t4 = "fs_put ?E (File envelope) (fs_del e ?t3)"
    have t3: "os_Rename q ?P t2 = (Inr (), ?t3)" "fs_get ?t3 e = Some (File envelope)"
      "fs_get ?t3 ?E = None"
      using t2e data dist last by (auto simp: os_Rename_def)
    then have t4: "os_Rename e ?E ?t3 = (Inr (), ?t4)" by (simp add: os_Rename_def)
    have gone: "fs_get ?t4 e = None" "fs_get ?t4 q = None" "fs_get ?t4 dir = Some Dir"
      using dist last dir t2e(5) by auto
    then have rest: "os_SyncDir dir ?t4 = (Inr (), ?t4)" "os_Remove e ?t4 = (Inl ErrNotExist, ?t4)"
      "os_Remove q ?t4 = (Inl ErrNotExist, ?t4)"
      by (simp_all only: os_SyncDir_def os_Remove_def option.case option.distinct if_False simp_thms)
    have "run_state (with_temps_removed e q (write_parts dir e q envelope events maxBytes)) w
        = (Inr (int (length d)), w\<lparr>w_fs := ?t4\<rparr>)"
      using assms(1) t1(2) t2(3) Inr t3(1) t4 rest
      by (simp add: with_temps_removed_def write_parts_def no_fault)
    moreover have "installed dir envelope (copy_spec events maxBytes) (w_fs w) ?t4"
      using t1(1) t2(1) none last dist by (auto simp: installed_def Inr put_file_def)
    ultimately show ?thesis using Inr by auto
  qed
qed

lemma prepare_dir_quiet:
  assumes "w_faults w = []" and dir: "dir = submissionDir dpid sid"
    and files: "\<forall>p \<in> {[DropPointsDirName], dropDir dpid, dir}. \<forall>bs. fs_get (w_fs w) p \<noteq> Some (File bs)"
  shows "\<exists>t. run_state (prepare_dir dir [DropPointsDirName] (dropDir dpid)) w = (Inr (), w\<lparr>w_fs := t\<rparr>)
    \<and> fs_get t dir = Some Dir
    \<and> (\<forall>q. fs_get t q = fs_get (w_fs w) q
        \<or> fs_get (w_fs w) q = None \<and> fs_get t q = Some Dir \<and> below q dir)"
proof -
  let ?ps = "map (\<lambda>n. take (Suc n) dir) [0..<length dir]"
  have ps: "set ?ps = {[DropPointsDirName], dropDir dpid, dir}"
    by (simp add: dir submissionDir_def dropDir_def upt_rec insert_commute)
  have ne: "\<forall>q \<in> set ?ps. q \<noteq> []" by (intro ballI) (rule prefixes_nonempty)
  have "\<forall>p \<in> set ?ps. p \<noteq> [] \<and> (\<forall>bs. fs_get (w_fs w) p \<noteq> Some (File bs))"
    using ne files unfolding ps by blast
  from mkdirs_ok [OF this] obtain t where ok: "os_MkdirAll dir (w_fs w) = (Inr (), t)"
    "\<forall>q \<in> {[DropPointsDirName], dropDir dpid, dir}. fs_get t q = Some Dir"
    unfolding os_MkdirAll_def ps by (metis prod.collapse)
  have "\<forall>q \<in> {[DropPointsDirName], dropDir dpid, dir}. below q dir"
    by (simp add: dir submissionDir_def dropDir_def)
  with mkdirs_change [OF ne, of "w_fs w"] ok(1) have "fs_get t q = fs_get (w_fs w) q
      \<or> fs_get (w_fs w) q = None \<and> fs_get t q = Some Dir \<and> below q dir" for q
    unfolding os_MkdirAll_def ps by (metis snd_conv)
  moreover have "run_state (prepare_dir dir [DropPointsDirName] (dropDir dpid)) w = (Inr (), w\<lparr>w_fs := t\<rparr>)"
    using assms(1) ok by (simp add: prepare_dir_def no_fault os_Chmod_def os_SyncDir_def)
  ultimately show ?thesis using ok(2) by blast
qed

lemma WriteSubmission_quiet_world:
  assumes "w_faults w = []" "16 \<le> length (w_entropy w)"
    and ids: "validateDropPointID dpid = None" "ValidSubmissionID sid"
    and args: "0 < maxBytes" "is_int64 maxBytes" "envelope \<noteq> []"
    and parents: "\<forall>p \<in> {[DropPointsDirName], dropDir dpid}. \<forall>bs. fs_get (w_fs w) p \<noteq> Some (File bs)"
    and fresh: "\<forall>q. below (submissionDir dpid sid) q \<longrightarrow> fs_get (w_fs w) q = None"
    and run: "run_state (WriteSubmission dpid sid envelope events maxBytes) w = (r, w')"
  shows "r = (case copy_spec events maxBytes of
        Inl e \<Rightarrow> Inl e
      | Inr d \<Rightarrow> Inr (stored_result dpid sid (int (length d))))
    \<and> (\<forall>q bs. fs_get (w_fs w') q = Some (File bs) \<longleftrightarrow>
        fs_get (w_fs w) q = Some (File bs)
        \<or> (\<exists>d. copy_spec events maxBytes = Inr d
            \<and> (q = submissionDir dpid sid @ [EnvelopeFileName] \<and> bs = envelope
               \<or> q = submissionDir dpid sid @ [PayloadFileName] \<and> bs = d)))
    \<and> w' = w\<lparr>w_fs := w_fs w', w_entropy := drop 16 (w_entropy w)\<rparr>"
proof -
  let ?dir = "submissionDir dpid sid"
  have "\<forall>p \<in> {[DropPointsDirName], dropDir dpid, ?dir}. \<forall>bs. fs_get (w_fs w) p \<noteq> Some (File bs)"
    using parents fresh by auto
  from prepare_dir_quiet [OF assms(1) refl this] obtain t where
    t: "run_state (prepare_dir ?dir [DropPointsDirName] (dropDir dpid)) w = (Inr (), w\<lparr>w_fs := t\<rparr>)"
      "fs_get t ?dir = Some Dir"
      "\<forall>q. fs_get t q = fs_get (w_fs w) q
        \<or> fs_get (w_fs w) q = None \<and> fs_get t q = Some Dir \<and> below q ?dir"
    by blast
  let ?tok = "hex_encode (take 16 (w_entropy w))"
  let ?w1 = "w\<lparr>w_fs := t, w_entropy := drop 16 (w_entropy w)\<rparr>"
  have tok: "run_state tempToken (w\<lparr>w_fs := t\<rparr>) = (Inr ?tok, ?w1)"
    using assms(2) by (simp add: tempToken_def rand_read_def)
  have none: "fs_get t (?dir @ [n]) = None" for n
    using t(3) [rule_format, of "?dir @ [n]"] fresh [rule_format, of "?dir @ [n]"]
    by (auto simp: below_def)
  obtain t2 where t2: "installed ?dir envelope (copy_spec events maxBytes) t t2"
    "run_state (with_temps_removed (envelope_temp ?dir ?tok) (payload_temp ?dir ?tok)
       (write_parts ?dir (envelope_temp ?dir ?tok) (payload_temp ?dir ?tok) envelope events maxBytes)) ?w1 =
      ((case copy_spec events maxBytes of Inl e \<Rightarrow> Inl e | Inr d \<Rightarrow> Inr (int (length d))), ?w1\<lparr>w_fs := t2\<rparr>)"
    using write_parts_quiet [where w = ?w1 and dir = ?dir and tok = ?tok and envelope = envelope
        and events = events, OF _ _ _ args(1,2) refl refl] assms(1) t(2) none
    by auto
  have r: "r = (case copy_spec events maxBytes of
        Inl e \<Rightarrow> Inl e
      | Inr d \<Rightarrow> Inr (stored_result dpid sid (int (length d))))" "w' = ?w1\<lparr>w_fs := t2\<rparr>"
    using run assms(1) ids args t(1) tok t2(2)
    by (auto simp: WriteSubmission_def Let_def no_fault split: sum.splits)
  have files: "fs_get t q = Some (File bs) \<longleftrightarrow> fs_get (w_fs w) q = Some (File bs)" for q bs
    using t(3) [rule_format, of q] by auto
  have "fs_get t2 q = Some (File bs) \<longleftrightarrow> fs_get (w_fs w) q = Some (File bs)
      \<or> (\<exists>d. copy_spec events maxBytes = Inr d
          \<and> (q = ?dir @ [EnvelopeFileName] \<and> bs = envelope \<or> q = ?dir @ [PayloadFileName] \<and> bs = d))" for q bs
    using t2(1) files [of q bs] fresh [rule_format, of q]
    by (cases "copy_spec events maxBytes") (auto simp: installed_def blob_names)
  with r show ?thesis by simp
qed

lemma WriteSubmission_quiet:
  assumes "w_faults w = []" "16 \<le> length (w_entropy w)"
    and ids: "validateDropPointID dpid = None" "ValidSubmissionID sid"
    and args: "0 < maxBytes" "is_int64 maxBytes" "envelope \<noteq> []"
    and parents: "\<forall>p \<in> {[DropPointsDirName], dropDir dpid}. \<forall>bs. fs_get (w_fs w) p \<noteq> Some (File bs)"
    and fresh: "\<forall>q. below (submissionDir dpid sid) q \<longrightarrow> fs_get (w_fs w) q = None"
    and run: "run_state (WriteSubmission dpid sid envelope events maxBytes) w = (r, w')"
  shows "r = (case copy_spec events maxBytes of
        Inl e \<Rightarrow> Inl e
      | Inr d \<Rightarrow> Inr (stored_result dpid sid (int (length d))))
    \<and> (\<forall>q bs. fs_get (w_fs w') q = Some (File bs) \<longleftrightarrow>
        fs_get (w_fs w) q = Some (File bs)
        \<or> (\<exists>d. copy_spec events maxBytes = Inr d
            \<and> (q = submissionDir dpid sid @ [EnvelopeFileName] \<and> bs = envelope
               \<or> q = submissionDir dpid sid @ [PayloadFileName] \<and> bs = d)))"
  using WriteSubmission_quiet_world [OF assms] by blast

end
