(* ===== verification/Blob_Properties.thy ===== *)
theory Blob_Properties
  imports Blob_Facts Samples
begin

text \<open>
  The properties of the blob store: what a successful write has stored and how it reads back, the
  exact outcome of a write, that no operation reaches outside its own directory, and that a
  successful deletion is complete.
\<close>

text \<open>C7. Under any faults, a write that reports success was given a valid pair of IDs, a non-empty
  envelope and a stream that ended without an error; the size it reports is the number of payload
  bytes and within the limit; and from the tree it leaves, the returned paths read back exactly
  the envelope and the payload.\<close>

theorem stored_submission_reads_back:
  assumes "run_state (WriteSubmission dpid sid envelope events maxBytes) w = (Inr res, w')"
    and "is_int64 maxBytes" and "w_fs v = w_fs w'" and "w_faults v = []"
  shows "validateDropPointID dpid = None \<and> ValidSubmissionID sid \<and> envelope \<noteq> []
    \<and> cs_EncryptedSize res \<le> maxBytes
    \<and> fst (run_state (ReadEnvelope (cs_EnvelopePath res)) v) = Inr envelope
    \<and> (\<exists>data. stream_data events = Some data \<and> cs_EncryptedSize res = int (length data)
        \<and> fst (run_state (OpenPayload (cs_PayloadPath res)) v) = Inr (data, int (length data)))"
proof -
  obtain data where d: "stream_data events = Some data" "res = stored_result dpid sid (int (length data))"
    "int (length data) \<le> maxBytes" "envelope \<noteq> []" "validateDropPointID dpid = None" "ValidSubmissionID sid"
    "fs_get (w_fs w') (submissionDir dpid sid @ [EnvelopeFileName]) = Some (File envelope)"
    "fs_get (w_fs w') (submissionDir dpid sid @ [PayloadFileName]) = Some (File data)"
    using WriteSubmission_Inr [OF assms(1,2)] by blast
  have "cs_EncryptedSize res = int (length data)" by (simp add: d(2) stored_result_def)
  with d assms(3,4) stored_paths [OF d(5,6), of "int (length data)"] show ?thesis
    by (simp add: ReadEnvelope_def OpenPayload_def no_fault os_ReadFile_def)
qed

text \<open>C18. A write without faults into a fresh submission directory has the outcome of the
  reference \<open>copy_spec\<close>: it refuses a stream longer than the limit or one that fails, and then no
  file of the tree has changed, not even a temporary one; otherwise exactly the two final files
  have been added.\<close>

theorem write_submission_outcome:
  assumes "w_faults w = []" "16 \<le> length (w_entropy w)"
    and "validateDropPointID dpid = None" "ValidSubmissionID sid"
    and "0 < maxBytes" "is_int64 maxBytes" "envelope \<noteq> []"
    and "\<forall>p \<in> {[DropPointsDirName], dropDir dpid}. \<forall>bs. fs_get (w_fs w) p \<noteq> Some (File bs)"
    and "\<forall>q. below (submissionDir dpid sid) q \<longrightarrow> fs_get (w_fs w) q = None"
    and "run_state (WriteSubmission dpid sid envelope events maxBytes) w = (r, w')"
  shows "r = (case copy_spec events maxBytes of
        Inl e \<Rightarrow> Inl e
      | Inr d \<Rightarrow> Inr (stored_result dpid sid (int (length d))))
    \<and> (\<forall>q bs. fs_get (w_fs w') q = Some (File bs) \<longleftrightarrow>
        fs_get (w_fs w) q = Some (File bs)
        \<or> (\<exists>d. copy_spec events maxBytes = Inr d
            \<and> (q = submissionDir dpid sid @ [EnvelopeFileName] \<and> bs = envelope
               \<or> q = submissionDir dpid sid @ [PayloadFileName] \<and> bs = d)))"
  by (rule WriteSubmission_quiet [OF assms])

text \<open>C19. Containment, under any faults and whatever the outcome: a write or a deletion leaves the
  database alone and every path outside its submission's (its drop point's) directory as it was,
  except that missing directories on the way to it may have been created.\<close>

theorem blob_operations_contained:
  "(run_state (WriteSubmission dpid sid envelope events maxBytes) w = (r, w') \<longrightarrow>
      blob_frame (submissionDir dpid sid) w w')
   \<and> (run_state (DeleteSubmission dpid sid) w = (r2, w2) \<longrightarrow> blob_frame (submissionDir dpid sid) w w2)
   \<and> (run_state (DeleteDropPoint dpid) w = (r3, w3) \<longrightarrow> blob_frame (dropDir dpid) w w3)"
  using keepsD [OF keeps_WriteSubmission] keepsD [OF keeps_deletes(1)] keepsD [OF keeps_deletes(2)]
  by blast

text \<open>Under any faults, a deletion that reports success has left nothing below its directory,
  and a repeated deletion without faults succeeds as well.\<close>

theorem deletion_complete:
  assumes "run_state (DeleteSubmission dpid sid) w = (Inr (), w')"
  shows "validateDropPointID dpid = None \<and> ValidSubmissionID sid
    \<and> (\<forall>q. below (submissionDir dpid sid) q \<longrightarrow> fs_get (w_fs w') q = None)
    \<and> (w_faults w' = [] \<longrightarrow> fst (run_state (DeleteSubmission dpid sid) w') = Inr ())"
proof -
  obtain w1 w2 w3 s where r: "validateDropPointID dpid = None" "ValidSubmissionID sid"
    "run_state may_fail w = (Inr (), w1)"
    "run_state (os_RemoveAll (submissionDir dpid sid)) w1 = (Inr (), w2)"
    "run_state (fs_exec (os_SyncDir (dropDir dpid))) w2 = (s, w3)"
    "run_state may_fail w3 = (Inr (), w')"
    using assms by (auto simp: DeleteSubmission_def split: sum.splits prod.splits option.splits if_splits)
  have same: "w_fs w' = w_fs w2"
    using fs_exec_run [OF r(5)] may_fail_fs [OF r(6)] by (auto simp: os_SyncDir_def)
  have gone: "fs_get (w_fs w') q = None" if "below (submissionDir dpid sid) q" for q
  proof -
    have "q \<noteq> []" using that by (rule below_nonempty) (simp add: submissionDir_def)
    with RemoveAll_Inr [OF r(4) that] same show ?thesis by simp
  qed
  have "tree_entries (w_fs w') (submissionDir dpid sid) = []"
  proof (rule ccontr)
    assume "tree_entries (w_fs w') (submissionDir dpid sid) \<noteq> []"
    then obtain q where q: "q \<in> set (tree_entries (w_fs w') (submissionDir dpid sid))"
      by (cases "tree_entries (w_fs w') (submissionDir dpid sid)") auto
    then have "below (submissionDir dpid sid) q" by (rule tree_entries_below)
    moreover from this have "q \<noteq> []" by (rule below_nonempty) (simp add: submissionDir_def)
    ultimately have "map_of (w_fs w') q = None" using gone [of q] by (simp add: fs_get_def)
    with q show False by (auto simp: tree_entries_def map_of_eq_None_iff image_iff)
  qed
  then have "fst (run_state (DeleteSubmission dpid sid) w') = Inr ()" if "w_faults w' = []"
    using that r(1,2)
    by (simp add: DeleteSubmission_def os_RemoveAll_def no_fault os_SyncDir_def split: option.splits)
  with r(1,2) gone show ?thesis by blast
qed

text \<open>No stored path leads out of the data directory: a path that \<open>Path\<close> resolves is a
  non-empty list of plain names, none of them empty, \<open>.\<close> or \<open>..\<close> or with a slash; and a drop
  point ID accepted at the deletion boundary is such a name, too.\<close>

theorem blob_paths_contained:
  assumes "Path relative = Inr p" and "validateDropPointID dpid = None"
  shows "p \<noteq> [] \<and> (\<forall>n \<in> set p. clean_name n) \<and> clean_name dpid"
  using Path_names [OF assms(1)] dropPointID_clean [OF assms(2)] by blast

lemma ReadDir_dirs:
  assumes "fs_get t p = Some Dir" "distinct (map fst t)"
  shows "\<exists>entries. os_ReadDir p t = Inr entries
    \<and> (\<forall>n. (n, True) \<in> set entries \<longleftrightarrow> fs_get t (p @ [n]) = Some Dir)"
proof -
  let ?entries = "sort_key fst (map (\<lambda>(q, n). (last q, n = Dir))
    (filter (\<lambda>(q, _). q \<noteq> [] \<and> butlast q = p) t))"
  have "os_ReadDir p t = Inr ?entries"
    by (simp only: os_ReadDir_def assms(1) option.case node.case)
  moreover have "(n, True) \<in> set ?entries \<longleftrightarrow> fs_get t (p @ [n]) = Some Dir" for n
  proof -
    have path: "q \<noteq> [] \<and> butlast q = p \<and> last q = n \<longleftrightarrow> q = p @ [n]" for q
      by (cases q rule: rev_cases) auto
    have "(n, True) \<in> set ?entries \<longleftrightarrow> (\<exists>q. (q, Dir) \<in> set t \<and> q \<noteq> [] \<and> butlast q = p \<and> last q = n)"
      by (force simp: image_iff)
    then show ?thesis using assms(2) path by (simp add: fs_get_def)
  qed
  ultimately show ?thesis by blast
qed

lemma collect_ids_quiet:
  "w_faults w = [] \<Longrightarrow> run_state (collect_ids entries) w =
     (Inr (map fst (filter (\<lambda>(n, isDir). isDir \<and> validateDropPointID n = None) entries)), w)"
proof (induction entries)
  case (Cons e entries)
  obtain n isDir where "e = (n, isDir)" by (cases e)
  with Cons show ?case
    by (cases isDir; cases "validateDropPointID n") (simp_all add: no_fault)
qed simp

text \<open>Without faults the listing of blob directories returns exactly the valid drop point IDs
  that are directories below \<open>drop-points\<close>, and nothing when that directory is missing; so
  nothing else can be handed to the deletion of orphans.\<close>

theorem blob_listing_exact:
  assumes "w_faults w = []" "distinct (map fst (w_fs w))"
    and "\<forall>bs. fs_get (w_fs w) [DropPointsDirName] \<noteq> Some (File bs)"
    and run: "run_state blob_DropPointIDs w = (r, w')"
  shows "\<exists>ids. r = Inr ids \<and> w' = w
    \<and> (\<forall>n. n \<in> set ids \<longleftrightarrow> fs_get (w_fs w) [DropPointsDirName] = Some Dir
          \<and> fs_get (w_fs w) (dropDir n) = Some Dir \<and> validateDropPointID n = None)"
proof (cases "fs_get (w_fs w) [DropPointsDirName]")
  case None
  with run assms(1) show ?thesis
    by (auto simp: blob_DropPointIDs_def no_fault os_ReadDir_def)
next
  case (Some node)
  with assms(3) have dir: "fs_get (w_fs w) [DropPointsDirName] = Some Dir" by (cases node) auto
  obtain entries where e: "os_ReadDir [DropPointsDirName] (w_fs w) = Inr entries"
    and mem: "\<And>n. (n, True) \<in> set entries \<longleftrightarrow> fs_get (w_fs w) (dropDir n) = Some Dir"
    using ReadDir_dirs [OF dir assms(2)] by (auto simp: dropDir_def)
  let ?ids = "map fst (filter (\<lambda>(n, isDir). isDir \<and> validateDropPointID n = None) entries)"
  have r: "r = Inr ?ids" "w' = w"
    using run assms(1) by (simp_all add: blob_DropPointIDs_def no_fault e collect_ids_quiet)
  have "n \<in> set ?ids \<longleftrightarrow> (n, True) \<in> set entries \<and> validateDropPointID n = None" for n
    by force
  then have "n \<in> set ?ids \<longleftrightarrow> fs_get (w_fs w) (dropDir n) = Some Dir \<and> validateDropPointID n = None" for n
    using mem by blast
  with r dir show ?thesis by blast
qed

section \<open>Witnesses\<close>

definition blob_world :: world where
  "blob_world = (world_of empty_db)\<lparr>w_fs := [([DropPointsDirName], Dir)], w_entropy := replicate 16 CHR ''x''\<rparr>"

definition sample_sid :: go_string where "sample_sid = ''sub_AAAAAAAAAAAAAAAAAAAAAA''"
definition sample_events :: "read_event list" where
  "sample_events = [Read ''abc'' ReadOk, Read ''de'' ReadEOF]"

lemma blob_world_simps [simp]:
  "w_faults blob_world = []" "w_fs blob_world = [([DropPointsDirName], Dir)]"
  "w_entropy blob_world = replicate 16 CHR ''x''"
  by (simp_all add: blob_world_def)

lemma sample_ids: "validateDropPointID ''dp_a'' = None" "ValidSubmissionID sample_sid"
  by code_simp+

lemma sample_copy: "copy_spec sample_events 10 = Inr ''abcde''"
  by (simp add: sample_events_def)

lemma blob_fresh:
  "\<forall>p \<in> {[DropPointsDirName], dropDir ''dp_a''}. \<forall>bs. fs_get (w_fs blob_world) p \<noteq> Some (File bs)"
  "\<forall>q. below (submissionDir ''dp_a'' sample_sid) q \<longrightarrow> fs_get (w_fs blob_world) q = None"
  by (auto simp: fs_get_def dropDir_def submissionDir_def)

lemma sample_int64: "is_int64 10"
  by (simp add: is_int64_def)

definition written_world :: world where
  "written_world = snd (run_state (WriteSubmission ''dp_a'' sample_sid ''{}'' sample_events 10) blob_world)"

lemma sample_write:
  "run_state (WriteSubmission ''dp_a'' sample_sid ''{}'' sample_events 10) blob_world
     = (Inr (stored_result ''dp_a'' sample_sid 5), written_world)"
  using WriteSubmission_quiet [of blob_world, OF _ _ sample_ids _ sample_int64 _ blob_fresh
      surjective_pairing, of "''{}''" sample_events]
  by (simp add: sample_copy written_world_def prod_eq_iff)

theorem write_submission_outcome_witness:
  "fs_get (w_fs written_world) (submissionDir ''dp_a'' sample_sid @ [PayloadFileName])
     = Some (File ''abcde'')"
  using write_submission_outcome [OF _ _ sample_ids _ sample_int64 _ blob_fresh sample_write]
  by (simp add: sample_copy)

theorem stored_submission_reads_back_witness:
  "fst (run_state (ReadEnvelope (cs_EnvelopePath (stored_result ''dp_a'' sample_sid 5)))
     (written_world\<lparr>w_faults := []\<rparr>)) = Inr ''{}''"
  using stored_submission_reads_back [OF sample_write sample_int64, of "written_world\<lparr>w_faults := []\<rparr>"]
  by simp

theorem blob_operations_contained_witness:
  "blob_frame (submissionDir ''dp_a'' sample_sid) blob_world written_world"
  using blob_operations_contained sample_write by blast

lemma sample_delete:
  "fst (run_state (DeleteSubmission ''dp_a'' sample_sid) blob_world) = Inr ()"
  by (simp add: DeleteSubmission_def sample_ids os_RemoveAll_def tree_entries_def submissionDir_def
      dropDir_def no_fault os_SyncDir_def fs_get_def)

theorem deletion_complete_witness:
  "fs_get (w_fs (snd (run_state (DeleteSubmission ''dp_a'' sample_sid) blob_world)))
     (submissionDir ''dp_a'' sample_sid) = None"
  using deletion_complete [of "''dp_a''" sample_sid blob_world] sample_delete
  by (metis below_refl prod.collapse)

theorem blob_paths_contained_witness:
  "Path ''drop-points/../drop-points/dp_a'' = Inr [''drop-points'', ''dp_a''] \<and> clean_name ''dp_a''"
proof -
  have "Path ''drop-points/../drop-points/dp_a'' = Inr [''drop-points'', ''dp_a'']" by code_simp
  with blob_paths_contained [OF this sample_ids(1)] show ?thesis by simp
qed

theorem blob_listing_exact_witness:
  "\<exists>ids. fst (run_state blob_DropPointIDs blob_world) = Inr ids \<and> set ids = {}"
  using blob_listing_exact [of blob_world, OF _ _ _ surjective_pairing]
  by (auto simp: fs_get_def dropDir_def)

end
