(* ===== verification/Cleanup.thy ===== *)
theory Cleanup
  imports Store Blobstore
begin

text \<open>
  The cleanup service of \<open>internal/cleanup/cleanup.go\<close>. A step returns the counters so far next
  to its error; \<open>and_then\<close> is the source's \<open>if err != nil { return result, err }\<close>. Requests are
  served while cleanup runs, so the orphan phase, which deletes what an earlier list of row IDs does not
  name, takes a program as an argument: what other requests do between its two listings. The
  service itself is the case where they do nothing. The repository and the blob store of a service
  are the world's, so \<open>validate\<close>, which refuses nil ones, always passes.
\<close>

record cleanup_result =
  ExpiredDropPoints :: nat
  RecoveredReceiving :: nat
  DeletedPayloads :: nat
  DeletedOrphans :: nat
  PurgedRows :: nat

definition no_result :: cleanup_result where
  "no_result = \<lparr>ExpiredDropPoints = 0, RecoveredReceiving = 0, DeletedPayloads = 0,
     DeletedOrphans = 0, PurgedRows = 0\<rparr>"

type_synonym 'a step = "('a \<times> error option) io"

definition and_then :: "'a step \<Rightarrow> ('a \<Rightarrow> 'b step) \<Rightarrow> ('a \<Rightarrow> 'b) \<Rightarrow> 'b step" where
  "and_then m f stop = do {
     (x, e) \<leftarrow> m;
     case e of Some err \<Rightarrow> State_Monad.return (stop x, Some err) | None \<Rightarrow> f x
   }"

text \<open>The settings of a \<open>Service\<close>; its repository and blob store are the world's. Durations that
  are not positive switch the phase off.\<close>

record cleanup_service =
  TerminalRetention :: duration
  ReceivingStaleAfter :: duration

section \<open>Interrupted uploads\<close>

fun recoverReceiving :: "submission list \<Rightarrow> nat \<Rightarrow> nat step" where
  "recoverReceiving [] recovered = State_Monad.return (recovered, None)"
| "recoverReceiving (s # ss) recovered = do {
     r \<leftarrow> DeleteSubmission (sub_DropPointID s) (sub_ID s);
     case r of Inl err \<Rightarrow> State_Monad.return (recovered, Some err) | Inr _ \<Rightarrow> do {
     d \<leftarrow> repo_DeleteReceivingSubmission (sub_DropPointID s) (sub_ID s);
     case d of
       Inl err \<Rightarrow> State_Monad.return (recovered, Some err)
     | Inr _ \<Rightarrow> recoverReceiving ss (recovered + 1)
     }
   }"

section \<open>The phases of a pass\<close>

definition stale_phase :: "cleanup_service \<Rightarrow> time \<Rightarrow> cleanup_result step" where
  "stale_phase s now =
     (if ReceivingStaleAfter s > 0 then do {
        r \<leftarrow> repo_ReceivingSubmissionsStartedBefore (now - ReceivingStaleAfter s);
        case r of
          Inl err \<Rightarrow> State_Monad.return (no_result, Some err)
        | Inr receiving \<Rightarrow> do {
            (recovered, e) \<leftarrow> recoverReceiving receiving 0;
            State_Monad.return (no_result\<lparr>RecoveredReceiving := recovered\<rparr>, e)
          }
      }
      else State_Monad.return (no_result, None))"

definition expire_phase :: "time \<Rightarrow> cleanup_result \<Rightarrow> cleanup_result step" where
  "expire_phase now result = do {
     r \<leftarrow> repo_ExpireDropPoints now;
     State_Monad.return (case r of
         Inl err \<Rightarrow> (result, Some err)
       | Inr expired \<Rightarrow> (result\<lparr>ExpiredDropPoints := length expired\<rparr>, None))
   }"

fun delete_children :: "submission list \<Rightarrow> cleanup_result \<Rightarrow> cleanup_result step" where
  "delete_children [] result = State_Monad.return (result, None)"
| "delete_children (s # ss) result = do {
     r \<leftarrow> DeleteSubmission (sub_DropPointID s) (sub_ID s);
     case r of Inl err \<Rightarrow> State_Monad.return (result, Some err) | Inr _ \<Rightarrow> do {
     c \<leftarrow> repo_ClearSubmissionFiles (sub_DropPointID s) (sub_ID s);
     case c of
       Inl err \<Rightarrow> State_Monad.return (result, Some err)
     | Inr _ \<Rightarrow>
         delete_children ss
           (if sub_PayloadPath s \<noteq> [] \<or> sub_EnvelopePath s \<noteq> []
            then result\<lparr>DeletedPayloads := DeletedPayloads result + 1\<rparr> else result)
     }
   }"

definition children_phase :: "cleanup_result \<Rightarrow> cleanup_result step" where
  "children_phase result = do {
     r \<leftarrow> repo_CleanupSubmissions;
     case r of
       Inl err \<Rightarrow> State_Monad.return (result, Some err)
     | Inr children \<Rightarrow> delete_children children result
   }"

fun delete_terminal :: "drop_point list \<Rightarrow> cleanup_result \<Rightarrow> cleanup_result step" where
  "delete_terminal [] result = State_Monad.return (result, None)"
| "delete_terminal (dp # dps) result = do {
     f \<leftarrow> repo_SubmissionFilesForDropPoint (dp_ID dp);
     case f of Inl err \<Rightarrow> State_Monad.return (result, Some err) | Inr files \<Rightarrow> do {
     r \<leftarrow> DeleteDropPoint (dp_ID dp);
     case r of Inl err \<Rightarrow> State_Monad.return (result, Some err) | Inr _ \<Rightarrow> do {
     c \<leftarrow> repo_ClearDropPointFiles (dp_ID dp);
     case c of
       Inl err \<Rightarrow> State_Monad.return (result, Some err)
     | Inr _ \<Rightarrow>
         delete_terminal dps
           (result\<lparr>DeletedPayloads := DeletedPayloads result + length files\<rparr>)
     }}
   }"

definition terminal_phase :: "cleanup_result \<Rightarrow> cleanup_result step" where
  "terminal_phase result = do {
     r \<leftarrow> repo_TerminalDropPoints;
     case r of
       Inl err \<Rightarrow> State_Monad.return (result, Some err)
     | Inr terminal \<Rightarrow> delete_terminal terminal result
   }"

fun delete_orphans :: "go_string list \<Rightarrow> go_string list \<Rightarrow> cleanup_result \<Rightarrow> cleanup_result step" where
  "delete_orphans rowIDs [] result = State_Monad.return (result, None)"
| "delete_orphans rowIDs (dpid # ids) result =
     (if List.member rowIDs dpid then delete_orphans rowIDs ids result
      else do {
        r \<leftarrow> DeleteDropPoint dpid;
        case r of
          Inl err \<Rightarrow> State_Monad.return (result, Some err)
        | Inr _ \<Rightarrow>
            delete_orphans rowIDs ids (result\<lparr>DeletedOrphans := DeletedOrphans result + 1\<rparr>)
      })"

definition orphan_phase :: "unit io \<Rightarrow> cleanup_result \<Rightarrow> cleanup_result step" where
  "orphan_phase between result = do {
     r \<leftarrow> repo_DropPointIDs;
     case r of Inl err \<Rightarrow> State_Monad.return (result, Some err) | Inr rowIDs \<Rightarrow> do {
     _ \<leftarrow> between;
     b \<leftarrow> blob_DropPointIDs;
     case b of
       Inl err \<Rightarrow> State_Monad.return (result, Some err)
     | Inr blobIDs \<Rightarrow> delete_orphans rowIDs blobIDs result
     }
   }"

definition purge_phase :: "cleanup_service \<Rightarrow> time \<Rightarrow> cleanup_result \<Rightarrow> cleanup_result step" where
  "purge_phase s now result =
     (if TerminalRetention s > 0 then do {
        r \<leftarrow> repo_PurgeTerminalDropPoints (now - TerminalRetention s);
        State_Monad.return (case r of
            Inl err \<Rightarrow> (result, Some err)
          | Inr purged \<Rightarrow> (result\<lparr>PurgedRows := purged\<rparr>, None))
      }
      else State_Monad.return (result, None))"

section \<open>A pass\<close>

definition Expire_between ::
    "unit io \<Rightarrow> cleanup_service \<Rightarrow> cleanup_result step" where
  "Expire_between between s = do {
     now \<leftarrow> now_io;
     and_then (stale_phase s now) (\<lambda>res.
     and_then (expire_phase now res) (\<lambda>res.
     and_then (children_phase res) (\<lambda>res.
     and_then (terminal_phase res) (\<lambda>res.
     and_then (orphan_phase between res) (\<lambda>res.
     purge_phase s now res) id) id) id) id) id
   }"

definition service_Expire :: "cleanup_service \<Rightarrow> cleanup_result step" where
  "service_Expire = Expire_between (State_Monad.return ())"

definition ReconcileStartup :: "cleanup_service \<Rightarrow> cleanup_result step" where
  "ReconcileStartup s = do {
     r \<leftarrow> repo_ReceivingSubmissions;
     case r of
       Inl err \<Rightarrow> State_Monad.return (no_result, Some err)
     | Inr receiving \<Rightarrow>
         and_then (recoverReceiving receiving 0)
           (\<lambda>recovered. do {
              (result, e) \<leftarrow> service_Expire s;
              State_Monad.return
                (result\<lparr>RecoveredReceiving := RecoveredReceiving result + recovered\<rparr>, e)
            })
           (\<lambda>recovered. no_result\<lparr>RecoveredReceiving := recovered\<rparr>)
   }"

end
