(* ===== verification/Cleanup_Guard.thy ===== *)
theory Cleanup_Guard
  imports Cleanup Blob_Facts
begin

text \<open>
  A cleanup pass and one submission. The interface \<open>guarded_pass\<close> says what a pass needs of a
  predicate \<open>Q\<close> about the submission with the key \<open>(i, j)\<close> in order to keep it: \<open>Q\<close> is stable under
  everything that concerns another submission or drop point, and where a pass does touch this one
  the stronger \<open>B\<close> holds, which is stable under its removal. It is interpreted for submissions that
  a pass must not touch and for the relay's storage invariant.
\<close>

abbreviation holds :: "(world \<Rightarrow> bool) \<Rightarrow> 'a io \<Rightarrow> bool" where
  "holds Q m \<equiv> triple Q m (\<lambda>_. Q)"

lemma holds_return: "holds Q (State_Monad.return x)"
  by (rule triple_return)

lemma holds_bind: "holds Q m \<Longrightarrow> (\<And>x. holds Q (f x)) \<Longrightarrow> holds Q (State_Monad.bind m f)"
  by (rule triple_bind)

lemma holds_status:
  "holds Q a \<Longrightarrow> holds Q b \<Longrightarrow> holds Q c \<Longrightarrow> holds Q d \<Longrightarrow> (\<And>x. holds Q (e x)) \<Longrightarrow>
   holds Q (case s of StatusOpen \<Rightarrow> a | StatusClosed \<Rightarrow> b | StatusExpired \<Rightarrow> c
            | StatusFailed \<Rightarrow> d | StatusOther x \<Rightarrow> e x)"
  by (cases s) auto

lemmas holds_rules = holds_return holds_bind triple_cases

interpretation still: io_frame "\<lambda>w w'. w_db w' = w_db w \<and> w_fs w' = w_fs w"
  by unfold_locales auto

lemma keeps_collect_ids_still: "keeps (\<lambda>w w'. w_db w' = w_db w \<and> w_fs w' = w_fs w) (collect_ids es)"
  by (induction es rule: collect_ids.induct)
    (simp_all, (intro still.keeps_prims keeps_cases; simp)+)

lemma sql_query_still:
  "run_state (sql_query q) w = (x, w') \<Longrightarrow>
   w_db w' = w_db w \<and> w_fs w' = w_fs w \<and> (\<forall>v. x = Inr v \<longrightarrow> q (w_db w) = Inr v)"
  by (auto simp: sql_query_def effect_def split: list.splits fault.splits)

lemma sql_exec_still:
  "run_state (sql_exec stmt) w = (x, w') \<Longrightarrow>
   w_fs w' = w_fs w \<and> (w_db w' = w_db w \<or> (\<exists>y. stmt (w_db w) = Inr (y, w_db w')))"
  by (auto simp: sql_exec_def effect_def split: list.splits fault.splits sum.splits)

text \<open>The directories of two submissions or two drop points are apart.\<close>

lemma below_appendD: "below p q \<Longrightarrow> \<exists>t. q = p @ t"
  by (metis append_take_drop_id below_def)

lemma submission_dirs_apart:
  assumes "below (submissionDir i j) q" "(a, b) \<noteq> (i, j)"
  shows "\<not> below (submissionDir a b) q \<and> \<not> below q (submissionDir a b)"
proof -
  obtain t where "q = [DropPointsDirName, i, j] @ t"
    using assms(1) below_appendD by (fastforce simp: submissionDir_def dropDir_def)
  with assms(2) show ?thesis by (auto simp: submissionDir_def dropDir_def)
qed

lemma drop_dirs_apart:
  assumes "below (submissionDir i j) q" "a \<noteq> i"
  shows "\<not> below (dropDir a) q \<and> \<not> below q (dropDir a)"
proof -
  obtain t where "q = [DropPointsDirName, i, j] @ t"
    using assms(1) below_appendD by (fastforce simp: submissionDir_def dropDir_def)
  with assms(2) show ?thesis by (auto simp: dropDir_def)
qed

text \<open>What the lists the phases work on can contain.\<close>

lemma scan_drop_points_row:
  assumes "scan_all scanDropPoint (sort_key k (filter P rows)) = Inr xs" "dp \<in> set xs"
  shows "\<exists>q \<in> set rows. P q \<and> dp = drop_point_of_row q"
  using scan_all_Inr_set [OF assms] by (auto dest: scanDropPoint_Inr)

lemma query_submissions_row:
  assumes "query_submissions P k d = Inr xs" "x \<in> set xs"
  shows "\<exists>q \<in> set (submissions d). P q \<and> x = submission_of_row q"
  using scan_all_Inr_set [OF assms(1) [unfolded query_submissions_def] assms(2)]
  by (auto dest: scanSubmission_Inr)

locale guarded_pass =
  fixes Q B :: "world \<Rightarrow> bool" and i j :: go_string
  assumes Q_still: "Q w \<Longrightarrow> w_db w' = w_db w \<Longrightarrow> w_fs w' = w_fs w \<Longrightarrow> Q w'"
    and B_still: "B w \<Longrightarrow> w_db w' = w_db w \<Longrightarrow> w_fs w' = w_fs w \<Longrightarrow> B w'"
    and B_Q: "B w \<Longrightarrow> Q w"
    and Q_delete: "(a, b) \<noteq> (i, j) \<Longrightarrow> holds Q (DeleteSubmission a b)"
    and Q_delete_all: "a \<noteq> i \<Longrightarrow> holds Q (DeleteDropPoint a)"
    and Q_receiving: "holds Q (sql_exec (stmt_delete_receiving a b))"
    and Q_clear: "(a, b) \<noteq> (i, j) \<Longrightarrow> holds Q (sql_exec (stmt_clear_submission a b))"
    and Q_clear_all: "a \<noteq> i \<Longrightarrow> holds Q (sql_exec (stmt_clear_drop_point a))"
    and Q_purge: "holds Q (sql_exec (stmt_purge t))"
    and B_delete: "holds B (DeleteSubmission a b)"
    and B_delete_all: "holds B (DeleteDropPoint a)"
    and B_receiving: "holds B (sql_exec (stmt_delete_receiving a b))"
    and B_clear: "holds B (sql_exec (stmt_clear_submission a b))"
    and B_clear_all: "holds B (sql_exec (stmt_clear_drop_point a))"
    and not_ready: "Q w \<Longrightarrow> s \<in> set (submissions (w_db w)) \<Longrightarrow> sr_key s = (i, j) \<Longrightarrow>
        sr_status s \<noteq> SubmissionStatusReady \<Longrightarrow> B w"
    and not_open: "Q w \<Longrightarrow> r \<in> set (drop_points (w_db w)) \<Longrightarrow> dpr_id r = i \<Longrightarrow>
        dpr_status r \<noteq> StatusOpen \<Longrightarrow> B w"
    and no_row: "Q w \<Longrightarrow> i \<notin> dpr_id ` set (drop_points (w_db w)) \<Longrightarrow> B w"
begin

lemma neutral:
  assumes "keeps (\<lambda>w w'. w_db w' = w_db w \<and> w_fs w' = w_fs w) m"
  shows "holds Q m" "holds B m"
  by (rule triple_keeps [OF assms]; blast intro: Q_still B_still)+

text \<open>A query, followed by what depends on its result and on the database it was answered from.\<close>

lemma query_bind:
  assumes "\<And>e. triple Q (g e) S"
    and "\<And>v w. Q w \<Longrightarrow> q (w_db w) = Inr v \<Longrightarrow> triple (\<lambda>u. Q u \<and> w_db u = w_db w) (f v) S"
  shows "triple Q (State_Monad.bind (sql_query q) (\<lambda>x. case x of Inl e \<Rightarrow> g e | Inr v \<Rightarrow> f v)) S"
proof (rule tripleI)
  fix w x w' assume Qw: "Q w" and run: "run_state (State_Monad.bind (sql_query q)
      (\<lambda>x. case x of Inl e \<Rightarrow> g e | Inr v \<Rightarrow> f v)) w = (x, w')"
  obtain y w1 where q: "run_state (sql_query q) w = (y, w1)" by fastforce
  note s = sql_query_still [OF q]
  have Q1: "Q w1" using Qw s by (blast intro: Q_still)
  have rest: "run_state (case y of Inl e \<Rightarrow> g e | Inr v \<Rightarrow> f v) w1 = (x, w')"
    using run q by simp
  show "S x w'"
  proof (cases y)
    case (Inl e)
    with rest Q1 assms(1) [of e] show ?thesis by (auto dest: tripleD)
  next
    case (Inr v)
    with s Qw have "triple (\<lambda>u. Q u \<and> w_db u = w_db w) (f v) S" by (intro assms(2)) auto
    from tripleD [OF this] rest Q1 s Inr show ?thesis by auto
  qed
qed

text \<open>A loop over listed submissions: either it does not concern this one, or \<open>B\<close> holds.\<close>

lemma by_key:
  assumes "(i, j) \<notin> K \<Longrightarrow> holds Q m" and "holds B m"
    and "(i, j) \<in> K \<Longrightarrow> \<forall>w. P w \<longrightarrow> B w" and "\<forall>w. P w \<longrightarrow> Q w"
  shows "triple P m (\<lambda>_. Q)"
proof (cases "(i, j) \<in> K")
  case True
  show ?thesis by (rule triple_weaken [OF assms(2)]) (use assms(3) True B_Q in auto)
next
  case False
  show ?thesis by (rule triple_weaken [OF assms(1) [OF False]]) (use assms(4) in auto)
qed

lemma listed_key:
  assumes "Q w" "query_submissions P k (w_db w) = Inr xs"
    and "\<And>s. P s \<Longrightarrow> sr_status s \<noteq> SubmissionStatusReady"
    and "(i, j) \<in> (\<lambda>x. (sub_DropPointID x, sub_ID x)) ` set xs" and "Q u" "w_db u = w_db w"
  shows "B u"
proof -
  obtain x where x: "x \<in> set xs" "(sub_DropPointID x, sub_ID x) = (i, j)" using assms(4) by auto
  then obtain q where q: "q \<in> set (submissions (w_db w))" "P q" "x = submission_of_row q"
    using query_submissions_row [OF assms(2)] by blast
  with x have "sr_key q = (i, j)" by (simp add: submission_of_row_def sr_key_def)
  with q assms(3,5,6) show ?thesis by (intro not_ready) auto
qed

lemma delete_receiving:
  "holds Q (repo_DeleteReceivingSubmission a b)" "holds B (repo_DeleteReceivingSubmission a b)"
  unfolding repo_DeleteReceivingSubmission_def by (intro holds_rules Q_receiving B_receiving)+

lemma clear:
  "(a, b) \<noteq> (i, j) \<Longrightarrow> holds Q (repo_ClearSubmissionFiles a b)" "holds B (repo_ClearSubmissionFiles a b)"
  "a \<noteq> i \<Longrightarrow> holds Q (repo_ClearDropPointFiles a)" "holds B (repo_ClearDropPointFiles a)"
  unfolding repo_ClearSubmissionFiles_def repo_ClearDropPointFiles_def
  by (intro holds_rules Q_clear B_clear Q_clear_all B_clear_all; assumption)+

lemma reads:
  "holds Q (sql_query q)" "holds B (sql_query q)" "holds Q may_fail" "holds B may_fail"
  "holds Q (rows_affected n)" "holds B (rows_affected n)"
  "holds Q (fs_read g)" "holds B (fs_read g)" "holds Q now_io" "holds B now_io"
  "holds Q blob_DropPointIDs" "holds B blob_DropPointIDs"
proof -
  have "keeps (\<lambda>w w'. w_db w' = w_db w \<and> w_fs w' = w_fs w) blob_DropPointIDs"
    unfolding blob_DropPointIDs_def by (intro still.keeps_prims keeps_cases keeps_collect_ids_still)
  then show "holds Q blob_DropPointIDs" "holds B blob_DropPointIDs" by (rule neutral)+
qed (rule neutral, rule still.keeps_prims)+

section \<open>Loops\<close>

lemma Q_recover:
  "(i, j) \<notin> (\<lambda>x. (sub_DropPointID x, sub_ID x)) ` set ss \<Longrightarrow> holds Q (recoverReceiving ss n)"
proof (induction ss arbitrary: n)
  case (Cons x ss)
  show ?case
    unfolding recoverReceiving.simps
    by (intro holds_rules Q_delete delete_receiving Cons.IH) (use Cons.prems in auto)
qed (simp add: holds_return)

lemma B_recover: "holds B (recoverReceiving ss n)"
proof (induction ss arbitrary: n)
  case (Cons x ss)
  show ?case
    unfolding recoverReceiving.simps by (intro holds_rules B_delete delete_receiving Cons.IH)
qed (simp add: holds_return)

lemma Q_children:
  "(i, j) \<notin> (\<lambda>x. (sub_DropPointID x, sub_ID x)) ` set ss \<Longrightarrow> holds Q (delete_children ss res)"
proof (induction ss arbitrary: res)
  case (Cons x ss)
  show ?case
    unfolding delete_children.simps
    by (intro holds_rules Q_delete clear Cons.IH) (use Cons.prems in auto)
qed (simp add: holds_return)

lemma B_children: "holds B (delete_children ss res)"
proof (induction ss arbitrary: res)
  case (Cons x ss)
  show ?case unfolding delete_children.simps by (intro holds_rules B_delete clear Cons.IH)
qed (simp add: holds_return)

lemma Q_terminal: "i \<notin> dp_ID ` set dps \<Longrightarrow> holds Q (delete_terminal dps res)"
proof (induction dps arbitrary: res)
  case (Cons dp dps)
  show ?case
    unfolding delete_terminal.simps repo_SubmissionFilesForDropPoint_def
    by (intro holds_rules reads Q_delete_all clear Cons.IH) (use Cons.prems in auto)
qed (simp add: holds_return)

lemma B_terminal: "holds B (delete_terminal dps res)"
proof (induction dps arbitrary: res)
  case (Cons dp dps)
  show ?case
    unfolding delete_terminal.simps repo_SubmissionFilesForDropPoint_def
    by (intro holds_rules reads B_delete_all clear Cons.IH)
qed (simp add: holds_return)

lemma Q_orphans: "i \<in> set ids \<Longrightarrow> holds Q (delete_orphans ids blobs res)"
proof (induction blobs arbitrary: res)
  case (Cons a blobs)
  show ?case
    unfolding delete_orphans.simps
    by (intro holds_rules Q_delete_all Cons.IH) (use Cons.prems in auto)
qed (simp add: holds_return)

lemma B_orphans: "holds B (delete_orphans ids blobs res)"
proof (induction blobs arbitrary: res)
  case (Cons a blobs)
  show ?case unfolding delete_orphans.simps by (intro holds_rules B_delete_all Cons.IH)
qed (simp add: holds_return)

section \<open>Phases\<close>

lemma recover_listed:
  assumes "Q w" "query_submissions P k (w_db w) = Inr xs"
    and "\<And>s. P s \<Longrightarrow> sr_status s \<noteq> SubmissionStatusReady"
  shows "triple (\<lambda>u. Q u \<and> w_db u = w_db w) (recoverReceiving xs n) (\<lambda>_. Q)"
  by (rule by_key [OF Q_recover B_recover]) (use listed_key [OF assms] in blast)+

lemma Q_stale: "holds Q (stale_phase v now)"
  unfolding stale_phase_def repo_ReceivingSubmissionsStartedBefore_def
proof (intro triple_if query_bind holds_return)
  fix xs w assume "Q w" "query_submissions
      (\<lambda>r. sr_status r = SubmissionStatusReceiving \<and> sr_receiving_started_at r \<le> now - ReceivingStaleAfter v)
      sr_key (w_db w) = Inr xs"
  from recover_listed [OF this]
  have "triple (\<lambda>u. Q u \<and> w_db u = w_db w) (recoverReceiving xs 0) (\<lambda>_. Q)" by simp
  then show "triple (\<lambda>u. Q u \<and> w_db u = w_db w) (do {
      (recovered, e) \<leftarrow> recoverReceiving xs 0;
      State_Monad.return (no_result\<lparr>RecoveredReceiving := recovered\<rparr>, e)
    }) (\<lambda>_. Q)"
    by (rule triple_bind) (intro triple_prod holds_return)
qed

lemma Q_children_phase: "holds Q (children_phase res)"
  unfolding children_phase_def repo_CleanupSubmissions_def
proof (rule query_bind [OF holds_return])
  fix xs w assume "Q w" "query_submissions
      (\<lambda>r. sr_status r \<in> {SubmissionStatusAcknowledged, SubmissionStatusFailed}) sr_key (w_db w) = Inr xs"
  note qw = this
  have listed: "B u" if "(i, j) \<in> (\<lambda>x. (sub_DropPointID x, sub_ID x)) ` set xs" "Q u"
    "w_db u = w_db w" for u
    by (rule listed_key [OF qw _ that]) auto
  show "triple (\<lambda>u. Q u \<and> w_db u = w_db w) (delete_children xs res) (\<lambda>_. Q)"
    by (rule by_key [OF Q_children B_children]) (use listed in blast)+
qed

lemma Q_terminal_phase: "holds Q (terminal_phase res)"
  unfolding terminal_phase_def repo_TerminalDropPoints_def
proof (rule query_bind [OF holds_return])
  fix xs w assume Qw: "Q w" and q: "query_terminal (w_db w) = Inr xs"
  have B: "B u" if u: "Q u" "w_db u = w_db w" and listed: "i \<in> dp_ID ` set xs" for u
  proof -
    obtain dp r where "dp \<in> set xs" "dp_ID dp = i" "r \<in> set (drop_points (w_db w))"
      "is_terminal (dpr_status r)" "dp = drop_point_of_row r"
      using listed scan_drop_points_row [OF q [unfolded query_terminal_def]] by fastforce
    with u show ?thesis
      by (intro not_open [of u r]) (auto simp: drop_point_of_row_def is_terminal_def)
  qed
  show "triple (\<lambda>u. Q u \<and> w_db u = w_db w) (delete_terminal xs res) (\<lambda>_. Q)"
  proof (cases "i \<in> dp_ID ` set xs")
    case True
    show ?thesis by (rule triple_weaken [OF B_terminal]) (use B True B_Q in auto)
  next
    case False
    show ?thesis by (rule triple_weaken [OF Q_terminal [OF False]]) auto
  qed
qed

lemma Q_orphan_phase: "holds Q (orphan_phase (State_Monad.return ()) res)"
  unfolding orphan_phase_def repo_DropPointIDs_def
proof (rule query_bind [OF holds_return])
  fix ids w assume Qw: "Q w" and q: "query_ids (w_db w) = Inr ids"
  let ?m = "do {
      _ \<leftarrow> State_Monad.return ();
      b \<leftarrow> blob_DropPointIDs;
      case b of Inl err \<Rightarrow> State_Monad.return (res, Some err)
      | Inr blobIDs \<Rightarrow> delete_orphans ids blobIDs res
    }"
  have ids: "set ids = dpr_id ` set (drop_points (w_db w))" using q by (auto simp: query_ids_def)
  show "triple (\<lambda>u. Q u \<and> w_db u = w_db w) ?m (\<lambda>_. Q)"
  proof (cases "i \<in> set ids")
    case True
    have "holds Q ?m" by (intro holds_rules reads Q_orphans True)
    then show ?thesis by (rule triple_weaken) auto
  next
    case False
    have "holds B ?m" by (intro holds_rules reads B_orphans)
    then show ?thesis by (rule triple_weaken) (use False ids no_row B_Q in auto)
  qed
qed

lemma Q_purge_phase: "holds Q (purge_phase v now res)"
  unfolding purge_phase_def repo_PurgeTerminalDropPoints_def
  by (intro holds_rules Q_purge reads)

lemma Q_and_then: "holds Q m \<Longrightarrow> (\<And>x. holds Q (f x)) \<Longrightarrow> holds Q (and_then m f stop)"
  unfolding and_then_def by (intro holds_rules)

end

text \<open>What remains is to keep \<open>Q\<close> when elapsed drop points are marked as expired.\<close>

locale guarded_service = guarded_pass +
  assumes Q_expire: "holds Q (sql_exec (stmt_mark_expired a))"
begin

lemma Q_markExpired: "holds Q (repo_markExpired a)"
  unfolding repo_markExpired_def by (intro holds_rules Q_expire)

lemma Q_mark_all: "holds Q (mark_all_expired dps)"
  by (induction dps) (simp_all add: holds_return, intro holds_rules Q_markExpired)

lemma Q_Expire: "holds Q (service_Expire v)"
proof -
  have expire: "holds Q (expire_phase now res)" for now res
    unfolding expire_phase_def repo_ExpireDropPoints_def
    by (intro holds_rules reads Q_mark_all)
  show ?thesis
    unfolding service_Expire_def Expire_between_def
    by (intro holds_rules reads Q_and_then Q_stale expire Q_children_phase Q_terminal_phase
        Q_orphan_phase Q_purge_phase)
qed

lemma Q_Reconcile: "holds Q (ReconcileStartup v)"
  unfolding ReconcileStartup_def repo_ReceivingSubmissions_def and_then_def
proof (rule query_bind [OF holds_return])
  fix xs w assume "Q w" "query_submissions (\<lambda>r. sr_status r = SubmissionStatusReceiving) sr_key
      (w_db w) = Inr xs"
  from recover_listed [OF this]
  have "triple (\<lambda>u. Q u \<and> w_db u = w_db w) (recoverReceiving xs 0) (\<lambda>_. Q)" by simp
  then show "triple (\<lambda>u. Q u \<and> w_db u = w_db w) (do {
      (r, e) \<leftarrow> recoverReceiving xs 0;
      case e of Some err \<Rightarrow> State_Monad.return (no_result\<lparr>RecoveredReceiving := r\<rparr>, Some err)
      | None \<Rightarrow> do {
          (result, e) \<leftarrow> service_Expire v;
          State_Monad.return (result\<lparr>RecoveredReceiving := RecoveredReceiving result + r\<rparr>, e)
        }
    }) (\<lambda>_. Q)"
    by (rule triple_bind) (intro triple_prod holds_rules Q_Expire)
qed

end

end
