(* ===== verification/Cleanup_Facts.thy ===== *)
theory Cleanup_Facts
  imports Cleanup_Guard Samples
begin

text \<open>
  Cleanup and the submissions that must survive it: the triples of every phase for a submission
  that is ready in an open drop point, under any faults.
\<close>

section \<open>Live submissions\<close>

text \<open>A live submission: its drop point is open and not expired at \<open>now\<close>, the submission is
  ready, and \<open>F\<close> is what its directory holds.\<close>

definition live ::
    "time \<Rightarrow> drop_point_row \<Rightarrow> submission_row \<Rightarrow> (path \<Rightarrow> node option) \<Rightarrow> world \<Rightarrow> bool" where
  "live now r s F w \<longleftrightarrow>
     db_inv (w_db w) \<and> r \<in> set (drop_points (w_db w)) \<and> s \<in> set (submissions (w_db w))
     \<and> dpr_status r = StatusOpen \<and> now < dpr_expires_at r
     \<and> sr_drop_point_id s = dpr_id r \<and> sr_status s = SubmissionStatusReady
     \<and> (\<forall>q. below (submissionDir (sr_drop_point_id s) (sr_id s)) q \<longrightarrow> fs_get (w_fs w) q = F q)"

lemma live_env:
  "live now r s F w \<Longrightarrow> w_db w' = w_db w \<Longrightarrow> w_fs w' = w_fs w \<Longrightarrow> live now r s F w'"
  by (simp add: live_def)

text \<open>A program that performs database steps only, none of which touches the two rows.\<close>

lemma live_exec:
  assumes "\<And>d x d'. stmt d = Inr (x, d') \<Longrightarrow> db_inv d \<Longrightarrow> r \<in> set (drop_points d) \<Longrightarrow>
      s \<in> set (submissions d) \<Longrightarrow>
      db_inv d' \<and> r \<in> set (drop_points d') \<and> s \<in> set (submissions d')"
  shows "triple (live now r s F) (sql_exec stmt) (\<lambda>_. live now r s F)"
proof (rule tripleI)
  fix w x w' assume l: "live now r s F w" and run: "run_state (sql_exec stmt) w = (x, w')"
  from sql_exec_still [OF run] l assms [of "w_db w"] show "live now r s F w'" by (auto simp: live_def)
qed

lemma live_neutral:
  "keeps (\<lambda>w w'. w_db w' = w_db w \<and> w_fs w' = w_fs w) m \<Longrightarrow> triple (live now r s F) m (\<lambda>_. live now r s F)"
  by (erule triple_keeps) (auto intro: live_env)

text \<open>File operations in another directory.\<close>

lemma live_blob:
  assumes "keeps (blob_frame p) m"
    and "\<And>q. below (submissionDir (sr_drop_point_id s) (sr_id s)) q \<Longrightarrow> \<not> below p q"
    and "\<And>q. below (submissionDir (sr_drop_point_id s) (sr_id s)) q \<Longrightarrow> \<not> below q p"
  shows "triple (live now r s F) m (\<lambda>_. live now r s F)"
proof (rule triple_keeps [OF assms(1)])
  fix w w' assume f: "blob_frame p w w'" and l: "live now r s F w"
  have "fs_get (w_fs w') q = F q" if q: "below (submissionDir (sr_drop_point_id s) (sr_id s)) q" for q
  proof -
    have "fs_get (w_fs w') q = fs_get (w_fs w) q"
      using f assms(2,3) [OF q] by (simp add: blob_frame_def fs_frame_def) blast
    with l q show ?thesis by (simp add: live_def)
  qed
  with f l show "live now r s F w'" by (simp add: live_def blob_frame_def)
qed

lemma live_DeleteSubmission:
  "(i, j) \<noteq> sr_key s \<Longrightarrow> holds (live now r s F) (DeleteSubmission i j)"
  by (rule live_blob [OF keeps_deletes(2)]) (auto simp: sr_key_def dest: submission_dirs_apart)

lemma live_DeleteDropPoint:
  "i \<noteq> sr_drop_point_id s \<Longrightarrow> holds (live now r s F) (DeleteDropPoint i)"
  by (rule live_blob [OF keeps_deletes(1)]) (auto dest: drop_dirs_apart)

section \<open>Every phase keeps them\<close>

lemma live_sub_delete:
  assumes "\<not> P s"
  shows "triple (live now r s F) (sql_exec (\<lambda>d. Inr (f d, d\<lparr>submissions := delete_where P (submissions d)\<rparr>))) (\<lambda>_. live now r s F)"
  by (rule live_exec) (use assms in \<open>auto simp: table_simps intro: submission_delete_inv\<close>)

lemma live_clear:
  assumes "\<not> P s"
  shows "triple (live now r s F) (sql_exec (update_submissions P clear_pointers)) (\<lambda>_. live now r s F)"
proof (rule live_exec)
  fix d x d' assume u: "update_submissions P clear_pointers d = Inr (x, d')" and inv: "db_inv d"
    and m: "r \<in> set (drop_points d)" "s \<in> set (submissions d)"
  then have "d' = d\<lparr>submissions := update_where P clear_pointers (submissions d)\<rparr>"
    by (simp add: update_submissions_def)
  moreover have "s \<in> set (update_where P clear_pointers (submissions d))"
    unfolding set_update_where using m(2) assms by (intro bexI [of _ s]) simp_all
  ultimately show "db_inv d' \<and> r \<in> set (drop_points d') \<and> s \<in> set (submissions d')"
    using clear_inv [OF inv u] m by simp
qed

lemma live_expired:
  assumes "dpid \<noteq> dpr_id r"
  shows "triple (live now r s F) (repo_markExpired dpid) (\<lambda>_. live now r s F)"
  unfolding repo_markExpired_def
proof (rule triple_bind)
  show "triple (live now r s F) (sql_exec (stmt_mark_expired dpid)) (\<lambda>_. live now r s F)"
  proof (rule live_exec)
    fix d x d' assume u: "stmt_mark_expired dpid d = Inr (x, d')" and inv: "db_inv d"
      and m: "r \<in> set (drop_points d)" "s \<in> set (submissions d)"
    let ?P = "\<lambda>q. dpr_id q = dpid \<and> dpr_status q = StatusOpen"
    have d': "d' = d\<lparr>drop_points := update_where ?P set_expired (drop_points d)\<rparr>"
      using u by (simp add: stmt_mark_expired_def update_drop_points_def)
    moreover have "r \<in> set (update_where ?P set_expired (drop_points d))"
      unfolding set_update_where using m(1) assms by (intro bexI [of _ r]) auto
    ultimately show "db_inv d' \<and> r \<in> set (drop_points d') \<and> s \<in> set (submissions d')"
      using expired_inv [OF inv u] m by simp
  qed
qed (rule triple_return)

lemma live_unique:
  "live now r s F w \<Longrightarrow> q \<in> set (drop_points (w_db w)) \<Longrightarrow> dpr_id q = dpr_id r \<Longrightarrow> q = r"
  "live now r s F w \<Longrightarrow> p \<in> set (submissions (w_db w)) \<Longrightarrow> sr_key p = sr_key s \<Longrightarrow> p = s"
  by (auto simp: live_def intro: distinct_key_unique dest: inv_distinct)

lemma live_not_listed:
  assumes "live now r s F w" "scan_all scanDropPoint (sort_key k (filter P (drop_points (w_db w)))) = Inr xs"
    and "\<not> P r"
  shows "\<forall>dp \<in> set xs. dp_ID dp \<noteq> dpr_id r"
proof
  fix dp assume "dp \<in> set xs"
  then obtain q where q: "q \<in> set (drop_points (w_db w))" "P q" "dp = drop_point_of_row q"
    using scan_drop_points_row [OF assms(2)] by blast
  show "dp_ID dp \<noteq> dpr_id r"
  proof
    assume "dp_ID dp = dpr_id r"
    then have "q = r" using live_unique(1) [OF assms(1) q(1)] by (simp add: q(3) drop_point_of_row_def)
    with q(2) assms(3) show False by simp
  qed
qed

lemma live_receiving: "holds (live now r s F) (sql_exec (stmt_delete_receiving a b))"
proof (rule tripleI)
  fix w x w' assume l: "live now r s F w"
    and run: "run_state (sql_exec (stmt_delete_receiving a b)) w = (x, w')"
  have "holds (live now r s F) (sql_exec (stmt_delete_receiving a b))"
    unfolding stmt_delete_receiving_def Let_def
    by (rule live_sub_delete) (use l in \<open>simp add: live_def\<close>)
  from tripleD [OF this l run] show "live now r s F w'" .
qed

lemma live_purge: "holds (live now r s F) (sql_exec (stmt_purge cutoff))"
proof (rule tripleI)
  fix w x w' assume l: "live now r s F w" and run: "run_state (sql_exec (stmt_purge cutoff)) w = (x, w')"
  note fs = conjunct1 [OF sql_exec_still [OF run]] and d = conjunct2 [OF sql_exec_still [OF run]]
  from d show "live now r s F w'"
  proof
    assume "\<exists>y. stmt_purge cutoff (w_db w) = Inr (y, w_db w')"
    then obtain y where p: "stmt_purge cutoff (w_db w) = Inr (y, w_db w')" by blast
    have inv: "db_inv (w_db w')" by (rule purge_inv [OF _ p]) (use l in \<open>simp add: live_def\<close>)
    have np: "\<not> purgeable (w_db w) cutoff r" using l by (simp add: live_def purgeable_def is_terminal_def)
    with l have "r \<in> set (delete_where (purgeable (w_db w) cutoff) (drop_points (w_db w)))"
      by (simp add: live_def table_simps)
    moreover have "w_db w' = (w_db w)\<lparr>drop_points := delete_where (purgeable (w_db w) cutoff) (drop_points (w_db w)),
        submissions := filter (\<lambda>s. list_ex (\<lambda>r. dpr_id r = sr_drop_point_id s)
          (delete_where (purgeable (w_db w) cutoff) (drop_points (w_db w)))) (submissions (w_db w))\<rparr>"
      using p by (auto simp: stmt_purge_def Let_def)
    ultimately show ?thesis
      using l inv fs by (auto simp: live_def list_ex_iff)
  qed (use l fs in \<open>auto intro: live_env\<close>)
qed

text \<open>A live submission is never touched: where a pass would, there is none.\<close>

interpretation live_guard: guarded_pass "live now r s F" "\<lambda>_. False" "sr_drop_point_id s" "sr_id s"
  for now r s F
proof unfold_locales
  fix w q assume l: "live now r s F w" and "q \<in> set (submissions (w_db w))"
    "sr_key q = (sr_drop_point_id s, sr_id s)" "sr_status q \<noteq> SubmissionStatusReady"
  with live_unique(2) [OF l, of q] show False by (auto simp: live_def sr_key_def)
next
  fix w q assume l: "live now r s F w" and "q \<in> set (drop_points (w_db w))"
    "dpr_id q = sr_drop_point_id s" "dpr_status q \<noteq> StatusOpen"
  with live_unique(1) [OF l, of q] show False by (auto simp: live_def)
next
  fix w assume "live now r s F w" "sr_drop_point_id s \<notin> dpr_id ` set (drop_points (w_db w))"
  then show False by (auto simp: live_def)
next
  fix a b :: go_string
  assume other: "(a, b) \<noteq> (sr_drop_point_id s, sr_id s)"
  then show "holds (live now r s F) (DeleteSubmission a b)"
    by (intro live_DeleteSubmission) (simp add: sr_key_def)
  show "holds (live now r s F) (sql_exec (stmt_clear_submission a b))"
    unfolding stmt_clear_submission_def by (rule live_clear) (use other in \<open>auto simp: sr_key_def\<close>)
next
  fix a :: go_string
  assume other: "a \<noteq> sr_drop_point_id s"
  then show "holds (live now r s F) (DeleteDropPoint a)" by (rule live_DeleteDropPoint)
  show "holds (live now r s F) (sql_exec (stmt_clear_drop_point a))"
    unfolding stmt_clear_drop_point_def by (rule live_clear) (use other in auto)
qed (auto intro: live_env live_receiving live_purge triple_False)

lemma live_mark_all:
  "\<forall>dp \<in> set dps. dp_ID dp \<noteq> dpr_id r \<Longrightarrow> holds (live now r s F) (mark_all_expired dps)"
proof (induction dps)
  case (Cons dp dps)
  show ?case
    unfolding mark_all_expired.simps
    by (intro holds_rules live_expired Cons.IH) (use Cons.prems in auto)
qed (simp add: holds_return)

lemma live_expire: "holds (live now r s F) (expire_phase now res)"
proof -
  have "holds (live now r s F) (repo_ExpireDropPoints now)"
    unfolding repo_ExpireDropPoints_def
  proof (rule live_guard.query_bind [OF holds_return])
    fix xs w assume l: "live now r s F w" and q: "query_expired now (w_db w) = Inr xs"
    have "\<forall>dp \<in> set xs. dp_ID dp \<noteq> dpr_id r"
      by (rule live_not_listed [OF l q [unfolded query_expired_def]]) (use l in \<open>auto simp: live_def\<close>)
    then have "holds (live now r s F) (do {
        m \<leftarrow> mark_all_expired xs;
        State_Monad.return (case m of Inl err \<Rightarrow> Inl err | Inr _ \<Rightarrow> Inr xs)
      })"
      by (intro holds_rules live_mark_all)
    then show "triple (\<lambda>u. live now r s F u \<and> w_db u = w_db w) (do {
        m \<leftarrow> mark_all_expired xs;
        State_Monad.return (case m of Inl err \<Rightarrow> Inl err | Inr _ \<Rightarrow> Inr xs)
      }) (\<lambda>_. live now r s F)"
      by (rule triple_weaken) auto
  qed
  then show ?thesis unfolding expire_phase_def by (intro holds_rules)
qed

end
