(* ===== verification/Cleanup_Frames.thy ===== *)
theory Cleanup_Frames
  imports Cleanup_Facts
begin

text \<open>
  The relations a cleanup pass keeps. A relation has to allow the statements and the file
  operations of cleanup, and nothing else: first those of the loops that delete files, then those
  of a whole pass. Two instances: \<open>tidied\<close> for everything cleanup does, \<open>files_dropped\<close> for its
  deletion loops, which do not even touch the drop point rows.
\<close>

section \<open>What a pass is made of\<close>

locale reclaim_frame = io_frame +
  assumes R_clear: "keeps R (sql_exec (stmt_clear_submission i j))"
    and R_clear_all: "keeps R (sql_exec (stmt_clear_drop_point i))"
    and R_DeleteSubmission: "keeps R (DeleteSubmission i j)"
    and R_DeleteDropPoint: "keeps R (DeleteDropPoint i)"
begin

lemmas keeps_reclaim = keeps_prims keeps_cases R_clear R_clear_all R_DeleteSubmission
  R_DeleteDropPoint

lemma keeps_clear_calls:
  "keeps R (repo_ClearSubmissionFiles i j)" "keeps R (repo_ClearDropPointFiles i)"
  "keeps R (repo_SubmissionFilesForDropPoint i)"
  unfolding repo_ClearSubmissionFiles_def repo_ClearDropPointFiles_def
    repo_SubmissionFilesForDropPoint_def
  by (intro keeps_reclaim)+

lemma keeps_listing: "keeps R blob_DropPointIDs"
proof -
  have "keeps R (collect_ids es)" for es
    by (induction es rule: collect_ids.induct) (simp_all, (intro keeps_reclaim; simp)+)
  then show ?thesis unfolding blob_DropPointIDs_def by (intro keeps_reclaim)
qed

lemma keeps_children: "keeps R (delete_children ss res)"
proof (induction ss arbitrary: res)
  case (Cons x ss)
  show ?case unfolding delete_children.simps by (intro keeps_reclaim keeps_clear_calls Cons.IH)
qed (simp add: keeps_return)

lemma keeps_terminal: "keeps R (delete_terminal dps res)"
proof (induction dps arbitrary: res)
  case (Cons x dps)
  show ?case unfolding delete_terminal.simps by (intro keeps_reclaim keeps_clear_calls Cons.IH)
qed (simp add: keeps_return)

lemma keeps_orphans: "keeps R (delete_orphans rowIDs ids res)"
proof (induction ids arbitrary: res)
  case (Cons x ids)
  show ?case unfolding delete_orphans.simps by (intro keeps_reclaim Cons.IH)
qed (simp add: keeps_return)

lemma keeps_reclaim_phases:
  "keeps R (children_phase res)" "keeps R (terminal_phase res)"
  "keeps R (orphan_phase (State_Monad.return ()) res)"
  unfolding children_phase_def terminal_phase_def orphan_phase_def
    repo_CleanupSubmissions_def repo_TerminalDropPoints_def repo_DropPointIDs_def
  by (intro keeps_reclaim keeps_children keeps_terminal keeps_orphans keeps_listing)+

end

locale pass_frame = reclaim_frame +
  assumes R_delete: "keeps R (sql_exec (stmt_delete_receiving i j))"
    and R_expired: "keeps R (sql_exec (stmt_mark_expired i))"
    and R_purge: "keeps R (sql_exec (stmt_purge t))"
begin

lemmas keeps_pass = keeps_reclaim R_delete R_expired R_purge

lemma keeps_pass_calls:
  "keeps R (repo_DeleteReceivingSubmission i j)" "keeps R (repo_markExpired i)"
  "keeps R (repo_PurgeTerminalDropPoints t)"
  unfolding repo_DeleteReceivingSubmission_def repo_markExpired_def
    repo_PurgeTerminalDropPoints_def
  by (intro keeps_pass)+

lemma keeps_recover: "keeps R (recoverReceiving ss n)"
proof (induction ss arbitrary: n)
  case (Cons x ss)
  show ?case unfolding recoverReceiving.simps by (intro keeps_pass keeps_pass_calls Cons.IH)
qed (simp add: keeps_return)

lemma keeps_marks: "keeps R (mark_all_expired dps)"
proof (induction dps)
  case (Cons x dps)
  show ?case unfolding mark_all_expired.simps by (intro keeps_pass keeps_pass_calls Cons.IH)
qed (simp add: keeps_return)

lemma keeps_phases:
  "keeps R (stale_phase v now)" "keeps R (expire_phase now res)" "keeps R (purge_phase v now res)"
  unfolding stale_phase_def expire_phase_def purge_phase_def
    repo_ReceivingSubmissionsStartedBefore_def repo_ExpireDropPoints_def
  by (intro keeps_pass keeps_recover keeps_marks keeps_pass_calls)+

lemma keeps_and_then:
  "keeps R m \<Longrightarrow> (\<And>x. keeps R (f x)) \<Longrightarrow> keeps R (and_then m f stop)"
  unfolding and_then_def by (intro keeps_pass)

lemma keeps_Expire: "keeps R (service_Expire v)"
  unfolding service_Expire_def Expire_between_def
  by (intro keeps_pass keeps_and_then keeps_phases keeps_reclaim_phases)

lemma keeps_Reconcile: "keeps R (ReconcileStartup v)"
  unfolding ReconcileStartup_def repo_ReceivingSubmissions_def
  by (intro keeps_pass keeps_and_then keeps_recover keeps_Expire)

end

section \<open>Only removal\<close>

text \<open>The only thing that happens to a file or directory is that it goes away.\<close>

definition fs_shrinks :: "fs \<Rightarrow> fs \<Rightarrow> bool" where
  "fs_shrinks t t' \<longleftrightarrow> (\<forall>q. fs_get t' q = fs_get t q \<or> fs_get t' q = None)"

definition row_cleared :: "submission_row \<Rightarrow> submission_row \<Rightarrow> bool" where
  "row_cleared s s' \<longleftrightarrow> s' = s \<or> s' = clear_pointers s"

definition row_expired :: "drop_point_row \<Rightarrow> drop_point_row \<Rightarrow> bool" where
  "row_expired r r' \<longleftrightarrow> r' = r \<or> dpr_status r = StatusOpen \<and> r' = set_expired r"

text \<open>Every row afterwards is a row from before: a submission row possibly without its pointers,
  a drop point row possibly expired. API tokens are not touched.\<close>

definition tidied :: "world \<Rightarrow> world \<Rightarrow> bool" where
  "tidied w w' \<longleftrightarrow>
     (\<forall>s' \<in> set (submissions (w_db w')). \<exists>s \<in> set (submissions (w_db w)). row_cleared s s')
     \<and> (\<forall>r' \<in> set (drop_points (w_db w')). \<exists>r \<in> set (drop_points (w_db w)). row_expired r r')
     \<and> api_tokens (w_db w') = api_tokens (w_db w)
     \<and> fs_shrinks (w_fs w) (w_fs w')"

definition files_dropped :: "world \<Rightarrow> world \<Rightarrow> bool" where
  "files_dropped w w' \<longleftrightarrow> tidied w w' \<and> drop_points (w_db w') = drop_points (w_db w)"

lemma fs_shrinks_refl [simp]: "fs_shrinks t t"
  by (simp add: fs_shrinks_def)

lemma row_refl [simp]: "row_cleared s s" "row_expired r r"
  by (simp_all add: row_cleared_def row_expired_def)

lemma row_kept [intro]:
  "s \<in> set ss \<Longrightarrow> \<exists>x \<in> set ss. row_cleared x s" "r \<in> set rs \<Longrightarrow> \<exists>x \<in> set rs. row_expired x r"
  by (rule bexI, rule row_refl, assumption)+

lemma fs_shrinks_trans: "fs_shrinks t u \<Longrightarrow> fs_shrinks u v \<Longrightarrow> fs_shrinks t v"
  unfolding fs_shrinks_def by metis

lemma clear_clear [simp]: "clear_pointers (clear_pointers s) = clear_pointers s"
  by (simp add: clear_pointers_def)

lemma row_trans:
  "row_cleared s s' \<Longrightarrow> row_cleared s' s'' \<Longrightarrow> row_cleared s s''"
  "row_expired r r' \<Longrightarrow> row_expired r' r'' \<Longrightarrow> row_expired r r''"
  by (auto simp: row_cleared_def row_expired_def set_expired_def)

lemma tidied_refl [simp]: "tidied w w"
  by (auto simp: tidied_def)

lemma tidied_trans:
  assumes "tidied u v" "tidied v w"
  shows "tidied u w"
  unfolding tidied_def
proof (intro conjI ballI)
  fix s assume "s \<in> set (submissions (w_db w))"
  then obtain s1 where s1: "s1 \<in> set (submissions (w_db v))" "row_cleared s1 s"
    using assms(2) unfolding tidied_def by blast
  then obtain s0 where "s0 \<in> set (submissions (w_db u))" "row_cleared s0 s1"
    using assms(1) unfolding tidied_def by blast
  with s1 show "\<exists>x \<in> set (submissions (w_db u)). row_cleared x s" by (blast intro: row_trans)
next
  fix r assume "r \<in> set (drop_points (w_db w))"
  then obtain r1 where r1: "r1 \<in> set (drop_points (w_db v))" "row_expired r1 r"
    using assms(2) unfolding tidied_def by blast
  then obtain r0 where "r0 \<in> set (drop_points (w_db u))" "row_expired r0 r1"
    using assms(1) unfolding tidied_def by blast
  with r1 show "\<exists>x \<in> set (drop_points (w_db u)). row_expired x r" by (blast intro: row_trans)
next
  show "api_tokens (w_db w) = api_tokens (w_db u)" using assms unfolding tidied_def by metis
  show "fs_shrinks (w_fs u) (w_fs w)" using assms fs_shrinks_trans unfolding tidied_def by blast
qed

lemma tidied_env: "w_db w = w_db v \<Longrightarrow> w_fs w = w_fs v \<Longrightarrow> tidied v w"
  by (auto simp: tidied_def)

lemma dropped_trans: "files_dropped u v \<Longrightarrow> files_dropped v w \<Longrightarrow> files_dropped u w"
  unfolding files_dropped_def using tidied_trans by metis

subsection \<open>The operations of cleanup\<close>

interpretation tidy_io: io_frame tidied
  by unfold_locales (auto intro: tidied_env tidied_trans)

interpretation dropped_io: io_frame files_dropped
  by unfold_locales (auto simp: files_dropped_def intro: tidied_env dropped_trans tidied_trans)

interpretation shrink: io_frame "\<lambda>w w'. fs_shrinks (w_fs w) (w_fs w') \<and> w_db w' = w_db w"
  by unfold_locales (auto intro: fs_shrinks_trans)

lemma fs_shrinks_del: "p \<noteq> [] \<Longrightarrow> fs_shrinks t (fs_del p t)"
  by (simp add: fs_shrinks_def)

lemma fs_shrinks_remove: "fs_shrinks t (snd (os_Remove p t))"
proof -
  have "p \<noteq> []" if "fs_get t p = Some (File bs)" for bs using that by (cases p) auto
  then show ?thesis
    by (simp add: os_Remove_def fs_shrinks_del split: option.split node.split)
qed

lemma shrink_fs:
  assumes "\<And>t. fs_shrinks t (snd (f t))"
  shows "keeps (\<lambda>w w'. fs_shrinks (w_fs w) (w_fs w') \<and> w_db w' = w_db w) (fs_exec f)"
proof (rule shrink.keeps_fs)
  fix w r t assume "f (w_fs w) = (r, t)"
  with assms [of "w_fs w"] show "fs_shrinks (w_fs w) (w_fs (w\<lparr>w_fs := t\<rparr>)) \<and> w_db (w\<lparr>w_fs := t\<rparr>) = w_db w"
    by simp
qed

lemma shrink_deletes:
  "keeps (\<lambda>w w'. fs_shrinks (w_fs w) (w_fs w') \<and> w_db w' = w_db w) (DeleteSubmission i j)"
  "keeps (\<lambda>w w'. fs_shrinks (w_fs w) (w_fs w') \<and> w_db w' = w_db w) (DeleteDropPoint i)"
proof -
  have entries: "keeps (\<lambda>w w'. fs_shrinks (w_fs w) (w_fs w') \<and> w_db w' = w_db w) (remove_entries es)" for es
  proof (induction es)
    case (Cons e es)
    show ?case
      unfolding remove_entries.simps
      by (intro shrink.keeps_prims keeps_cases shrink_fs fs_shrinks_remove Cons.IH)
  qed (simp add: shrink.keeps_return)
  have all: "keeps (\<lambda>w w'. fs_shrinks (w_fs w) (w_fs w') \<and> w_db w' = w_db w) (os_RemoveAll p)" for p
    unfolding os_RemoveAll_def by (intro shrink.keeps_prims keeps_cases entries)
  have sync: "keeps (\<lambda>w w'. fs_shrinks (w_fs w) (w_fs w') \<and> w_db w' = w_db w) (fs_exec (os_SyncDir p))" for p
    by (rule shrink_fs) (simp add: os_SyncDir_def)
  show "keeps (\<lambda>w w'. fs_shrinks (w_fs w) (w_fs w') \<and> w_db w' = w_db w) (DeleteSubmission i j)"
    "keeps (\<lambda>w w'. fs_shrinks (w_fs w) (w_fs w') \<and> w_db w' = w_db w) (DeleteDropPoint i)"
    unfolding DeleteSubmission_def DeleteDropPoint_def
    by (intro shrink.keeps_prims keeps_cases all sync)+
qed

lemma files_dropped_fs:
  "keeps (\<lambda>w w'. fs_shrinks (w_fs w) (w_fs w') \<and> w_db w' = w_db w) m \<Longrightarrow> keeps files_dropped m"
  by (auto simp: keeps_def files_dropped_def tidied_def)

text \<open>A statement is judged by the rows it leaves.\<close>

lemma tidied_stmt:
  assumes "\<And>d x d'. stmt d = Inr (x, d') \<Longrightarrow>
      (\<forall>s' \<in> set (submissions d'). \<exists>s \<in> set (submissions d). row_cleared s s')
      \<and> (\<forall>r' \<in> set (drop_points d'). \<exists>r \<in> set (drop_points d). row_expired r r')
      \<and> api_tokens d' = api_tokens d"
  shows "keeps tidied (sql_exec stmt)"
proof (rule tidy_io.keeps_exec)
  fix w :: world and x d assume "stmt (w_db w) = Inr (x, d)"
  from assms [OF this] show "tidied w (w\<lparr>w_db := d\<rparr>)" by (simp add: tidied_def)
qed

lemma tidied_delete: "keeps tidied (sql_exec (stmt_delete_receiving i j))"
  by (rule tidied_stmt) (auto simp: stmt_delete_receiving_def Let_def table_simps)

lemma tidied_expired: "keeps tidied (sql_exec (stmt_mark_expired i))"
proof (rule tidied_stmt)
  fix d x d' assume "stmt_mark_expired i d = Inr (x, d')"
  then show "(\<forall>s' \<in> set (submissions d'). \<exists>s \<in> set (submissions d). row_cleared s s')
      \<and> (\<forall>r' \<in> set (drop_points d'). \<exists>r \<in> set (drop_points d). row_expired r r')
      \<and> api_tokens d' = api_tokens d"
    by (auto simp: stmt_mark_expired_def update_drop_points_def set_update_where)
      (auto simp: row_expired_def)
qed

lemma tidied_purge: "keeps tidied (sql_exec (stmt_purge t))"
  by (rule tidied_stmt) (auto simp: stmt_purge_def Let_def table_simps)

lemma dropped_clear:
  "keeps files_dropped (sql_exec (update_submissions P clear_pointers))"
proof (rule dropped_io.keeps_exec)
  fix w :: world and x d assume "update_submissions P clear_pointers (w_db w) = Inr (x, d)"
  then have d: "d = (w_db w)\<lparr>submissions := update_where P clear_pointers (submissions (w_db w))\<rparr>"
    by (simp add: update_submissions_def)
  have "\<exists>s \<in> set (submissions (w_db w)). row_cleared s s'"
    if s': "s' \<in> set (update_where P clear_pointers (submissions (w_db w)))" for s'
    using s' by (auto simp: set_update_where row_cleared_def)
  with d show "files_dropped w (w\<lparr>w_db := d\<rparr>)"
    by (auto simp: files_dropped_def tidied_def)
qed

interpretation dropped: reclaim_frame files_dropped
  by unfold_locales
    (simp_all add: stmt_clear_submission_def stmt_clear_drop_point_def dropped_clear files_dropped_fs
      shrink_deletes)

lemma tidied_dropped: "keeps files_dropped m \<Longrightarrow> keeps tidied m"
  by (simp add: keeps_def files_dropped_def)

interpretation tidy: pass_frame tidied
  by unfold_locales
    (simp_all add: tidied_dropped dropped.R_clear dropped.R_clear_all dropped.R_DeleteSubmission
      dropped.R_DeleteDropPoint tidied_delete tidied_expired tidied_purge)

end
