(* ===== verification/Cleanup_Success.thy ===== *)
theory Cleanup_Success
  imports Cleanup_Frames
begin

text \<open>
  What cleanup has achieved when it reports success, under any faults: the goal of each loop and
  phase, and that every later step of the pass keeps it.
\<close>

section \<open>Goals\<close>

definition gone :: "path \<Rightarrow> world \<Rightarrow> bool" where
  "gone p w \<longleftrightarrow> (\<forall>q. below p q \<longrightarrow> fs_get (w_fs w) q = None)"

definition submission_reclaimed :: "go_string \<times> go_string \<Rightarrow> world \<Rightarrow> bool" where
  "submission_reclaimed k w \<longleftrightarrow>
     gone (submissionDir (fst k) (snd k)) w
     \<and> (\<forall>s \<in> set (submissions (w_db w)). sr_key s = k \<longrightarrow> \<not> has_pointers s)"

definition drop_point_reclaimed :: "go_string \<Rightarrow> world \<Rightarrow> bool" where
  "drop_point_reclaimed i w \<longleftrightarrow>
     gone (dropDir i) w
     \<and> (\<forall>s \<in> set (submissions (w_db w)). sr_drop_point_id s = i \<longrightarrow> \<not> has_pointers s)"

definition not_receiving :: "(time \<Rightarrow> bool) \<Rightarrow> world \<Rightarrow> bool" where
  "not_receiving T w \<longleftrightarrow>
     (\<forall>s \<in> set (submissions (w_db w)).
        sr_status s = SubmissionStatusReceiving \<longrightarrow> \<not> T (sr_receiving_started_at s))"

definition none_elapsed :: "time \<Rightarrow> world \<Rightarrow> bool" where
  "none_elapsed now w \<longleftrightarrow>
     (\<forall>r \<in> set (drop_points (w_db w)). dpr_status r = StatusOpen \<longrightarrow> now < dpr_expires_at r)"

lemma cleared_simps:
  assumes "row_cleared s s'"
  shows "sr_key s' = sr_key s" "sr_drop_point_id s' = sr_drop_point_id s"
    "sr_status s' = sr_status s" "sr_receiving_started_at s' = sr_receiving_started_at s"
    "has_pointers s' \<Longrightarrow> has_pointers s"
  using assms by (auto simp: row_cleared_def clear_pointers_def sr_key_def has_pointers_def)

lemma tidied_subE:
  assumes "tidied w w'" "s' \<in> set (submissions (w_db w'))"
  obtains s where "s \<in> set (submissions (w_db w))" "row_cleared s s'"
  using assms unfolding tidied_def by blast

lemma tidied_dpE:
  assumes "tidied w w'" "r' \<in> set (drop_points (w_db w'))"
  obtains r where "r \<in> set (drop_points (w_db w))" "row_expired r r'"
  using assms unfolding tidied_def by blast

text \<open>The rest of the pass keeps every goal.\<close>

lemma gone_tidied: "tidied w w' \<Longrightarrow> gone p w \<Longrightarrow> gone p w'"
  unfolding tidied_def fs_shrinks_def gone_def by metis

lemma submission_reclaimed_tidied:
  assumes "tidied w w'" "submission_reclaimed k w"
  shows "submission_reclaimed k w'"
  unfolding submission_reclaimed_def
proof (intro conjI ballI impI)
  show "gone (submissionDir (fst k) (snd k)) w'"
    using assms gone_tidied unfolding submission_reclaimed_def by blast
  fix s' assume "s' \<in> set (submissions (w_db w'))" "sr_key s' = k"
  with assms(2) show "\<not> has_pointers s'"
    using tidied_subE [OF assms(1)] cleared_simps(1,5) unfolding submission_reclaimed_def by metis
qed

lemma drop_point_reclaimed_tidied:
  assumes "tidied w w'" "drop_point_reclaimed i w"
  shows "drop_point_reclaimed i w'"
  unfolding drop_point_reclaimed_def
proof (intro conjI ballI impI)
  show "gone (dropDir i) w'" using assms gone_tidied unfolding drop_point_reclaimed_def by blast
  fix s' assume "s' \<in> set (submissions (w_db w'))" "sr_drop_point_id s' = i"
  with assms(2) show "\<not> has_pointers s'"
    using tidied_subE [OF assms(1)] cleared_simps(2,5) unfolding drop_point_reclaimed_def by metis
qed

lemma not_receiving_tidied: "tidied w w' \<Longrightarrow> not_receiving T w \<Longrightarrow> not_receiving T w'"
  unfolding not_receiving_def by (metis cleared_simps(3,4) tidied_subE)

lemma none_elapsed_tidied:
  assumes "tidied w w'" "none_elapsed now w"
  shows "none_elapsed now w'"
  unfolding none_elapsed_def
proof (intro ballI impI)
  fix r' assume r': "r' \<in> set (drop_points (w_db w'))" "dpr_status r' = StatusOpen"
  from tidied_dpE [OF assms(1) r'(1)]
  obtain r where r: "r \<in> set (drop_points (w_db w))" "row_expired r r'" .
  with r' have "r' = r" by (auto simp: row_expired_def set_expired_def)
  with r r' assms(2) show "now < dpr_expires_at r'" by (simp add: none_elapsed_def)
qed

lemmas kept_goals = gone_tidied submission_reclaimed_tidied drop_point_reclaimed_tidied
  not_receiving_tidied none_elapsed_tidied

section \<open>Steps\<close>

lemma bind_runE:
  assumes "run_state (State_Monad.bind m f) w = (y, w')"
  obtains x w1 where "run_state m w = (x, w1)" "run_state (f x) w1 = (y, w')"
  using assms by (auto split: prod.splits)

lemma and_then_None:
  assumes "run_state (and_then m f stop) w = ((y, None), w')"
  obtains x w1 where "run_state m w = ((x, None), w1)" "run_state (f x) w1 = ((y, None), w')"
  using assms by (auto simp: and_then_def split: prod.splits option.splits)

lemma scan_all_complete:
  "scan_all scan rs = Inr xs \<Longrightarrow> r \<in> set rs \<Longrightarrow> \<exists>x \<in> set xs. scan r = Inr x"
  by (induction rs arbitrary: xs) (auto split: sum.splits)

lemma query_submissions_complete:
  assumes "query_submissions P k d = Inr xs" "s \<in> set (submissions d)" "P s"
  shows "submission_of_row s \<in> set xs"
proof -
  have "s \<in> set (sort_key k (filter P (submissions d)))" using assms by simp
  from scan_all_complete [OF assms(1) [unfolded query_submissions_def] this]
  show ?thesis by (auto dest: scanSubmission_Inr)
qed

lemma scan_drop_points_complete:
  assumes "scan_all scanDropPoint (sort_key k (filter P rows)) = Inr xs" "r \<in> set rows" "P r"
  shows "drop_point_of_row r \<in> set xs"
proof -
  have "r \<in> set (sort_key k (filter P rows))" using assms by simp
  from scan_all_complete [OF assms(1) this] show ?thesis by (auto dest: scanDropPoint_Inr)
qed

lemma row_view [simp]:
  "sub_DropPointID (submission_of_row s) = sr_drop_point_id s" "sub_ID (submission_of_row s) = sr_id s"
  "dp_ID (drop_point_of_row r) = dpr_id r"
  by (simp_all add: submission_of_row_def drop_point_of_row_def)

lemma RemoveAll_gone:
  assumes "run_state (os_RemoveAll p) w = (Inr (), w')" "p \<noteq> []"
  shows "gone p w'"
  using RemoveAll_Inr [OF assms(1)] below_nonempty [OF _ assms(2)] by (auto simp: gone_def)

lemma DeleteSubmission_gone:
  assumes "run_state (DeleteSubmission i j) w = (Inr (), w')"
  shows "gone (submissionDir i j) w'"
proof -
  obtain w1 w2 w3 s where r:
    "run_state (os_RemoveAll (submissionDir i j)) w1 = (Inr (), w2)"
    "run_state (fs_exec (os_SyncDir (dropDir i))) w2 = (s, w3)"
    "run_state may_fail w3 = (Inr (), w')"
    using assms by (auto simp: DeleteSubmission_def split: sum.splits prod.splits option.splits if_splits)
  have "w_fs w' = w_fs w2"
    using fs_exec_run [OF r(2)] may_fail_fs [OF r(3)] by (auto simp: os_SyncDir_def)
  moreover have "gone (submissionDir i j) w2" by (rule RemoveAll_gone [OF r(1)]) (simp add: submissionDir_def)
  ultimately show ?thesis by (simp add: gone_def)
qed

lemma DeleteDropPoint_gone:
  assumes "run_state (DeleteDropPoint i) w = (Inr (), w')"
  shows "gone (dropDir i) w'"
proof -
  obtain w1 w2 w3 s where r:
    "run_state (os_RemoveAll (dropDir i)) w1 = (Inr (), w2)"
    "run_state (fs_exec (os_SyncDir [DropPointsDirName])) w2 = (s, w3)"
    "run_state may_fail w3 = (Inr (), w')"
    using assms by (auto simp: DeleteDropPoint_def split: sum.splits prod.splits option.splits if_splits)
  have "w_fs w' = w_fs w2"
    using fs_exec_run [OF r(2)] may_fail_fs [OF r(3)] by (auto simp: os_SyncDir_def)
  moreover have "gone (dropDir i) w2" by (rule RemoveAll_gone [OF r(1)]) (simp add: dropDir_def)
  ultimately show ?thesis by (simp add: gone_def)
qed

lemma exec_tables:
  "run_state (sql_exec (update_submissions P f)) w = (Inr n, w') \<Longrightarrow>
     w_db w' = (w_db w)\<lparr>submissions := update_where P f (submissions (w_db w))\<rparr>"
  "run_state (sql_exec (update_drop_points Q g)) w = (Inr n, w') \<Longrightarrow>
     w_db w' = (w_db w)\<lparr>drop_points := update_where Q g (drop_points (w_db w))\<rparr>"
  "run_state (sql_exec (stmt_delete_receiving i j)) w = (Inr n, w') \<Longrightarrow>
     w_db w' = (w_db w)\<lparr>submissions := delete_where
       (\<lambda>r. sr_key r = (i, j) \<and> sr_status r = SubmissionStatusReceiving) (submissions (w_db w))\<rparr>"
  by (drule sql_exec_Inr, simp add: update_submissions_def update_drop_points_def
      stmt_delete_receiving_def Let_def)+

lemma clear_done:
  assumes "run_state (sql_exec (update_submissions P clear_pointers)) w = (Inr n, w')"
    and "\<And>s. P (clear_pointers s) = P s"
    and "s \<in> set (submissions (w_db w'))" "P s"
  shows "\<not> has_pointers s"
proof -
  have "submissions (w_db w') = update_where P clear_pointers (submissions (w_db w))"
    by (simp add: exec_tables(1) [OF assms(1)])
  with assms(3) obtain s0 where "s = (if P s0 then clear_pointers s0 else s0)"
    by (auto simp: set_update_where)
  with assms(2,4) show ?thesis by (auto simp: has_pointers_def clear_pointers_def split: if_splits)
qed

section \<open>Loops\<close>

lemma recover_done:
  assumes "run_state (recoverReceiving ss n) w = ((m, None), w')" "x \<in> set ss"
  shows "gone (submissionDir (sub_DropPointID x) (sub_ID x)) w'
    \<and> (\<forall>s \<in> set (submissions (w_db w')).
        sr_key s = (sub_DropPointID x, sub_ID x) \<longrightarrow> sr_status s \<noteq> SubmissionStatusReceiving)"
  using assms
proof (induction ss arbitrary: n w)
  case (Cons y ss)
  obtain w1 w2 u v where run:
    "run_state (DeleteSubmission (sub_DropPointID y) (sub_ID y)) w = (Inr u, w1)"
    "run_state (repo_DeleteReceivingSubmission (sub_DropPointID y) (sub_ID y)) w1 = (Inr v, w2)"
    "run_state (recoverReceiving ss (n + 1)) w2 = ((m, None), w')"
    using Cons.prems(1) by (auto split: sum.splits prod.splits)
  show ?case
  proof (cases "x \<in> set ss")
    case False
    with Cons.prems(2) have x: "x = y" by simp
    let ?k = "(sub_DropPointID x, sub_ID x)"
    have "gone (submissionDir (sub_DropPointID x) (sub_ID x)) w1"
      using DeleteSubmission_gone run(1) x by simp
    then have g: "gone (submissionDir (sub_DropPointID x) (sub_ID x)) w'"
      using keepsD [OF tidy.keeps_pass_calls(1) run(2)] keepsD [OF tidy.keeps_recover run(3)]
        gone_tidied by blast
    obtain k where "run_state (sql_exec (stmt_delete_receiving (sub_DropPointID x) (sub_ID x))) w1 = (Inr k, w2)"
      using run(2) x by (auto simp: repo_DeleteReceivingSubmission_def split: sum.splits prod.splits)
    then have d: "w_db w2 = (w_db w1)\<lparr>submissions := delete_where
       (\<lambda>r. sr_key r = ?k \<and> sr_status r = SubmissionStatusReceiving) (submissions (w_db w1))\<rparr>"
      by (rule exec_tables(3))
    have "\<forall>s \<in> set (submissions (w_db w2)). sr_key s = ?k \<longrightarrow> sr_status s \<noteq> SubmissionStatusReceiving"
      by (simp add: d table_simps)
    then have "\<forall>s \<in> set (submissions (w_db w')). sr_key s = ?k \<longrightarrow> sr_status s \<noteq> SubmissionStatusReceiving"
      using tidied_subE [OF keepsD [OF tidy.keeps_recover run(3)]] cleared_simps(1,3) by metis
    with g show ?thesis by blast
  qed (rule Cons.IH [OF run(3)])
qed simp

lemma children_done:
  assumes "run_state (delete_children ss res) w = ((res', None), w')" "x \<in> set ss"
  shows "submission_reclaimed (sub_DropPointID x, sub_ID x) w'"
  using assms
proof (induction ss arbitrary: res w)
  case (Cons y ss)
  obtain w1 w2 u v res2 where run:
    "run_state (DeleteSubmission (sub_DropPointID y) (sub_ID y)) w = (Inr u, w1)"
    "run_state (repo_ClearSubmissionFiles (sub_DropPointID y) (sub_ID y)) w1 = (Inr v, w2)"
    "run_state (delete_children ss res2) w2 = ((res', None), w')"
    using Cons.prems(1) by (auto split: sum.splits prod.splits)
  show ?case
  proof (cases "x \<in> set ss")
    case False
    with Cons.prems(2) have x: "x = y" by simp
    have "gone (submissionDir (sub_DropPointID x) (sub_ID x)) w2"
      using gone_tidied [OF keepsD [OF tidy.keeps_clear_calls(1) run(2)]] DeleteSubmission_gone run(1)
      by (simp add: x)
    moreover obtain k where
      "run_state (sql_exec (stmt_clear_submission (sub_DropPointID x) (sub_ID x))) w1 = (Inr k, w2)"
      using run(2) x by (auto simp: repo_ClearSubmissionFiles_def split: sum.splits prod.splits)
    ultimately have "submission_reclaimed (sub_DropPointID x, sub_ID x) w2"
      using clear_done unfolding submission_reclaimed_def stmt_clear_submission_def
      by (auto simp: clear_pointers_def sr_key_def)
    then show ?thesis
      using submission_reclaimed_tidied keepsD [OF tidy.keeps_children run(3)] by blast
  qed (rule Cons.IH [OF run(3)])
qed simp

lemma terminal_done:
  assumes "run_state (delete_terminal dps res) w = ((res', None), w')" "x \<in> set dps"
  shows "drop_point_reclaimed (dp_ID x) w'"
  using assms
proof (induction dps arbitrary: res w)
  case (Cons y dps)
  obtain w0 w1 w2 u v f res2 where run:
    "run_state (repo_SubmissionFilesForDropPoint (dp_ID y)) w = (Inr f, w0)"
    "run_state (DeleteDropPoint (dp_ID y)) w0 = (Inr u, w1)"
    "run_state (repo_ClearDropPointFiles (dp_ID y)) w1 = (Inr v, w2)"
    "run_state (delete_terminal dps res2) w2 = ((res', None), w')"
    using Cons.prems(1) by (auto split: sum.splits prod.splits)
  show ?case
  proof (cases "x \<in> set dps")
    case False
    with Cons.prems(2) have x: "x = y" by simp
    have "gone (dropDir (dp_ID x)) w2"
      using gone_tidied [OF keepsD [OF tidy.keeps_clear_calls(2) run(3)]] DeleteDropPoint_gone run(2)
      by (simp add: x)
    moreover obtain k where
      "run_state (sql_exec (stmt_clear_drop_point (dp_ID x))) w1 = (Inr k, w2)"
      using run(3) x by (auto simp: repo_ClearDropPointFiles_def split: sum.splits prod.splits)
    ultimately have "drop_point_reclaimed (dp_ID x) w2"
      using clear_done unfolding drop_point_reclaimed_def stmt_clear_drop_point_def
      by (auto simp: clear_pointers_def)
    then show ?thesis
      using drop_point_reclaimed_tidied keepsD [OF tidy.keeps_terminal run(4)] by blast
  qed (rule Cons.IH [OF run(4)])
qed simp

lemma orphans_done:
  assumes "run_state (delete_orphans rowIDs ids res) w = ((res', None), w')"
    and "x \<in> set ids" "x \<notin> set rowIDs"
  shows "gone (dropDir x) w'"
  using assms
proof (induction ids arbitrary: res w)
  case (Cons y ids)
  show ?case
  proof (cases "y \<in> set rowIDs")
    case True
    with Cons.prems show ?thesis by (intro Cons.IH) auto
  next
    case False
    then obtain w1 u res2 where run: "run_state (DeleteDropPoint y) w = (Inr u, w1)"
      "run_state (delete_orphans rowIDs ids res2) w1 = ((res', None), w')"
      using Cons.prems(1) by (auto split: sum.splits prod.splits)
    show ?thesis
    proof (cases "x \<in> set ids")
      case True
      show ?thesis by (rule Cons.IH [OF run(2) True Cons.prems(3)])
    next
      case False
      with Cons.prems(2) have "gone (dropDir x) w1" using DeleteDropPoint_gone run(1) by auto
      then show ?thesis using gone_tidied keepsD [OF tidy.keeps_orphans run(2)] by blast
    qed
  qed
qed simp

lemma mark_all_done:
  assumes "run_state (mark_all_expired dps) w = (Inr u, w')" "x \<in> set dps"
  shows "\<forall>r \<in> set (drop_points (w_db w')). dpr_id r = dp_ID x \<longrightarrow> dpr_status r \<noteq> StatusOpen"
  using assms
proof (induction dps arbitrary: w)
  case (Cons y dps)
  obtain w1 v where run: "run_state (repo_markExpired (dp_ID y)) w = (Inr v, w1)"
    "run_state (mark_all_expired dps) w1 = (Inr u, w')"
    using Cons.prems(1) by (auto split: sum.splits prod.splits)
  show ?case
  proof (cases "x \<in> set dps")
    case False
    with Cons.prems(2) have x: "x = y" by simp
    obtain k where "run_state (sql_exec (stmt_mark_expired (dp_ID x))) w = (Inr k, w1)"
      using run(1) x by (auto simp: repo_markExpired_def split: sum.splits prod.splits)
    then have d: "w_db w1 = (w_db w)\<lparr>drop_points :=
        update_where (\<lambda>r. dpr_id r = dp_ID x \<and> dpr_status r = StatusOpen) set_expired (drop_points (w_db w))\<rparr>"
      unfolding stmt_mark_expired_def by (rule exec_tables(2))
    have "\<forall>r \<in> set (drop_points (w_db w1)). dpr_id r = dp_ID x \<longrightarrow> dpr_status r \<noteq> StatusOpen"
      by (auto simp: d set_update_where) (auto simp: set_expired_def split: if_splits)
    then have open1: "dpr_status r = StatusOpen \<Longrightarrow> dpr_id r \<noteq> dp_ID x" if "r \<in> set (drop_points (w_db w1))" for r
      using that by blast
    show ?thesis
    proof (intro ballI impI notI)
      fix r' assume r': "r' \<in> set (drop_points (w_db w'))" "dpr_id r' = dp_ID x" "dpr_status r' = StatusOpen"
      from tidied_dpE [OF keepsD [OF tidy.keeps_marks run(2)] r'(1)]
      obtain r where r: "r \<in> set (drop_points (w_db w1))" "row_expired r r'" .
      with r' have "r = r'" by (auto simp: row_expired_def set_expired_def)
      with open1 r r' show False by blast
    qed
  qed (rule Cons.IH [OF run(2)])
qed simp

section \<open>Phases\<close>

text \<open>What a successful query has seen.\<close>

lemma query_bind_None:
  assumes "run_state (State_Monad.bind (sql_query q) (\<lambda>x. case x of
      Inl e \<Rightarrow> State_Monad.return (k, Some e) | Inr v \<Rightarrow> f v)) w = ((y, None), w')"
  shows "\<exists>v w1. q (w_db w) = Inr v \<and> w_db w1 = w_db w \<and> run_state (f v) w1 = ((y, None), w')"
proof -
  obtain x w1 where run: "run_state (sql_query q) w = (x, w1)"
    "run_state (case x of Inl e \<Rightarrow> State_Monad.return (k, Some e) | Inr v \<Rightarrow> f v) w1 = ((y, None), w')"
    by (rule bind_runE [OF assms])
  show ?thesis
  proof (cases x)
    case (Inr v)
    with run sql_query_Inr [of q w v w1] show ?thesis by auto
  qed (use run in simp)
qed

lemma query_bind_Inr:
  assumes "run_state (State_Monad.bind (sql_query q) (\<lambda>x. case x of
      Inl e \<Rightarrow> State_Monad.return (Inl e) | Inr v \<Rightarrow> f v)) w = (Inr y, w')"
  shows "\<exists>v w1. q (w_db w) = Inr v \<and> w_db w1 = w_db w \<and> run_state (f v) w1 = (Inr y, w')"
proof -
  obtain x w1 where run: "run_state (sql_query q) w = (x, w1)"
    "run_state (case x of Inl e \<Rightarrow> State_Monad.return (Inl e) | Inr v \<Rightarrow> f v) w1 = (Inr y, w')"
    by (rule bind_runE [OF assms])
  show ?thesis
  proof (cases x)
    case (Inr v)
    with run sql_query_Inr [of q w v w1] show ?thesis by auto
  qed (use run in simp)
qed

definition phase_submissions :: "(submission_row \<Rightarrow> bool) \<Rightarrow> world \<Rightarrow> bool" where
  "phase_submissions P w \<longleftrightarrow>
     (\<forall>s \<in> set (submissions (w_db w)). P s \<longrightarrow> submission_reclaimed (sr_key s) w)"

lemma phase_submissions_tidied:
  assumes "tidied w w'" "phase_submissions (\<lambda>s. sr_status s \<in> S) w"
  shows "phase_submissions (\<lambda>s. sr_status s \<in> S) w'"
  unfolding phase_submissions_def
proof (intro ballI impI)
  fix s' assume s': "s' \<in> set (submissions (w_db w'))" "sr_status s' \<in> S"
  from tidied_subE [OF assms(1) s'(1)] obtain s where s: "s \<in> set (submissions (w_db w))" "row_cleared s s'" .
  with s' assms(2) have "submission_reclaimed (sr_key s) w"
    unfolding phase_submissions_def cleared_simps(3) [OF s(2)] by blast
  with submission_reclaimed_tidied [OF assms(1)] show "submission_reclaimed (sr_key s') w'"
    unfolding cleared_simps(1) [OF s(2)] by blast
qed

lemma stale_done:
  assumes "run_state (stale_phase v now) w = ((res, None), w')" "ReceivingStaleAfter v > 0"
  shows "not_receiving (\<lambda>t. t \<le> now - ReceivingStaleAfter v) w'"
proof -
  let ?P = "\<lambda>r. sr_status r = SubmissionStatusReceiving \<and> sr_receiving_started_at r \<le> now - ReceivingStaleAfter v"
  obtain xs w1 where q: "query_submissions ?P sr_key (w_db w) = Inr xs" and w1: "w_db w1 = w_db w"
    and run: "run_state (do {
            (recovered, e) \<leftarrow> recoverReceiving xs 0;
            State_Monad.return (no_result\<lparr>RecoveredReceiving := recovered\<rparr>, e)
          }) w1 = ((res, None), w')"
    using query_bind_None [OF assms(1) [unfolded stale_phase_def if_P [OF assms(2)]
        repo_ReceivingSubmissionsStartedBefore_def]] by blast
  obtain n where r: "run_state (recoverReceiving xs 0) w1 = ((n, None), w')"
    using run by (auto split: prod.splits)
  show ?thesis
    unfolding not_receiving_def
  proof (intro ballI impI notI)
    fix s' assume s': "s' \<in> set (submissions (w_db w'))" "sr_status s' = SubmissionStatusReceiving"
      "sr_receiving_started_at s' \<le> now - ReceivingStaleAfter v"
    from tidied_subE [OF keepsD [OF tidy.keeps_recover r] s'(1)]
    obtain s where s: "s \<in> set (submissions (w_db w1))" "row_cleared s s'" .
    with s' have "submission_of_row s \<in> set xs"
      by (intro query_submissions_complete [OF q]) (simp_all add: cleared_simps [OF s(2)] w1)
    from recover_done [OF r this] s' cleared_simps(1) [OF s(2)] show False by (simp add: sr_key_def)
  qed
qed

lemma reconcile_done:
  assumes "run_state (recoverReceiving xs 0) w = ((n, None), w')"
    and "query_submissions (\<lambda>r. sr_status r = SubmissionStatusReceiving) sr_key (w_db w) = Inr xs"
  shows "not_receiving (\<lambda>_. True) w'"
  unfolding not_receiving_def
proof (intro ballI impI notI)
  fix s' assume s': "s' \<in> set (submissions (w_db w'))" "sr_status s' = SubmissionStatusReceiving"
  from tidied_subE [OF keepsD [OF tidy.keeps_recover assms(1)] s'(1)]
  obtain s where s: "s \<in> set (submissions (w_db w))" "row_cleared s s'" .
  with s' have "submission_of_row s \<in> set xs"
    by (intro query_submissions_complete [OF assms(2)]) (simp_all add: cleared_simps [OF s(2)])
  from recover_done [OF assms(1) this] s' cleared_simps(1) [OF s(2)] show False by (simp add: sr_key_def)
qed

lemma expire_done:
  assumes "run_state (expire_phase now res) w = ((res', None), w')"
  shows "none_elapsed now w'"
proof -
  obtain xs where e: "run_state (repo_ExpireDropPoints now) w = (Inr xs, w')"
    using assms by (auto simp: expire_phase_def split: prod.splits sum.splits)
  obtain ys w1 where q: "query_expired now (w_db w) = Inr ys" and w1: "w_db w1 = w_db w"
    and run: "run_state (do {
         m \<leftarrow> mark_all_expired ys;
         State_Monad.return (case m of Inl err \<Rightarrow> Inl err | Inr _ \<Rightarrow> Inr ys)
       }) w1 = (Inr xs, w')"
    using query_bind_Inr [OF e [unfolded repo_ExpireDropPoints_def]] by blast
  obtain u where r: "run_state (mark_all_expired ys) w1 = (Inr u, w')"
    using run by (auto split: prod.splits sum.splits)
  show ?thesis
    unfolding none_elapsed_def
  proof (intro ballI impI, rule ccontr)
    fix r' assume r': "r' \<in> set (drop_points (w_db w'))" "dpr_status r' = StatusOpen" "\<not> now < dpr_expires_at r'"
    from tidied_dpE [OF keepsD [OF tidy.keeps_marks r] r'(1)]
    obtain r where r0: "r \<in> set (drop_points (w_db w1))" "row_expired r r'" .
    with r' have "r = r'" by (auto simp: row_expired_def set_expired_def)
    with r' r0 have "drop_point_of_row r' \<in> set ys"
      by (intro scan_drop_points_complete [OF q [unfolded query_expired_def]]) (simp_all add: w1)
    with mark_all_done [OF r] r' show False by force
  qed
qed

lemma children_phase_done:
  assumes "run_state (children_phase res) w = ((res', None), w')"
  shows "phase_submissions (\<lambda>s. sr_status s \<in> {SubmissionStatusAcknowledged, SubmissionStatusFailed}) w'"
proof -
  obtain xs w1 where q: "query_submissions (\<lambda>r. sr_status r \<in> {SubmissionStatusAcknowledged, SubmissionStatusFailed})
      sr_key (w_db w) = Inr xs" and w1: "w_db w1 = w_db w"
    and run: "run_state (delete_children xs res) w1 = ((res', None), w')"
    using query_bind_None [OF assms [unfolded children_phase_def repo_CleanupSubmissions_def]] by blast
  show ?thesis
    unfolding phase_submissions_def
  proof (intro ballI impI)
    fix s' assume s': "s' \<in> set (submissions (w_db w'))"
      "sr_status s' \<in> {SubmissionStatusAcknowledged, SubmissionStatusFailed}"
    from tidied_subE [OF keepsD [OF tidy.keeps_children run] s'(1)]
    obtain s where s: "s \<in> set (submissions (w_db w1))" "row_cleared s s'" .
    have "submission_of_row s \<in> set xs"
      by (rule query_submissions_complete [OF q]) (use s s' w1 in \<open>simp_all add: cleared_simps(3) [OF s(2)]\<close>)
    from children_done [OF run this] show "submission_reclaimed (sr_key s') w'"
      using cleared_simps(1) [OF s(2)] by (simp add: sr_key_def)
  qed
qed

lemma terminal_phase_done:
  assumes "run_state (terminal_phase res) w = ((res', None), w')"
  shows "\<forall>r \<in> set (drop_points (w_db w')). is_terminal (dpr_status r) \<longrightarrow> drop_point_reclaimed (dpr_id r) w'"
proof (intro ballI impI)
  fix r assume r: "r \<in> set (drop_points (w_db w'))" "is_terminal (dpr_status r)"
  obtain xs w1 where q: "query_terminal (w_db w) = Inr xs" and w1: "w_db w1 = w_db w"
    and run: "run_state (delete_terminal xs res) w1 = ((res', None), w')"
    using query_bind_None [OF assms [unfolded terminal_phase_def repo_TerminalDropPoints_def]] by blast
  have "drop_points (w_db w') = drop_points (w_db w)"
    using keepsD [OF dropped.keeps_terminal run] by (simp add: files_dropped_def w1)
  with r have "drop_point_of_row r \<in> set xs"
    by (intro scan_drop_points_complete [OF q [unfolded query_terminal_def]]) simp_all
  from terminal_done [OF run this] show "drop_point_reclaimed (dpr_id r) w'" by simp
qed

lemma collect_ids_Inr:
  assumes "run_state (collect_ids es) w = (Inr ids, w')" "(n, True) \<in> set es" "validateDropPointID n = None"
  shows "n \<in> set ids"
  using assms
  by (induction es arbitrary: w ids rule: collect_ids.induct) (auto split: prod.splits sum.splits)

lemma listing_done:
  assumes "run_state blob_DropPointIDs w = (Inr ids, w')"
    and "fs_get (w_fs w) [DropPointsDirName] \<noteq> None" "fs_get (w_fs w) (dropDir n) = Some Dir"
    and "validateDropPointID n = None"
  shows "n \<in> set ids"
proof -
  obtain w1 u where m: "run_state may_fail w = (Inr u, w1)"
    and run: "run_state (do {
        r \<leftarrow> fs_read (os_ReadDir [DropPointsDirName]);
        case r of
          Inl err \<Rightarrow> State_Monad.return (if errors_is err ErrNotExist then Inr [] else Inl err)
        | Inr entries \<Rightarrow> collect_ids entries
      }) w1 = (Inr ids, w')"
    using assms(1) by (auto simp: blob_DropPointIDs_def split: prod.splits sum.splits)
  have fs: "w_fs w1 = w_fs w" by (rule may_fail_fs [OF m])
  obtain x w2 where x: "run_state (fs_read (os_ReadDir [DropPointsDirName])) w1 = (x, w2)"
    by (cases "run_state (fs_read (os_ReadDir [DropPointsDirName])) w1")
  show ?thesis
  proof (cases x)
    case (Inl err)
    have "\<exists>c. err = ErrIO c"
      using x Inl assms(2) fs
      by (auto simp: fs_read_def effect_def os_ReadDir_def split: list.splits fault.splits option.splits node.splits)
    then have "\<not> errors_is err ErrNotExist" by (auto simp: errors_is.simps)
    with x Inl run show ?thesis by simp
  next
    case (Inr entries)
    with x have "os_ReadDir [DropPointsDirName] (w_fs w) = Inr entries"
      using fs by (auto dest: fs_read_Inr)
    moreover have "(dropDir n, Dir) \<in> set (w_fs w)"
      using assms(3) by (auto simp: fs_get_def dropDir_def dest: map_of_SomeD)
    ultimately have "(n, True) \<in> set entries"
      by (force simp: os_ReadDir_def dropDir_def image_iff split: option.splits node.splits)
    with x Inr run assms(4) show ?thesis by (auto intro: collect_ids_Inr)
  qed
qed

end
