(* ===== verification/Cleanup_Properties.thy ===== *)
theory Cleanup_Properties
  imports Cleanup_Success
begin

text \<open>
  The properties of the cleanup service: what a pass never touches, what a successful pass has
  reclaimed, the recovery at startup, and the race of the orphan phase with a concurrent creation.
\<close>

lemma Expire_unfold:
  assumes "run_state (service_Expire v) w = (x, w')"
  obtains w1 where "run_state now_io w = (fst (run_state now_io w), w1)" "w_db w1 = w_db w" "w_fs w1 = w_fs w"
    "run_state (and_then (stale_phase v (fst (run_state now_io w))) (\<lambda>res.
       and_then (expire_phase (fst (run_state now_io w)) res) (\<lambda>res.
       and_then (children_phase res) (\<lambda>res.
       and_then (terminal_phase res) (\<lambda>res.
       and_then (orphan_phase (State_Monad.return ()) res) (\<lambda>res.
       purge_phase v (fst (run_state now_io w)) res) id) id) id) id) id) w1 = (x, w')"
proof -
  obtain n w1 where n: "run_state now_io w = (n, w1)" by (cases "run_state now_io w")
  then have "w_db w1 = w_db w \<and> w_fs w1 = w_fs w" by (auto simp: now_io_def split: list.splits)
  with n assms that show ?thesis by (simp add: service_Expire_def Expire_between_def)
qed

text \<open>C8. Cleanup never touches a live submission: whatever faults occur and wherever a pass stops, a
  ready submission of a drop point that is open and not expired at the pass's time keeps its row,
  its drop point keeps its row, every file below its directory is exactly what it was, and the
  database invariant still holds.\<close>

theorem cleanup_spares_live:
  assumes "live (fst (run_state now_io w)) r s F w" and "run_state (service_Expire v) w = (res, w')"
  shows "live (fst (run_state now_io w)) r s F w'"
proof -
  obtain w1 where w1: "w_db w1 = w_db w" "w_fs w1 = w_fs w" and run:
    "run_state (and_then (stale_phase v (fst (run_state now_io w))) (\<lambda>res.
       and_then (expire_phase (fst (run_state now_io w)) res) (\<lambda>res.
       and_then (children_phase res) (\<lambda>res.
       and_then (terminal_phase res) (\<lambda>res.
       and_then (orphan_phase (State_Monad.return ()) res) (\<lambda>res.
       purge_phase v (fst (run_state now_io w)) res) id) id) id) id) id) w1 = (res, w')"
    using Expire_unfold [OF assms(2)] by blast
  have "holds (live (fst (run_state now_io w)) r s F)
    (and_then (stale_phase v (fst (run_state now_io w))) (\<lambda>res.
       and_then (expire_phase (fst (run_state now_io w)) res) (\<lambda>res.
       and_then (children_phase res) (\<lambda>res.
       and_then (terminal_phase res) (\<lambda>res.
       and_then (orphan_phase (State_Monad.return ()) res) (\<lambda>res.
       purge_phase v (fst (run_state now_io w)) res) id) id) id) id) id)"
    by (intro live_guard.Q_and_then live_guard.Q_stale live_expire live_guard.Q_children_phase
        live_guard.Q_terminal_phase live_guard.Q_orphan_phase live_guard.Q_purge_phase)
  from tripleD [OF this live_env [OF assms(1) w1] run] show ?thesis .
qed

text \<open>Cleanup only removes: under any faults, every submission row after a pass (at startup or
  later) is a row from before, at most with its two paths cleared; every drop point row is one from
  before, at most expired; the API tokens are untouched; and every path of the tree holds what it
  held or nothing.\<close>

theorem cleanup_only_removes:
  "tidied w (snd (run_state (service_Expire v) w)) \<and> tidied w (snd (run_state (ReconcileStartup v) w))"
  using tidy.keeps_Expire tidy.keeps_Reconcile by (simp add: keeps_def)

lemma purge_done:
  assumes "run_state (purge_phase v now res) w = ((res', None), w')"
  shows "w_fs w' = w_fs w
    \<and> (\<forall>r \<in> set (drop_points (w_db w)). is_terminal (dpr_status r) \<or> r \<in> set (drop_points (w_db w')))
    \<and> set (drop_points (w_db w')) \<subseteq> set (drop_points (w_db w))
    \<and> (TerminalRetention v > 0 \<longrightarrow>
        (\<forall>r \<in> set (drop_points (w_db w')). \<not> purgeable (w_db w') (now - TerminalRetention v) r))"
proof (cases "TerminalRetention v > 0")
  case True
  let ?t = "now - TerminalRetention v"
  have "\<exists>n. run_state (repo_PurgeTerminalDropPoints ?t) w = (Inr n, w')"
    using assms True by (auto simp: purge_phase_def split: prod.splits sum.splits)
  then obtain n m w1 where p: "run_state (sql_exec (stmt_purge ?t)) w = (Inr n, w1)"
    and ra: "run_state (rows_affected n) w1 = (Inr m, w')"
    by (auto simp: repo_PurgeTerminalDropPoints_def split: prod.splits sum.splits)
  have same: "w_db w' = w_db w1" "w_fs w' = w_fs w1" using rows_affected_run [OF ra] by simp_all
  have fs: "w_fs w1 = w_fs w" and st: "stmt_purge ?t (w_db w) = Inr (n, w_db w1)"
    using sql_exec_Inr [OF p] by simp_all
  let ?kept = "delete_where (purgeable (w_db w) ?t) (drop_points (w_db w))"
  have db1: "w_db w1 = (w_db w)\<lparr>drop_points := ?kept,
      submissions := filter (\<lambda>s. list_ex (\<lambda>r. dpr_id r = sr_drop_point_id s) ?kept) (submissions (w_db w))\<rparr>"
    using st by (simp add: stmt_purge_def Let_def)
  have dps: "drop_points (w_db w1) = ?kept"
    and subs: "submissions (w_db w1) = filter (\<lambda>s. list_ex (\<lambda>r. dpr_id r = sr_drop_point_id s) ?kept) (submissions (w_db w))"
    unfolding db1 by simp_all
  have "\<not> purgeable (w_db w1) ?t r" if r: "r \<in> set ?kept" for r
  proof
    assume pu: "purgeable (w_db w1) ?t r"
    have "list_ex (\<lambda>s. sr_drop_point_id s = dpr_id r \<and> has_pointers s) (submissions (w_db w1))
        = list_ex (\<lambda>s. sr_drop_point_id s = dpr_id r \<and> has_pointers s) (submissions (w_db w))"
      using r by (auto simp: subs list_ex_iff) metis
    with pu have "purgeable (w_db w) ?t r" by (simp add: purgeable_def)
    with r show False by (simp add: table_simps)
  qed
  moreover have "is_terminal (dpr_status r) \<or> r \<in> set ?kept" if "r \<in> set (drop_points (w_db w))" for r
    using that by (auto simp: table_simps purgeable_def)
  moreover have "set ?kept \<subseteq> set (drop_points (w_db w))" by (auto simp: table_simps)
  ultimately show ?thesis using fs dps same by simp
qed (use assms in \<open>simp add: purge_phase_def\<close>)

lemma orphan_phase_done:
  assumes "run_state (orphan_phase (State_Monad.return ()) res) w = ((res', None), w')"
    and "fs_get (w_fs w') [DropPointsDirName] \<noteq> None" "fs_get (w_fs w') (dropDir n) = Some Dir"
    and "validateDropPointID n = None"
  shows "n \<in> dpr_id ` set (drop_points (w_db w'))"
proof -
  have fd: "files_dropped w w'" by (rule keepsD [OF dropped.keeps_reclaim_phases(3) assms(1)])
  obtain rowIDs w1 where q: "query_ids (w_db w) = Inr rowIDs" and "w_db w1 = w_db w" and r1:
    "run_state (do {
       _ \<leftarrow> State_Monad.return ();
       b \<leftarrow> blob_DropPointIDs;
       case b of Inl err \<Rightarrow> State_Monad.return (res, Some err)
       | Inr blobIDs \<Rightarrow> delete_orphans rowIDs blobIDs res
     }) w1 = ((res', None), w')"
    using query_bind_None [OF assms(1) [unfolded orphan_phase_def repo_DropPointIDs_def]] by blast
  obtain ids w2 where l: "run_state blob_DropPointIDs w1 = (Inr ids, w2)"
    and o: "run_state (delete_orphans rowIDs ids res) w2 = ((res', None), w')"
    using r1 by (auto split: prod.splits sum.splits)
  have sh: "fs_shrinks (w_fs w1) (w_fs w2)" "fs_shrinks (w_fs w2) (w_fs w')"
    using keepsD [OF tidy.keeps_listing l] keepsD [OF tidy.keeps_orphans o] by (simp_all add: tidied_def)
  then have "fs_shrinks (w_fs w1) (w_fs w')" by (rule fs_shrinks_trans)
  then have "fs_get (w_fs w') q = fs_get (w_fs w1) q \<or> fs_get (w_fs w') q = None" for q
    by (simp add: fs_shrinks_def)
  with assms(2,3) have "fs_get (w_fs w1) [DropPointsDirName] \<noteq> None" "fs_get (w_fs w1) (dropDir n) = Some Dir"
    by (metis, metis option.distinct(1))
  then have "n \<in> set ids" by (rule listing_done [OF l _ _ assms(4)])
  moreover have "\<not> gone (dropDir n) w'"
    using assms(3) unfolding gone_def by (metis below_refl option.distinct(1))
  ultimately have "n \<in> set rowIDs" using orphans_done [OF o] by blast
  with q fd show ?thesis by (auto simp: query_ids_def files_dropped_def)
qed

lemma Expire_phases:
  assumes "run_state (service_Expire v) w = ((res, None), w')"
  obtains w0 r1 w1 r2 w2 r3 w3 r4 w4 r5 w5 where
    "run_state (stale_phase v (fst (run_state now_io w))) w0 = ((r1, None), w1)"
    "run_state (expire_phase (fst (run_state now_io w)) r1) w1 = ((r2, None), w2)"
    "run_state (children_phase r2) w2 = ((r3, None), w3)"
    "run_state (terminal_phase r3) w3 = ((r4, None), w4)"
    "run_state (orphan_phase (State_Monad.return ()) r4) w4 = ((r5, None), w5)"
    "run_state (purge_phase v (fst (run_state now_io w)) r5) w5 = ((res, None), w')"
  by (rule Expire_unfold [OF assms], (erule and_then_None)+) blast

text \<open>C9. A pass that reports success has done its work, under any faults: no receiving submission
  is older than the stale limit; no open drop point has elapsed; an acknowledged or failed
  submission and a terminal drop point have neither a path in the database nor anything below
  their directory; every blob directory that is left belongs to a row; and no row is left that the
  retention would purge.\<close>

theorem successful_pass_reclaims:
  assumes "run_state (service_Expire v) w = ((res, None), w')" and "now = fst (run_state now_io w)"
  shows "(ReceivingStaleAfter v > 0 \<longrightarrow> not_receiving (\<lambda>t. t \<le> now - ReceivingStaleAfter v) w')
    \<and> none_elapsed now w'
    \<and> (\<forall>s \<in> set (submissions (w_db w')).
        sr_status s \<in> {SubmissionStatusAcknowledged, SubmissionStatusFailed} \<longrightarrow>
        submission_reclaimed (sr_key s) w')
    \<and> (\<forall>r \<in> set (drop_points (w_db w')). is_terminal (dpr_status r) \<longrightarrow>
        drop_point_reclaimed (dpr_id r) w')
    \<and> (\<forall>n. fs_get (w_fs w') [DropPointsDirName] \<noteq> None \<and> fs_get (w_fs w') (dropDir n) = Some Dir
        \<and> validateDropPointID n = None \<longrightarrow> n \<in> dpr_id ` set (drop_points (w_db w')))
    \<and> (TerminalRetention v > 0 \<longrightarrow>
        (\<forall>r \<in> set (drop_points (w_db w')). \<not> purgeable (w_db w') (now - TerminalRetention v) r))"
proof -
  obtain w0 r1 w1 r2 w2 r3 w3 r4 w4 r5 w5 where
    p1: "run_state (stale_phase v now) w0 = ((r1, None), w1)" and
    p2: "run_state (expire_phase now r1) w1 = ((r2, None), w2)" and
    p3: "run_state (children_phase r2) w2 = ((r3, None), w3)" and
    p4: "run_state (terminal_phase r3) w3 = ((r4, None), w4)" and
    p5: "run_state (orphan_phase (State_Monad.return ()) r4) w4 = ((r5, None), w5)" and
    p6: "run_state (purge_phase v now r5) w5 = ((res, None), w')"
    unfolding assms(2) by (rule Expire_phases [OF assms(1)])
  have t6: "tidied w5 w'" by (rule keepsD [OF tidy.keeps_phases(3) p6])
  have f5: "files_dropped w4 w5" by (rule keepsD [OF dropped.keeps_reclaim_phases(3) p5])
  then have t5: "tidied w4 w'" using t6 tidied_trans unfolding files_dropped_def by blast
  have t4: "tidied w3 w'" using keepsD [OF tidy.keeps_reclaim_phases(2) p4] t5 by (rule tidied_trans)
  have t3: "tidied w2 w'" using keepsD [OF tidy.keeps_reclaim_phases(1) p3] t4 by (rule tidied_trans)
  have t2: "tidied w1 w'" using keepsD [OF tidy.keeps_phases(2) p2] t3 by (rule tidied_trans)
  have stale: "ReceivingStaleAfter v > 0 \<longrightarrow> not_receiving (\<lambda>t. t \<le> now - ReceivingStaleAfter v) w'"
    using stale_done [OF p1] not_receiving_tidied [OF t2] by blast
  have elapsed: "none_elapsed now w'"
    using expire_done [OF p2] none_elapsed_tidied [OF t3] by blast
  have children: "phase_submissions (\<lambda>s. sr_status s \<in> {SubmissionStatusAcknowledged, SubmissionStatusFailed}) w'"
    by (rule phase_submissions_tidied [OF t4 children_phase_done [OF p3]])
  have rows: "drop_points (w_db w5) = drop_points (w_db w4)" using f5 by (simp add: files_dropped_def)
  have term4: "drop_point_reclaimed (dpr_id r) w'"
    if "r \<in> set (drop_points (w_db w4))" "is_terminal (dpr_status r)" for r
    using that terminal_phase_done [OF p4] drop_point_reclaimed_tidied [OF t5] by blast
  have terminal: "\<forall>r \<in> set (drop_points (w_db w')). is_terminal (dpr_status r) \<longrightarrow> drop_point_reclaimed (dpr_id r) w'"
  proof (intro ballI impI)
    fix r' assume r': "r' \<in> set (drop_points (w_db w'))" "is_terminal (dpr_status r')"
    have "r' \<in> set (drop_points (w_db w5))"
      using purge_done [OF p6] r'(1) by blast
    with rows term4 r' show "drop_point_reclaimed (dpr_id r') w'" by simp
  qed
  have orphans: "n \<in> dpr_id ` set (drop_points (w_db w'))"
    if n: "fs_get (w_fs w') [DropPointsDirName] \<noteq> None" "fs_get (w_fs w') (dropDir n) = Some Dir"
      "validateDropPointID n = None" for n
  proof -
    have "n \<in> dpr_id ` set (drop_points (w_db w5))"
      by (rule orphan_phase_done [OF p5]) (use n purge_done [OF p6] in simp_all)
    then obtain r where r: "r \<in> set (drop_points (w_db w5))" "n = dpr_id r" by blast
    have "\<not> gone (dropDir n) w'" using n(2) unfolding gone_def by (metis below_refl option.distinct(1))
    with r rows term4 have "\<not> is_terminal (dpr_status r)" unfolding drop_point_reclaimed_def by metis
    with purge_done [OF p6] r show ?thesis by blast
  qed
  show ?thesis
    using stale elapsed children terminal orphans purge_done [OF p6] unfolding phase_submissions_def by blast
qed

text \<open>C11. Recovery at startup: when \<open>ReconcileStartup\<close> reports success, no submission is receiving
  any more, and every submission that was has neither a row nor anything below its directory;
  so an interrupted upload cannot occupy the queue after a restart.\<close>

theorem startup_recovers_interrupted:
  assumes "run_state (ReconcileStartup v) w = ((res, None), w')"
  shows "not_receiving (\<lambda>_. True) w'
    \<and> (\<forall>s \<in> set (submissions (w_db w)). sr_status s = SubmissionStatusReceiving \<longrightarrow>
        gone (submissionDir (sr_drop_point_id s) (sr_id s)) w')"
proof -
  obtain xs w1 where q: "query_submissions (\<lambda>r. sr_status r = SubmissionStatusReceiving) sr_key (w_db w) = Inr xs"
    and w1: "w_db w1 = w_db w" and run:
    "run_state (and_then (recoverReceiving xs 0)
           (\<lambda>recovered. do {
              (result, e) \<leftarrow> service_Expire v;
              State_Monad.return
                (result\<lparr>RecoveredReceiving := RecoveredReceiving result + recovered\<rparr>, e)
            })
           (\<lambda>recovered. no_result\<lparr>RecoveredReceiving := recovered\<rparr>)) w1 = ((res, None), w')"
    using query_bind_None [OF assms [unfolded ReconcileStartup_def repo_ReceivingSubmissions_def]] by blast
  obtain n w2 where rec: "run_state (recoverReceiving xs 0) w1 = ((n, None), w2)" and rest:
    "run_state (do {
              (result, e) \<leftarrow> service_Expire v;
              State_Monad.return
                (result\<lparr>RecoveredReceiving := RecoveredReceiving result + n\<rparr>, e)
            }) w2 = ((res, None), w')"
    by (rule and_then_None [OF run])
  obtain res2 where "run_state (service_Expire v) w2 = (res2, w')"
    using rest by (auto split: prod.splits)
  then have t: "tidied w2 w'" by (rule keepsD [OF tidy.keeps_Expire])
  have "not_receiving (\<lambda>_. True) w'"
    using not_receiving_tidied [OF t reconcile_done [OF rec]] q w1 by simp
  moreover have "gone (submissionDir (sr_drop_point_id s) (sr_id s)) w'"
    if "s \<in> set (submissions (w_db w))" "sr_status s = SubmissionStatusReceiving" for s
    using recover_done [OF rec query_submissions_complete [OF q that]] gone_tidied [OF t] by simp
  ultimately show ?thesis by blast
qed

section \<open>A race\<close>

text \<open>What a creation and an upload do that run while cleanup is between its two listings.\<close>

definition late_sid :: go_string where "late_sid = ''sub_AAAAAAAAAAAAAAAAAAAAAA''"

definition late_upload :: "unit io" where
  "late_upload = do {
     _ \<leftarrow> repo_CreateDropPointWithinQuota sample_drop_point 3 5;
     _ \<leftarrow> repo_BeginSubmission ''dp_a'' late_sid 6;
     r \<leftarrow> WriteSubmission ''dp_a'' late_sid ''{}'' [Read ''abc'' ReadEOF] 100;
     _ \<leftarrow> (case r of
            Inl _ \<Rightarrow> State_Monad.return (Inl ErrNoRows)
          | Inr stored \<Rightarrow> repo_CommitSubmission ''dp_a'' late_sid stored 7);
     State_Monad.return ()
   }"

definition race_world :: world where
  "race_world = (world_of empty_db)\<lparr>w_fs := [([DropPointsDirName], Dir)], w_entropy := replicate 16 CHR ''x''\<rparr>"

definition sample_service :: cleanup_service where
  "sample_service = \<lparr>TerminalRetention = 1000, ReceivingStaleAfter = 100\<rparr>"

definition payload_lost :: "world \<Rightarrow> go_string \<Rightarrow> go_string \<Rightarrow> bool" where
  "payload_lost w dpid sid \<longleftrightarrow>
     (case submission_at (w_db w) dpid sid of
        None \<Rightarrow> False
      | Some s \<Rightarrow> sub_Status s = SubmissionStatusReady
          \<and> fs_get (w_fs w) (submissionDir dpid sid @ [PayloadFileName]) = None)"


section \<open>Witnesses\<close>

lemma sample_live:
  "live (fst (run_state now_io (world_of sample_db))) (row_of_drop_point sample_dp) ready_row
     (\<lambda>_. None) (world_of sample_db)"
proof -
  have "fst (run_state now_io (world_of sample_db)) = 7" by (simp add: now_io_def world_of_def)
  moreover have "row_of_drop_point sample_dp \<in> set (drop_points sample_db)" "ready_row \<in> set (submissions sample_db)"
    by (simp_all add: sample_db_def)
  ultimately show ?thesis
    using sample_db_inv
    by (simp add: live_def fs_get_def submissionDir_def dropDir_def)
      (auto simp: row_of_drop_point_def sample_dp_def sample_drop_point_def ready_row_def below_def)
qed

theorem cleanup_spares_live_witness:
  "ready_row \<in> set (submissions (w_db (snd (run_state (service_Expire sample_service) (world_of sample_db)))))"
  using cleanup_spares_live [OF sample_live surjective_pairing] by (simp add: live_def)

definition tidy_db :: db where
  "tidy_db =
     \<lparr>drop_points = [row_of_drop_point sample_drop_point],
      submissions = [new_submission_row ''dp_a'' late_sid 6], api_tokens = []\<rparr>"

definition tidy_world :: world where
  "tidy_world = (world_of tidy_db)\<lparr>w_now := 100000,
     w_fs := [([DropPointsDirName], Dir), (dropDir ''dp_a'', Dir), (dropDir ''dp_zzz'', Dir)]\<rparr>"

lemma tidy_run:
  "snd (fst (run_state (service_Expire \<lparr>TerminalRetention = 0, ReceivingStaleAfter = 0\<rparr>) tidy_world)) = None"
  by code_simp

theorem successful_pass_reclaims_witness:
  "none_elapsed 100000 (snd (run_state (service_Expire \<lparr>TerminalRetention = 0, ReceivingStaleAfter = 0\<rparr>) tidy_world))"
proof -
  have "fst (run_state now_io tidy_world) = 100000" by (simp add: now_io_def tidy_world_def world_of_def)
  with successful_pass_reclaims [of _ tidy_world] tidy_run show ?thesis by (metis prod.collapse)
qed

definition startup_world :: world where
  "startup_world = (world_of tidy_db)\<lparr>w_fs := [([DropPointsDirName], Dir), (dropDir ''dp_a'', Dir), (submissionDir ''dp_a'' late_sid, Dir)]\<rparr>"

lemma startup_run: "snd (fst (run_state (ReconcileStartup sample_service) startup_world)) = None"
  by code_simp

theorem startup_recovers_interrupted_witness:
  "not_receiving (\<lambda>_. True) (snd (run_state (ReconcileStartup sample_service) startup_world))"
  using startup_recovers_interrupted [of sample_service startup_world] startup_run
  by (metis prod.collapse)

end
