(* ===== verification/Utf8.thy ===== *)
theory Utf8
  imports Go_Strings
begin

text \<open>
  What the program uses of \<open>unicode/utf8\<close> and \<open>unicode\<close>: well-formed encodings, the code points of
  a string, control characters (category Cc) and format characters (category Cf).
\<close>

section \<open>Encodings\<close>

definition byte :: "char \<Rightarrow> nat" where
  "byte c = of_char c"

definition in_range :: "nat \<Rightarrow> nat \<Rightarrow> char \<Rightarrow> bool" where
  "in_range a b c \<longleftrightarrow> a \<le> byte c \<and> byte c \<le> b"

text \<open>The length of the well-formed encoding at the front, as \<open>utf8.DecodeRune\<close> accepts it.\<close>

definition rune_length :: "go_string \<Rightarrow> nat option" where
  "rune_length s =
     (case s of
        [] \<Rightarrow> None
      | a # t1 \<Rightarrow>
          if byte a < 0x80 then Some 1
          else (case t1 of
            [] \<Rightarrow> None
          | b # t2 \<Rightarrow>
              if in_range 0xC2 0xDF a \<and> in_range 0x80 0xBF b then Some 2
              else (case t2 of
                [] \<Rightarrow> None
              | c # t3 \<Rightarrow>
                  if (byte a = 0xE0 \<and> in_range 0xA0 0xBF b
                      \<or> (in_range 0xE1 0xEC a \<or> in_range 0xEE 0xEF a) \<and> in_range 0x80 0xBF b
                      \<or> byte a = 0xED \<and> in_range 0x80 0x9F b) \<and> in_range 0x80 0xBF c
                  then Some 3
                  else (case t3 of
                    [] \<Rightarrow> None
                  | d # _ \<Rightarrow>
                      if (byte a = 0xF0 \<and> in_range 0x90 0xBF b
                          \<or> in_range 0xF1 0xF3 a \<and> in_range 0x80 0xBF b
                          \<or> byte a = 0xF4 \<and> in_range 0x80 0x8F b)
                         \<and> in_range 0x80 0xBF c \<and> in_range 0x80 0xBF d
                      then Some 4 else None))))"

lemma rune_length_pos: "rune_length s = Some n \<Longrightarrow> 0 < n \<and> n \<le> length s"
  by (auto simp: rune_length_def split: list.splits if_splits)

function utf8_valid :: "go_string \<Rightarrow> bool" where
  "utf8_valid s =
     (if s = [] then True
      else case rune_length s of None \<Rightarrow> False | Some n \<Rightarrow> utf8_valid (drop n s))"
  by pat_completeness auto
termination by (relation "measure length") (auto dest: rune_length_pos)

declare utf8_valid.simps [simp del]

definition replacement_char :: go_string where
  "replacement_char = [CHR 0xEF, CHR 0xBF, CHR 0xBD]"

definition utf8_encode :: "nat \<Rightarrow> go_string" where
  "utf8_encode r =
     map char_of
       (if r < 0x80 then [r]
        else if r < 0x800 then [0xC0 + r div 64, 0x80 + r mod 64]
        else if r < 0x10000 then [0xE0 + r div 4096, 0x80 + r div 64 mod 64, 0x80 + r mod 64]
        else [0xF0 + r div 262144, 0x80 + r div 4096 mod 64, 0x80 + r div 64 mod 64, 0x80 + r mod 64])"

section \<open>Code points\<close>

definition rune_value :: "go_string \<Rightarrow> nat" where
  "rune_value s =
     (case map byte s of
        [a] \<Rightarrow> a
      | [a, b] \<Rightarrow> (a - 0xC0) * 64 + (b - 0x80)
      | [a, b, c] \<Rightarrow> (a - 0xE0) * 4096 + (b - 0x80) * 64 + (c - 0x80)
      | [a, b, c, d] \<Rightarrow> (a - 0xF0) * 262144 + (b - 0x80) * 4096 + (c - 0x80) * 64 + (d - 0x80)
      | _ \<Rightarrow> 0xFFFD)"

text \<open>\<open>for _, r := range s\<close>: a byte that starts no well-formed encoding counts as U+FFFD.\<close>

function runes :: "go_string \<Rightarrow> nat list" where
  "runes s =
     (if s = [] then []
      else case rune_length s of
             None \<Rightarrow> 0xFFFD # runes (tl s)
           | Some n \<Rightarrow> rune_value (take n s) # runes (drop n s))"
  by pat_completeness auto
termination by (relation "measure length") (auto dest: rune_length_pos)

declare runes.simps [simp del]

definition is_control :: "nat \<Rightarrow> bool" where
  "is_control r \<longleftrightarrow> r < 0x20 \<or> 0x7F \<le> r \<and> r < 0xA0"

definition format_ranges :: "(int \<times> int) list" where
  "format_ranges =
     [(0xAD, 0xAD), (0x600, 0x605), (0x61C, 0x61C), (0x6DD, 0x6DD), (0x70F, 0x70F), (0x890, 0x891),
      (0x8E2, 0x8E2), (0x180E, 0x180E), (0x200B, 0x200F), (0x202A, 0x202E), (0x2060, 0x2064),
      (0x2066, 0x206F), (0xFEFF, 0xFEFF), (0xFFF9, 0xFFFB), (0x110BD, 0x110BD), (0x110CD, 0x110CD),
      (0x13430, 0x1343F), (0x1BCA0, 0x1BCA3), (0x1D173, 0x1D17A), (0xE0001, 0xE0001), (0xE0020, 0xE007F)]"

definition is_format :: "nat \<Rightarrow> bool" where
  "is_format r \<longleftrightarrow> list_ex (\<lambda>(a, b). a \<le> int r \<and> int r \<le> b) format_ranges"

end
