(* ===== verification/Json.thy ===== *)
theory Json
  imports Utf8
begin

text \<open>
  What the program uses of \<open>encoding/json\<close>: the values a \<open>json.Decoder\<close> reads from a byte stream, and how a value is assigned to a struct. The reader is
  the decoder's own machine: a lexer and a stack of open arrays and objects, limited to a depth of
  10000. It tells apart running out of input from a syntax error, because a stream can end in an
  error of its own. Numbers stay literals.
\<close>

section \<open>Tokens\<close>

definition json_space :: "char \<Rightarrow> bool" where
  "json_space c \<longleftrightarrow> byte c \<in> {0x20, 0x09, 0x0D, 0x0A}"

definition hex_value :: "char \<Rightarrow> nat option" where
  "hex_value c =
     (if in_range 48 57 c then Some (byte c - 48)
      else if in_range 97 102 c then Some (byte c - 87)
      else if in_range 65 70 c then Some (byte c - 55) else None)"

definition hex4 :: "go_string \<Rightarrow> nat option" where
  "hex4 s =
     (case map hex_value (take 4 s) of
        [Some a, Some b, Some c, Some d] \<Rightarrow> Some (4096 * a + 256 * b + 16 * c + d)
      | _ \<Rightarrow> None)"

datatype 'a scan = Scanned 'a go_string | Truncated | Malformed

text \<open>The raw text up to the closing quote.\<close>

fun scan_string :: "go_string \<Rightarrow> go_string scan" where
  "scan_string [] = Truncated"
| "scan_string (c # cs) =
     (if c = CHR 0x22 then Scanned [] cs
      else if c = CHR 0x5C then
        (case cs of
           [] \<Rightarrow> Truncated
         | e # es \<Rightarrow>
             if List.member [CHR 0x22, CHR 0x5C, CHR ''/'', CHR ''b'', CHR ''f'', CHR ''n'', CHR ''r'', CHR ''t''] e
             then (case scan_string es of Scanned raw rest \<Rightarrow> Scanned (c # e # raw) rest | r \<Rightarrow> r)
             else if e = CHR ''u'' then
               (if list_ex (\<lambda>h. hex_value h = None) (take 4 es) then Malformed
                else if length es < 4 then Truncated
                else (case scan_string es of Scanned raw rest \<Rightarrow> Scanned (c # e # raw) rest | r \<Rightarrow> r))
             else Malformed)
      else if byte c < 0x20 then Malformed
      else (case scan_string cs of Scanned raw rest \<Rightarrow> Scanned (c # raw) rest | r \<Rightarrow> r))"

definition escape_value :: "char \<Rightarrow> go_string" where
  "escape_value e =
     (if e = CHR ''b'' then [CHR 0x08] else if e = CHR ''f'' then [CHR 0x0C]
      else if e = CHR ''n'' then [CHR 0x0A] else if e = CHR ''r'' then [CHR 0x0D]
      else if e = CHR ''t'' then [CHR 0x09] else [e])"

definition is_surrogate :: "nat \<Rightarrow> bool" where
  "is_surrogate r \<longleftrightarrow> 0xD800 \<le> r \<and> r < 0xE000"

text \<open>\<open>unquote\<close>: escapes are resolved, two \<open>\\u\<close> escapes can form one surrogate pair, and what is
  not UTF-8 becomes the replacement character.\<close>

function unquote :: "go_string \<Rightarrow> go_string" where
  "unquote s =
     (case s of
        [] \<Rightarrow> []
      | c # cs \<Rightarrow>
          if c = CHR 0x5C then
            (case cs of
               [] \<Rightarrow> []
             | e # es \<Rightarrow>
                 if e \<noteq> CHR ''u'' then escape_value e @ unquote es
                 else (case hex4 es of
                   None \<Rightarrow> []
                 | Some r \<Rightarrow>
                     if \<not> is_surrogate r then utf8_encode r @ unquote (drop 4 es)
                     else (case drop 4 es of
                       b # u # fs \<Rightarrow>
                         (case hex4 fs of
                            Some r1 \<Rightarrow>
                              if b = CHR 0x5C \<and> u = CHR ''u'' \<and> r < 0xDC00 \<and> 0xDC00 \<le> r1 \<and> r1 < 0xE000
                              then utf8_encode ((r - 0xD800) * 1024 + (r1 - 0xDC00) + 0x10000)
                                   @ unquote (drop 4 fs)
                              else replacement_char @ unquote (drop 4 es)
                          | None \<Rightarrow> replacement_char @ unquote (drop 4 es))
                     | _ \<Rightarrow> replacement_char @ unquote (drop 4 es))))
          else (case rune_length s of
                  None \<Rightarrow> replacement_char @ unquote cs
                | Some n \<Rightarrow> take n s @ unquote (drop n s)))"
  by pat_completeness auto
termination
  by (relation "measure length") (auto dest: rune_length_pos simp: less_Suc_eq_le dest!: arg_cong [where f = length])

declare unquote.simps [simp del]

text \<open>The number grammar of the scanner. A number that ends with the input may be complete.\<close>

definition is_digit :: "char \<Rightarrow> bool" where
  "is_digit c \<longleftrightarrow> in_range 48 57 c"

definition scan_digits :: "go_string \<Rightarrow> go_string scan" where
  "scan_digits s =
     (case s of
        [] \<Rightarrow> Truncated
      | c # _ \<Rightarrow> if is_digit c then Scanned (takeWhile is_digit s) (dropWhile is_digit s) else Malformed)"

definition scan_integer :: "go_string \<Rightarrow> go_string scan" where
  "scan_integer s =
     (case s of c # cs \<Rightarrow> if c = CHR ''0'' then Scanned [c] cs else scan_digits s | [] \<Rightarrow> Truncated)"

definition scan_fraction :: "go_string \<Rightarrow> go_string scan" where
  "scan_fraction s =
     (case s of
        c # cs \<Rightarrow>
          if c = CHR ''.''
          then (case scan_digits cs of Scanned ds rest \<Rightarrow> Scanned (c # ds) rest | r \<Rightarrow> r)
          else Scanned [] s
      | [] \<Rightarrow> Scanned [] [])"

definition scan_exponent :: "go_string \<Rightarrow> go_string scan" where
  "scan_exponent s =
     (case s of
        c # cs \<Rightarrow>
          if c = CHR ''e'' \<or> c = CHR ''E'' then
            (case cs of
               d # ds \<Rightarrow>
                 if d = CHR ''+'' \<or> d = CHR ''-''
                 then (case scan_digits ds of Scanned x rest \<Rightarrow> Scanned (c # d # x) rest | r \<Rightarrow> r)
                 else (case scan_digits cs of Scanned x rest \<Rightarrow> Scanned (c # x) rest | r \<Rightarrow> r)
             | [] \<Rightarrow> Truncated)
          else Scanned [] s
      | [] \<Rightarrow> Scanned [] [])"

fun scan_then :: "'a list scan \<Rightarrow> (go_string \<Rightarrow> 'a list scan) \<Rightarrow> 'a list scan" where
  "scan_then (Scanned x rest) f =
     (case f rest of Scanned y rest' \<Rightarrow> Scanned (x @ y) rest' | r \<Rightarrow> r)"
| "scan_then r f = r"

definition scan_number :: "go_string \<Rightarrow> go_string scan" where
  "scan_number s =
     (case s of
        c # cs \<Rightarrow>
          if c = CHR ''-''
          then scan_then (Scanned [c] cs)
                 (\<lambda>r. scan_then (scan_integer r) (\<lambda>r. scan_then (scan_fraction r) scan_exponent))
          else scan_then (scan_integer s) (\<lambda>r. scan_then (scan_fraction r) scan_exponent)
      | [] \<Rightarrow> Truncated)"

fun scan_literal :: "go_string \<Rightarrow> go_string \<Rightarrow> unit scan" where
  "scan_literal [] s = Scanned () s"
| "scan_literal (l # ls) [] = Truncated"
| "scan_literal (l # ls) (c # cs) = (if c = l then scan_literal ls cs else Malformed)"

datatype json_token =
    OpenObject | CloseObject | OpenArray | CloseArray | Colon | Comma
  | StringToken go_string | NumberToken go_string | TrueToken | FalseToken | NullToken

definition scan_map :: "('a \<Rightarrow> 'b) \<Rightarrow> 'a scan \<Rightarrow> 'b scan" where
  "scan_map f r = (case r of Scanned x rest \<Rightarrow> Scanned (f x) rest | Truncated \<Rightarrow> Truncated | Malformed \<Rightarrow> Malformed)"

definition next_token :: "go_string \<Rightarrow> json_token scan" where
  "next_token s =
     (case dropWhile json_space s of
        [] \<Rightarrow> Truncated
      | c # cs \<Rightarrow>
          if c = CHR ''{'' then Scanned OpenObject cs
          else if c = CHR ''}'' then Scanned CloseObject cs
          else if c = CHR ''['' then Scanned OpenArray cs
          else if c = CHR '']'' then Scanned CloseArray cs
          else if c = CHR '':'' then Scanned Colon cs
          else if c = CHR '','' then Scanned Comma cs
          else if c = CHR 0x22 then scan_map (\<lambda>raw. StringToken (unquote raw)) (scan_string cs)
          else if c = CHR ''t'' then scan_map (\<lambda>_. TrueToken) (scan_literal ''rue'' cs)
          else if c = CHR ''f'' then scan_map (\<lambda>_. FalseToken) (scan_literal ''alse'' cs)
          else if c = CHR ''n'' then scan_map (\<lambda>_. NullToken) (scan_literal ''ull'' cs)
          else if c = CHR ''-'' \<or> is_digit c then scan_map NumberToken (scan_number (c # cs))
          else Malformed)"

lemma scan_string_shorter: "scan_string s = Scanned x rest \<Longrightarrow> length rest < length s"
  by (induction s arbitrary: x rest rule: scan_string.induct)
    (fastforce split: if_splits list.splits scan.splits)+

lemma scan_digits_shorter: "scan_digits s = Scanned x rest \<Longrightarrow> length rest < length s"
proof (cases s)
  case (Cons c cs)
  assume "scan_digits s = Scanned x rest"
  with Cons have "is_digit c" "rest = dropWhile is_digit (c # cs)"
    by (auto simp: scan_digits_def split: if_splits)
  moreover have "length (dropWhile is_digit cs) \<le> length cs" by (rule length_dropWhile_le)
  ultimately show ?thesis using Cons by simp
qed (simp add: scan_digits_def)

lemma scan_integer_shorter: "scan_integer s = Scanned x rest \<Longrightarrow> length rest < length s"
  by (auto simp: scan_integer_def dest!: scan_digits_shorter split: list.splits if_splits)

lemma scan_fraction_shorter: "scan_fraction s = Scanned x rest \<Longrightarrow> length rest \<le> length s"
  by (auto simp: scan_fraction_def dest!: scan_digits_shorter split: list.splits if_splits scan.splits)

lemma scan_exponent_shorter: "scan_exponent s = Scanned x rest \<Longrightarrow> length rest \<le> length s"
  by (auto simp: scan_exponent_def dest!: scan_digits_shorter split: list.splits if_splits scan.splits)

lemma scan_thenE:
  assumes "scan_then m f = Scanned x rest"
  obtains a r b where "m = Scanned a r" "f r = Scanned b rest"
  using assms by (cases m) (auto split: scan.splits)

lemma scan_number_shorter: "scan_number s = Scanned x rest \<Longrightarrow> length rest < length s"
  by (auto simp: scan_number_def elim!: scan_thenE dest!: scan_integer_shorter scan_fraction_shorter
      scan_exponent_shorter split: list.splits if_splits scan.splits)

lemma scan_literal_shorter: "scan_literal l s = Scanned x rest \<Longrightarrow> length rest \<le> length s"
  by (induction l s rule: scan_literal.induct) (auto split: if_splits)

text \<open>A scan that leaves at most \<open>n\<close> bytes.\<close>

definition leaves :: "nat \<Rightarrow> 'a scan \<Rightarrow> bool" where
  "leaves n r \<longleftrightarrow> (\<forall>x rest. r = Scanned x rest \<longrightarrow> length rest \<le> n)"

lemma leaves_intros:
  "length rest \<le> n \<Longrightarrow> leaves n (Scanned x rest)" "leaves n Truncated" "leaves n Malformed"
  "leaves n r \<Longrightarrow> leaves n (scan_map f r)"
  "leaves n r \<Longrightarrow> leaves n r' \<Longrightarrow> leaves n (if b then r else r')"
  by (auto simp: leaves_def scan_map_def split: scan.splits)

lemma leaves_scans:
  "leaves (length s) (scan_string s)" "leaves (length s) (scan_literal l s)"
  "leaves (length s) (scan_number (c # s))"
  using scan_string_shorter [of s] scan_literal_shorter [of l s] scan_number_shorter [of "c # s"]
  by (fastforce simp: leaves_def)+

lemma next_token_shorter: "next_token s = Scanned t rest \<Longrightarrow> length rest < length s"
proof -
  assume n: "next_token s = Scanned t rest"
  obtain c cs where d: "dropWhile json_space s = c # cs"
    using n by (cases "dropWhile json_space s") (simp_all add: next_token_def)
  have "leaves (length cs) (next_token s)"
    unfolding next_token_def d list.case by (intro leaves_intros leaves_scans order_refl)
  with n have "length rest < length (c # cs)" by (simp add: leaves_def)
  also have "length (c # cs) \<le> length s" unfolding d [symmetric] by (rule length_dropWhile_le)
  finally show ?thesis .
qed

section \<open>Values\<close>

datatype json =
  JNull | JBool bool | JNumber go_string | JString go_string | JArray "json list"
| JObject "(go_string \<times> json) list"

text \<open>An open array with its elements so far, or an open object with its members so far and the
  key whose value is being read.\<close>

datatype json_frame = ArrayFrame "json list" | ObjectFrame "(go_string \<times> json) list" go_string

definition maxNestingDepth :: nat where "maxNestingDepth = 10000"

text \<open>\<open>read_value\<close> expects a value, \<open>end_value\<close> has just read one.\<close>

function read_value :: "json_frame list \<Rightarrow> go_string \<Rightarrow> json scan"
  and end_value :: "json_frame list \<Rightarrow> json \<Rightarrow> go_string \<Rightarrow> json scan" where
  "read_value stack s =
     (case next_token s of
        Truncated \<Rightarrow> Truncated
      | Malformed \<Rightarrow> Malformed
      | Scanned t rest \<Rightarrow>
          (case t of
             NullToken \<Rightarrow> end_value stack JNull rest
           | TrueToken \<Rightarrow> end_value stack (JBool True) rest
           | FalseToken \<Rightarrow> end_value stack (JBool False) rest
           | NumberToken n \<Rightarrow> end_value stack (JNumber n) rest
           | StringToken x \<Rightarrow> end_value stack (JString x) rest
           | OpenArray \<Rightarrow>
               if maxNestingDepth \<le> length stack then Malformed
               else (case next_token rest of
                 Truncated \<Rightarrow> Truncated
               | Scanned CloseArray rest' \<Rightarrow> end_value stack (JArray []) rest'
               | _ \<Rightarrow> read_value (ArrayFrame [] # stack) rest)
           | OpenObject \<Rightarrow>
               if maxNestingDepth \<le> length stack then Malformed
               else (case next_token rest of
                 Scanned CloseObject rest' \<Rightarrow> end_value stack (JObject []) rest'
               | Scanned (StringToken k) rest' \<Rightarrow>
                   (case next_token rest' of
                      Scanned Colon rest'' \<Rightarrow> read_value (ObjectFrame [] k # stack) rest''
                    | Truncated \<Rightarrow> Truncated | _ \<Rightarrow> Malformed)
               | Truncated \<Rightarrow> Truncated | _ \<Rightarrow> Malformed)
           | _ \<Rightarrow> Malformed))"
| "end_value stack v s =
     (case stack of
        [] \<Rightarrow> Scanned v s
      | ArrayFrame vs # outer \<Rightarrow>
          (case next_token s of
             Scanned Comma rest \<Rightarrow> read_value (ArrayFrame (vs @ [v]) # outer) rest
           | Scanned CloseArray rest \<Rightarrow> end_value outer (JArray (vs @ [v])) rest
           | Truncated \<Rightarrow> Truncated | _ \<Rightarrow> Malformed)
      | ObjectFrame kvs k # outer \<Rightarrow>
          (case next_token s of
             Scanned Comma rest \<Rightarrow>
               (case next_token rest of
                  Scanned (StringToken k') rest' \<Rightarrow>
                    (case next_token rest' of
                       Scanned Colon rest'' \<Rightarrow>
                         read_value (ObjectFrame (kvs @ [(k, v)]) k' # outer) rest''
                     | Truncated \<Rightarrow> Truncated | _ \<Rightarrow> Malformed)
                | Truncated \<Rightarrow> Truncated | _ \<Rightarrow> Malformed)
           | Scanned CloseObject rest \<Rightarrow> end_value outer (JObject (kvs @ [(k, v)])) rest
           | Truncated \<Rightarrow> Truncated | _ \<Rightarrow> Malformed))"
  by pat_completeness auto
termination
  by (relation "measure (\<lambda>x. case x of Inl (_, s) \<Rightarrow> length s | Inr (_, _, s) \<Rightarrow> length s)")
    (auto dest!: next_token_shorter)

declare read_value.simps [simp del] end_value.simps [simp del]

text \<open>One \<open>Decode\<close> of a stream that ends with \<open>io.EOF\<close>.\<close>

datatype decoded = Decoded json go_string | EndOfInput | DecodeError

definition blank_rest :: "go_string \<Rightarrow> bool" where
  "blank_rest s \<longleftrightarrow> dropWhile json_space s = []"

definition decode_one :: "go_string \<Rightarrow> decoded" where
  "decode_one s =
     (if blank_rest s then EndOfInput
      else case read_value [] s of Scanned v rest \<Rightarrow> Decoded v rest | _ \<Rightarrow> DecodeError)"

text \<open>Exactly one value and nothing but white space after it.\<close>

definition whole_value :: "go_string \<Rightarrow> json option" where
  "whole_value s =
     (case decode_one s of
        Decoded v rest \<Rightarrow> if decode_one rest = EndOfInput then Some v else None
      | _ \<Rightarrow> None)"

section \<open>Assigning to a struct\<close>

text \<open>A member is assigned to the field with its name, or else to the one whose name is equal when
  letters are folded. Besides the ASCII letters, U+017F folds to S and U+212A to K; no other rune
  folds to a letter of a field name.\<close>

definition upper :: "char \<Rightarrow> char" where
  "upper c = (if in_range 97 122 c then char_of (byte c - 32) else c)"

fun fold_name :: "go_string \<Rightarrow> go_string" where
  "fold_name (a # b # c # s) =
     (if a = CHR 0xC5 \<and> b = CHR 0xBF then CHR ''S'' # fold_name (c # s)
      else if a = CHR 0xE2 \<and> b = CHR 0x84 \<and> c = CHR 0xAA then CHR ''K'' # fold_name s
      else upper a # fold_name (b # c # s))"
| "fold_name [a, b] = (if a = CHR 0xC5 \<and> b = CHR 0xBF then ''S'' else [upper a, upper b])"
| "fold_name [a] = [upper a]"
| "fold_name [] = []"

definition struct_field :: "go_string list \<Rightarrow> go_string \<Rightarrow> go_string option" where
  "struct_field names key =
     (if List.member names key then Some key
      else find (\<lambda>n. fold_name n = fold_name key) names)"

text \<open>With \<open>DisallowUnknownFields\<close> an unknown member is an error, and so is a value of another
  type. The decoder keeps the first such error and goes on; no caller uses the value then, so the
  model stops.\<close>

fun decode_members ::
    "go_string list \<Rightarrow> (go_string \<Rightarrow> json \<Rightarrow> 's \<Rightarrow> 's option) \<Rightarrow> (go_string \<times> json) list \<Rightarrow> 's \<Rightarrow> 's option" where
  "decode_members names assign [] s = Some s"
| "decode_members names assign ((k, v) # kvs) s =
     (case struct_field names k of
        None \<Rightarrow> None
      | Some f \<Rightarrow>
          (case assign f v s of None \<Rightarrow> None | Some s' \<Rightarrow> decode_members names assign kvs s'))"

text \<open>\<open>null\<close> leaves a struct, an integer or a string as it is.\<close>

definition decode_struct ::
    "go_string list \<Rightarrow> (go_string \<Rightarrow> json \<Rightarrow> 's \<Rightarrow> 's option) \<Rightarrow> json \<Rightarrow> 's \<Rightarrow> 's option" where
  "decode_struct names assign v s =
     (case v of JNull \<Rightarrow> Some s | JObject kvs \<Rightarrow> decode_members names assign kvs s | _ \<Rightarrow> None)"

definition decode_int :: "json \<Rightarrow> int \<Rightarrow> int option" where
  "decode_int v old = (case v of JNull \<Rightarrow> Some old | JNumber n \<Rightarrow> parse_int64 n | _ \<Rightarrow> None)"

definition decode_string :: "json \<Rightarrow> go_string \<Rightarrow> go_string option" where
  "decode_string v old = (case v of JNull \<Rightarrow> Some old | JString x \<Rightarrow> Some x | _ \<Rightarrow> None)"

section \<open>Duplicate members\<close>

fun unique_keys :: "json \<Rightarrow> bool" where
  "unique_keys (JObject kvs) \<longleftrightarrow> distinct (map fst kvs) \<and> list_all (\<lambda>(k, v). unique_keys v) kvs"
| "unique_keys (JArray vs) \<longleftrightarrow> list_all unique_keys vs"
| "unique_keys _ \<longleftrightarrow> True"

end
