(* ===== verification/Envelope.thy ===== *)
theory Envelope
  imports Json Token
begin

text \<open>
  \<open>internal/cryptoenv/envelope.go\<close>: the relay-visible envelope of a submission and its validation.
  Every refusal wraps \<open>ErrEnvelopeInvalid\<close>.
\<close>

definition ProtocolVersion :: int where "ProtocolVersion = 2"
definition KeyAgreement :: go_string where "KeyAgreement = ''x25519-hkdf-sha256-aesgcm-raw32''"
definition X25519PublicKeyBytes :: nat where "X25519PublicKeyBytes = 32"
definition AESGCMNonceBytes :: nat where "AESGCMNonceBytes = 12"
definition AESGCMTagBytes :: nat where "AESGCMTagBytes = 16"

lemmas envelope_constants = ProtocolVersion_def KeyAgreement_def X25519PublicKeyBytes_def
  AESGCMNonceBytes_def AESGCMTagBytes_def

record envelope =
  env_ProtocolVersion :: int
  env_KeyAgreement :: go_string
  env_SenderEphemeralPublicKey :: go_string
  env_MetadataNonce :: go_string
  env_PayloadNonce :: go_string
  env_EncryptedMetadata :: go_string

definition zero_envelope :: envelope where
  "zero_envelope =
     \<lparr>env_ProtocolVersion = 0, env_KeyAgreement = [], env_SenderEphemeralPublicKey = [],
      env_MetadataNonce = [], env_PayloadNonce = [], env_EncryptedMetadata = []\<rparr>"

definition envelope_fields :: "go_string list" where
  "envelope_fields =
     [''protocol_version'', ''key_agreement'', ''sender_ephemeral_public_key'', ''metadata_nonce'',
      ''payload_nonce'', ''encrypted_metadata'']"

definition assign_envelope :: "go_string \<Rightarrow> json \<Rightarrow> envelope \<Rightarrow> envelope option" where
  "assign_envelope f v e =
     (if f = ''protocol_version''
      then map_option (\<lambda>x. e\<lparr>env_ProtocolVersion := x\<rparr>) (decode_int v (env_ProtocolVersion e))
      else if f = ''key_agreement''
      then map_option (\<lambda>x. e\<lparr>env_KeyAgreement := x\<rparr>) (decode_string v (env_KeyAgreement e))
      else if f = ''sender_ephemeral_public_key''
      then map_option (\<lambda>x. e\<lparr>env_SenderEphemeralPublicKey := x\<rparr>)
             (decode_string v (env_SenderEphemeralPublicKey e))
      else if f = ''metadata_nonce''
      then map_option (\<lambda>x. e\<lparr>env_MetadataNonce := x\<rparr>) (decode_string v (env_MetadataNonce e))
      else if f = ''payload_nonce''
      then map_option (\<lambda>x. e\<lparr>env_PayloadNonce := x\<rparr>) (decode_string v (env_PayloadNonce e))
      else map_option (\<lambda>x. e\<lparr>env_EncryptedMetadata := x\<rparr>) (decode_string v (env_EncryptedMetadata e)))"

section \<open>base64url fields\<close>

definition EncodeBase64URL :: "go_string \<Rightarrow> go_string" where
  "EncodeBase64URL value = EncodeToString value"

definition DecodeBase64URL :: "go_string \<Rightarrow> error + go_string" where
  "DecodeBase64URL value =
     (if value = [] \<or> List.member value (CHR ''='')
      then Inl (ErrOther ''base64url value must be non-empty and unpadded'')
      else case DecodeString True value of
             None \<Rightarrow> Inl (ErrOther ''illegal base64 data'')
           | Some decoded \<Rightarrow>
               if EncodeBase64URL decoded \<noteq> value
               then Inl (ErrOther ''base64url value is not canonical'')
               else Inr decoded)"

definition decodeBase64URLField :: "go_string \<Rightarrow> nat \<Rightarrow> nat \<Rightarrow> error + go_string" where
  "decodeBase64URLField value minLen exactLen =
     (case DecodeBase64URL value of
        Inl _ \<Rightarrow> Inl ErrEnvelopeInvalid
      | Inr decoded \<Rightarrow>
          if exactLen > 0 \<and> length decoded \<noteq> exactLen then Inl ErrEnvelopeInvalid
          else if minLen > 0 \<and> length decoded < minLen then Inl ErrEnvelopeInvalid
          else Inr decoded)"

section \<open>Validation\<close>

text \<open>\<open>scanUniqueJSONValue\<close> walks the tokens of one value and looks for a repeated key; the model
  reads the value first. Text that is no JSON value is refused either way.\<close>

definition rejectDuplicateJSONFields :: "go_string \<Rightarrow> error option" where
  "rejectDuplicateJSONFields data =
     (case whole_value data of
        None \<Rightarrow> Some (ErrOther ''JSON must contain one value'')
      | Some v \<Rightarrow> if unique_keys v then None else Some (ErrOther ''duplicate JSON field''))"

definition decode_envelope :: "go_string \<Rightarrow> envelope option" where
  "decode_envelope data =
     (case decode_one data of
        Decoded v rest \<Rightarrow>
          (case decode_struct envelope_fields assign_envelope v zero_envelope of
             None \<Rightarrow> None
           | Some e \<Rightarrow> if decode_one rest = EndOfInput then Some e else None)
      | _ \<Rightarrow> None)"

definition ValidateEnvelopeJSON :: "go_string \<Rightarrow> error + envelope" where
  "ValidateEnvelopeJSON data =
     (if rejectDuplicateJSONFields data \<noteq> None then Inl ErrEnvelopeInvalid
      else case decode_envelope data of
        None \<Rightarrow> Inl ErrEnvelopeInvalid
      | Some e \<Rightarrow>
          if env_ProtocolVersion e \<noteq> ProtocolVersion then Inl ErrEnvelopeInvalid
          else if env_KeyAgreement e \<noteq> KeyAgreement then Inl ErrEnvelopeInvalid
          else case decodeBase64URLField (env_SenderEphemeralPublicKey e) X25519PublicKeyBytes
                      X25519PublicKeyBytes of Inl err \<Rightarrow> Inl err | Inr _ \<Rightarrow>
               (case decodeBase64URLField (env_MetadataNonce e) AESGCMNonceBytes AESGCMNonceBytes of
                  Inl err \<Rightarrow> Inl err | Inr _ \<Rightarrow>
               (case decodeBase64URLField (env_PayloadNonce e) AESGCMNonceBytes AESGCMNonceBytes of
                  Inl err \<Rightarrow> Inl err | Inr _ \<Rightarrow>
               (case decodeBase64URLField (env_EncryptedMetadata e) AESGCMTagBytes 0 of
                  Inl err \<Rightarrow> Inl err | Inr _ \<Rightarrow> Inr e))))"

section \<open>Properties\<close>

lemma b64_char_not_padding: "c \<in> set (EncodeToString bs) \<Longrightarrow> c \<noteq> CHR ''=''"
proof
  assume c: "c \<in> set (EncodeToString bs)" "c = CHR ''=''"
  have "DecodeString True (EncodeToString bs) = Some bs" by (rule DecodeString_EncodeToString)
  from DecodeString_chars [OF this c(1)] c(2) show False
    by (auto simp: is_newline_def b64_digit_def)
qed

lemma EncodeBase64URL_nonempty: "EncodeBase64URL bs = [] \<longleftrightarrow> bs = []"
proof
  assume "EncodeBase64URL bs = []"
  then show "bs = []"
    using DecodeString_EncodeToString [of True bs] DecodeString_EncodeToString [of True "[]"]
    by (simp add: EncodeBase64URL_def EncodeToString_def)
qed (simp add: EncodeBase64URL_def EncodeToString_def)

lemma canonical: "DecodeBase64URL value = Inr bs \<longleftrightarrow> value \<noteq> [] \<and> value = EncodeBase64URL bs"
proof
  assume "DecodeBase64URL value = Inr bs"
  then show "value \<noteq> [] \<and> value = EncodeBase64URL bs"
    by (simp add: DecodeBase64URL_def split: option.splits if_splits)
next
  assume v: "value \<noteq> [] \<and> value = EncodeBase64URL bs"
  then have "CHR ''='' \<notin> set value" using b64_char_not_padding by (auto simp: EncodeBase64URL_def)
  moreover have "DecodeString True value = Some bs"
    using v by (simp add: EncodeBase64URL_def DecodeString_EncodeToString)
  ultimately show "DecodeBase64URL value = Inr bs" using v by (auto simp: DecodeBase64URL_def)
qed

text \<open>\<open>DecodeBase64URL\<close> accepts exactly the canonical encodings: a text decodes to some bytes if
  and only if it is the encoding of those bytes and not empty. So no two accepted texts stand for
  the same bytes, there is no padding and no newline, and what \<open>EncodeBase64URL\<close> gives reads back.\<close>

theorem base64url_canonical:
  "DecodeBase64URL value = Inr bs \<longleftrightarrow> value \<noteq> [] \<and> value = EncodeBase64URL bs"
  by (rule canonical)

lemma decodeBase64URLField_Inr:
  "decodeBase64URLField value m n = Inr bs \<longleftrightarrow>
     DecodeBase64URL value = Inr bs \<and> (n > 0 \<longrightarrow> length bs = n) \<and> m \<le> length bs"
  by (auto simp: decodeBase64URLField_def split: sum.splits if_splits)

lemma decodeBase64URLField_Inl: "decodeBase64URLField value m n = Inl e \<Longrightarrow> e = ErrEnvelopeInvalid"
  by (auto simp: decodeBase64URLField_def split: sum.splits if_splits)

lemma decoded_once:
  "rejectDuplicateJSONFields data = None \<and> decode_envelope data = Some env \<longleftrightarrow>
     (\<exists>v. whole_value data = Some v \<and> unique_keys v
        \<and> decode_struct envelope_fields assign_envelope v zero_envelope = Some env)"
  by (auto simp: rejectDuplicateJSONFields_def decode_envelope_def whole_value_def
      split: decoded.splits option.splits if_splits)

lemma Validate_Inr:
  "ValidateEnvelopeJSON data = Inr env \<longleftrightarrow>
     (rejectDuplicateJSONFields data = None \<and> decode_envelope data = Some env)
     \<and> env_ProtocolVersion env = ProtocolVersion \<and> env_KeyAgreement env = KeyAgreement
     \<and> (\<exists>pk. decodeBase64URLField (env_SenderEphemeralPublicKey env) X25519PublicKeyBytes
               X25519PublicKeyBytes = Inr pk)
     \<and> (\<exists>n. decodeBase64URLField (env_MetadataNonce env) AESGCMNonceBytes AESGCMNonceBytes = Inr n)
     \<and> (\<exists>n. decodeBase64URLField (env_PayloadNonce env) AESGCMNonceBytes AESGCMNonceBytes = Inr n)
     \<and> (\<exists>m. decodeBase64URLField (env_EncryptedMetadata env) AESGCMTagBytes 0 = Inr m)"
  unfolding ValidateEnvelopeJSON_def by (auto split: option.splits sum.splits if_splits)


section \<open>Witnesses\<close>

definition quoted :: "go_string \<Rightarrow> go_string" where
  "quoted s = [CHR 0x22] @ s @ [CHR 0x22]"

definition sample_member :: "go_string \<Rightarrow> go_string \<Rightarrow> go_string" where
  "sample_member k v = quoted k @ '': '' @ v"

text \<open>An envelope with a second protocol version under a name that differs in case only.\<close>

definition sample_envelope_json :: "go_string \<Rightarrow> go_string" where
  "sample_envelope_json extra =
     ''{'' @ extra
     @ sample_member ''protocol_version'' ''2'' @ '', ''
     @ sample_member ''key_agreement'' (quoted KeyAgreement) @ '', ''
     @ sample_member ''sender_ephemeral_public_key'' (quoted (EncodeBase64URL (replicate 32 CHR ''k''))) @ '', ''
     @ sample_member ''metadata_nonce'' (quoted (EncodeBase64URL (replicate 12 CHR ''n''))) @ '', ''
     @ sample_member ''payload_nonce'' (quoted (EncodeBase64URL (replicate 12 CHR ''p''))) @ '', ''
     @ sample_member ''encrypted_metadata'' (quoted (EncodeBase64URL (replicate 16 CHR ''m'')))
     @ ''}''"

definition sample_envelope :: envelope where
  "sample_envelope =
     \<lparr>env_ProtocolVersion = 2, env_KeyAgreement = KeyAgreement,
      env_SenderEphemeralPublicKey = EncodeBase64URL (replicate 32 CHR ''k''),
      env_MetadataNonce = EncodeBase64URL (replicate 12 CHR ''n''),
      env_PayloadNonce = EncodeBase64URL (replicate 12 CHR ''p''),
      env_EncryptedMetadata = EncodeBase64URL (replicate 16 CHR ''m'')\<rparr>"

lemma sample_envelope_valid: "ValidateEnvelopeJSON (sample_envelope_json []) = Inr sample_envelope"
  by code_simp


text \<open>The duplicate check compares decoded keys exactly while \<open>encoding/json\<close> also matches fields by
  folded names: an envelope that names a field twice in different case is accepted, and the later
  value counts.\<close>

lemma folded_duplicate_accepted:
  "ValidateEnvelopeJSON (sample_envelope_json (sample_member ''PROTOCOL_VERSION'' ''1'' @ '', ''))
     = Inr sample_envelope"
  by code_simp

end
