(* ===== verification/Config.thy ===== *)
theory Config
  imports Json Droppoint
begin

text \<open>
  \<open>internal/config/config.go\<close>: the relay's configuration, its defaults, the overrides from the
  environment and its validation. An error value that joins others is the list of its messages,
  empty for \<open>nil\<close>. The parser of \<open>net/url\<close> is an argument, \<open>None\<close> where it fails; the file and the
  environment are what the operating system returns for them.
\<close>

section \<open>Constants\<close>

definition DefaultListenAddr :: go_string where "DefaultListenAddr = ''127.0.0.1:8080''"
definition DefaultBaseURL :: go_string where "DefaultBaseURL = ''http://127.0.0.1:8080''"
definition DefaultDataDir :: go_string where "DefaultDataDir = ''.data/droppoint''"
definition DefaultTTLSeconds :: int where "DefaultTTLSeconds = 600"
definition DefaultMaxTTLSeconds :: int where "DefaultMaxTTLSeconds = 900"
definition DefaultMaxBytes :: int where "DefaultMaxBytes = 52428800"
definition DefaultMaxActiveDropPoints :: int where "DefaultMaxActiveDropPoints = 3"
definition DefaultReadTimeoutSeconds :: int where "DefaultReadTimeoutSeconds = 600"
definition DefaultWriteTimeoutSeconds :: int where "DefaultWriteTimeoutSeconds = 600"
definition DefaultCleanupIntervalSeconds :: int where "DefaultCleanupIntervalSeconds = 60"
definition DefaultTerminalRetentionSeconds :: int where
  "DefaultTerminalRetentionSeconds = 30 * 24 * 60 * 60"
definition MaxConfiguredDurationSeconds :: int where
  "MaxConfiguredDurationSeconds = 365 * 24 * 60 * 60"
definition MaxConfiguredPayloadBytes :: int where "MaxConfiguredPayloadBytes = 2 ^ 40"

lemmas config_defaults = DefaultListenAddr_def DefaultBaseURL_def DefaultDataDir_def
  DefaultTTLSeconds_def DefaultMaxTTLSeconds_def DefaultMaxBytes_def
  DefaultMaxActiveDropPoints_def DefaultReadTimeoutSeconds_def DefaultWriteTimeoutSeconds_def
  DefaultCleanupIntervalSeconds_def DefaultTerminalRetentionSeconds_def

lemmas config_bounds = MaxConfiguredDurationSeconds_def MaxConfiguredPayloadBytes_def

definition EnvListenAddr :: go_string where "EnvListenAddr = ''DROPPOINT_LISTEN_ADDR''"
definition EnvBaseURL :: go_string where "EnvBaseURL = ''DROPPOINT_BASE_URL''"
definition EnvDataDir :: go_string where "EnvDataDir = ''DROPPOINT_DATA_DIR''"
definition EnvDefaultTTLSeconds :: go_string where
  "EnvDefaultTTLSeconds = ''DROPPOINT_DEFAULT_TTL_SECONDS''"
definition EnvMaxTTLSeconds :: go_string where "EnvMaxTTLSeconds = ''DROPPOINT_MAX_TTL_SECONDS''"
definition EnvDefaultMaxBytes :: go_string where
  "EnvDefaultMaxBytes = ''DROPPOINT_DEFAULT_MAX_BYTES''"
definition EnvMaxBytes :: go_string where "EnvMaxBytes = ''DROPPOINT_MAX_BYTES''"
definition EnvDefaultMaxActiveDropPoints :: go_string where
  "EnvDefaultMaxActiveDropPoints = ''DROPPOINT_DEFAULT_MAX_ACTIVE_DROP_POINTS''"
definition EnvReadTimeoutSeconds :: go_string where
  "EnvReadTimeoutSeconds = ''DROPPOINT_READ_TIMEOUT_SECONDS''"
definition EnvWriteTimeoutSeconds :: go_string where
  "EnvWriteTimeoutSeconds = ''DROPPOINT_WRITE_TIMEOUT_SECONDS''"
definition EnvCleanupIntervalSeconds :: go_string where
  "EnvCleanupIntervalSeconds = ''DROPPOINT_CLEANUP_INTERVAL_SECONDS''"
definition EnvTerminalRetentionSeconds :: go_string where
  "EnvTerminalRetentionSeconds = ''DROPPOINT_TERMINAL_RETENTION_SECONDS''"

lemmas config_environment = EnvListenAddr_def EnvBaseURL_def EnvDataDir_def
  EnvDefaultTTLSeconds_def EnvMaxTTLSeconds_def EnvDefaultMaxBytes_def EnvMaxBytes_def
  EnvDefaultMaxActiveDropPoints_def EnvReadTimeoutSeconds_def EnvWriteTimeoutSeconds_def
  EnvCleanupIntervalSeconds_def EnvTerminalRetentionSeconds_def

section \<open>The configuration\<close>

record config =
  cfg_ListenAddr :: go_string
  cfg_BaseURL :: go_string
  cfg_DataDir :: go_string
  cfg_DefaultTTLSeconds :: int
  cfg_MaxTTLSeconds :: int
  cfg_DefaultMaxBytes :: int
  cfg_MaxBytes :: int
  cfg_DefaultMaxActiveDropPoints :: int
  cfg_ReadTimeoutSeconds :: int
  cfg_WriteTimeoutSeconds :: int
  cfg_CleanupIntervalSeconds :: int
  cfg_TerminalRetentionSeconds :: int

definition Default :: config where
  "Default =
     \<lparr>cfg_ListenAddr = DefaultListenAddr, cfg_BaseURL = DefaultBaseURL,
      cfg_DataDir = DefaultDataDir, cfg_DefaultTTLSeconds = DefaultTTLSeconds,
      cfg_MaxTTLSeconds = DefaultMaxTTLSeconds, cfg_DefaultMaxBytes = DefaultMaxBytes,
      cfg_MaxBytes = DefaultMaxBytes, cfg_DefaultMaxActiveDropPoints = DefaultMaxActiveDropPoints,
      cfg_ReadTimeoutSeconds = DefaultReadTimeoutSeconds,
      cfg_WriteTimeoutSeconds = DefaultWriteTimeoutSeconds,
      cfg_CleanupIntervalSeconds = DefaultCleanupIntervalSeconds,
      cfg_TerminalRetentionSeconds = DefaultTerminalRetentionSeconds\<rparr>"

section \<open>Environment overrides\<close>

text \<open>\<open>strconv.Atoi\<close> and \<open>strconv.ParseInt\<close> agree on a 64-bit platform. A value that does not parse
  gives 0 next to the error, and the 0 is assigned.\<close>

definition parseEnvInt64 :: "go_string \<Rightarrow> go_string \<Rightarrow> int \<times> go_string list" where
  "parseEnvInt64 name raw =
     (case parse_int64 raw of
        None \<Rightarrow> (0, [name @ '' must be an integer''])
      | Some n \<Rightarrow> (n, []))"

definition parseEnvInt :: "go_string \<Rightarrow> go_string \<Rightarrow> int \<times> go_string list" where
  "parseEnvInt = parseEnvInt64"

type_synonym override = "go_string \<times> (go_string \<Rightarrow> config \<Rightarrow> config \<times> go_string list)"

definition text_override :: "go_string \<Rightarrow> (go_string \<Rightarrow> config \<Rightarrow> config) \<Rightarrow> override" where
  "text_override name put = (name, \<lambda>v cfg. (put v cfg, []))"

definition int_override :: "go_string \<Rightarrow> (int \<Rightarrow> config \<Rightarrow> config) \<Rightarrow> override" where
  "int_override name put = (name, \<lambda>v cfg. case parseEnvInt name v of (n, err) \<Rightarrow> (put n cfg, err))"

definition config_overrides :: "override list" where
  "config_overrides =
     [text_override EnvListenAddr (\<lambda>v c. c\<lparr>cfg_ListenAddr := v\<rparr>),
      text_override EnvBaseURL (\<lambda>v c. c\<lparr>cfg_BaseURL := v\<rparr>),
      text_override EnvDataDir (\<lambda>v c. c\<lparr>cfg_DataDir := v\<rparr>),
      int_override EnvDefaultTTLSeconds (\<lambda>n c. c\<lparr>cfg_DefaultTTLSeconds := n\<rparr>),
      int_override EnvMaxTTLSeconds (\<lambda>n c. c\<lparr>cfg_MaxTTLSeconds := n\<rparr>),
      int_override EnvDefaultMaxBytes (\<lambda>n c. c\<lparr>cfg_DefaultMaxBytes := n\<rparr>),
      int_override EnvMaxBytes (\<lambda>n c. c\<lparr>cfg_MaxBytes := n\<rparr>),
      int_override EnvDefaultMaxActiveDropPoints (\<lambda>n c. c\<lparr>cfg_DefaultMaxActiveDropPoints := n\<rparr>),
      int_override EnvReadTimeoutSeconds (\<lambda>n c. c\<lparr>cfg_ReadTimeoutSeconds := n\<rparr>),
      int_override EnvWriteTimeoutSeconds (\<lambda>n c. c\<lparr>cfg_WriteTimeoutSeconds := n\<rparr>),
      int_override EnvCleanupIntervalSeconds (\<lambda>n c. c\<lparr>cfg_CleanupIntervalSeconds := n\<rparr>),
      int_override EnvTerminalRetentionSeconds (\<lambda>n c. c\<lparr>cfg_TerminalRetentionSeconds := n\<rparr>)]"

fun apply_overrides ::
    "override list \<Rightarrow> (go_string \<Rightarrow> go_string option) \<Rightarrow> config \<Rightarrow> config \<times> go_string list" where
  "apply_overrides [] lookup cfg = (cfg, [])"
| "apply_overrides ((name, app) # os) lookup cfg =
     (case lookup name of
        None \<Rightarrow> apply_overrides os lookup cfg
      | Some v \<Rightarrow>
          (case app v cfg of
             (cfg1, err) \<Rightarrow>
               (case apply_overrides os lookup cfg1 of (cfg2, errs) \<Rightarrow> (cfg2, err @ errs))))"

text \<open>The lookup function can be \<open>nil\<close>.\<close>

definition ApplyEnvironmentOverrides ::
    "config \<Rightarrow> (go_string \<Rightarrow> go_string option) option \<Rightarrow> config \<times> go_string list" where
  "ApplyEnvironmentOverrides cfg lookup =
     (case lookup of None \<Rightarrow> (cfg, []) | Some f \<Rightarrow> apply_overrides config_overrides f cfg)"

section \<open>Validation\<close>

text \<open>What the code reads of a \<open>url.URL\<close>; \<open>u_Hostname\<close> is the result of its method \<open>Hostname\<close>.\<close>

record parsed_url =
  u_Scheme :: go_string
  u_Host :: go_string
  u_Hostname :: go_string
  u_RawQuery :: go_string
  u_Fragment :: go_string
  u_User :: "go_string option"
  u_Path :: go_string

type_synonym url_parser = "go_string \<Rightarrow> parsed_url option"

text \<open>\<open>strings.EqualFold\<close> for an ASCII text \<open>t\<close>.\<close>

definition EqualFold :: "go_string \<Rightarrow> go_string \<Rightarrow> bool" where
  "EqualFold s t \<longleftrightarrow> fold_name s = fold_name t"

definition validateBaseURL :: "url_parser \<Rightarrow> go_string \<Rightarrow> go_string list" where
  "validateBaseURL parse raw =
     (case parse raw of
        None \<Rightarrow> [''base_url is invalid'']
      | Some u \<Rightarrow>
          if u_Scheme u = [] \<or> u_Host u = [] \<or> u_Hostname u = []
          then [''base_url must include scheme and host'']
          else if \<not> EqualFold (u_Scheme u) ''http'' \<and> \<not> EqualFold (u_Scheme u) ''https''
          then [''base_url scheme must be http or https'']
          else if u_RawQuery u \<noteq> [] \<or> u_Fragment u \<noteq> []
          then [''base_url must not include query or fragment'']
          else if u_User u \<noteq> None then [''base_url must not include user info'']
          else if u_Path u \<noteq> [] \<and> u_Path u \<noteq> ''/''
          then [''base_url must be a root origin without a path prefix'']
          else [])"

definition validateDurationSeconds :: "go_string \<Rightarrow> int \<Rightarrow> go_string list" where
  "validateDurationSeconds name v =
     (if v \<le> 0 \<or> v > MaxConfiguredDurationSeconds then [name @ '' is out of range''] else [])"

definition check_that :: "bool \<Rightarrow> go_string \<Rightarrow> go_string list" where
  "check_that ok msg = (if ok then [] else [msg])"

definition Validate :: "url_parser \<Rightarrow> config \<Rightarrow> go_string list" where
  "Validate parse c =
     check_that (cfg_ListenAddr c \<noteq> []) ''listen_addr must not be empty''
     @ validateBaseURL parse (cfg_BaseURL c)
     @ check_that (cfg_DataDir c \<noteq> []) ''data_dir must not be empty''
     @ validateDurationSeconds ''default_ttl_seconds'' (cfg_DefaultTTLSeconds c)
     @ validateDurationSeconds ''max_ttl_seconds'' (cfg_MaxTTLSeconds c)
     @ check_that (\<not> cfg_DefaultTTLSeconds c > cfg_MaxTTLSeconds c)
         ''default_ttl_seconds must not exceed max_ttl_seconds''
     @ check_that (\<not> (cfg_DefaultMaxBytes c \<le> 0 \<or> cfg_DefaultMaxBytes c > MaxConfiguredPayloadBytes))
         ''default_max_bytes is out of range''
     @ check_that (\<not> (cfg_MaxBytes c \<le> 0 \<or> cfg_MaxBytes c > MaxConfiguredPayloadBytes))
         ''max_bytes is out of range''
     @ check_that (\<not> cfg_DefaultMaxBytes c > cfg_MaxBytes c)
         ''default_max_bytes must not exceed max_bytes''
     @ check_that (\<not> cfg_DefaultMaxActiveDropPoints c \<le> 0)
         ''default_max_active_drop_points must be positive''
     @ validateDurationSeconds ''read_timeout_seconds'' (cfg_ReadTimeoutSeconds c)
     @ validateDurationSeconds ''write_timeout_seconds'' (cfg_WriteTimeoutSeconds c)
     @ validateDurationSeconds ''cleanup_interval_seconds'' (cfg_CleanupIntervalSeconds c)
     @ validateDurationSeconds ''terminal_retention_seconds'' (cfg_TerminalRetentionSeconds c)"

section \<open>Loading\<close>

definition config_fields :: "go_string list" where
  "config_fields =
     [''listen_addr'', ''base_url'', ''data_dir'', ''default_ttl_seconds'', ''max_ttl_seconds'',
      ''default_max_bytes'', ''max_bytes'', ''default_max_active_drop_points'',
      ''read_timeout_seconds'', ''write_timeout_seconds'', ''cleanup_interval_seconds'',
      ''terminal_retention_seconds'']"

definition assign_config :: "go_string \<Rightarrow> json \<Rightarrow> config \<Rightarrow> config option" where
  "assign_config f v c =
     (if f = ''listen_addr'' then map_option (\<lambda>x. c\<lparr>cfg_ListenAddr := x\<rparr>) (decode_string v (cfg_ListenAddr c))
      else if f = ''base_url'' then map_option (\<lambda>x. c\<lparr>cfg_BaseURL := x\<rparr>) (decode_string v (cfg_BaseURL c))
      else if f = ''data_dir'' then map_option (\<lambda>x. c\<lparr>cfg_DataDir := x\<rparr>) (decode_string v (cfg_DataDir c))
      else if f = ''default_ttl_seconds''
      then map_option (\<lambda>x. c\<lparr>cfg_DefaultTTLSeconds := x\<rparr>) (decode_int v (cfg_DefaultTTLSeconds c))
      else if f = ''max_ttl_seconds''
      then map_option (\<lambda>x. c\<lparr>cfg_MaxTTLSeconds := x\<rparr>) (decode_int v (cfg_MaxTTLSeconds c))
      else if f = ''default_max_bytes''
      then map_option (\<lambda>x. c\<lparr>cfg_DefaultMaxBytes := x\<rparr>) (decode_int v (cfg_DefaultMaxBytes c))
      else if f = ''max_bytes''
      then map_option (\<lambda>x. c\<lparr>cfg_MaxBytes := x\<rparr>) (decode_int v (cfg_MaxBytes c))
      else if f = ''default_max_active_drop_points''
      then map_option (\<lambda>x. c\<lparr>cfg_DefaultMaxActiveDropPoints := x\<rparr>)
             (decode_int v (cfg_DefaultMaxActiveDropPoints c))
      else if f = ''read_timeout_seconds''
      then map_option (\<lambda>x. c\<lparr>cfg_ReadTimeoutSeconds := x\<rparr>) (decode_int v (cfg_ReadTimeoutSeconds c))
      else if f = ''write_timeout_seconds''
      then map_option (\<lambda>x. c\<lparr>cfg_WriteTimeoutSeconds := x\<rparr>) (decode_int v (cfg_WriteTimeoutSeconds c))
      else if f = ''cleanup_interval_seconds''
      then map_option (\<lambda>x. c\<lparr>cfg_CleanupIntervalSeconds := x\<rparr>) (decode_int v (cfg_CleanupIntervalSeconds c))
      else map_option (\<lambda>x. c\<lparr>cfg_TerminalRetentionSeconds := x\<rparr>)
             (decode_int v (cfg_TerminalRetentionSeconds c)))"

definition decode_config :: "go_string \<Rightarrow> config \<Rightarrow> error + config" where
  "decode_config data cfg =
     (case decode_one data of
        Decoded v rest \<Rightarrow>
          (case decode_struct config_fields assign_config v cfg of
             None \<Rightarrow> Inl (ErrOther ''decode config'')
           | Some c \<Rightarrow>
               (case decode_one rest of
                  EndOfInput \<Rightarrow> Inr c
                | DecodeError \<Rightarrow> Inl (ErrOther ''decode config'')
                | Decoded _ _ \<Rightarrow> Inl (ErrOther ''decode config: trailing JSON value'')))
      | _ \<Rightarrow> Inl (ErrOther ''decode config''))"

text \<open>\<open>file\<close> is \<open>None\<close> for an empty path, otherwise the result of opening and reading it.\<close>

definition Load ::
    "url_parser \<Rightarrow> (error + go_string) option \<Rightarrow> (go_string \<Rightarrow> go_string option) \<Rightarrow> error + config" where
  "Load parse file lookup =
     (case (case file of
              None \<Rightarrow> Inr Default
            | Some (Inl err) \<Rightarrow> Inl err
            | Some (Inr data) \<Rightarrow> decode_config data Default) of
        Inl err \<Rightarrow> Inl err
      | Inr cfg \<Rightarrow>
          (case ApplyEnvironmentOverrides cfg (Some lookup) of
             (envConfig, errs) \<Rightarrow>
               if errs \<noteq> [] then Inl (ErrOther (concat errs))
               else if Validate parse envConfig \<noteq> [] then Inl (ErrOther (concat (Validate parse envConfig)))
               else Inr envConfig))"

end
