(* ===== verification/Server.thy ===== *)
theory Server
  imports Config Cleanup
begin

text \<open>
  \<open>internal/server/server.go\<close> and \<open>internal/config/datadir.go\<close>: the preparation of the data
  directory, the cleanup service a configuration asks for, the start of the server and the cleanup
  loop. Opening the database file and listening on the network are not part of the model: the
  database is the world's, and \<open>opened\<close> is the result of opening it.
\<close>

definition readHeaderTimeout :: duration where "readHeaderTimeout = 10 * second"
definition idleTimeout :: duration where "idleTimeout = 120 * second"
definition cleanupOperationTimeout :: duration where "cleanupOperationTimeout = 30 * second"

section \<open>The data directory\<close>

text \<open>Paths are relative to the data directory itself, the empty path.\<close>

definition os_Stat :: "path \<Rightarrow> fs \<Rightarrow> error + bool" where
  "os_Stat p t =
     (case fs_get t p of None \<Rightarrow> Inl ErrNotExist | Some n \<Rightarrow> Inr (n = Dir))"

definition ensureDirectory :: "path \<Rightarrow> unit result io" where
  "ensureDirectory p = do {
     r1 \<leftarrow> fs_exec (os_MkdirAll p);
     case r1 of Inl err \<Rightarrow> State_Monad.return (Inl err) | Inr _ \<Rightarrow> do {
     r2 \<leftarrow> fs_exec (os_Chmod p);
     case r2 of Inl err \<Rightarrow> State_Monad.return (Inl err) | Inr _ \<Rightarrow> do {
     info \<leftarrow> fs_read (os_Stat p);
     State_Monad.return (case info of
         Inl err \<Rightarrow> Inl err
       | Inr isDir \<Rightarrow> if \<not> isDir then Inl (ErrOther ''not a directory'') else Inr ())
     }}
   }"

definition EnsureDataDir :: "go_string \<Rightarrow> unit result io" where
  "EnsureDataDir dataDir =
     (if dataDir = [] then State_Monad.return (Inl (ErrOther ''data directory path must not be empty''))
      else do {
        r1 \<leftarrow> ensureDirectory [];
        case r1 of
          Inl err \<Rightarrow> State_Monad.return (Inl err)
        | Inr _ \<Rightarrow> ensureDirectory [DropPointsDirName]
      })"

section \<open>The cleanup service\<close>

definition secondsDuration :: "int \<Rightarrow> duration" where
  "secondsDuration seconds = wrap64 (seconds * second)"

definition newCleanupService :: "config \<Rightarrow> cleanup_service" where
  "newCleanupService cfg =
     \<lparr>TerminalRetention = secondsDuration (cfg_TerminalRetentionSeconds cfg),
      ReceivingStaleAfter =
        wrap64 (max (secondsDuration (cfg_ReadTimeoutSeconds cfg))
                    (secondsDuration (cfg_WriteTimeoutSeconds cfg)) + cleanupOperationTimeout)\<rparr>"

definition cleanupResultHasWork :: "cleanup_result \<Rightarrow> bool" where
  "cleanupResultHasWork res \<longleftrightarrow>
     RecoveredReceiving res \<noteq> 0 \<or> ExpiredDropPoints res \<noteq> 0 \<or> DeletedPayloads res \<noteq> 0
     \<or> DeletedOrphans res \<noteq> 0 \<or> PurgedRows res \<noteq> 0"

section \<open>Starting and running\<close>

text \<open>What the server's \<open>http.Server\<close> is given.\<close>

record http_server =
  hs_Addr :: go_string
  hs_ReadHeaderTimeout :: duration
  hs_ReadTimeout :: duration
  hs_WriteTimeout :: duration
  hs_IdleTimeout :: duration

definition server_New :: "url_parser \<Rightarrow> unit result \<Rightarrow> config \<Rightarrow> http_server result io" where
  "server_New parse opened cfg =
     (if Validate parse cfg \<noteq> [] then State_Monad.return (Inl (ErrOther (concat (Validate parse cfg))))
      else do {
        dir \<leftarrow> EnsureDataDir (cfg_DataDir cfg);
        case dir of Inl err \<Rightarrow> State_Monad.return (Inl err) | Inr _ \<Rightarrow>
        case opened of Inl err \<Rightarrow> State_Monad.return (Inl err) | Inr _ \<Rightarrow> do {
        (res, e) \<leftarrow> ReconcileStartup (newCleanupService cfg);
        State_Monad.return (case e of
            Some err \<Rightarrow> Inl err
          | None \<Rightarrow>
              Inr \<lparr>hs_Addr = cfg_ListenAddr cfg, hs_ReadHeaderTimeout = readHeaderTimeout,
                   hs_ReadTimeout = secondsDuration (cfg_ReadTimeoutSeconds cfg),
                   hs_WriteTimeout = secondsDuration (cfg_WriteTimeoutSeconds cfg),
                   hs_IdleTimeout = idleTimeout\<rparr>)
        }
      })"

text \<open>The cleanup loop: a pass at once, then one at every tick of the timer; an error is logged
  and the next tick tries again. The argument counts the ticks until the loop is stopped.\<close>

fun cleanup_loop :: "config \<Rightarrow> nat \<Rightarrow> unit io" where
  "cleanup_loop cfg 0 = do {
     _ \<leftarrow> service_Expire (newCleanupService cfg);
     State_Monad.return ()
   }"
| "cleanup_loop cfg (Suc ticks) = do {
     _ \<leftarrow> service_Expire (newCleanupService cfg);
     cleanup_loop cfg ticks
   }"

end
