(* ===== verification/Http.thy ===== *)
theory Http
  imports Server Store
begin

text \<open>
  The frame of the HTTP API in \<open>internal/httpapi\<close>: requests and responses, the dependencies of the
  handlers, the error responses (\<open>responses.go\<close>, and the functions that choose a status and a code
  for an error), bearer tokens and API token authentication (\<open>auth.go\<close>). A response is its status,
  the header fields the code sets, and its body as the handler composed it; the JSON rendering of
  the body and the log lines of the handlers are left out. The parsers of \<open>mime\<close>,
  \<open>mime/multipart\<close> and \<open>net/url\<close> are arguments.
\<close>

section \<open>Requests\<close>

text \<open>A part of a multipart stream with the stream of its content, or the error \<open>NextPart\<close>
  returns; the end of the list is \<open>io.EOF\<close>.\<close>

datatype part =
    NextPart (part_FormName: go_string) (part_ContentType: go_string) (part_Content: "read_event list")
  | NextPartError error

text \<open>A request body is what can be read of it and the error it ends with, \<open>None\<close> for \<open>io.EOF\<close>.
  \<open>rq_Parts boundary limit\<close> is what a multipart reader yields of the body behind
  \<open>http.MaxBytesReader\<close> with that limit.\<close>

type_synonym body = "go_string \<times> error option"

text \<open>\<open>rq_Path\<close> is the path as \<open>http.ServeMux\<close> takes it apart: the unescaped segments, a trailing
  slash being the segment \<open>/\<close>.\<close>

record request =
  rq_Method :: go_string
  rq_Path :: "go_string list"
  rq_EscapedPath :: go_string
  rq_Origin :: go_string
  rq_Authorization :: go_string
  rq_ContentType :: go_string
  rq_Body :: body
  rq_Parts :: "go_string \<Rightarrow> int \<Rightarrow> part list"

definition MaxBytesReader :: "nat \<Rightarrow> body \<Rightarrow> body" where
  "MaxBytesReader limit b =
     (if length (fst b) \<le> limit then b else (take limit (fst b), Some ErrMaxBytes))"

type_synonym media_parser = "go_string \<Rightarrow> (go_string \<times> (go_string \<times> go_string) list) option"

text \<open>The configuration, whether the repository and the blob store are there, the parsers, and the
  embedded files of the drop page.\<close>

type_synonym embedded_files = "go_string \<Rightarrow> go_string option"

record dependencies =
  dep_Config :: config
  dep_Repository :: bool
  dep_BlobStore :: bool
  dep_ParseMediaType :: media_parser
  dep_ParseURL :: url_parser
  dep_Files :: embedded_files

definition MethodHead :: go_string where "MethodHead = ''HEAD''"

section \<open>Responses\<close>

record submission_summary =
  sum_SubmissionID :: go_string
  sum_EncryptedSize :: int
  sum_DroppedAt :: "time option"
  sum_FirstPickedUpAt :: "time option"

record drop_metadata_response =
  md_DisplayName :: go_string
  md_ExpiresAt :: time
  md_MaxBytes :: int
  md_MaxPendingSubmissions :: int
  md_MaxPendingBytes :: int

record drop_point_status_response =
  st_Status :: status
  st_DisplayName :: go_string
  st_ExpiresAt :: time
  st_PendingSubmissions :: nat
  st_PendingBytes :: int
  st_MaxPendingSubmissions :: int
  st_MaxPendingBytes :: int

record created_response =
  crr_DropPointID :: go_string
  crr_DisplayName :: go_string
  crr_DropLink :: go_string
  crr_PickupToken :: go_string
  crr_ExpiresAt :: time
  crr_MaxBytes :: int
  crr_MaxPendingSubmissions :: int
  crr_MaxPendingBytes :: int

datatype response_body =
    NoBody
  | ErrorBody (error_code: go_string) go_string
  | CreatedBody created_response
  | MetadataBody drop_metadata_response
  | StatusBody drop_point_status_response
  | SubmissionsBody "submission_summary list"
  | SubmitBody go_string submission_status
  | PickupBody go_string go_string
  | TextBody go_string
  | BrokenBody

type_synonym header = "(go_string \<times> go_string) list"

definition NoStore :: "go_string \<times> go_string" where
  "NoStore = (''Cache-Control'', ''no-store'')"

record response =
  rs_Status :: nat
  rs_Header :: header
  rs_Body :: response_body

definition writeJSON :: "nat \<Rightarrow> response_body \<Rightarrow> response" where
  "writeJSON st b =
     \<lparr>rs_Status = st, rs_Header = [(''Content-Type'', ''application/json''), NoStore], rs_Body = b\<rparr>"

definition writeError :: "nat \<Rightarrow> go_string \<Rightarrow> go_string \<Rightarrow> response" where
  "writeError st code message = writeJSON st (ErrorBody code message)"

definition StatusNoContent :: response where
  "StatusNoContent = \<lparr>rs_Status = 204, rs_Header = [], rs_Body = NoBody\<rparr>"

lemmas response_defs = writeJSON_def writeError_def StatusNoContent_def

section \<open>The response for an error\<close>

definition writeSubmissionUnavailable :: "error \<Rightarrow> response" where
  "writeSubmissionUnavailable err =
     (if errors_is err ErrSubmissionNotFound
      then writeError 404 ''submission_not_found'' ''submission not found''
      else if errors_is err ErrSubmissionAcknowledged
      then writeError 410 ''submission_acknowledged'' ''submission is already acknowledged''
      else if errors_is err ErrSubmissionFailed
      then writeError 410 ''submission_failed'' ''submission is unavailable''
      else if errors_is err ErrSubmissionNotReady
      then writeError 409 ''submission_not_ready'' ''submission is not ready''
      else writeError 500 ''submission_failed'' ''could not process submission'')"

definition submissionStatusError :: "submission_status \<Rightarrow> error" where
  "submissionStatusError st =
     (case st of
        SubmissionStatusAcknowledged \<Rightarrow> ErrSubmissionAcknowledged
      | SubmissionStatusFailed \<Rightarrow> ErrSubmissionFailed
      | _ \<Rightarrow> ErrSubmissionNotReady)"

definition dropRequestTooLarge :: "error \<Rightarrow> bool" where
  "dropRequestTooLarge err \<longleftrightarrow> errors_is err ErrPayloadTooLarge \<or> errors_is err ErrMaxBytes"

definition writeStorageFailure :: "error \<Rightarrow> response" where
  "writeStorageFailure err =
     (case ClassifyFailure err of
        FailureCapacity \<Rightarrow> writeError 507 ''storage_full'' ''drop storage has insufficient capacity''
      | FailureUnavailable \<Rightarrow>
          writeError 503 ''drop_storage_unavailable'' ''drop storage is temporarily unavailable''
      | _ \<Rightarrow> writeError 500 ''drop_storage_failed'' ''could not durably store the drop'')"

definition writeSubmissionStorageFailure :: "error \<Rightarrow> response" where
  "writeSubmissionStorageFailure err =
     (if dropRequestTooLarge err
      then writeError 413 ''payload_too_large'' ''encrypted payload exceeds the drop point limit''
      else if ClassifyFailure err = FailureClientInput
      then writeError 400 ''drop_multipart_invalid'' ''could not read the encrypted payload''
      else writeStorageFailure err)"

definition writeDropAuthError :: "error \<Rightarrow> response" where
  "writeDropAuthError err =
     (if errors_is err ErrDropTokenInvalid \<or> errors_is err ErrDropPointNotFound
      then writeError 404 ''drop_point_not_found'' ''drop point not found''
      else if errors_is err ErrDropPointExpired \<or> errors_is err ErrDropPointClosed
              \<or> errors_is err ErrDropPointFailed
      then writeError 410 ''drop_point_unavailable'' ''drop point is unavailable''
      else if errors_is err ErrPendingSubmissionQuotaExceeded
              \<or> errors_is err ErrPendingBytesQuotaExceeded
      then writeError 429 ''submission_queue_full'' ''drop point submission queue is full''
      else if errors_is err ErrSubmissionAlreadyExists \<or> errors_is err ErrDropPointNotOpen
      then writeError 409 ''submission_unavailable'' ''submission cannot be accepted''
      else writeError 500 ''drop_failed'' ''could not complete drop'')"

definition writeMultipartDropError :: "error \<Rightarrow> response" where
  "writeMultipartDropError err =
     (if errors_is err ErrPayloadTooLarge \<or> errors_is err ErrMaxBytes
      then writeError 413 ''payload_too_large'' ''encrypted payload exceeds the drop point limit''
      else if errors_is err ErrEnvelopeInvalid
      then writeError 400 ''envelope_invalid'' ''envelope is invalid''
      else writeError 400 ''drop_multipart_invalid''
             ''drop must contain envelope JSON and payload octet-stream parts'')"

lemmas error_response_defs = writeSubmissionUnavailable_def writeStorageFailure_def
  writeSubmissionStorageFailure_def writeDropAuthError_def writeMultipartDropError_def

section \<open>Bearer tokens\<close>

definition bearerToken :: "go_string \<Rightarrow> go_string option" where
  "bearerToken authorization =
     (if \<not> has_prefix authorization ''Bearer '' then None
      else let v = trim_space (trim_prefix authorization ''Bearer '') in
           if v = [] \<or> contains_any v [CHR '' '', CHR 0x09, CHR 0x0D, CHR 0x0A] then None
           else Some v)"

record authenticated_api_token =
  auth_ID :: go_string
  auth_MaxActiveDropPoints :: int

text \<open>\<open>Inr None\<close> is the source's \<open>false\<close> without an error.\<close>

definition authenticateAPIToken ::
    "int \<Rightarrow> go_string \<Rightarrow> authenticated_api_token option result io" where
  "authenticateAPIToken defaultMax authorization =
     (case bearerToken authorization of
        None \<Rightarrow> State_Monad.return (Inr None)
      | Some plaintext \<Rightarrow> do {
          r \<leftarrow> repo_FindEnabledAPITokenBySecretHash (HashSecret plaintext);
          State_Monad.return (case r of
              Inl err \<Rightarrow> if errors_is err ErrStoreAPITokenNotFound then Inr None else Inl err
            | Inr t \<Rightarrow>
                Inr (Some \<lparr>auth_ID = tok_ID t,
                           auth_MaxActiveDropPoints =
                             (case tok_MaxActiveDropPoints t of None \<Rightarrow> defaultMax | Some n \<Rightarrow> n)\<rparr>))
        })"

section \<open>Methods\<close>

text \<open>\<open>getOrHead\<close>: the answer to a HEAD request is sent without its body.\<close>

definition getOrHead :: "(request \<Rightarrow> response io) \<Rightarrow> request \<Rightarrow> response io" where
  "getOrHead handler r = do {
     resp \<leftarrow> handler r;
     State_Monad.return (if rq_Method r = MethodHead then resp\<lparr>rs_Body := NoBody\<rparr> else resp)
   }"

definition methodNotAllowed :: "go_string \<Rightarrow> response" where
  "methodNotAllowed allow =
     (let resp = writeError 405 ''method_not_allowed'' ''method not allowed''
      in resp\<lparr>rs_Header := (''Allow'', allow) # rs_Header resp\<rparr>)"

end
