(* ===== verification/Http_Create.thy ===== *)
theory Http_Create
  imports Http Dropname
begin

text \<open>
  \<open>internal/httpapi/create.go\<close>, \<open>POST /api/drop-points\<close>: reading and checking the request, the
  allocation of secrets with up to three attempts, and the response. The petname package is the
  world's list of names.
\<close>

definition maxCreateRequestBytes :: nat where "maxCreateRequestBytes = 1048576"
definition maxClientNameUTF8Bytes :: nat where "maxClientNameUTF8Bytes = 128"
definition jsonContentType :: go_string where "jsonContentType = ''application/json''"

section \<open>The request\<close>

record 'a present_value =
  pv_Value :: 'a
  pv_Present :: bool
  pv_Null :: bool

definition absent :: "'a \<Rightarrow> 'a present_value" where
  "absent zero = \<lparr>pv_Value = zero, pv_Present = False, pv_Null = False\<rparr>"

text \<open>\<open>UnmarshalJSON\<close>, with the decoder of the value's type.\<close>

definition unmarshal_present ::
    "(json \<Rightarrow> 'a \<Rightarrow> 'a option) \<Rightarrow> json \<Rightarrow> 'a present_value \<Rightarrow> 'a present_value option" where
  "unmarshal_present dec v pv =
     (if v = JNull then Some (pv\<lparr>pv_Present := True, pv_Null := True\<rparr>)
      else map_option (\<lambda>x. pv\<lparr>pv_Present := True, pv_Value := x\<rparr>) (dec v (pv_Value pv)))"

record create_request =
  req_ClientName :: "go_string present_value"
  req_TTLSeconds :: "int present_value"
  req_MaxBytes :: "int present_value"

definition create_fields :: "go_string list" where
  "create_fields = [''client_name'', ''ttl_seconds'', ''max_bytes'']"

definition assign_create :: "go_string \<Rightarrow> json \<Rightarrow> create_request \<Rightarrow> create_request option" where
  "assign_create f v q =
     (if f = ''client_name''
      then map_option (\<lambda>x. q\<lparr>req_ClientName := x\<rparr>) (unmarshal_present decode_string v (req_ClientName q))
      else if f = ''ttl_seconds''
      then map_option (\<lambda>x. q\<lparr>req_TTLSeconds := x\<rparr>) (unmarshal_present decode_int v (req_TTLSeconds q))
      else map_option (\<lambda>x. q\<lparr>req_MaxBytes := x\<rparr>) (unmarshal_present decode_int v (req_MaxBytes q)))"

definition zero_create_request :: create_request where
  "zero_create_request =
     \<lparr>req_ClientName = absent [], req_TTLSeconds = absent 0, req_MaxBytes = absent 0\<rparr>"

definition invalid_json :: "go_string \<Rightarrow> response" where
  "invalid_json message = writeError 400 ''invalid_json'' message"

text \<open>The scanner needs the byte after a value that no bracket ends, so such a value is not complete
  where the stream ends in an error.\<close>

definition self_delimiting :: "json \<Rightarrow> bool" where
  "self_delimiting v = (case v of JObject _ \<Rightarrow> True | JArray _ \<Rightarrow> True | _ \<Rightarrow> False)"

text \<open>One \<open>Decode\<close> of a body that can end in an error: the value and what follows it, or the error,
  \<open>ErrOther\<close> for a syntax error and \<open>None\<close> for \<open>io.EOF\<close>.\<close>

definition decode_body :: "body \<Rightarrow> error option + json \<times> go_string" where
  "decode_body b =
     (case b of (data, err) \<Rightarrow>
        (case read_value [] data of
           Scanned v rest \<Rightarrow>
             if err \<noteq> None \<and> rest = [] \<and> \<not> self_delimiting v then Inl err else Inr (v, rest)
         | Malformed \<Rightarrow> Inl (Some (ErrOther ''invalid JSON''))
         | Truncated \<Rightarrow>
             (case err of
                Some e \<Rightarrow> Inl (Some e)
              | None \<Rightarrow> if blank_rest data then Inl None else Inl (Some (ErrOther ''unexpected EOF'')))))"

text \<open>\<open>raw\<close> is the text of the first value.\<close>

definition raw_text :: "go_string \<Rightarrow> go_string \<Rightarrow> go_string" where
  "raw_text data rest =
     (let s = dropWhile json_space data in take (length s - length rest) s)"

definition decodeCreateRequest :: "body \<Rightarrow> response + create_request" where
  "decodeCreateRequest b =
     (let limited = MaxBytesReader maxCreateRequestBytes b in
      case decode_body limited of
        Inl err \<Rightarrow>
          if (case err of None \<Rightarrow> False | Some e \<Rightarrow> errors_is e ErrMaxBytes)
          then Inl (writeError 413 ''request_too_large'' ''create request exceeds the size limit'')
          else Inl (invalid_json ''request body must be a non-null JSON object'')
      | Inr (v, rest) \<Rightarrow>
          (case decode_body (rest, snd limited) of
             Inr _ \<Rightarrow> Inl (invalid_json ''request body must contain one JSON value'')
           | Inl (Some _) \<Rightarrow> Inl (invalid_json ''request body must be valid JSON'')
           | Inl None \<Rightarrow>
               if \<not> utf8_valid (raw_text (fst limited) rest) \<or> (case v of JObject _ \<Rightarrow> False | _ \<Rightarrow> True)
               then Inl (invalid_json ''request body must be a non-null JSON object'')
               else (case decode_struct create_fields assign_create v zero_create_request of
                       None \<Rightarrow> Inl (invalid_json ''request body must use the documented field types'')
                     | Some req \<Rightarrow> Inr req)))"

definition validClientName :: "go_string \<Rightarrow> bool" where
  "validClientName v =
     (if v = [] \<or> \<not> utf8_valid v \<or> length v > maxClientNameUTF8Bytes \<or> trim_space v = [] then False
      else \<not> list_ex (\<lambda>r. is_control r \<or> is_format r) (runes v))"

definition validateCreateRequest :: "config \<Rightarrow> create_request \<Rightarrow> response + int \<times> int" where
  "validateCreateRequest cfg req =
     (if pv_Null (req_ClientName req)
         \<or> pv_Present (req_ClientName req) \<and> \<not> validClientName (pv_Value (req_ClientName req))
      then Inl (writeError 400 ''client_name_invalid''
             ''client_name must be a non-blank string of at most 128 UTF-8 bytes without control characters'')
      else if pv_Null (req_TTLSeconds req)
      then Inl (writeError 400 ''ttl_seconds_invalid'' ''ttl_seconds must be a positive integer when present'')
      else let ttlSeconds = (if pv_Present (req_TTLSeconds req) then pv_Value (req_TTLSeconds req)
                             else cfg_DefaultTTLSeconds cfg) in
      if ttlSeconds \<le> 0
      then Inl (writeError 400 ''ttl_seconds_invalid'' ''ttl_seconds must be positive'')
      else if ttlSeconds > cfg_MaxTTLSeconds cfg
      then Inl (writeError 400 ''ttl_seconds_too_large'' ''ttl_seconds exceeds the configured maximum'')
      else if pv_Null (req_MaxBytes req)
      then Inl (writeError 400 ''max_bytes_invalid'' ''max_bytes must be a positive integer when present'')
      else let maxBytes = (if pv_Present (req_MaxBytes req) then pv_Value (req_MaxBytes req)
                           else cfg_DefaultMaxBytes cfg) in
      if maxBytes \<le> 0
      then Inl (writeError 400 ''max_bytes_invalid'' ''max_bytes must be positive'')
      else if maxBytes > cfg_MaxBytes cfg
      then Inl (writeError 400 ''max_bytes_too_large'' ''max_bytes exceeds the configured maximum'')
      else Inr (ttlSeconds, maxBytes))"

section \<open>Allocation\<close>

definition generateDropPointSecrets :: "(go_string \<times> go_string \<times> go_string) result io" where
  "generateDropPointSecrets = do {
     s1 \<leftarrow> rand_read entropyBytes;
     case GenerateDropPointID s1 of Inl err \<Rightarrow> State_Monad.return (Inl err) | Inr dpid \<Rightarrow> do {
     s2 \<leftarrow> rand_read entropyBytes;
     case GenerateDropToken s2 of Inl err \<Rightarrow> State_Monad.return (Inl err) | Inr dropToken \<Rightarrow> do {
     s3 \<leftarrow> rand_read entropyBytes;
     State_Monad.return (case GeneratePickupToken s3 of
         Inl err \<Rightarrow> Inl err
       | Inr pickupToken \<Rightarrow> Inr (dpid, dropToken, pickupToken))
     }}
   }"

definition generate_name :: "go_string result io" where
  "generate_name = State (\<lambda>w.
     case Generate (w_names w) of (r, names) \<Rightarrow> (r, w\<lparr>w_names := names\<rparr>))"

definition maxPendingSubmissions :: int where "maxPendingSubmissions = 10"

text \<open>\<open>attempts\<close> counts the attempts that are left; a collision of the last one is returned.\<close>

fun allocate ::
    "nat \<Rightarrow> go_string \<Rightarrow> int \<Rightarrow> go_string \<Rightarrow> duration \<Rightarrow> int \<Rightarrow> time \<Rightarrow> create_drop_point_response result io" where
  "allocate 0 apiTokenID maxActive clientName ttl maxBytes now =
     State_Monad.return (Inl (ErrOther ''could not allocate unique drop point identifiers''))"
| "allocate (Suc attempts) apiTokenID maxActive clientName ttl maxBytes now = do {
     secrets \<leftarrow> generateDropPointSecrets;
     case secrets of Inl err \<Rightarrow> State_Monad.return (Inl err) | Inr (dpid, dropToken, pickupToken) \<Rightarrow> do {
     name \<leftarrow> generate_name;
     case name of Inl err \<Rightarrow> State_Monad.return (Inl err) | Inr displayName \<Rightarrow>
     case New \<lparr>cr_ID = dpid, cr_APITokenID = apiTokenID, cr_ClientName = clientName,
               cr_DisplayName = displayName, cr_DropTokenHash = HashSecret dropToken,
               cr_PickupTokenHash = HashSecret pickupToken, cr_TTL = ttl, cr_MaxBytes = maxBytes,
               cr_MaxPendingSubmissions = maxPendingSubmissions,
               cr_MaxPendingBytes = wrap64 (maxBytes * maxPendingSubmissions)\<rparr> now of
       Inl err \<Rightarrow> State_Monad.return (Inl err)
     | Inr dp \<Rightarrow> do {
     created \<leftarrow> repo_CreateDropPointWithinQuota dp maxActive now;
     case created of
       Inl err \<Rightarrow>
         if attempts > 0 \<and> errors_is err ErrUniqueConstraint
         then allocate attempts apiTokenID maxActive clientName ttl maxBytes now
         else State_Monad.return (Inl err)
     | Inr _ \<Rightarrow>
         State_Monad.return (Inr
           \<lparr>resp_DropPointID = dpid, resp_DisplayName = displayName, resp_DropToken = dropToken,
            resp_PickupToken = pickupToken, resp_ExpiresAt = dp_ExpiresAt dp,
            resp_MaxBytes = maxBytes, resp_MaxPendingSubmissions = maxPendingSubmissions,
            resp_MaxPendingBytes = wrap64 (maxBytes * maxPendingSubmissions)\<rparr>)
     }}
   }"

definition createDropPoint ::
    "go_string \<Rightarrow> int \<Rightarrow> go_string \<Rightarrow> duration \<Rightarrow> int \<Rightarrow> time \<Rightarrow> create_drop_point_response result io" where
  "createDropPoint = allocate 3"

section \<open>The response\<close>

text \<open>\<open>url.PathEscape\<close>.\<close>

definition path_plain :: "char \<Rightarrow> bool" where
  "path_plain c \<longleftrightarrow>
     in_range 48 57 c \<or> in_range 65 90 c \<or> in_range 97 122 c \<or> List.member ''-_.~$&+:=@'' c"

definition PathEscape :: "go_string \<Rightarrow> go_string" where
  "PathEscape s =
     concat (map (\<lambda>c. if path_plain c then [c]
        else [CHR ''%'', upper (hex_digit (of_char c div 16)), upper (hex_digit (of_char c mod 16))]) s)"

definition trim_right_slash :: "go_string \<Rightarrow> go_string" where
  "trim_right_slash s = rev (dropWhile (\<lambda>c. c = CHR ''/'') (rev s))"

definition dropLink :: "go_string \<Rightarrow> go_string \<Rightarrow> go_string" where
  "dropLink baseURL dropToken = trim_right_slash baseURL @ ''/drop/'' @ PathEscape dropToken"

definition HandleCreateDropPoint :: "dependencies \<Rightarrow> request \<Rightarrow> response io" where
  "HandleCreateDropPoint deps r =
     (if \<not> dep_Repository deps
      then State_Monad.return (writeError 503 ''repository_unavailable'' ''drop point storage is unavailable'')
      else do {
        a \<leftarrow> authenticateAPIToken (cfg_DefaultMaxActiveDropPoints (dep_Config deps)) (rq_Authorization r);
        case a of
          Inl _ \<Rightarrow> State_Monad.return (writeError 500 ''api_token_auth_failed'' ''could not authenticate API token'')
        | Inr None \<Rightarrow> State_Monad.return (writeError 401 ''api_token_invalid'' ''valid bearer API token required'')
        | Inr (Some authenticated) \<Rightarrow>
        if (case dep_ParseMediaType deps (rq_ContentType r) of
              None \<Rightarrow> True | Some (mediaType, _) \<Rightarrow> mediaType \<noteq> jsonContentType)
        then State_Monad.return (writeError 415 ''content_type_invalid'' ''Content-Type must be application/json'')
        else case decodeCreateRequest (rq_Body r) of Inl resp \<Rightarrow> State_Monad.return resp | Inr req \<Rightarrow>
        case validateCreateRequest (dep_Config deps) req of
          Inl resp \<Rightarrow> State_Monad.return resp
        | Inr (ttlSeconds, maxBytes) \<Rightarrow> do {
        now \<leftarrow> now_io;
        created \<leftarrow> createDropPoint (auth_ID authenticated) (auth_MaxActiveDropPoints authenticated)
          (pv_Value (req_ClientName req)) (secondsDuration ttlSeconds) maxBytes now;
        State_Monad.return (case created of
            Inl err \<Rightarrow>
              if errors_is err ErrActiveDropPointQuotaExceeded
              then writeError 429 ''active_drop_point_quota_exceeded'' ''active drop point quota exceeded''
              else writeError 500 ''drop_point_create_failed'' ''could not create drop point''
          | Inr c \<Rightarrow>
              writeJSON 201 (CreatedBody
                \<lparr>crr_DropPointID = resp_DropPointID c, crr_DisplayName = resp_DisplayName c,
                 crr_DropLink = dropLink (cfg_BaseURL (dep_Config deps)) (resp_DropToken c),
                 crr_PickupToken = resp_PickupToken c, crr_ExpiresAt = resp_ExpiresAt c,
                 crr_MaxBytes = resp_MaxBytes c,
                 crr_MaxPendingSubmissions = resp_MaxPendingSubmissions c,
                 crr_MaxPendingBytes = resp_MaxPendingBytes c\<rparr>))
        }
      })"

end
