(* ===== verification/Http_Drop.thy ===== *)
theory Http_Drop
  imports Http_Create Envelope
begin

text \<open>
  \<open>internal/httpapi/drop.go\<close> and \<open>drop_metadata.go\<close>: what a sender can do. An upload begins the
  submission in the database, reads and validates the envelope, stores envelope and payload,
  commits, and takes everything back when a step fails; an ambiguous commit is resolved by looking
  at the row. The finalization contexts, which outlive the request, can still time out: their
  steps are effects like any other.
\<close>

definition maxEnvelopeBytes :: nat where "maxEnvelopeBytes = 1048576"
definition multipartOverhead :: nat where "multipartOverhead = 65536"
definition envelopePartName :: go_string where "envelopePartName = ''envelope''"
definition payloadPartName :: go_string where "payloadPartName = ''payload''"
definition octetContentType :: go_string where "octetContentType = ''application/octet-stream''"
definition multipartFormPrefix :: go_string where "multipartFormPrefix = ''multipart/form-data''"

section \<open>The multipart body\<close>

definition validatePart :: "media_parser \<Rightarrow> go_string \<Rightarrow> go_string \<Rightarrow> go_string \<Rightarrow> go_string \<Rightarrow> error option" where
  "validatePart parse formName contentType wantName wantContentType =
     (if formName \<noteq> wantName then Some (ErrOther ''unexpected multipart part'')
      else case parse contentType of
        None \<Rightarrow> Some (ErrOther ''multipart part content type'')
      | Some (mediaType, _) \<Rightarrow>
          if mediaType \<noteq> wantContentType then Some (ErrOther ''multipart part content type'') else None)"

text \<open>\<open>io.ReadAll\<close> of an \<open>io.LimitReader\<close>: at most \<open>n\<close> bytes.\<close>

fun read_limited :: "read_event list \<Rightarrow> nat \<Rightarrow> error + go_string" where
  "read_limited [] n = Inr []"
| "read_limited (Read bs st # events) n =
     (if n = 0 then Inr []
      else if length bs > n then Inr (take n bs)
      else (case st of
              ReadEOF \<Rightarrow> Inr bs
            | ReadErr e \<Rightarrow> Inl e
            | ReadOk \<Rightarrow>
                (case read_limited events (n - length bs) of
                   Inl e \<Rightarrow> Inl e | Inr rest \<Rightarrow> Inr (bs @ rest))))"

definition readEnvelopePart :: "read_event list \<Rightarrow> error + go_string" where
  "readEnvelopePart events =
     (case read_limited events (maxEnvelopeBytes + 1) of
        Inl e \<Rightarrow> Inl e
      | Inr data \<Rightarrow>
          if length data > maxEnvelopeBytes then Inl (ErrOther ''envelope part too large'') else Inr data)"

text \<open>\<open>multipartPayloadReader\<close>: at the end of the payload part it asks for another part, and only
  the end of the stream is the end of the payload.\<close>

definition end_of_payload :: "part list \<Rightarrow> read_status" where
  "end_of_payload parts =
     (case parts of
        [] \<Rightarrow> ReadEOF
      | NextPartError e # _ \<Rightarrow> ReadErr e
      | NextPart _ _ _ # _ \<Rightarrow> ReadErr (ErrOther ''unexpected extra multipart part''))"

fun payload_reader :: "read_event list \<Rightarrow> part list \<Rightarrow> read_event list" where
  "payload_reader [] parts = [Read [] (end_of_payload parts)]"
| "payload_reader (Read bs st # events) parts =
     (case st of
        ReadEOF \<Rightarrow> [Read bs (end_of_payload parts)]
      | ReadErr e \<Rightarrow> [Read bs (ReadErr e)]
      | ReadOk \<Rightarrow> Read bs ReadOk # payload_reader events parts)"

definition part_sequence ::
    "media_parser \<Rightarrow> part list \<Rightarrow> error + go_string \<times> read_event list" where
  "part_sequence parse parts =
     (case parts of
        [] \<Rightarrow> Inl (ErrOther ''missing envelope part'')
      | NextPartError e # _ \<Rightarrow> Inl e
      | NextPart n1 t1 c1 # parts1 \<Rightarrow>
          (case validatePart parse n1 t1 envelopePartName jsonContentType of
             Some e \<Rightarrow> Inl e
           | None \<Rightarrow>
          (case readEnvelopePart c1 of
             Inl e \<Rightarrow> Inl e
           | Inr envelope \<Rightarrow>
          (case parts1 of
             [] \<Rightarrow> Inl (ErrOther ''missing payload part'')
           | NextPartError e # _ \<Rightarrow> Inl e
           | NextPart n2 t2 c2 # parts2 \<Rightarrow>
               (case validatePart parse n2 t2 payloadPartName octetContentType of
                  Some e \<Rightarrow> Inl e
                | None \<Rightarrow> Inr (envelope, payload_reader c2 parts2))))))"

definition multipartDropParts ::
    "media_parser \<Rightarrow> request \<Rightarrow> int \<Rightarrow> error + go_string \<times> read_event list" where
  "multipartDropParts parse r limit =
     (case parse (rq_ContentType r) of
        None \<Rightarrow> Inl (ErrOther ''multipart content type required'')
      | Some (mediaType, params) \<Rightarrow>
          if mediaType \<noteq> multipartFormPrefix then Inl (ErrOther ''multipart content type required'')
          else case map_of params ''boundary'' of
            None \<Rightarrow> Inl (ErrOther ''multipart boundary required'')
          | Some boundary \<Rightarrow>
              if boundary = [] then Inl (ErrOther ''multipart boundary required'')
              else part_sequence parse (rq_Parts r boundary limit))"

section \<open>The upload\<close>

definition framingBytes :: int where "framingBytes = int (maxEnvelopeBytes + multipartOverhead)"

definition dropRequestSizeLimit :: "int \<Rightarrow> error + int" where
  "dropRequestSizeLimit maxPayloadBytes =
     (if maxPayloadBytes \<le> 0 \<or> maxPayloadBytes > (2 ^ 63 - 1) - framingBytes
      then Inl (ErrOther ''payload limit cannot be combined with framing allowance'')
      else Inr (wrap64 (maxPayloadBytes + framingBytes)))"

definition finalizeSubmissionAttempt :: "go_string \<Rightarrow> go_string \<Rightarrow> unit result io" where
  "finalizeSubmissionAttempt dpid sid = do {
     r \<leftarrow> DeleteSubmission dpid sid;
     case r of
       Inl err \<Rightarrow> State_Monad.return (Inl err)
     | Inr _ \<Rightarrow> repo_DeleteReceivingSubmission dpid sid
   }"

definition submitted :: "go_string \<Rightarrow> submission_status \<Rightarrow> response" where
  "submitted sid st = writeJSON 200 (SubmitBody sid st)"

definition submitExistingSubmission :: "go_string \<Rightarrow> go_string \<Rightarrow> response io" where
  "submitExistingSubmission dpid sid = do {
     r \<leftarrow> repo_FindSubmission dpid sid;
     State_Monad.return (case r of
         Inl err \<Rightarrow> writeSubmissionUnavailable err
       | Inr s \<Rightarrow>
           (case sub_Status s of
              SubmissionStatusReady \<Rightarrow> submitted sid (sub_Status s)
            | SubmissionStatusAcknowledged \<Rightarrow> submitted sid (sub_Status s)
            | SubmissionStatusReceiving \<Rightarrow>
                writeError 409 ''submission_receiving'' ''submission is already being received''
            | SubmissionStatusFailed \<Rightarrow> writeError 410 ''submission_failed'' ''submission is unavailable''
            | SubmissionStatusOther _ \<Rightarrow>
                writeError 409 ''submission_unavailable'' ''submission is unavailable''))
   }"

text \<open>The closure \<open>fail\<close> of the handler.\<close>

definition fail_submit :: "go_string \<Rightarrow> go_string \<Rightarrow> error \<Rightarrow> bool \<Rightarrow> response io" where
  "fail_submit dpid sid operationErr storage = do {
     c \<leftarrow> finalizeSubmissionAttempt dpid sid;
     State_Monad.return (case c of
         Inl cleanupErr \<Rightarrow> writeStorageFailure cleanupErr
       | Inr _ \<Rightarrow>
           if storage then writeSubmissionStorageFailure operationErr
           else writeMultipartDropError operationErr)
   }"

text \<open>What follows a commit that reported an error: the row tells whether it took effect.\<close>

definition take_back :: "go_string \<Rightarrow> go_string \<Rightarrow> error \<Rightarrow> response io" where
  "take_back dpid sid commitErr = do {
     c \<leftarrow> finalizeSubmissionAttempt dpid sid;
     State_Monad.return (case c of
         Inl cleanupErr \<Rightarrow> writeStorageFailure cleanupErr
       | Inr _ \<Rightarrow>
           if errors_is commitErr ErrPendingBytesQuotaExceeded
           then writeError 429 ''submission_queue_full'' ''drop point submission queue is full''
           else writeDropAuthError commitErr)
   }"

definition resolve_commit :: "go_string \<Rightarrow> go_string \<Rightarrow> error \<Rightarrow> response io" where
  "resolve_commit dpid sid commitErr = do {
     f \<leftarrow> repo_FindSubmission dpid sid;
     case f of
       Inl findErr \<Rightarrow>
         if \<not> errors_is findErr ErrSubmissionNotFound then State_Monad.return (writeStorageFailure findErr)
         else take_back dpid sid commitErr
     | Inr existing \<Rightarrow>
         if sub_Status existing = SubmissionStatusReady \<or> sub_Status existing = SubmissionStatusAcknowledged
         then State_Monad.return (submitted sid (sub_Status existing))
         else if sub_Status existing \<noteq> SubmissionStatusReceiving
         then State_Monad.return (writeSubmissionUnavailable (submissionStatusError (sub_Status existing)))
         else take_back dpid sid commitErr
   }"

definition receive_submission ::
    "dependencies \<Rightarrow> request \<Rightarrow> drop_point \<Rightarrow> go_string \<Rightarrow> int \<Rightarrow> response io" where
  "receive_submission deps r dp sid requestLimit =
     (case multipartDropParts (dep_ParseMediaType deps) r requestLimit of
        Inl err \<Rightarrow> fail_submit (dp_ID dp) sid err False
      | Inr (envelope, payload) \<Rightarrow>
      (case ValidateEnvelopeJSON envelope of
        Inl err \<Rightarrow> fail_submit (dp_ID dp) sid err False
      | Inr _ \<Rightarrow> do {
          w \<leftarrow> WriteSubmission (dp_ID dp) sid envelope payload (dp_MaxBytes dp);
          case w of
            Inl err \<Rightarrow> fail_submit (dp_ID dp) sid err True
          | Inr stored \<Rightarrow> do {
              now \<leftarrow> now_io;
              c \<leftarrow> repo_CommitSubmission (dp_ID dp) sid stored now;
              case c of
                Inl commitErr \<Rightarrow> resolve_commit (dp_ID dp) sid commitErr
              | Inr _ \<Rightarrow> State_Monad.return (submitted sid SubmissionStatusReady)
            }
        }))"

definition HandleSubmitDrop ::
    "dependencies \<Rightarrow> request \<Rightarrow> go_string \<Rightarrow> go_string \<Rightarrow> response io" where
  "HandleSubmitDrop deps r dropToken sid =
     (if \<not> dep_Repository deps \<or> \<not> dep_BlobStore deps
      then State_Monad.return (writeError 503 ''drop_storage_unavailable'' ''drop storage is unavailable'')
      else if \<not> ValidSubmissionID sid
      then State_Monad.return (writeError 404 ''submission_not_found'' ''submission not found'')
      else do {
        now \<leftarrow> now_io;
        f \<leftarrow> repo_FindOpenDropPointByDropTokenHash (HashSecret dropToken) now;
        case f of Inl err \<Rightarrow> State_Monad.return (writeDropAuthError err) | Inr dp \<Rightarrow>
        case dropRequestSizeLimit (dp_MaxBytes dp) of
          Inl _ \<Rightarrow>
            State_Monad.return
              (writeError 500 ''drop_storage_failed'' ''drop point has an invalid storage limit'')
        | Inr requestLimit \<Rightarrow> do {
        b \<leftarrow> repo_BeginSubmission (dp_ID dp) sid now;
        case b of
          Inl err \<Rightarrow>
            if errors_is err ErrSubmissionAlreadyExists then submitExistingSubmission (dp_ID dp) sid
            else State_Monad.return (writeDropAuthError err)
        | Inr _ \<Rightarrow> receive_submission deps r dp sid requestLimit
        }
      })"

section \<open>Metadata\<close>

definition HandleGetDropMetadata :: "dependencies \<Rightarrow> go_string \<Rightarrow> response io" where
  "HandleGetDropMetadata deps dropToken =
     (if \<not> dep_Repository deps
      then State_Monad.return (writeError 503 ''repository_unavailable'' ''drop point storage is unavailable'')
      else if dropToken = []
      then State_Monad.return (writeError 404 ''drop_point_not_found'' ''drop point not found'')
      else do {
        now \<leftarrow> now_io;
        f \<leftarrow> repo_FindOpenDropPointByDropTokenHash (HashSecret dropToken) now;
        State_Monad.return (case f of
            Inl err \<Rightarrow>
              if errors_is err ErrDropTokenInvalid
              then writeError 404 ''drop_point_not_found'' ''drop point not found''
              else if errors_is err ErrDropPointExpired
              then writeError 410 ''drop_point_expired'' ''drop point has expired''
              else if errors_is err ErrDropPointFailed
              then writeError 410 ''drop_point_failed'' ''drop point is unavailable''
              else if errors_is err ErrDropPointClosed \<or> errors_is err ErrDropPointNotOpen
              then writeError 409 ''drop_point_unavailable'' ''drop point cannot accept files''
              else writeError 500 ''drop_point_lookup_failed'' ''could not look up drop point''
          | Inr dp \<Rightarrow>
              writeJSON 200 (MetadataBody
                \<lparr>md_DisplayName = dp_DisplayName dp, md_ExpiresAt = dp_ExpiresAt dp,
                 md_MaxBytes = dp_MaxBytes dp, md_MaxPendingSubmissions = dp_MaxPendingSubmissions dp,
                 md_MaxPendingBytes = dp_MaxPendingBytes dp\<rparr>))
      })"

end
