(* ===== verification/Http_Receiver.thy ===== *)
theory Http_Receiver
  imports Http_Drop
begin

text \<open>
  \<open>internal/httpapi/receiver.go\<close> and \<open>pickup.go\<close>: what the holder of a pickup token can do. Every
  handler authorizes first; \<open>authorize\<close> continues with the drop point or answers.
\<close>

section \<open>Authorization\<close>

definition authorizePickup ::
    "dependencies \<Rightarrow> request \<Rightarrow> go_string \<Rightarrow> (response + drop_point) io" where
  "authorizePickup deps r dpid =
     (if \<not> dep_Repository deps
      then State_Monad.return (Inl (writeError 503 ''repository_unavailable'' ''drop point storage is unavailable''))
      else if dpid = []
      then State_Monad.return (Inl (writeError 404 ''drop_point_not_found'' ''drop point not found''))
      else case bearerToken (rq_Authorization r) of
        None \<Rightarrow>
          State_Monad.return (Inl (writeError 401 ''pickup_token_invalid'' ''valid bearer pickup token required''))
      | Some pickupToken \<Rightarrow> do {
          now \<leftarrow> now_io;
          a \<leftarrow> repo_AuthorizePickupToken dpid (HashSecret pickupToken) now;
          State_Monad.return (case a of
              Inl err \<Rightarrow>
                Inl (if errors_is err ErrDropPointNotFound \<or> errors_is err ErrPickupTokenInvalid
                     then writeError 404 ''drop_point_not_found'' ''drop point not found''
                     else writeError 500 ''drop_point_lookup_failed'' ''could not look up drop point'')
            | Inr dp \<Rightarrow> Inr dp)
        })"

definition authorized ::
    "dependencies \<Rightarrow> request \<Rightarrow> go_string \<Rightarrow> (drop_point \<Rightarrow> response io) \<Rightarrow> response io" where
  "authorized deps r dpid next_step = do {
     a \<leftarrow> authorizePickup deps r dpid;
     case a of Inl resp \<Rightarrow> State_Monad.return resp | Inr dp \<Rightarrow> next_step dp
   }"

text \<open>\<open>None\<close> when the drop point is open.\<close>

definition requireOpenDropPoint :: "drop_point \<Rightarrow> response option" where
  "requireOpenDropPoint dp =
     (case dp_Status dp of
        StatusOpen \<Rightarrow> None
      | StatusOther _ \<Rightarrow> Some (writeError 409 ''drop_point_unavailable'' ''drop point is unavailable'')
      | _ \<Rightarrow> Some (writeError 410 ''drop_point_unavailable'' ''drop point is unavailable''))"

definition authorized_open ::
    "dependencies \<Rightarrow> request \<Rightarrow> go_string \<Rightarrow> (drop_point \<Rightarrow> response io) \<Rightarrow> response io" where
  "authorized_open deps r dpid next_step =
     authorized deps r dpid (\<lambda>dp.
       case requireOpenDropPoint dp of Some resp \<Rightarrow> State_Monad.return resp | None \<Rightarrow> next_step dp)"

section \<open>Status and list\<close>

definition HandleGetDropPointStatus :: "dependencies \<Rightarrow> request \<Rightarrow> go_string \<Rightarrow> response io" where
  "HandleGetDropPointStatus deps r dpid =
     authorized deps r dpid (\<lambda>dp. do {
       s \<leftarrow> repo_PendingStats (dp_ID dp);
       State_Monad.return (case s of
           Inl _ \<Rightarrow> writeError 500 ''drop_point_status_failed'' ''could not read drop point status''
         | Inr (pendingSubmissions, pendingBytes) \<Rightarrow>
             writeJSON 200 (StatusBody
               \<lparr>st_Status = dp_Status dp, st_DisplayName = dp_DisplayName dp,
                st_ExpiresAt = dp_ExpiresAt dp, st_PendingSubmissions = pendingSubmissions,
                st_PendingBytes = pendingBytes, st_MaxPendingSubmissions = dp_MaxPendingSubmissions dp,
                st_MaxPendingBytes = dp_MaxPendingBytes dp\<rparr>))
     })"

definition summary_of :: "submission \<Rightarrow> submission_summary" where
  "summary_of s =
     \<lparr>sum_SubmissionID = sub_ID s, sum_EncryptedSize = sub_EncryptedSize s,
      sum_DroppedAt = sub_DroppedAt s, sum_FirstPickedUpAt = sub_FirstPickedUpAt s\<rparr>"

definition HandleListSubmissions :: "dependencies \<Rightarrow> request \<Rightarrow> go_string \<Rightarrow> response io" where
  "HandleListSubmissions deps r dpid =
     authorized_open deps r dpid (\<lambda>dp. do {
       l \<leftarrow> repo_ListReadySubmissions (dp_ID dp);
       State_Monad.return (case l of
           Inl _ \<Rightarrow> writeError 500 ''submission_list_failed'' ''could not list submissions''
         | Inr subs \<Rightarrow> writeJSON 200 (SubmissionsBody (map summary_of subs)))
     })"

section \<open>Acknowledging and closing\<close>

definition HandleAcknowledgeSubmission ::
    "dependencies \<Rightarrow> request \<Rightarrow> go_string \<Rightarrow> go_string \<Rightarrow> response io" where
  "HandleAcknowledgeSubmission deps r dpid sid =
     authorized_open deps r dpid (\<lambda>dp.
       if \<not> ValidSubmissionID sid
       then State_Monad.return (writeError 404 ''submission_not_found'' ''submission not found'')
       else do {
         now \<leftarrow> now_io;
         a \<leftarrow> repo_AcknowledgeSubmission (dp_ID dp) sid now;
         case a of Inl err \<Rightarrow> State_Monad.return (writeSubmissionUnavailable err) | Inr _ \<Rightarrow>
         if \<not> dep_BlobStore deps
         then State_Monad.return (writeError 500 ''blob_store_unavailable'' ''payload storage is unavailable'')
         else do {
         d \<leftarrow> DeleteSubmission (dp_ID dp) sid;
         case d of
           Inl _ \<Rightarrow>
             State_Monad.return
               (writeError 500 ''submission_acknowledge_failed'' ''could not delete acknowledged submission'')
         | Inr _ \<Rightarrow> do {
         c \<leftarrow> repo_ClearSubmissionFiles (dp_ID dp) sid;
         State_Monad.return (case c of
             Inl _ \<Rightarrow> writeError 500 ''submission_acknowledge_failed'' ''could not finalize acknowledged submission''
           | Inr _ \<Rightarrow> StatusNoContent)
         }}
       })"

definition deleteDropPointBlobs :: "dependencies \<Rightarrow> go_string \<Rightarrow> unit result io" where
  "deleteDropPointBlobs deps dpid =
     (if \<not> dep_BlobStore deps then State_Monad.return (Inl (ErrOther ''payload storage is unavailable''))
      else do {
        d \<leftarrow> DeleteDropPoint dpid;
        case d of Inl err \<Rightarrow> State_Monad.return (Inl err) | Inr _ \<Rightarrow> repo_ClearDropPointFiles dpid
      })"

text \<open>The tail of \<open>HandleCloseDropPoint\<close>, where \<open>st\<close> is \<open>dp.Status\<close> by then.\<close>

definition finish_close :: "dependencies \<Rightarrow> go_string \<Rightarrow> status \<Rightarrow> response io" where
  "finish_close deps dpid st = do {
     d \<leftarrow> deleteDropPointBlobs deps dpid;
     State_Monad.return (case d of
         Inl _ \<Rightarrow> writeError 500 ''drop_point_close_failed'' ''could not delete stored submissions''
       | Inr _ \<Rightarrow>
           if st = StatusExpired \<or> st = StatusFailed
           then writeError 410 ''drop_point_unavailable'' ''drop point is unavailable''
           else StatusNoContent)
   }"

definition HandleCloseDropPoint :: "dependencies \<Rightarrow> request \<Rightarrow> go_string \<Rightarrow> response io" where
  "HandleCloseDropPoint deps r dpid =
     authorized deps r dpid (\<lambda>dp.
       case dp_Status dp of
         StatusOpen \<Rightarrow> do {
           now \<leftarrow> now_io;
           c \<leftarrow> repo_CloseDropPoint dpid now;
           case c of
             Inl err \<Rightarrow>
               if errors_is err ErrDropPointExpired then finish_close deps dpid StatusExpired
               else State_Monad.return
                      (writeError 500 ''drop_point_close_failed'' ''could not close drop point'')
           | Inr _ \<Rightarrow> finish_close deps dpid StatusOpen
         }
       | StatusOther _ \<Rightarrow>
           State_Monad.return (writeError 409 ''drop_point_unavailable'' ''drop point is unavailable'')
       | st \<Rightarrow> finish_close deps dpid st)"

section \<open>Pickup\<close>

definition failCorruptSubmission :: "go_string \<Rightarrow> go_string \<Rightarrow> unit io" where
  "failCorruptSubmission dpid sid = do {
     now \<leftarrow> now_io;
     _ \<leftarrow> repo_FailSubmission dpid sid now;
     State_Monad.return ()
   }"

definition payload_unavailable :: "go_string \<Rightarrow> response" where
  "payload_unavailable message = writeError 500 ''payload_unavailable'' message"

definition corrupt :: "go_string \<Rightarrow> go_string \<Rightarrow> bool \<Rightarrow> go_string \<Rightarrow> response io" where
  "corrupt dpid sid failing message = do {
     _ \<leftarrow> (if failing then failCorruptSubmission dpid sid else State_Monad.return ());
     State_Monad.return (payload_unavailable message)
   }"

text \<open>The response is written part by part, and each write can fail.\<close>

definition writePickupMultipart :: "unit result io" where
  "writePickupMultipart = do {
     r1 \<leftarrow> may_fail;
     case r1 of Inl err \<Rightarrow> State_Monad.return (Inl err) | Inr _ \<Rightarrow> do {
     r2 \<leftarrow> may_fail;
     case r2 of Inl err \<Rightarrow> State_Monad.return (Inl err) | Inr _ \<Rightarrow> do {
     r3 \<leftarrow> may_fail;
     case r3 of Inl err \<Rightarrow> State_Monad.return (Inl err) | Inr _ \<Rightarrow> may_fail
     }}
   }"

text \<open>The boundary in the content type is random and left out.\<close>

definition multipart_response :: "response_body \<Rightarrow> response" where
  "multipart_response b = \<lparr>rs_Status = 200, rs_Header = [NoStore], rs_Body = b\<rparr>"

definition send_submission ::
    "request \<Rightarrow> go_string \<Rightarrow> go_string \<Rightarrow> go_string \<Rightarrow> go_string \<Rightarrow> response io" where
  "send_submission r dpid sid envelope payload =
     (if rq_Method r = MethodHead then State_Monad.return (multipart_response NoBody)
      else do {
        sent \<leftarrow> writePickupMultipart;
        case sent of
          Inl _ \<Rightarrow> State_Monad.return (multipart_response BrokenBody)
        | Inr _ \<Rightarrow> do {
            now \<leftarrow> now_io;
            _ \<leftarrow> repo_MarkSubmissionPickedUp dpid sid now;
            State_Monad.return (multipart_response (PickupBody envelope payload))
          }
      })"

definition HandlePickupSubmission ::
    "dependencies \<Rightarrow> request \<Rightarrow> go_string \<Rightarrow> go_string \<Rightarrow> response io" where
  "HandlePickupSubmission deps r dpid sid =
     authorized_open deps r dpid (\<lambda>_.
       if \<not> ValidSubmissionID sid
       then State_Monad.return (writeError 404 ''submission_not_found'' ''submission not found'')
       else do {
         f \<leftarrow> repo_FindSubmission dpid sid;
         case f of Inl err \<Rightarrow> State_Monad.return (writeSubmissionUnavailable err) | Inr s \<Rightarrow>
         if sub_Status s \<noteq> SubmissionStatusReady
         then State_Monad.return (writeSubmissionUnavailable (submissionStatusError (sub_Status s)))
         else if sub_EnvelopePath s = [] \<or> sub_PayloadPath s = []
         then corrupt dpid sid True ''stored payload is unavailable''
         else if \<not> dep_BlobStore deps
         then State_Monad.return (payload_unavailable ''stored payload is unavailable'')
         else do {
         e \<leftarrow> ReadEnvelope (sub_EnvelopePath s);
         case e of
           Inl err \<Rightarrow> corrupt dpid sid (errors_is err ErrNotExist) ''stored envelope is unavailable''
         | Inr envelope \<Rightarrow>
         case ValidateEnvelopeJSON envelope of
           Inl _ \<Rightarrow> corrupt dpid sid True ''stored envelope is unavailable''
         | Inr _ \<Rightarrow> do {
         p \<leftarrow> OpenPayload (sub_PayloadPath s);
         case p of
           Inl err \<Rightarrow> corrupt dpid sid (errors_is err ErrNotExist) ''stored payload is unavailable''
         | Inr (payload, payloadSize) \<Rightarrow>
         if payloadSize \<noteq> sub_EncryptedSize s
         then corrupt dpid sid True ''stored payload is unavailable''
         else send_submission r dpid sid envelope payload
         }}
       })"

end
