(* ===== verification/Middleware.thy ===== *)
theory Middleware
  imports Http
begin

text \<open>
  \<open>internal/httpapi/middleware.go\<close>, \<open>cors.go\<close>, \<open>health.go\<close> and \<open>drop_page.go\<close>: the path an
  access log line shows, the status recorder, the CORS decision, the health answer and the static
  drop page. The embedded files of the page are an argument. A handler that can panic ends in an
  \<open>outcome\<close>, which \<open>RecoverPanics\<close> turns into a response; the relay's own handlers cannot.
\<close>

section \<open>Redacted paths\<close>

text \<open>\<open>url.PathUnescape\<close>, \<open>None\<close> for a malformed escape.\<close>

definition unhex :: "char \<Rightarrow> nat option" where
  "unhex c =
     (if in_range 48 57 c then Some (byte c - 48)
      else if in_range 97 102 c then Some (byte c - 87)
      else if in_range 65 70 c then Some (byte c - 55) else None)"

fun PathUnescape :: "go_string \<Rightarrow> go_string option" where
  "PathUnescape [] = Some []"
| "PathUnescape (c # cs) =
     (if c \<noteq> CHR ''%'' then map_option (Cons c) (PathUnescape cs)
      else case cs of
          a # b # rest \<Rightarrow>
            (case (unhex a, unhex b) of
               (Some x, Some y) \<Rightarrow> map_option (Cons (char_of (16 * x + y))) (PathUnescape rest)
             | _ \<Rightarrow> None)
        | _ \<Rightarrow> None)"

text \<open>The regular expression \<open>(?:drop|pick|api)_[A-Za-z0-9_-]+\<close>: what follows its match at the
  front of a text.\<close>

definition token_char :: "char \<Rightarrow> bool" where
  "token_char c \<longleftrightarrow>
     in_range 65 90 c \<or> in_range 97 122 c \<or> in_range 48 57 c \<or> c = CHR ''_'' \<or> c = CHR ''-''"

definition capability_names :: "go_string list" where
  "capability_names = [''drop_'', ''pick_'', ''api_'']"

definition match_capability :: "go_string \<Rightarrow> go_string option" where
  "match_capability s =
     (case find (has_prefix s) capability_names of
        None \<Rightarrow> None
      | Some name \<Rightarrow>
          (case drop (length name) s of
             [] \<Rightarrow> None
           | c # cs \<Rightarrow> if token_char c then Some (dropWhile token_char cs) else None))"

lemma match_capability_shorter: "match_capability s = Some rest \<Longrightarrow> length rest < length s"
proof -
  assume m: "match_capability s = Some rest"
  then obtain name c cs where n: "find (has_prefix s) capability_names = Some name"
    and c: "drop (length name) s = c # cs" and rest: "rest = dropWhile token_char cs"
    by (auto simp: match_capability_def split: option.splits list.splits if_splits)
  have "length rest \<le> length cs" by (simp add: rest length_dropWhile_le)
  moreover have "length cs < length s" using c by (metis Suc_le_lessD drop_eq_Nil2 length_Cons length_drop linorder_not_le diff_le_self)
  ultimately show ?thesis by simp
qed

text \<open>\<open>ReplaceAllString(s, ":capability")\<close>.\<close>

function redact_capabilities :: "go_string \<Rightarrow> go_string" where
  "redact_capabilities s =
     (case match_capability s of
        Some rest \<Rightarrow> '':capability'' @ redact_capabilities rest
      | None \<Rightarrow> (case s of [] \<Rightarrow> [] | c # cs \<Rightarrow> c # redact_capabilities cs))"
  by pat_completeness auto
termination by (relation "measure length") (auto dest: match_capability_shorter)

declare redact_capabilities.simps [simp del]

text \<open>\<open>strings.Contains\<close>.\<close>

fun contains :: "go_string \<Rightarrow> go_string \<Rightarrow> bool" where
  "contains [] t \<longleftrightarrow> t = []"
| "contains (c # cs) t \<longleftrightarrow> has_prefix (c # cs) t \<or> contains cs t"

fun unescape_rounds :: "nat \<Rightarrow> go_string \<Rightarrow> go_string" where
  "unescape_rounds 0 s = s"
| "unescape_rounds (Suc n) s =
     (case PathUnescape s of
        None \<Rightarrow> s
      | Some decoded \<Rightarrow> if decoded = s then s else unescape_rounds n decoded)"

text \<open>\<open>strings.ToLower\<close> as far as the ASCII needles that are looked for are concerned: no other
  character becomes one of theirs.\<close>

definition lower_ascii :: "char \<Rightarrow> char" where
  "lower_ascii c = (if in_range 65 90 c then char_of (byte c + 32) else c)"

definition RedactTokenPath :: "go_string \<Rightarrow> go_string" where
  "RedactTokenPath path =
     (let normalized = unescape_rounds 3 path in
      if has_prefix normalized ''/drop/'' then ''/drop/:drop_token''
      else if has_prefix normalized ''/api/drops/'' then ''/api/drops/:drop_token''
      else if redact_capabilities normalized \<noteq> normalized then redact_capabilities normalized
      else if redact_capabilities path \<noteq> path then redact_capabilities path
      else let lowerPath = map lower_ascii path in
      if contains lowerPath ''%2f''
         \<and> (contains lowerPath ''drop'' \<or> contains lowerPath ''%64%72%6f%70'')
      then ''/:redacted-capability-path''
      else path)"

text \<open>\<open>strings.Cut\<close> at a space, \<open>strings.ReplaceAll\<close> of a non-empty text.\<close>

definition cut_space :: "go_string \<Rightarrow> (go_string \<times> go_string) option" where
  "cut_space s =
     (if CHR '' '' \<in> set s
      then Some (takeWhile (\<lambda>c. c \<noteq> CHR '' '') s, tl (dropWhile (\<lambda>c. c \<noteq> CHR '' '') s)) else None)"

function replace_all :: "go_string \<Rightarrow> go_string \<Rightarrow> go_string \<Rightarrow> go_string" where
  "replace_all [] old new = []"
| "replace_all (c # cs) old new =
     (if old \<noteq> [] \<and> has_prefix (c # cs) old then new @ replace_all (drop (length old) (c # cs)) old new
      else c # replace_all cs old new)"
  by pat_completeness auto
termination by (relation "measure (\<lambda>(s, _). length s)") auto

text \<open>\<open>pattern\<close> is the pattern of the route that served the request, empty when none did.\<close>

definition requestLogPath :: "go_string \<Rightarrow> request \<Rightarrow> go_string" where
  "requestLogPath pattern r =
     (if pattern \<noteq> []
      then replace_all (case cut_space pattern of Some (_, route) \<Rightarrow> route | None \<Rightarrow> pattern)
             ''{drop_token}'' '':drop_token''
      else RedactTokenPath (rq_EscapedPath r))"

section \<open>The status recorder and the access log\<close>

record status_recorder =
  rec_status :: nat
  rec_bytes :: nat

definition recorder_Status :: "status_recorder \<Rightarrow> nat" where
  "recorder_Status rec = (if rec_status rec = 0 then 200 else rec_status rec)"

definition recorder_WriteHeader :: "nat \<Rightarrow> status_recorder \<Rightarrow> status_recorder" where
  "recorder_WriteHeader st rec = (if rec_status rec \<noteq> 0 then rec else rec\<lparr>rec_status := st\<rparr>)"

text \<open>\<open>n\<close> is what the writer below reports as written.\<close>

definition recorder_Write :: "nat \<Rightarrow> status_recorder \<Rightarrow> status_recorder" where
  "recorder_Write n rec =
     (let rec' = (if rec_status rec = 0 then recorder_WriteHeader 200 rec else rec)
      in rec'\<lparr>rec_bytes := rec_bytes rec' + n\<rparr>)"

text \<open>Method, path and status of the line; the byte count and the duration are left out.\<close>

record access_line =
  al_Method :: go_string
  al_Path :: go_string
  al_Status :: nat

definition LogRequests ::
    "(request \<Rightarrow> (response \<times> go_string) io) \<Rightarrow> request \<Rightarrow> (response \<times> access_line) io" where
  "LogRequests next_handler r = do {
     (resp, pattern) \<leftarrow> next_handler r;
     State_Monad.return (resp,
       \<lparr>al_Method = rq_Method r, al_Path = requestLogPath pattern r,
        al_Status = recorder_Status
          (recorder_WriteHeader (rs_Status resp) \<lparr>rec_status = 0, rec_bytes = 0\<rparr>)\<rparr>)
   }"

section \<open>Header fields for every route\<close>

text \<open>A header lists the fields in the order they are set; a later field replaces an earlier one
  of the same name.\<close>

definition with_header :: "header \<Rightarrow> response \<Rightarrow> response" where
  "with_header h resp = resp\<lparr>rs_Header := h @ rs_Header resp\<rparr>"

definition NoSniff :: "go_string \<times> go_string" where
  "NoSniff = (''X-Content-Type-Options'', ''nosniff'')"

definition SetNoSniff ::
    "(request \<Rightarrow> (response \<times> go_string) io) \<Rightarrow> request \<Rightarrow> (response \<times> go_string) io" where
  "SetNoSniff next_handler r = do {
     (resp, pattern) \<leftarrow> next_handler r;
     State_Monad.return (with_header [NoSniff] resp, pattern)
   }"

definition originFromBaseURL :: "url_parser \<Rightarrow> go_string \<Rightarrow> go_string" where
  "originFromBaseURL parse raw =
     (case parse raw of
        None \<Rightarrow> []
      | Some u \<Rightarrow> if u_Scheme u = [] \<or> u_Host u = [] then [] else u_Scheme u @ ''://'' @ u_Host u)"

definition MethodOptions :: go_string where "MethodOptions = ''OPTIONS''"

definition cors_header :: "go_string \<Rightarrow> go_string \<Rightarrow> header" where
  "cors_header origin allowedOrigin =
     (if origin \<noteq> [] then [(''Vary'', ''Origin'')] else [])
     @ (if origin \<noteq> [] \<and> origin = allowedOrigin
        then [(''Access-Control-Allow-Origin'', origin),
              (''Access-Control-Allow-Methods'', ''GET, POST, PUT, DELETE, OPTIONS''),
              (''Access-Control-Allow-Headers'', ''Authorization, Content-Type''),
              (''Access-Control-Max-Age'', ''600'')]
        else [])"

definition ApplyCORS ::
    "url_parser \<Rightarrow> config \<Rightarrow> (request \<Rightarrow> (response \<times> go_string) io) \<Rightarrow>
     request \<Rightarrow> (response \<times> go_string) io" where
  "ApplyCORS parse cfg next_handler r =
     (let allowedOrigin = originFromBaseURL parse (cfg_BaseURL cfg);
          origin = rq_Origin r;
          h = cors_header origin allowedOrigin in
      if rq_Method r = MethodOptions
      then State_Monad.return
             (\<lparr>rs_Status = (if origin \<noteq> [] \<and> origin = allowedOrigin then 204 else 403),
               rs_Header = h, rs_Body = NoBody\<rparr>, [])
      else do {
        (resp, pattern) \<leftarrow> next_handler r;
        State_Monad.return (with_header h resp, pattern)
      })"

section \<open>Health and the drop page\<close>

definition HandleHealth :: "request \<Rightarrow> response" where
  "HandleHealth r =
     \<lparr>rs_Status = 200, rs_Header = [(''Content-Type'', ''application/json''), NoStore],
      rs_Body = (if rq_Method r = MethodHead then NoBody
                 else TextBody (''{'' @ [CHR 0x22] @ ''status'' @ [CHR 0x22] @ '':'' @ [CHR 0x22]
                        @ ''ok'' @ [CHR 0x22] @ ''}'' @ [CHR 0x0A]))\<rparr>"

definition single_quoted :: "go_string \<Rightarrow> go_string" where
  "single_quoted s = [CHR 0x27] @ s @ [CHR 0x27]"

definition dropPageCSP :: go_string where
  "dropPageCSP =
     ''default-src '' @ single_quoted ''none'' @ ''; script-src '' @ single_quoted ''self''
     @ ''; style-src '' @ single_quoted ''self'' @ ''; connect-src '' @ single_quoted ''self''
     @ ''; img-src blob:; object-src '' @ single_quoted ''none'' @ ''; base-uri '' @ single_quoted ''none''
     @ ''; form-action '' @ single_quoted ''none'' @ ''; frame-ancestors '' @ single_quoted ''none''"

definition dropPageSecurityHeaders :: header where
  "dropPageSecurityHeaders =
     [(''Content-Security-Policy'', dropPageCSP), NoSniff, (''Referrer-Policy'', ''no-referrer''),
      (''Permissions-Policy'', ''camera=(), microphone=(), geolocation=(), payment=()''),
      (''Cross-Origin-Opener-Policy'', ''same-origin'')]"

text \<open>\<open>http.Error\<close> and \<open>http.NotFound\<close>.\<close>

definition http_Error :: "nat \<Rightarrow> go_string \<Rightarrow> response" where
  "http_Error st text =
     \<lparr>rs_Status = st,
      rs_Header = [(''Content-Type'', ''text/plain; charset=utf-8''), NoSniff],
      rs_Body = TextBody (text @ [CHR 0x0A])\<rparr>"

definition http_NotFound :: response where
  "http_NotFound = http_Error 404 ''404 page not found''"

text \<open>A panic leaves what the handler has written so far: no status as long as the header has not
  been sent, and the fields that are set. \<open>http.Error\<close> on top of it answers 500 before that point; after it
  the status and the fields are out and only the text still follows.\<close>

record partial_response =
  pr_Status :: nat
  pr_Header :: header
  pr_Written :: go_string

datatype 'a outcome = Completed 'a | Panicked partial_response

definition http_Error_on :: "partial_response \<Rightarrow> nat \<Rightarrow> go_string \<Rightarrow> response" where
  "http_Error_on part st text =
     (if pr_Status part = 0
      then (http_Error st text)\<lparr>rs_Header :=
             filter (\<lambda>(name, _). name \<noteq> ''Content-Length'') (pr_Header part) @ rs_Header (http_Error st text)\<rparr>
      else \<lparr>rs_Status = pr_Status part, rs_Header = pr_Header part,
            rs_Body = TextBody (pr_Written part @ text @ [CHR 0x0A])\<rparr>)"

text \<open>The wrapped handler also yields what the wrappers around it report, its access log line; a panic
  leaves none. The log line of the panic itself is left out.\<close>

definition RecoverPanics ::
    "(request \<Rightarrow> (response \<times> 'a) outcome io) \<Rightarrow> request \<Rightarrow> (response \<times> 'a option) io" where
  "RecoverPanics next_handler r = do {
     out \<leftarrow> next_handler r;
     State_Monad.return (case out of
         Completed (resp, line) \<Rightarrow> (resp, Some line)
       | Panicked part \<Rightarrow> (http_Error_on part 500 ''Internal Server Error'', None))
   }"

lemma recovered_panic:
  "run_state (next_handler r) w = (Panicked part, w') \<Longrightarrow> pr_Status part = 0 \<Longrightarrow>
   \<exists>resp. run_state (RecoverPanics next_handler r) w = ((resp, None), w') \<and> rs_Status resp = 500
     \<and> rs_Body resp = TextBody (''Internal Server Error'' @ [CHR 0x0A])"
  by (simp add: RecoverPanics_def http_Error_on_def http_Error_def)

text \<open>A handler that cannot panic.\<close>

definition completing :: "(request \<Rightarrow> 'a io) \<Rightarrow> request \<Rightarrow> 'a outcome io" where
  "completing h r = do { x \<leftarrow> h r; State_Monad.return (Completed x) }"

lemma RecoverPanics_completing:
  "RecoverPanics (completing h) r = do { (resp, line) \<leftarrow> h r; State_Monad.return (resp, Some line) }"
  by (rule state.expand) (auto simp: RecoverPanics_def completing_def split: prod.splits)

definition serve_file :: "embedded_files \<Rightarrow> go_string \<Rightarrow> header \<Rightarrow> response" where
  "serve_file files name h =
     (case files name of
        None \<Rightarrow> with_header h (http_Error 500 ''Internal Server Error'')
      | Some data \<Rightarrow> \<lparr>rs_Status = 200, rs_Header = h, rs_Body = TextBody data\<rparr>)"

definition HandleServeDropPage :: "embedded_files \<Rightarrow> response" where
  "HandleServeDropPage files =
     serve_file files ''index.html''
       (dropPageSecurityHeaders @ [(''Content-Type'', ''text/html; charset=utf-8''), NoStore])"

definition HandleDropPageAsset :: "embedded_files \<Rightarrow> go_string \<Rightarrow> response" where
  "HandleDropPageAsset files name =
     (if name \<noteq> ''styles.css'' \<and> name \<noteq> ''app.js'' then http_NotFound
      else serve_file files name
             (dropPageSecurityHeaders @
              [NoStore,
               (''Content-Type'',
                if name = ''styles.css'' then ''text/css; charset=utf-8''
                else ''application/javascript; charset=utf-8'')]))"

end
