(* ===== verification/Router.thy ===== *)
theory Router
  imports Middleware Http_Receiver
begin

text \<open>
  \<open>internal/httpapi/router.go\<close>: the route table of the relay and the chain of wrappers around it.
  The table holds the patterns of the source; how \<open>http.ServeMux\<close> reads a pattern and matches a
  request is modelled for patterns of this form. The mux redirects a path that is not clean, which
  the model leaves out: \<open>rq_Path\<close> is a clean path. No two patterns of the table match a common path
  unless they differ in the method only, so the first match is the most specific one.
\<close>

section \<open>Patterns\<close>

datatype segment = Lit go_string | Wild

definition parse_segment :: "go_string \<Rightarrow> segment" where
  "parse_segment s = (if has_prefix s ''{'' then Wild else Lit s)"

text \<open>A pattern is an optional method and a path.\<close>

definition parse_pattern :: "go_string \<Rightarrow> go_string option \<times> segment list" where
  "parse_pattern p =
     (case cut_space p of
        Some (m, path) \<Rightarrow> (Some m, map parse_segment (tl (split_on CHR ''/'' path)))
      | None \<Rightarrow> (None, map parse_segment (tl (split_on CHR ''/'' p))))"

definition MethodGet :: go_string where "MethodGet = ''GET''"

definition method_matches :: "go_string option \<Rightarrow> go_string \<Rightarrow> bool" where
  "method_matches m method =
     (case m of
        None \<Rightarrow> True
      | Some want \<Rightarrow> want = method \<or> want = MethodGet \<and> method = MethodHead)"

text \<open>The values of the wildcards; a wildcard does not match a trailing slash.\<close>

fun match_segments :: "segment list \<Rightarrow> go_string list \<Rightarrow> go_string list option" where
  "match_segments [] [] = Some []"
| "match_segments (Lit l # ps) (s # ss) = (if l = s then match_segments ps ss else None)"
| "match_segments (Wild # ps) (s # ss) =
     (if s = ''/'' then None else map_option (Cons s) (match_segments ps ss))"
| "match_segments _ _ = None"

type_synonym route = "go_string \<times> (go_string list \<Rightarrow> request \<Rightarrow> response io)"

fun find_route :: "route list \<Rightarrow> request \<Rightarrow> (go_string \<times> response io) option" where
  "find_route [] r = None"
| "find_route ((pattern, handler) # routes) r =
     (case parse_pattern pattern of
        (m, segments) \<Rightarrow>
          (case match_segments segments (rq_Path r) of
             Some vs \<Rightarrow>
               if method_matches m (rq_Method r) then Some (pattern, handler vs r)
               else find_route routes r
           | None \<Rightarrow> find_route routes r))"

section \<open>The relay's routes\<close>

definition static_route :: "(request \<Rightarrow> response) \<Rightarrow> go_string list \<Rightarrow> request \<Rightarrow> response io" where
  "static_route f vs r = State_Monad.return (f r)"

definition not_allowed :: "go_string \<Rightarrow> go_string list \<Rightarrow> request \<Rightarrow> response io" where
  "not_allowed allow = static_route (\<lambda>_. methodNotAllowed allow)"

definition routes :: "dependencies \<Rightarrow> route list" where
  "routes deps =
     [(''GET /health'', static_route HandleHealth),
      (''/health'', not_allowed ''GET, HEAD''),
      (''POST /api/drop-points'', \<lambda>vs. HandleCreateDropPoint deps),
      (''/api/drop-points'', not_allowed ''POST''),
      (''GET /api/drop-points/{drop_point_id}/status'',
         \<lambda>vs. getOrHead (\<lambda>r. HandleGetDropPointStatus deps r (vs ! 0))),
      (''/api/drop-points/{drop_point_id}/status'', not_allowed ''GET, HEAD''),
      (''GET /api/drop-points/{drop_point_id}/submissions'',
         \<lambda>vs. getOrHead (\<lambda>r. HandleListSubmissions deps r (vs ! 0))),
      (''/api/drop-points/{drop_point_id}/submissions'', not_allowed ''GET, HEAD''),
      (''GET /api/drop-points/{drop_point_id}/submissions/{submission_id}/pickup'',
         \<lambda>vs. getOrHead (\<lambda>r. HandlePickupSubmission deps r (vs ! 0) (vs ! 1))),
      (''/api/drop-points/{drop_point_id}/submissions/{submission_id}/pickup'', not_allowed ''GET, HEAD''),
      (''DELETE /api/drop-points/{drop_point_id}/submissions/{submission_id}'',
         \<lambda>vs r. HandleAcknowledgeSubmission deps r (vs ! 0) (vs ! 1)),
      (''/api/drop-points/{drop_point_id}/submissions/{submission_id}'', not_allowed ''DELETE''),
      (''DELETE /api/drop-points/{drop_point_id}'', \<lambda>vs r. HandleCloseDropPoint deps r (vs ! 0)),
      (''/api/drop-points/{drop_point_id}'', not_allowed ''DELETE''),
      (''GET /api/drops/{drop_token}'', \<lambda>vs. getOrHead (\<lambda>r. HandleGetDropMetadata deps (vs ! 0))),
      (''/api/drops/{drop_token}'', not_allowed ''GET, HEAD''),
      (''PUT /api/drops/{drop_token}/submissions/{submission_id}'',
         \<lambda>vs r. HandleSubmitDrop deps r (vs ! 0) (vs ! 1)),
      (''/api/drops/{drop_token}/submissions/{submission_id}'', not_allowed ''PUT''),
      (''GET /drop/{drop_token}'',
         \<lambda>vs. getOrHead (static_route (\<lambda>_. HandleServeDropPage (dep_Files deps)) vs)),
      (''/drop/{drop_token}'', not_allowed ''GET, HEAD''),
      (''GET /drop-assets/{asset}'',
         \<lambda>vs. getOrHead (static_route (\<lambda>_. HandleDropPageAsset (dep_Files deps) (vs ! 0)) vs)),
      (''/drop-assets/{asset}'', not_allowed ''GET, HEAD'')]"

definition serve_mux :: "dependencies \<Rightarrow> request \<Rightarrow> (response \<times> go_string) io" where
  "serve_mux deps r =
     (case find_route (routes deps) r of
        None \<Rightarrow> State_Monad.return (http_NotFound, [])
      | Some (pattern, handler) \<Rightarrow> do {
          resp \<leftarrow> handler;
          State_Monad.return (resp, pattern)
        })"

definition NewRouterWithDependencies :: "dependencies \<Rightarrow> request \<Rightarrow> (response \<times> access_line) io" where
  "NewRouterWithDependencies deps =
     LogRequests (SetNoSniff (ApplyCORS (dep_ParseURL deps) (dep_Config deps) (serve_mux deps)))"

text \<open>The source wraps this chain in \<open>RecoverPanics\<close> once more, which changes nothing.\<close>

lemma router_recovered:
  "RecoverPanics (completing (NewRouterWithDependencies deps)) r
     = do { (resp, line) \<leftarrow> NewRouterWithDependencies deps r; State_Monad.return (resp, Some line) }"
  by (rule RecoverPanics_completing)

end
