(* ===== verification/Relay_State.thy ===== *)
theory Relay_State
  imports Cleanup_Guard Envelope
begin

text \<open>
  The invariant that ties the database to the stored files, for one submission with the key
  \<open>(i, j)\<close>: as long as it is ready in an open drop point, its row points to files that hold a valid
  envelope and a payload of the recorded size. \<open>G\<close> restricts which contents, and \<open>K\<close> asks that
  this submission is the one committed first under its key. Every statement and every file
  operation keeps it, or does so where the submission is not ready.
\<close>

section \<open>Rows\<close>

definition hot :: "go_string \<Rightarrow> go_string \<Rightarrow> db \<Rightarrow> submission_row \<Rightarrow> bool" where
  "hot i j d s \<longleftrightarrow>
     s \<in> set (submissions d) \<and> sr_key s = (i, j) \<and> sr_status s = SubmissionStatusReady
     \<and> (\<exists>r \<in> set (drop_points d). dpr_id r = i \<and> dpr_status r = StatusOpen)"

definition row_stored ::
    "(go_string \<Rightarrow> go_string \<Rightarrow> bool) \<Rightarrow> go_string \<Rightarrow> go_string \<Rightarrow> submission_row \<Rightarrow> fs \<Rightarrow> bool" where
  "row_stored G i j s t \<longleftrightarrow>
     validateDropPointID i = None \<and> ValidSubmissionID j
     \<and> (\<exists>env data. G env data \<and> (\<exists>e. ValidateEnvelopeJSON env = Inr e)
          \<and> sr_envelope_path s = Some (cs_EnvelopePath (stored_result i j (int (length data))))
          \<and> sr_payload_path s = Some (cs_PayloadPath (stored_result i j (int (length data))))
          \<and> sr_encrypted_size s = Some (int (length data))
          \<and> fs_get t (submissionDir i j @ [EnvelopeFileName]) = Some (File env)
          \<and> fs_get t (submissionDir i j @ [PayloadFileName]) = Some (File data))"

text \<open>Once the key has been committed it cannot be begun again, unless its drop point is gone.\<close>

definition anchored :: "go_string \<Rightarrow> go_string \<Rightarrow> db \<Rightarrow> bool" where
  "anchored i j d \<longleftrightarrow>
     (\<exists>s \<in> set (submissions d). sr_key s = (i, j) \<and> sr_status s \<noteq> SubmissionStatusReceiving)
     \<or> (\<forall>r \<in> set (drop_points d). dpr_id r = i \<longrightarrow> dpr_status r \<noteq> StatusOpen)"

definition stored ::
    "(go_string \<Rightarrow> go_string \<Rightarrow> bool) \<Rightarrow> bool \<Rightarrow> go_string \<Rightarrow> go_string \<Rightarrow> world \<Rightarrow> bool" where
  "stored G K i j w \<longleftrightarrow>
     db_inv (w_db w) \<and> (K \<longrightarrow> anchored i j (w_db w))
     \<and> (\<forall>s. hot i j (w_db w) s \<longrightarrow> row_stored G i j s (w_fs w))"

definition idle :: "bool \<Rightarrow> go_string \<Rightarrow> go_string \<Rightarrow> world \<Rightarrow> bool" where
  "idle K i j w \<longleftrightarrow>
     db_inv (w_db w) \<and> (K \<longrightarrow> anchored i j (w_db w)) \<and> (\<forall>s. \<not> hot i j (w_db w) s)"

lemma idle_stored: "idle K i j w \<Longrightarrow> stored G K i j w"
  by (simp add: idle_def stored_def)

section \<open>Statements\<close>

definition same_files :: "submission_row \<Rightarrow> submission_row \<Rightarrow> bool" where
  "same_files s s' \<longleftrightarrow>
     sr_envelope_path s' = sr_envelope_path s \<and> sr_payload_path s' = sr_payload_path s
     \<and> sr_encrypted_size s' = sr_encrypted_size s"

text \<open>A step that makes nothing ready under the key and changes none of its files' columns.\<close>

definition cool :: "go_string \<Rightarrow> go_string \<Rightarrow> db \<Rightarrow> db \<Rightarrow> bool" where
  "cool i j d d' \<longleftrightarrow>
     (\<forall>s'. hot i j d' s' \<longrightarrow> (\<exists>s. hot i j d s \<and> same_files s s'))
     \<and> (anchored i j d \<longrightarrow> anchored i j d')"

lemma same_files_trans: "same_files s t \<Longrightarrow> same_files t u \<Longrightarrow> same_files s u"
  by (simp add: same_files_def)

lemma cool_refl: "cool i j d d"
  by (auto simp: cool_def same_files_def)

lemma cool_trans: "cool i j d e \<Longrightarrow> cool i j e f \<Longrightarrow> cool i j d f"
  unfolding cool_def using same_files_trans by meson

lemma row_stored_same: "same_files s s' \<Longrightarrow> row_stored G i j s t \<Longrightarrow> row_stored G i j s' t"
  by (auto simp: row_stored_def same_files_def)

lemma stored_cool:
  "stored G K i j w \<Longrightarrow> db_inv (w_db w') \<Longrightarrow> cool i j (w_db w) (w_db w') \<Longrightarrow> w_fs w' = w_fs w \<Longrightarrow>
   stored G K i j w'"
  unfolding stored_def cool_def using row_stored_same by metis

lemma idle_cool: "idle K i j w \<Longrightarrow> db_inv (w_db w') \<Longrightarrow> cool i j (w_db w) (w_db w') \<Longrightarrow> idle K i j w'"
  unfolding idle_def cool_def by blast

lemma cool_submissions:
  assumes "update_submissions P f d = Inr (n, d')"
    and "\<And>s. sr_key (f s) = sr_key s"
    and "\<And>s. P s \<Longrightarrow> sr_key s = (i, j) \<Longrightarrow> sr_status (f s) = SubmissionStatusReady \<Longrightarrow>
        sr_status s = SubmissionStatusReady \<and> same_files s (f s)"
    and "\<And>s. P s \<Longrightarrow> sr_key s = (i, j) \<Longrightarrow> sr_status s \<noteq> SubmissionStatusReceiving \<Longrightarrow>
        sr_status (f s) \<noteq> SubmissionStatusReceiving"
  shows "cool i j d d'"
proof -
  have d': "d' = d\<lparr>submissions := update_where P f (submissions d)\<rparr>"
    using assms(1) by (simp add: update_submissions_def)
  have "\<exists>s. hot i j d s \<and> same_files s s'" if h: "hot i j d' s'" for s'
  proof -
    obtain s where s: "s \<in> set (submissions d)" "s' = (if P s then f s else s)"
      using h by (auto simp: hot_def d' set_update_where)
    with h assms(2,3) [of s] have "hot i j d s \<and> same_files s s'"
      by (auto simp: hot_def d' same_files_def split: if_splits)
    then show ?thesis by blast
  qed
  moreover have "anchored i j d'" if a: "anchored i j d"
  proof (cases "\<exists>s \<in> set (submissions d). sr_key s = (i, j) \<and> sr_status s \<noteq> SubmissionStatusReceiving")
    case True
    then obtain s where s: "s \<in> set (submissions d)" "sr_key s = (i, j)"
      "sr_status s \<noteq> SubmissionStatusReceiving" by blast
    let ?s = "if P s then f s else s"
    have "?s \<in> set (submissions d')" using s(1) by (auto simp: d' set_update_where)
    moreover have "sr_key ?s = (i, j) \<and> sr_status ?s \<noteq> SubmissionStatusReceiving"
      using s assms(2,4) [of s] by simp
    ultimately show ?thesis unfolding anchored_def by blast
  next
    case False
    with a show ?thesis by (simp add: anchored_def d')
  qed
  ultimately show ?thesis by (simp add: cool_def)
qed

lemma cool_drop_points:
  assumes "update_drop_points P f d = Inr (n, d')"
    and "\<And>r. dpr_id (f r) = dpr_id r"
    and "\<And>r. P r \<Longrightarrow> dpr_status (f r) = StatusOpen \<Longrightarrow> dpr_status r = StatusOpen"
  shows "cool i j d d'"
proof -
  have d': "d' = d\<lparr>drop_points := update_where P f (drop_points d)\<rparr>"
    using assms(1) by (simp add: update_drop_points_def)
  have opens: "\<exists>q \<in> set (drop_points d). dpr_id q = i \<and> dpr_status q = StatusOpen"
    if "r \<in> set (drop_points d')" "dpr_id r = i" "dpr_status r = StatusOpen" for r
    using that assms(2,3) by (auto simp: d' set_update_where split: if_splits)
  have "hot i j d s" if "hot i j d' s" for s
    using that opens by (auto simp: hot_def d')
  moreover have "anchored i j d'" if "anchored i j d"
    using that opens unfolding anchored_def by (auto simp: d')
  ultimately show ?thesis by (auto simp: cool_def same_files_def)
qed

lemma cool_rows:
  assumes "set (drop_points d') \<subseteq> set (drop_points d)" "set (submissions d') \<subseteq> set (submissions d)"
    and "\<And>s. s \<in> set (submissions d) \<Longrightarrow> sr_key s = (i, j) \<Longrightarrow>
        sr_status s \<noteq> SubmissionStatusReceiving \<Longrightarrow>
        s \<in> set (submissions d') \<or> i \<notin> dpr_id ` set (drop_points d')"
  shows "cool i j d d'"
  using assms by (auto simp: cool_def hot_def anchored_def same_files_def)

lemma cool_append:
  assumes "d' = d\<lparr>submissions := submissions d @ [q]\<rparr>" "sr_status q = SubmissionStatusReceiving"
  shows "cool i j d d'"
proof -
  have "hot i j d s" if "hot i j d' s" for s using that assms by (auto simp: hot_def)
  moreover have "anchored i j d'" if "anchored i j d" using that by (auto simp: anchored_def assms(1))
  ultimately show ?thesis by (auto simp: cool_def same_files_def)
qed

text \<open>Every database step is cool, except a commit or a clearing of its own rows and, for an
  anchored key, the creation of its drop point.\<close>

lemma cool_statements:
  "stmt_begin a b now d = Inr (n, d') \<Longrightarrow> cool i j d d'"
  "stmt_delete_receiving a b d = Inr (n, d') \<Longrightarrow> cool i j d d'"
  "stmt_mark_picked_up a b now d = Inr (n, d') \<Longrightarrow> cool i j d d'"
  "stmt_acknowledge a b now d = Inr (n, d') \<Longrightarrow> cool i j d d'"
  "stmt_fail_submission a b now d = Inr (n, d') \<Longrightarrow> cool i j d d'"
  "stmt_mark_expired a d = Inr (n, d') \<Longrightarrow> cool i j d d'"
  "stmt_close a now d = Inr (n, d') \<Longrightarrow> cool i j d d'"
  "stmt_fail_drop_point a now d = Inr (n, d') \<Longrightarrow> cool i j d d'"
proof -
  assume "stmt_begin a b now d = Inr (n, d')"
  then show "cool i j d d'"
    by (auto simp: stmt_begin_def split: option.splits if_splits
        intro: cool_refl cool_append simp: new_submission_row_def)
next
  assume "stmt_delete_receiving a b d = Inr (n, d')"
  then show "cool i j d d'"
    by (intro cool_rows) (auto simp: stmt_delete_receiving_def Let_def table_simps)
next
  assume "stmt_mark_picked_up a b now d = Inr (n, d')"
  then show "cool i j d d'" unfolding stmt_mark_picked_up_def
    by (rule cool_submissions) (auto simp: set_picked_up_def sr_key_def same_files_def)
next
  assume "stmt_acknowledge a b now d = Inr (n, d')"
  then show "cool i j d d'" unfolding stmt_acknowledge_def
    by (rule cool_submissions) (auto simp: set_acknowledged_def sr_key_def same_files_def)
next
  assume "stmt_fail_submission a b now d = Inr (n, d')"
  then show "cool i j d d'" unfolding stmt_fail_submission_def
    by (rule cool_submissions) (auto simp: set_submission_failed_def sr_key_def same_files_def)
next
  assume "stmt_mark_expired a d = Inr (n, d')"
  then show "cool i j d d'" unfolding stmt_mark_expired_def
    by (rule cool_drop_points) (auto simp: set_expired_def)
next
  assume "stmt_close a now d = Inr (n, d')"
  then show "cool i j d d'" unfolding stmt_close_def
    by (rule cool_drop_points) (auto simp: set_closed_def)
next
  assume "stmt_fail_drop_point a now d = Inr (n, d')"
  then show "cool i j d d'" unfolding stmt_fail_drop_point_def
    by (rule cool_drop_points) (auto simp: set_failed_def)
qed

lemma cool_tokens:
  "stmt_add_token p d = Inr (n, d') \<Longrightarrow> cool i j d d'"
  "stmt_disable_token a now d = Inr (n, d') \<Longrightarrow> cool i j d d'"
  "stmt_remove_token a d = Inr (n, d') \<Longrightarrow> cool i j d d'"
  by (rule cool_rows; auto simp: stmt_add_token_def stmt_disable_token_def stmt_remove_token_def
      split: if_splits)+

lemma cool_purge:
  assumes "stmt_purge cutoff d = Inr (n, d')"
  shows "cool i j d d'"
proof (rule cool_rows)
  have d': "drop_points d' = delete_where (purgeable d cutoff) (drop_points d)"
    "submissions d' = filter (\<lambda>s. list_ex (\<lambda>r. dpr_id r = sr_drop_point_id s) (drop_points d')) (submissions d)"
    using assms by (auto simp: stmt_purge_def Let_def)
  show "set (drop_points d') \<subseteq> set (drop_points d)" "set (submissions d') \<subseteq> set (submissions d)"
    by (auto simp: d' table_simps)
  fix s assume "s \<in> set (submissions d)" "sr_key s = (i, j)"
  then show "s \<in> set (submissions d') \<or> i \<notin> dpr_id ` set (drop_points d')"
    by (auto simp: d'(2) list_ex_iff sr_key_def)
qed

lemma cool_clear:
  assumes "update_submissions P clear_pointers d = Inr (n, d')" "\<And>s. sr_key s = (i, j) \<Longrightarrow> \<not> P s"
  shows "cool i j d d'"
  by (rule cool_submissions [OF assms(1)]) (use assms(2) in \<open>auto simp: clear_pointers_def sr_key_def\<close>)

lemma cool_commit:
  assumes "tx_commit a b st now d = Inr ((), d')" "(a, b) \<noteq> (i, j)"
  shows "cool i j d d'"
proof -
  obtain n where "update_submissions (\<lambda>r. sr_key r = (a, b) \<and> sr_status r = SubmissionStatusReceiving)
      (set_ready st now) d = Inr (n, d')"
    using assms(1) by (auto simp: tx_commit_def Let_def split: sum.splits option.splits if_splits prod.splits)
  then show ?thesis
    by (rule cool_submissions) (use assms(2) in \<open>auto simp: set_ready_def sr_key_def\<close>)
qed

text \<open>A clearing of its own rows makes nothing ready either.\<close>

lemma idle_clear:
  assumes "update_submissions P clear_pointers d = Inr (n, d')" "\<forall>s. \<not> hot i j d s"
  shows "(\<forall>s. \<not> hot i j d' s) \<and> (anchored i j d \<longrightarrow> anchored i j d')"
proof -
  have d': "d' = d\<lparr>submissions := update_where P clear_pointers (submissions d)\<rparr>"
    using assms(1) by (simp add: update_submissions_def)
  have "\<exists>s'. hot i j d s'" if "hot i j d' s" for s
    using that by (auto simp: hot_def d' set_update_where clear_pointers_def sr_key_def split: if_splits)
  moreover have "anchored i j d'" if "anchored i j d"
  proof -
    have "\<exists>s' \<in> set (submissions d'). sr_key s' = sr_key s \<and> sr_status s' = sr_status s"
      if "s \<in> set (submissions d)" for s
      using that by (intro bexI [of _ "if P s then clear_pointers s else s"])
        (auto simp: d' set_update_where clear_pointers_def sr_key_def)
    with that show ?thesis unfolding anchored_def by (metis d' db.select_convs(1) db.surjective db.update_convs(2))
  qed
  ultimately show ?thesis using assms(2) by blast
qed

end
