(* ===== verification/Relay_Guard.thy ===== *)
theory Relay_Guard
  imports Relay_State Store_Facts
begin

text \<open>
  The storage invariant under the operations of the repository, of the blob store and of a cleanup
  pass, under any faults.
\<close>

section \<open>Single effects\<close>

lemma stored_still:
  "stored G K i j w \<Longrightarrow> w_db w' = w_db w \<Longrightarrow> w_fs w' = w_fs w \<Longrightarrow> stored G K i j w'"
  by (simp add: stored_def)

lemma idle_still: "idle K i j w \<Longrightarrow> w_db w' = w_db w \<Longrightarrow> idle K i j w'"
  by (simp add: idle_def)

lemma exec_cool:
  assumes "\<And>d n d'. stmt d = Inr (n, d') \<Longrightarrow> db_inv d \<Longrightarrow> db_inv d' \<and> cool i j d d'"
  shows "holds (stored G K i j) (sql_exec stmt)" "holds (idle K i j) (sql_exec stmt)"
proof -
  show "holds (stored G K i j) (sql_exec stmt)"
  proof (rule tripleI)
    fix w x w' assume s: "stored G K i j w" and run: "run_state (sql_exec stmt) w = (x, w')"
    note still = sql_exec_still [OF run]
    show "stored G K i j w'"
    proof (cases "w_db w' = w_db w")
      case False
      with still obtain y where "stmt (w_db w) = Inr (y, w_db w')" by blast
      from assms [OF this] s still show ?thesis by (intro stored_cool [OF s]) (auto simp: stored_def)
    qed (use s still in \<open>auto intro: stored_still\<close>)
  qed
  show "holds (idle K i j) (sql_exec stmt)"
  proof (rule tripleI)
    fix w x w' assume s: "idle K i j w" and run: "run_state (sql_exec stmt) w = (x, w')"
    note still = sql_exec_still [OF run]
    show "idle K i j w'"
    proof (cases "w_db w' = w_db w")
      case False
      with still obtain y where "stmt (w_db w) = Inr (y, w_db w')" by blast
      from assms [OF this] s show ?thesis by (intro idle_cool [OF s]) (auto simp: idle_def)
    qed (use s in \<open>auto intro: idle_still\<close>)
  qed
qed

lemma step_cool:
  assumes "\<And>d n d'. stmt d = Inr (n, d') \<Longrightarrow> db_step d d'"
    and "\<And>d n d'. stmt d = Inr (n, d') \<Longrightarrow> cool i j d d'"
  shows "holds (stored G K i j) (sql_exec stmt)" "holds (idle K i j) (sql_exec stmt)"
  by (rule exec_cool; use assms db_step_inv in blast)+

lemma exec_statements:
  "holds (stored G K i j) (sql_exec (stmt_begin a b now))"
  "holds (stored G K i j) (sql_exec (stmt_delete_receiving a b))"
  "holds (stored G K i j) (sql_exec (stmt_mark_picked_up a b now))"
  "holds (stored G K i j) (sql_exec (stmt_acknowledge a b now))"
  "holds (stored G K i j) (sql_exec (stmt_fail_submission a b now))"
  "holds (stored G K i j) (sql_exec (stmt_mark_expired a))"
  "holds (stored G K i j) (sql_exec (stmt_close a now))"
  "holds (stored G K i j) (sql_exec (stmt_fail_drop_point a now))"
  "holds (stored G K i j) (sql_exec (stmt_purge cutoff))"
  "holds (stored G K i j) (sql_exec (stmt_disable_token a now))"
  "holds (stored G K i j) (sql_exec (stmt_remove_token a))"
  "holds (idle K i j) (sql_exec (stmt_delete_receiving a b))"
  "holds (idle K i j) (sql_exec (stmt_mark_expired a))"
  by (rule step_cool, blast intro: db_step.intros, blast intro: cool_statements cool_purge cool_tokens)+

lemma exec_add_token:
  "validateAPITokenFields (ap_ID p) (ap_SecretHash p) (ap_MaxActiveDropPoints p) = None \<Longrightarrow>
   holds (stored G K i j) (sql_exec (stmt_add_token p))"
  by (rule step_cool) (blast intro: db_step.intros cool_tokens)+

lemma exec_commit_other:
  assumes "(a, b) \<noteq> (i, j)" "cs_EnvelopePath st \<noteq> []" "cs_PayloadPath st \<noteq> []"
    "0 \<le> cs_EncryptedSize st" "is_int64 (cs_EncryptedSize st)"
  shows "holds (stored G K i j) (sql_exec (tx_commit a b st now))"
  by (rule step_cool) (use assms in \<open>auto intro: db_step.intros cool_commit\<close>)

lemma exec_clear:
  "(a, b) \<noteq> (i, j) \<Longrightarrow> holds (stored G K i j) (sql_exec (stmt_clear_submission a b))"
  "a \<noteq> i \<Longrightarrow> holds (stored G K i j) (sql_exec (stmt_clear_drop_point a))"
  by (rule step_cool; force intro: db_step.intros cool_clear
      simp: stmt_clear_submission_def stmt_clear_drop_point_def sr_key_def)+

lemma exec_clear_idle:
  "holds (idle K i j) (sql_exec (stmt_clear_submission a b))"
  "holds (idle K i j) (sql_exec (stmt_clear_drop_point a))"
proof -
  have "holds (idle K i j) (sql_exec (update_submissions P clear_pointers))" for P
  proof (rule tripleI)
    fix w x w' assume s: "idle K i j w"
      and run: "run_state (sql_exec (update_submissions P clear_pointers)) w = (x, w')"
    show "idle K i j w'"
    proof (cases "w_db w' = w_db w")
      case False
      with sql_exec_still [OF run] obtain y
        where y: "update_submissions P clear_pointers (w_db w) = Inr (y, w_db w')" by blast
      with s clear_inv [OF _ y] idle_clear [OF y] show ?thesis by (simp add: idle_def)
    qed (use s in \<open>auto intro: idle_still\<close>)
  qed
  then show "holds (idle K i j) (sql_exec (stmt_clear_submission a b))"
    "holds (idle K i j) (sql_exec (stmt_clear_drop_point a))"
    by (simp_all add: stmt_clear_submission_def stmt_clear_drop_point_def)
qed

section \<open>Files\<close>

lemma stored_blob:
  assumes "keeps (blob_frame p) m"
    and "\<And>q. below (submissionDir i j) q \<Longrightarrow> \<not> below p q \<and> \<not> below q p"
  shows "holds (stored G K i j) m"
proof (rule triple_keeps [OF assms(1)])
  fix w w' assume f: "blob_frame p w w'" and s: "stored G K i j w"
  have "fs_get (w_fs w') (submissionDir i j @ [n]) = fs_get (w_fs w) (submissionDir i j @ [n])" for n
    using f assms(2) [of "submissionDir i j @ [n]"] by (simp add: blob_frame_def fs_frame_def) blast
  with f s show "stored G K i j w'" by (simp add: stored_def row_stored_def blob_frame_def)
qed

lemma idle_blob: "keeps (blob_frame p) m \<Longrightarrow> holds (idle K i j) m"
  by (erule triple_keeps) (auto simp: blob_frame_def intro: idle_still)

lemma stored_files:
  "(a, b) \<noteq> (i, j) \<Longrightarrow> holds (stored G K i j) (DeleteSubmission a b)"
  "a \<noteq> i \<Longrightarrow> holds (stored G K i j) (DeleteDropPoint a)"
  "(a, b) \<noteq> (i, j) \<Longrightarrow> holds (stored G K i j) (WriteSubmission a b env events m)"
  by (rule stored_blob, rule keeps_deletes keeps_WriteSubmission,
      blast dest: submission_dirs_apart drop_dirs_apart)+

lemma idle_files:
  "holds (idle K i j) (DeleteSubmission a b)"
  "holds (idle K i j) (DeleteDropPoint a)"
  "holds (idle K i j) (WriteSubmission a b env events m)"
  by (rule idle_blob, rule keeps_deletes keeps_WriteSubmission)+

section \<open>Cleanup\<close>

lemma hot_not_ready:
  "db_inv d \<Longrightarrow> s \<in> set (submissions d) \<Longrightarrow> sr_key s = (i, j) \<Longrightarrow>
   sr_status s \<noteq> SubmissionStatusReady \<Longrightarrow> \<not> hot i j d q"
  by (auto simp: hot_def dest: distinct_key_unique [OF inv_distinct(2), of d q s])

lemma hot_not_open:
  "db_inv d \<Longrightarrow> r \<in> set (drop_points d) \<Longrightarrow> dpr_id r = i \<Longrightarrow> dpr_status r \<noteq> StatusOpen \<Longrightarrow>
   \<not> hot i j d q"
  by (auto simp: hot_def dest: distinct_key_unique [OF inv_distinct(1), of d _ r])

interpretation storage: guarded_service "stored G K i j" "idle K i j" i j for G K i j
proof unfold_locales
  fix w s assume "stored G K i j w" "s \<in> set (submissions (w_db w))" "sr_key s = (i, j)"
    "sr_status s \<noteq> SubmissionStatusReady"
  then show "idle K i j w" by (auto simp: stored_def idle_def dest: hot_not_ready)
next
  fix w r assume "stored G K i j w" "r \<in> set (drop_points (w_db w))" "dpr_id r = i"
    "dpr_status r \<noteq> StatusOpen"
  then show "idle K i j w" by (auto simp: stored_def idle_def dest: hot_not_open)
next
  fix w assume "stored G K i j w" "i \<notin> dpr_id ` set (drop_points (w_db w))"
  then show "idle K i j w" by (auto simp: stored_def idle_def hot_def)
qed (auto intro: stored_still idle_still idle_stored stored_files idle_files exec_statements
    exec_clear exec_clear_idle)

end
