(* ===== verification/Repo_Success.thy ===== *)
theory Repo_Success
  imports Cleanup_Guard
begin

text \<open>
  A success the repository reports is real: what holds in the database after a method has returned
  without an error, whatever faults occurred in between. No invariant is needed for these.
\<close>

lemma triple_conj:
  "triple P m Q \<Longrightarrow> triple P' m R \<Longrightarrow> triple (\<lambda>w. P w \<and> P' w) m (\<lambda>x w. Q x w \<and> R x w)"
  unfolding triple_def by blast

text \<open>Adding what a program establishes in any world to what it keeps.\<close>

lemma triple_real:
  "triple P m Q \<Longrightarrow> triple (\<lambda>_. True) m R \<Longrightarrow> triple P m (\<lambda>x w. Q x w \<and> R x w)"
  unfolding triple_def by blast

lemma triple_any: "triple (\<lambda>_. True) m Q \<Longrightarrow> triple P m Q"
  by (simp add: triple_def)

lemma real_query:
  "triple (\<lambda>_. True) (sql_query q) (\<lambda>r w. \<forall>v. r = Inr v \<longrightarrow> q (w_db w) = Inr v)"
  by (rule tripleI) (auto dest: sql_query_Inr)

lemma real_exec:
  "triple (\<lambda>_. True) (sql_exec stmt)
     (\<lambda>r w. (\<forall>v. r = Inr v \<longrightarrow> (\<exists>d. stmt d = Inr (v, w_db w)))
        \<and> (\<forall>e. r = Inl e \<longrightarrow> (\<exists>d. stmt d = Inl e) \<or> (\<exists>c. e = ErrIO c)))"
proof (rule tripleI)
  fix w r w' assume run: "run_state (sql_exec stmt) w = (r, w')"
  have "(\<exists>d. stmt d = Inl e) \<or> (\<exists>c. e = ErrIO c)" if "r = Inl e" for e
    using run that by (auto simp: sql_exec_def effect_def split: list.splits fault.splits sum.splits)
  with run show "(\<forall>v. r = Inr v \<longrightarrow> (\<exists>d. stmt d = Inr (v, w_db w')))
      \<and> (\<forall>e. r = Inl e \<longrightarrow> (\<exists>d. stmt d = Inl e) \<or> (\<exists>c. e = ErrIO c))"
    by (auto dest: sql_exec_Inr)
qed

lemma real_rows:
  "triple (\<lambda>w. F (w_db w)) (rows_affected n)
     (\<lambda>r w. F (w_db w) \<and> (\<forall>c. r = Inr c \<longrightarrow> c = n) \<and> (\<forall>e. r = Inl e \<longrightarrow> (\<exists>c. e = ErrIO c)))"
  by (rule tripleI) (auto dest: rows_affected_run)

text \<open>The shape of the methods that update one row and count what they hit.\<close>

lemma real_update_one:
  assumes one: "\<And>d w. stmt d = Inr (1, w_db w) \<Longrightarrow> S (Inr ()) w"
    and err: "\<And>e w. (\<exists>d. stmt d = Inl e) \<or> (\<exists>c. e = ErrIO c) \<Longrightarrow> S (Inl (g e)) w"
    and io: "\<And>c w. S (Inl (ErrIO c)) w"
    and otherwise: "triple (\<lambda>_. True) Z S"
  shows "triple P (do {
       u \<leftarrow> sql_exec stmt;
       case u of
         Inl err \<Rightarrow> State_Monad.return (Inl (g err))
       | Inr n \<Rightarrow> do {
       changed \<leftarrow> rows_affected n;
       case changed of
         Inl err \<Rightarrow> State_Monad.return (Inl err)
       | Inr c \<Rightarrow> if c = 1 then State_Monad.return (Inr ()) else Z
       }}) S"
proof -
  have rest: "triple (\<lambda>w. (\<exists>d. stmt d = Inr (n, w_db w)) \<and> (\<forall>c. ch = Inr c \<longrightarrow> c = n)
         \<and> (\<forall>e. ch = Inl e \<longrightarrow> (\<exists>c. e = ErrIO c)))
      (case ch of Inl err \<Rightarrow> State_Monad.return (Inl err)
         | Inr c \<Rightarrow> if c = 1 then State_Monad.return (Inr ()) else Z) S" for ch n
    by (intro triple_sum triple_if triple_return triple_weaken [OF otherwise]) (auto intro: one io)
  show ?thesis
  proof (rule triple_bind [OF triple_any [OF real_exec]], rule triple_sum, goal_cases)
    case (1 x e)
    then show ?case by (intro triple_return) (use err in blast)
  next
    case (2 x n)
    show ?case
      by (rule triple_weaken [OF triple_bind [OF real_rows [of "\<lambda>db. \<exists>d. stmt d = Inr (n, db)"] rest]])
        (use 2 in auto)
  qed
qed

lemma query_errors:
  assumes "run_state (sql_query q) w = (Inl e, w')"
  shows "q (w_db w') = Inl e \<or> (\<exists>c. e = ErrIO c)"
  using assms by (auto simp: sql_query_def effect_def split: list.splits fault.splits)

section \<open>Drop points that are not open\<close>

definition shut :: "go_string \<Rightarrow> db \<Rightarrow> bool" where
  "shut a d \<longleftrightarrow>
     (\<exists>r \<in> set (drop_points d). dpr_id r = a \<and> dpr_status r \<noteq> StatusOpen)
     \<or> (\<forall>r \<in> set (drop_points d). dpr_id r = a \<longrightarrow> dpr_status r \<noteq> StatusOpen)"

lemma shut_none: "\<forall>r \<in> set (drop_points d). dpr_id r = a \<longrightarrow> dpr_status r \<noteq> StatusOpen \<Longrightarrow> shut a d"
  by (simp add: shut_def)

lemma shut_row:
  "r \<in> set (drop_points d) \<Longrightarrow> dpr_id r = a \<Longrightarrow> dpr_status r \<noteq> StatusOpen \<Longrightarrow> shut a d"
  unfolding shut_def by blast

lemma mark_expired_shut: "stmt_mark_expired a d = Inr (n, d') \<Longrightarrow> shut a d'"
proof (rule shut_none, rule ballI, rule impI)
  fix r assume m: "stmt_mark_expired a d = Inr (n, d')" and r: "r \<in> set (drop_points d')" "dpr_id r = a"
  then obtain s where "r = (if dpr_id s = a \<and> dpr_status s = StatusOpen then set_expired s else s)"
    by (auto simp: stmt_mark_expired_def update_drop_points_def set_update_where)
  with r(2) show "dpr_status r \<noteq> StatusOpen" by (auto simp: set_expired_def split: if_splits)
qed

lemma close_shut:
  assumes "stmt_close a now d = Inr (Suc 0, d')"
  shows "shut a d'"
proof -
  let ?P = "\<lambda>r. dpr_id r = a \<and> dpr_status r = StatusOpen \<and> dpr_expires_at r > now"
  have d': "drop_points d' = update_where ?P (set_closed now) (drop_points d)"
    and "count_where ?P (drop_points d) = 1"
    using assms by (auto simp: stmt_close_def update_drop_points_def)
  then obtain r where r: "r \<in> set (drop_points d)" "?P r"
    using count_where_pos [of ?P "drop_points d"] by auto
  have "set_closed now r \<in> set (drop_points d')"
    unfolding d' set_update_where using r by (intro bexI [of _ r]) simp_all
  then show ?thesis by (rule shut_row) (simp_all add: set_closed_def r)
qed

lemma real_find_by_id:
  "triple (\<lambda>_. True) (repo_FindDropPointByID a)
     (\<lambda>r w. (\<forall>dp. r = Inr dp \<longrightarrow>
        (\<exists>q \<in> set (drop_points (w_db w)). dpr_id q = a \<and> dp = drop_point_of_row q))
      \<and> (\<forall>e. r = Inl e \<longrightarrow> \<not> errors_is e ErrDropPointExpired))"
proof (rule tripleI)
  fix w r w' assume run: "run_state (repo_FindDropPointByID a) w = (r, w')"
  obtain x where x: "run_state (sql_query (query_drop_point (\<lambda>r. dpr_id r = a))) w = (x, w')"
    "r = (case x of Inl err \<Rightarrow> Inl (if errors_is err ErrNoRows then ErrDropPointNotFound else err)
                  | Inr dp \<Rightarrow> Inr dp)"
    using run by (auto simp: repo_FindDropPointByID_def split: prod.splits)
  show "(\<forall>dp. r = Inr dp \<longrightarrow>
        (\<exists>q \<in> set (drop_points (w_db w')). dpr_id q = a \<and> dp = drop_point_of_row q))
      \<and> (\<forall>e. r = Inl e \<longrightarrow> \<not> errors_is e ErrDropPointExpired)"
  proof (cases x)
    case (Inl e)
    from query_errors [OF x(1) [unfolded Inl]] have "\<not> errors_is e ErrDropPointExpired"
      by (auto simp: query_drop_point_def scanDropPoint_def split: option.splits if_splits)
    with x(2) Inl show ?thesis by simp
  next
    case (Inr dp)
    with real_query x(1) have "query_drop_point (\<lambda>r. dpr_id r = a) (w_db w') = Inr dp"
      by (auto dest: tripleD)
    with x(2) Inr show ?thesis by (auto dest: query_drop_point_Inr)
  qed
qed

lemma real_mark_expired:
  "triple (\<lambda>_. True) (repo_markExpired a)
     (\<lambda>r w. (r = Inr () \<longrightarrow> shut a (w_db w)) \<and> (\<forall>e. r = Inl e \<longrightarrow> (\<exists>c. e = ErrIO c)))"
proof (rule tripleI)
  fix w r w' assume run: "run_state (repo_markExpired a) w = (r, w')"
  obtain x where x: "run_state (sql_exec (stmt_mark_expired a)) w = (x, w')"
    "r = (case x of Inl err \<Rightarrow> Inl err | Inr _ \<Rightarrow> Inr ())"
    using run by (auto simp: repo_markExpired_def split: prod.splits)
  show "(r = Inr () \<longrightarrow> shut a (w_db w')) \<and> (\<forall>e. r = Inl e \<longrightarrow> (\<exists>c. e = ErrIO c))"
  proof (cases x)
    case (Inl e)
    with x(1) have "\<exists>c. e = ErrIO c"
      by (auto simp: sql_exec_def effect_def stmt_mark_expired_def update_drop_points_def
          split: list.splits fault.splits)
    with x(2) Inl show ?thesis by simp
  next
    case (Inr n)
    from sql_exec_Inr [OF x(1) [unfolded Inr]] x(2) Inr show ?thesis by (auto dest: mark_expired_shut)
  qed
qed

lemma real_expire_if_elapsed:
  "triple (\<lambda>w. \<exists>q \<in> set (drop_points (w_db w)). dpr_id q = dp_ID dp \<and> dp = drop_point_of_row q)
     (expire_if_elapsed dp now)
     (\<lambda>r w. \<forall>dp'. r = Inr dp' \<longrightarrow> dp_ID dp' = dp_ID dp
        \<and> (dp_Status dp' \<noteq> StatusOpen \<longrightarrow> shut (dp_ID dp) (w_db w)))"
  unfolding expire_if_elapsed_def
proof (intro triple_if)
  show "triple (\<lambda>w. \<exists>q \<in> set (drop_points (w_db w)). dpr_id q = dp_ID dp \<and> dp = drop_point_of_row q)
     (do { r \<leftarrow> repo_markExpired (dp_ID dp);
           State_Monad.return (case r of Inl err \<Rightarrow> Inl err | Inr _ \<Rightarrow> Inr (dp\<lparr>dp_Status := StatusExpired\<rparr>)) })
     (\<lambda>r w. \<forall>dp'. r = Inr dp' \<longrightarrow> dp_ID dp' = dp_ID dp
        \<and> (dp_Status dp' \<noteq> StatusOpen \<longrightarrow> shut (dp_ID dp) (w_db w)))"
    by (rule triple_weaken [OF triple_bind [OF real_mark_expired triple_return]])
      (auto split: sum.splits)
  show "triple (\<lambda>w. \<exists>q \<in> set (drop_points (w_db w)). dpr_id q = dp_ID dp \<and> dp = drop_point_of_row q)
     (State_Monad.return (Inr dp))
     (\<lambda>r w. \<forall>dp'. r = Inr dp' \<longrightarrow> dp_ID dp' = dp_ID dp
        \<and> (dp_Status dp' \<noteq> StatusOpen \<longrightarrow> shut (dp_ID dp) (w_db w)))"
    by (rule triple_return) (auto simp: shut_def drop_point_of_row_def)
qed

lemma real_authorize:
  "triple (\<lambda>_. True) (repo_AuthorizePickupToken a h now)
     (\<lambda>r w. \<forall>dp. r = Inr dp \<longrightarrow> dp_ID dp = a \<and> (dp_Status dp \<noteq> StatusOpen \<longrightarrow> shut a (w_db w)))"
  unfolding repo_AuthorizePickupToken_def
proof (rule triple_bind [OF real_find_by_id], intro triple_sum triple_if, goal_cases)
  case (3 r dp)
  show ?case
  proof (cases "dp_ID dp = a")
    case True
    with 3 show ?thesis
      by (intro triple_weaken [OF real_expire_if_elapsed]) auto
  next
    case False
    with 3 show ?thesis by (auto simp: triple_def drop_point_of_row_def)
  qed
qed (auto intro: triple_return)

lemma real_close:
  "triple (\<lambda>_. True) (repo_CloseDropPoint a now)
     (\<lambda>r w. (case r of Inl e \<Rightarrow> errors_is e ErrDropPointExpired | Inr _ \<Rightarrow> True) \<longrightarrow> shut a (w_db w))"
proof -
  let ?S = "\<lambda>r w. (case r of Inl e \<Rightarrow> errors_is e ErrDropPointExpired | Inr _ \<Rightarrow> True) \<longrightarrow> shut a (w_db w)"
  have mark: "triple P (do { m \<leftarrow> repo_markExpired a;
      State_Monad.return (case m of Inl markErr \<Rightarrow> Inl markErr | Inr _ \<Rightarrow> Inl err) }) ?S"
    for P :: "world \<Rightarrow> bool" and err
    by (rule triple_weaken [OF triple_bind [OF real_mark_expired triple_return]])
      (auto split: sum.splits)
  have closed: "triple (\<lambda>w. \<exists>q \<in> set (drop_points (w_db w)). dpr_id q = a \<and> dp = drop_point_of_row q)
      (State_Monad.return (Inr ())) ?S" if "dp_Status dp = StatusClosed" for dp
    by (rule triple_return) (use that in \<open>auto simp: drop_point_of_row_def intro: shut_row\<close>)
  have quit: "triple P (State_Monad.return (Inl e)) ?S" if "\<not> errors_is e ErrDropPointExpired" for P e
    using that by (intro triple_return) auto
  have found: "triple (\<lambda>w. \<exists>q \<in> set (drop_points (w_db w)). dpr_id q = a \<and> dp = drop_point_of_row q)
      (if dp_Status dp = StatusClosed then State_Monad.return (Inr ())
       else case RequireOpen dp now of
         Some err \<Rightarrow>
           if errors_is err ErrDropPointExpired then do {
             m \<leftarrow> repo_markExpired a;
             State_Monad.return (case m of Inl markErr \<Rightarrow> Inl markErr | Inr _ \<Rightarrow> Inl err)
           }
           else State_Monad.return (Inl err)
       | None \<Rightarrow> X) ?S" if "triple (\<lambda>_. True) X ?S" for dp X
    by (intro triple_if triple_option mark closed quit triple_weaken [OF that]) auto
  let ?again = "do {
       r2 \<leftarrow> repo_FindDropPointByID a;
       case r2 of
         Inl err \<Rightarrow> State_Monad.return (Inl err)
       | Inr dp2 \<Rightarrow>
       if dp_Status dp2 = StatusClosed then State_Monad.return (Inr ())
       else case RequireOpen dp2 now of
         Some err \<Rightarrow>
           if errors_is err ErrDropPointExpired then do {
             m \<leftarrow> repo_markExpired a;
             State_Monad.return (case m of Inl markErr \<Rightarrow> Inl markErr | Inr _ \<Rightarrow> Inl err)
           }
           else State_Monad.return (Inl err)
       | None \<Rightarrow> State_Monad.return (Inl ErrDropPointNotOpen)
     }"
  have again: "triple (\<lambda>_. True) ?again ?S"
    by (rule triple_bind [OF real_find_by_id], rule triple_sum)
      (rule triple_return, simp, rule triple_weaken [OF found [OF quit]], auto)
  have update: "triple (\<lambda>_. True) (do {
       u \<leftarrow> sql_exec (stmt_close a now);
       case u of
         Inl err \<Rightarrow> State_Monad.return (Inl err)
       | Inr n \<Rightarrow> do {
       changed \<leftarrow> rows_affected n;
       case changed of
         Inl err \<Rightarrow> State_Monad.return (Inl err)
       | Inr c \<Rightarrow> if c = 1 then State_Monad.return (Inr ()) else ?again
       }}) ?S"
    by (rule real_update_one [where g = "\<lambda>e. e", OF _ _ _ again])
      (auto simp: stmt_close_def update_drop_points_def intro: close_shut)
  show ?thesis
    unfolding repo_CloseDropPoint_def
  proof (rule triple_bind [OF real_find_by_id], rule triple_sum, goal_cases)
    case (2 r dp)
    from found [OF update, of dp] show ?case by (rule triple_weaken) (use 2 in auto)
  qed (auto intro: triple_return)
qed

section \<open>Submissions\<close>

lemma real_find_submission:
  "triple (\<lambda>_. True) (repo_FindSubmission a b)
     (\<lambda>r w. (\<forall>s. r = Inr s \<longrightarrow>
        (\<exists>q \<in> set (submissions (w_db w)). sr_key q = (a, b) \<and> s = submission_of_row q))
      \<and> (r = Inl ErrSubmissionNotFound \<longrightarrow> (\<forall>q \<in> set (submissions (w_db w)). sr_key q \<noteq> (a, b)))
      \<and> (\<forall>e. r = Inl e \<longrightarrow> errors_is e ErrSubmissionNotFound \<longrightarrow> e = ErrSubmissionNotFound))"
proof (rule tripleI)
  fix w r w' assume run: "run_state (repo_FindSubmission a b) w = (r, w')"
  obtain x where x: "run_state (sql_query (query_submission a b)) w = (x, w')"
    "r = (case x of Inl err \<Rightarrow> Inl (if errors_is err ErrNoRows then ErrSubmissionNotFound else err)
                  | Inr s \<Rightarrow> Inr s)"
    using run by (auto simp: repo_FindSubmission_def split: prod.splits)
  show "(\<forall>s. r = Inr s \<longrightarrow>
        (\<exists>q \<in> set (submissions (w_db w')). sr_key q = (a, b) \<and> s = submission_of_row q))
      \<and> (r = Inl ErrSubmissionNotFound \<longrightarrow> (\<forall>q \<in> set (submissions (w_db w')). sr_key q \<noteq> (a, b)))
      \<and> (\<forall>e. r = Inl e \<longrightarrow> errors_is e ErrSubmissionNotFound \<longrightarrow> e = ErrSubmissionNotFound)"
  proof (cases x)
    case (Inl e)
    from query_errors [OF x(1) [unfolded Inl]] consider "e = ErrNoRows"
        "\<forall>q \<in> set (submissions (w_db w')). sr_key q \<noteq> (a, b)"
      | msg where "e = ErrOther msg" | c where "e = ErrIO c"
      by (auto simp: query_submission_def scanSubmission_def find_None_iff
          split: option.splits submission_status.splits)
    then show ?thesis using x(2) Inl by cases auto
  next
    case (Inr s)
    with real_query x(1) have "query_submission a b (w_db w') = Inr s" by (auto dest: tripleD)
    with x(2) Inr show ?thesis by (auto dest: query_submission_Inr)
  qed
qed

text \<open>There is a row with this key and this status.\<close>

definition has_status :: "go_string \<Rightarrow> go_string \<Rightarrow> submission_status \<Rightarrow> db \<Rightarrow> bool" where
  "has_status a b st d \<longleftrightarrow> (\<exists>q \<in> set (submissions d). sr_key q = (a, b) \<and> sr_status q = st)"

lemma has_statusI: "q \<in> set (submissions d) \<Longrightarrow> sr_key q = (a, b) \<Longrightarrow> sr_status q = st \<Longrightarrow> has_status a b st d"
  unfolding has_status_def by blast

lemma updated_status:
  assumes "update_submissions P f d = Inr (Suc 0, d')"
    and "\<And>q. P q \<Longrightarrow> sr_key (f q) = (a, b) \<and> sr_status (f q) = st"
  shows "has_status a b st d'"
proof -
  from assms(1) have d': "submissions d' = update_where P f (submissions d)"
    and "count_where P (submissions d) = 1"
    by (auto simp: update_submissions_def)
  then obtain q where q: "q \<in> set (submissions d)" "P q"
    using count_where_pos [of P "submissions d"] by auto
  have "f q \<in> set (submissions d')"
    unfolding d' set_update_where using q by (intro bexI [of _ q]) simp_all
  with assms(2) [OF q(2)] show ?thesis by (auto intro: has_statusI)
qed

lemma real_acknowledge:
  "triple (\<lambda>_. True) (repo_AcknowledgeSubmission a b now)
     (\<lambda>r w. r = Inr () \<longrightarrow> has_status a b SubmissionStatusAcknowledged (w_db w))"
  unfolding repo_AcknowledgeSubmission_def
proof (rule real_update_one [where g = "\<lambda>e. e"], goal_cases)
  case (1 d w)
  then have "stmt_acknowledge a b now d = Inr (Suc 0, w_db w)" by simp
  then show ?case
    unfolding stmt_acknowledge_def
    by (intro impI, elim updated_status) (auto simp: set_acknowledged_def sr_key_def)
next
  case 4
  show ?case
    by (rule triple_bind [OF real_find_submission], rule triple_return)
      (auto split: sum.splits if_splits simp: submission_of_row_def has_status_def, blast)
qed auto

lemma real_begin:
  "triple (\<lambda>_. True) (repo_BeginSubmission a b now)
     (\<lambda>r w. r = Inr () \<longrightarrow> has_status a b SubmissionStatusReceiving (w_db w)
        \<and> (\<exists>q \<in> set (drop_points (w_db w)). dpr_id q = a \<and> dpr_status q = StatusOpen))"
  unfolding repo_BeginSubmission_def
proof (rule real_update_one, goal_cases)
  case (1 d w)
  from 1 obtain q where q: "find (\<lambda>r. dpr_id r = a \<and> dpr_status r = StatusOpen \<and> dpr_expires_at r > now
      \<and> int (pending_count d a) < dpr_max_pending_submissions r) (drop_points d) = Some q"
    and d: "w_db w = d\<lparr>submissions := submissions d @ [new_submission_row a b now]\<rparr>"
    by (auto simp: stmt_begin_def split: option.splits if_splits)
  from q have "q \<in> set (drop_points (w_db w)) \<and> dpr_id q = a \<and> dpr_status q = StatusOpen"
    unfolding d by (auto dest: find_SomeD)
  moreover have "new_submission_row a b now \<in> set (submissions (w_db w))" using d by simp
  ultimately show ?case by (auto intro: has_statusI simp: new_submission_row_def sr_key_def)
next
  case 4
  show ?case
    by (intro triple_bind [OF triple_any] triple_sum triple_option triple_if triple_return)
      (auto simp: triple_def split: sum.splits if_splits)
qed auto

lemma real_commit:
  "triple (\<lambda>_. True) (repo_CommitSubmission a b st now)
     (\<lambda>r w. r = Inr () \<longrightarrow> has_status a b SubmissionStatusReady (w_db w))"
proof -
  have "has_status a b SubmissionStatusReady d'" if "tx_commit a b st now d = Inr ((), d')" for d d'
  proof -
    from that have "update_submissions (\<lambda>r. sr_key r = (a, b) \<and> sr_status r = SubmissionStatusReceiving)
        (set_ready st now) d = Inr (Suc 0, d')"
      by (auto simp: tx_commit_def Let_def split: sum.splits option.splits if_splits prod.splits)
    then show ?thesis by (elim updated_status) (auto simp: set_ready_def sr_key_def)
  qed
  then show ?thesis
    unfolding repo_CommitSubmission_def
    by (intro triple_if triple_return triple_weaken [OF real_exec]) auto
qed

end
