(* ===== verification/Relay_Handlers.thy ===== *)
theory Relay_Handlers
  imports Relay_Guard Repo_Success Router
begin

text \<open>
  The storage invariant under every request handler, under any faults: a handler keeps it for every
  submission, and where it writes or deletes files of a submission itself, that one is not ready at
  the time, or becomes ready with its files in place.
\<close>

abbreviation storage_holds where
  "storage_holds G K i j m \<equiv> holds (stored G K i j) m"

section \<open>Repository methods\<close>

lemmas storage_rules = holds_rules storage.reads exec_statements storage.Q_markExpired
  storage.delete_receiving

lemma storage_lookups:
  "storage_holds G K i j (repo_FindDropPointByID a)"
  "storage_holds G K i j (repo_FindSubmission a b)"
  "holds (idle K i j) (repo_FindSubmission a b)"
  "storage_holds G K i j (expire_if_elapsed dp now)"
  unfolding repo_FindDropPointByID_def repo_FindSubmission_def expire_if_elapsed_def
  by (intro storage_rules)+

lemma storage_repo:
  "storage_holds G K i j (repo_FindOpenDropPointByDropTokenHash h now)"
  "storage_holds G K i j (repo_AuthorizePickupToken a h now)"
  "storage_holds G K i j (repo_CloseDropPoint a now)"
  "storage_holds G K i j (repo_BeginSubmission a b now)"
  "storage_holds G K i j (repo_ListReadySubmissions a)"
  "storage_holds G K i j (repo_PendingStats a)"
  "storage_holds G K i j (repo_MarkSubmissionPickedUp a b now)"
  "storage_holds G K i j (repo_AcknowledgeSubmission a b now)"
  "storage_holds G K i j (repo_FailSubmission a b now)"
  "storage_holds G K i j (repo_FindEnabledAPITokenBySecretHash h)"
  unfolding repo_FindOpenDropPointByDropTokenHash_def repo_FindDropPointByDropTokenHash_def
    repo_AuthorizePickupToken_def repo_CloseDropPoint_def repo_BeginSubmission_def
    repo_ListReadySubmissions_def repo_PendingStats_def repo_MarkSubmissionPickedUp_def
    repo_AcknowledgeSubmission_def repo_FailSubmission_def repo_FindEnabledAPITokenBySecretHash_def
  by (intro storage_rules storage_lookups)+

text \<open>Where the key is not ready, or its drop point not open, the invariant is idle.\<close>

lemma status_idle:
  "stored G K i j w \<Longrightarrow> has_status i j st (w_db w) \<Longrightarrow> st \<noteq> SubmissionStatusReady \<Longrightarrow> idle K i j w"
  by (auto simp: has_status_def intro: storage.not_ready)

lemma absent_idle:
  "stored G K i j w \<Longrightarrow> \<forall>s \<in> set (submissions (w_db w)). sr_key s \<noteq> (i, j) \<Longrightarrow> idle K i j w"
  by (auto simp: stored_def idle_def hot_def)

lemma shut_idle: "stored G K i j w \<Longrightarrow> shut i (w_db w) \<Longrightarrow> idle K i j w"
proof -
  assume s: "stored G K i j w" and sh: "shut i (w_db w)"
  then consider r where "r \<in> set (drop_points (w_db w))" "dpr_id r = i" "dpr_status r \<noteq> StatusOpen"
    | "\<forall>r \<in> set (drop_points (w_db w)). dpr_id r = i \<longrightarrow> dpr_status r \<noteq> StatusOpen"
    by (auto simp: shut_def)
  then show "idle K i j w"
  proof cases
    case 1
    then show ?thesis by (intro storage.not_open [OF s])
  next
    case 2
    with s show ?thesis by (auto simp: stored_def idle_def hot_def)
  qed
qed

text \<open>What a condition of the request guards: if it concerns this key, the key is idle.\<close>

definition guard ::
    "(go_string \<Rightarrow> go_string \<Rightarrow> bool) \<Rightarrow> bool \<Rightarrow> go_string \<Rightarrow> go_string \<Rightarrow> bool \<Rightarrow> world \<Rightarrow> bool" where
  "guard G K i j c w \<longleftrightarrow> stored G K i j w \<and> (c \<longrightarrow> idle K i j w)"

lemma guard_stored:
  "holds (guard G K i j c) m \<Longrightarrow> triple (guard G K i j c) m (\<lambda>_. stored G K i j)"
  "holds (stored G K i j) m \<Longrightarrow> triple (guard G K i j c) m (\<lambda>_. stored G K i j)"
  by (erule triple_weaken; simp add: guard_def)+

lemma holds_guard:
  assumes "\<not> c \<Longrightarrow> holds (stored G K i j) m" "holds (idle K i j) m"
  shows "holds (guard G K i j c) m"
proof (cases c)
  case True
  have "guard G K i j True = idle K i j" by (auto simp: guard_def fun_eq_iff intro: idle_stored)
  with assms(2) True show ?thesis by simp
next
  case False
  have "guard G K i j False = stored G K i j" by (auto simp: guard_def fun_eq_iff)
  with assms(1) False show ?thesis by simp
qed

lemma guard_files:
  "holds (guard G K i j ((a, b) = (i, j))) (DeleteSubmission a b)"
  "holds (guard G K i j ((a, b) = (i, j))) (repo_ClearSubmissionFiles a b)"
  "holds (guard G K i j ((a, b) = (i, j))) (repo_DeleteReceivingSubmission a b)"
  "holds (guard G K i j (a = i)) (DeleteDropPoint a)"
  "holds (guard G K i j (a = i)) (repo_ClearDropPointFiles a)"
  by (rule holds_guard; (rule stored_files idle_files storage.clear storage.delete_receiving; simp?))+

section \<open>Reading handlers and receipts\<close>

lemma authorize_guard:
  "triple (stored G K i j) (authorizePickup deps r a)
     (\<lambda>x w. stored G K i j w \<and> (\<forall>dp. x = Inr dp \<longrightarrow> dp_ID dp = a
        \<and> (dp_Status dp \<noteq> StatusOpen \<and> a = i \<longrightarrow> idle K i j w)))"
proof -
  have auth: "triple (stored G K i j) (repo_AuthorizePickupToken a h now)
     (\<lambda>x w. stored G K i j w \<and> (\<forall>dp. x = Inr dp \<longrightarrow> dp_ID dp = a
        \<and> (dp_Status dp \<noteq> StatusOpen \<longrightarrow> shut a (w_db w))))" for h now
    by (rule triple_real [OF storage_repo(2) real_authorize])
  show ?thesis
    unfolding authorizePickup_def
    by (intro triple_if triple_option triple_return triple_bind [OF storage.reads(9)]
        triple_bind [OF auth]) (auto split: sum.splits intro: shut_idle)
qed

lemma authorized_guard:
  assumes "\<And>dp. dp_ID dp = a \<Longrightarrow>
      triple (guard G K i j (dp_Status dp \<noteq> StatusOpen \<and> a = i)) (f dp) (\<lambda>_. stored G K i j)"
  shows "storage_holds G K i j (authorized deps r a f)"
  unfolding authorized_def
proof (rule triple_bind [OF authorize_guard], rule triple_sum, goal_cases)
  case (2 x dp)
  show ?case
  proof (cases "dp_ID dp = a")
    case True
    from assms [OF this] show ?thesis by (rule triple_weaken) (use 2 in \<open>auto simp: guard_def\<close>)
  next
    case False
    with 2 show ?thesis by (auto simp: triple_def)
  qed
qed (auto intro: triple_return)

lemma authorized_open_guard:
  assumes "\<And>dp. dp_ID dp = a \<Longrightarrow> storage_holds G K i j (f dp)"
  shows "storage_holds G K i j (authorized_open deps r a f)"
  unfolding authorized_open_def
  by (intro authorized_guard guard_stored(2) triple_option holds_return assms)

lemma storage_read_handlers:
  "storage_holds G K i j (HandleGetDropPointStatus deps r a)"
  "storage_holds G K i j (HandleListSubmissions deps r a)"
  "storage_holds G K i j (HandleGetDropMetadata deps tok)"
proof -
  show "storage_holds G K i j (HandleGetDropPointStatus deps r a)"
    unfolding HandleGetDropPointStatus_def
    by (intro authorized_guard guard_stored(2) storage_rules storage_repo)
  show "storage_holds G K i j (HandleListSubmissions deps r a)"
    unfolding HandleListSubmissions_def
    by (intro authorized_open_guard storage_rules storage_repo)
  show "storage_holds G K i j (HandleGetDropMetadata deps tok)"
    unfolding HandleGetDropMetadata_def by (intro storage_rules storage_repo)
qed

lemma storage_acknowledge: "storage_holds G K i j (HandleAcknowledgeSubmission deps r a b)"
proof -
  have ack: "triple (stored G K i j) (repo_AcknowledgeSubmission a b now)
      (\<lambda>x w. stored G K i j w \<and> (x = Inr () \<longrightarrow> has_status a b SubmissionStatusAcknowledged (w_db w)))" for now
    by (rule triple_real [OF storage_repo(8) real_acknowledge])
  let ?rest = "do {
         d \<leftarrow> DeleteSubmission a b;
         case d of
           Inl _ \<Rightarrow>
             State_Monad.return
               (writeError 500 ''submission_acknowledge_failed'' ''could not delete acknowledged submission'')
         | Inr _ \<Rightarrow> do {
         c \<leftarrow> repo_ClearSubmissionFiles a b;
         State_Monad.return (case c of
             Inl _ \<Rightarrow> writeError 500 ''submission_acknowledge_failed'' ''could not finalize acknowledged submission''
           | Inr _ \<Rightarrow> StatusNoContent)
         }}"
  have rest: "triple (guard G K i j ((a, b) = (i, j))) ?rest (\<lambda>_. stored G K i j)"
    by (intro guard_stored(1) holds_rules guard_files)
  show ?thesis
    unfolding HandleAcknowledgeSubmission_def
  proof (rule authorized_open_guard, goal_cases)
    case (1 dp)
    have "triple (\<lambda>w. stored G K i j w \<and> (x = Inr () \<longrightarrow> has_status a b SubmissionStatusAcknowledged (w_db w)))
        (case x of Inl err \<Rightarrow> State_Monad.return (writeSubmissionUnavailable err) | Inr _ \<Rightarrow>
         if \<not> dep_BlobStore deps
         then State_Monad.return (writeError 500 ''blob_store_unavailable'' ''payload storage is unavailable'')
         else ?rest) (\<lambda>_. stored G K i j)" for x
      by (intro triple_sum triple_if triple_return triple_weaken [OF rest])
        (auto simp: guard_def intro: status_idle)
    then show ?case
      unfolding 1 by (intro triple_if holds_return triple_bind [OF storage.reads(9)] triple_bind [OF ack])
  qed
qed

lemma storage_close: "storage_holds G K i j (HandleCloseDropPoint deps r a)"
proof -
  have finish: "triple (guard G K i j (a = i)) (finish_close deps a st) (\<lambda>_. stored G K i j)" for st
    unfolding finish_close_def deleteDropPointBlobs_def
    by (intro guard_stored(1) holds_rules guard_files)
  have close: "triple (stored G K i j) (repo_CloseDropPoint a now)
      (\<lambda>x w. stored G K i j w \<and> ((case x of Inl e \<Rightarrow> errors_is e ErrDropPointExpired | Inr _ \<Rightarrow> True) \<longrightarrow> shut a (w_db w)))" for now
    by (rule triple_real [OF storage_repo(3) real_close])
  have next_step: "triple (\<lambda>w. stored G K i j w \<and> ((case c of Inl e \<Rightarrow> errors_is e ErrDropPointExpired | Inr _ \<Rightarrow> True) \<longrightarrow> shut a (w_db w)))
      (case c of
         Inl err \<Rightarrow>
           if errors_is err ErrDropPointExpired then finish_close deps a StatusExpired
           else State_Monad.return (writeError 500 ''drop_point_close_failed'' ''could not close drop point'')
       | Inr _ \<Rightarrow> finish_close deps a StatusOpen) (\<lambda>_. stored G K i j)" for c
    by (intro triple_sum triple_if triple_return triple_weaken [OF finish])
      (auto simp: guard_def intro: shut_idle)
  have opened: "triple (guard G K i j c) (do {
       now \<leftarrow> now_io;
       c \<leftarrow> repo_CloseDropPoint a now;
       case c of
         Inl err \<Rightarrow>
           if errors_is err ErrDropPointExpired then finish_close deps a StatusExpired
           else State_Monad.return (writeError 500 ''drop_point_close_failed'' ''could not close drop point'')
       | Inr _ \<Rightarrow> finish_close deps a StatusOpen
     }) (\<lambda>_. stored G K i j)" for c
    by (intro guard_stored(2) triple_bind [OF storage.reads(9)] triple_bind [OF close] next_step)
  show ?thesis
    unfolding HandleCloseDropPoint_def
  proof (rule authorized_guard, goal_cases)
    case (1 dp)
    show ?case
      by (cases "dp_Status dp") (simp_all add: finish opened guard_stored(2) holds_return)
  qed
qed

section \<open>Pickup\<close>

lemma storage_reading:
  "storage_holds G K i j (ReadEnvelope p)" "storage_holds G K i j (OpenPayload p)"
  unfolding ReadEnvelope_def OpenPayload_def by (intro holds_rules storage.reads)+

lemma storage_pickup: "storage_holds G K i j (HandlePickupSubmission deps r a b)"
  unfolding HandlePickupSubmission_def corrupt_def failCorruptSubmission_def send_submission_def
    writePickupMultipart_def
  by (intro authorized_open_guard triple_if storage_rules storage_lookups storage_repo storage_reading)

end
