(* ===== verification/Flags.thy ===== *)
theory Flags
  imports Prelude Go_Strings
begin

text \<open>
  What the command line of \<open>cmd/droppoint\<close> uses of the standard library: \<open>strconv.ParseInt\<close> with
  base 0 and the \<open>flag\<close> package, for flags that take a value. A flag set is the list of its names
  with the test its values must pass; parsing gives the values that were set, the last one first,
  and the arguments that remain.
\<close>

section \<open>Integers in any base\<close>

definition base_prefix :: "go_string \<Rightarrow> int \<times> go_string" where
  "base_prefix s =
     (if \<not> has_prefix s ''0'' then (10, s)
      else if length s \<ge> 3 \<and> s ! 1 \<in> {CHR ''b'', CHR ''B''} then (2, drop 2 s)
      else if length s \<ge> 3 \<and> s ! 1 \<in> {CHR ''o'', CHR ''O''} then (8, drop 2 s)
      else if length s \<ge> 3 \<and> s ! 1 \<in> {CHR ''x'', CHR ''X''} then (16, drop 2 s)
      else (8, drop 1 s))"

definition based_digit :: "char \<Rightarrow> int option" where
  "based_digit c =
     (let n = of_char c :: int in
      if 48 \<le> n \<and> n \<le> 57 then Some (n - 48)
      else if 97 \<le> n \<and> n \<le> 122 then Some (n - 87)
      else if 65 \<le> n \<and> n \<le> 90 then Some (n - 55) else None)"

text \<open>Underscores are skipped here; where they may stand is checked by \<open>underscoreOK\<close>.\<close>

fun based_value :: "int \<Rightarrow> int \<Rightarrow> go_string \<Rightarrow> int option" where
  "based_value base acc [] = Some acc"
| "based_value base acc (c # s) =
     (if c = CHR ''_'' then based_value base acc s
      else case based_digit c of
        None \<Rightarrow> None
      | Some d \<Rightarrow> if d \<ge> base then None else based_value base (acc * base + d) s)"

text \<open>The scan of \<open>underscoreOK\<close>, where \<open>saw\<close> is \<open>0\<close> after a digit, \<open>_\<close> after an underscore and
  something else otherwise.\<close>

fun underscore_scan :: "bool \<Rightarrow> char \<Rightarrow> go_string \<Rightarrow> bool" where
  "underscore_scan hex saw [] \<longleftrightarrow> saw \<noteq> CHR ''_''"
| "underscore_scan hex saw (c # s) \<longleftrightarrow>
     (let n = of_char c :: int in
      if 48 \<le> n \<and> n \<le> 57 \<or> hex \<and> (97 \<le> n \<and> n \<le> 102 \<or> 65 \<le> n \<and> n \<le> 70)
      then underscore_scan hex CHR ''0'' s
      else if c = CHR ''_'' then saw = CHR ''0'' \<and> underscore_scan hex CHR ''_'' s
      else saw \<noteq> CHR ''_'' \<and> underscore_scan hex CHR ''!'' s)"

definition strip_sign :: "go_string \<Rightarrow> go_string" where
  "strip_sign s = (case s of c # t \<Rightarrow> if c = CHR ''-'' \<or> c = CHR ''+'' then t else s | [] \<Rightarrow> s)"

definition underscoreOK :: "go_string \<Rightarrow> bool" where
  "underscoreOK s =
     (let t = strip_sign s in
      if length t \<ge> 2 \<and> hd t = CHR ''0''
         \<and> t ! 1 \<in> {CHR ''b'', CHR ''B'', CHR ''o'', CHR ''O'', CHR ''x'', CHR ''X''}
      then underscore_scan (t ! 1 \<in> {CHR ''x'', CHR ''X''}) CHR ''0'' (drop 2 t)
      else underscore_scan False CHR ''^'' t)"

definition ParseInt0 :: "go_string \<Rightarrow> int option" where
  "ParseInt0 s =
     (if s = [] \<or> strip_sign s = [] then None
      else case base_prefix (strip_sign s) of
        (base, digits) \<Rightarrow>
          (case based_value base 0 digits of
             None \<Rightarrow> None
           | Some n \<Rightarrow>
               if CHR ''_'' \<in> set s \<and> \<not> underscoreOK s then None
               else let v = (if hd s = CHR ''-'' then - n else n) in
                    if is_int64 v then Some v else None))"

section \<open>Flags\<close>

type_synonym flag_set = "(go_string \<times> (go_string \<Rightarrow> bool)) list"
type_synonym flag_values = "(go_string \<times> go_string) list"

text \<open>A flag argument without its dashes: its name and, after an equals sign that is not the first
  character, its value.\<close>

definition cut_flag :: "go_string \<Rightarrow> go_string \<times> go_string option" where
  "cut_flag s =
     (case s of
        [] \<Rightarrow> ([], None)
      | c # t \<Rightarrow>
          (case dropWhile (\<lambda>x. x \<noteq> CHR ''='') t of
             [] \<Rightarrow> (s, None)
           | _ # v \<Rightarrow> (c # takeWhile (\<lambda>x. x \<noteq> CHR ''='') t, Some v)))"

definition flag_name :: "go_string \<Rightarrow> go_string" where
  "flag_name s = (if has_prefix s ''--'' then drop 2 s else drop 1 s)"

text \<open>The value of a flag: what follows the equals sign, or the next argument.\<close>

definition take_value ::
    "(go_string \<Rightarrow> bool) \<Rightarrow> go_string option \<Rightarrow> go_string list \<Rightarrow> (go_string \<times> go_string list) option" where
  "take_value valid given args =
     (case given of
        Some v \<Rightarrow> if valid v then Some (v, args) else None
      | None \<Rightarrow> (case args of [] \<Rightarrow> None | v # rest \<Rightarrow> if valid v then Some (v, rest) else None))"

text \<open>\<open>None\<close> when parsing reports an error (a request for help is one too).\<close>

definition flag_argument ::
    "flag_set \<Rightarrow> go_string \<Rightarrow> go_string list \<Rightarrow> (go_string \<times> go_string \<times> go_string list) option" where
  "flag_argument formal s args =
     (let name0 = flag_name s in
      if name0 = [] \<or> hd name0 = CHR ''-'' \<or> hd name0 = CHR ''='' then None
      else case cut_flag name0 of
        (name, given) \<Rightarrow>
          (case map_of formal name of
             None \<Rightarrow> None
           | Some valid \<Rightarrow> map_option (Pair name) (take_value valid given args)))"

lemma flag_argument_Some:
  assumes "flag_argument formal s args = Some (name, v, rest)"
  shows "length rest \<le> length args \<and> (\<exists>valid. map_of formal name = Some valid \<and> valid v)"
proof -
  have take: "length r \<le> length args \<and> valid u" if "take_value valid given args = Some (u, r)"
    for valid given u r
    using that by (auto simp: take_value_def split: option.splits list.splits if_splits)
  from assms show ?thesis
    by (auto simp: flag_argument_def Let_def split: prod.splits option.splits if_splits dest: take)
qed

function flags_Parse ::
    "flag_set \<Rightarrow> go_string list \<Rightarrow> flag_values \<Rightarrow> (flag_values \<times> go_string list) option" where
  "flags_Parse formal [] vs = Some (vs, [])"
| "flags_Parse formal (s # args) vs =
     (if length s < 2 \<or> hd s \<noteq> CHR ''-'' then Some (vs, s # args)
      else if s = ''--'' then Some (vs, args)
      else case flag_argument formal s args of
        None \<Rightarrow> None
      | Some (name, v, rest) \<Rightarrow> flags_Parse formal rest ((name, v) # vs))"
  by pat_completeness auto
termination
  by (relation "measure (\<lambda>(_, args, _). length args)")
    (auto dest!: flag_argument_Some)

definition flag_value :: "flag_values \<Rightarrow> go_string \<Rightarrow> go_string" where
  "flag_value vs name = (case map_of vs name of None \<Rightarrow> [] | Some v \<Rightarrow> v)"

definition string_flag :: "go_string \<Rightarrow> go_string \<times> (go_string \<Rightarrow> bool)" where
  "string_flag name = (name, \<lambda>_. True)"

definition int_flag :: "go_string \<Rightarrow> go_string \<times> (go_string \<Rightarrow> bool)" where
  "int_flag name = (name, \<lambda>v. ParseInt0 v \<noteq> None)"

lemma flags_Parse_valid:
  "flags_Parse formal args vs = Some (ws, rest) \<Longrightarrow>
   \<forall>(n, v) \<in> set vs. \<exists>valid. map_of formal n = Some valid \<and> valid v \<Longrightarrow>
   \<forall>(n, v) \<in> set ws. \<exists>valid. map_of formal n = Some valid \<and> valid v"
proof (induction formal args vs rule: flags_Parse.induct)
  case (2 formal s args vs)
  show ?case
  proof (cases "(length s < 2 \<or> hd s \<noteq> CHR ''-'') \<or> s = ''--''")
    case True
    with 2(2,3) show ?thesis by (auto split: if_splits)
  next
    case False
    with 2(2) obtain name v rest' where f: "flag_argument formal s args = Some (name, v, rest')"
      and p: "flags_Parse formal rest' ((name, v) # vs) = Some (ws, rest)"
      by (auto split: option.splits)
    from False have side: "\<not> (length s < 2 \<or> hd s \<noteq> CHR ''-'')" "s \<noteq> ''--''" by auto
    have "\<forall>(n, u) \<in> set ((name, v) # vs). \<exists>valid. map_of formal n = Some valid \<and> valid u"
      using flag_argument_Some [OF f] 2(3) by auto
    from 2(1) [OF side f refl refl p this] show ?thesis .
  qed
qed simp

text \<open>What a flag can hold after a successful parse.\<close>

lemma parsed_flag:
  assumes "flags_Parse formal args [] = Some (vs, rest)" "map_of vs n = Some v"
  shows "\<exists>valid. map_of formal n = Some valid \<and> valid v"
  using flags_Parse_valid [OF assms(1)] map_of_SomeD [OF assms(2)] by fastforce

lemma ParseInt0_range: "ParseInt0 s = Some v \<Longrightarrow> is_int64 v"
  by (auto simp: ParseInt0_def Let_def split: if_splits option.splits prod.splits)

end
