(* ===== verification/Go_Format.thy ===== *)
theory Go_Format
  imports Go_Strings "HOL-Library.Monad_Syntax"
begin

text \<open>
  What the program uses of \<open>strconv\<close> and \<open>time\<close> to write and read values: decimal integers,
  calendar dates, \<open>Time.Format\<close> and \<open>time.Parse\<close> with the layout \<open>time.RFC3339Nano\<close>.
\<close>

section \<open>Decimal integers\<close>

text \<open>\<open>strconv.FormatInt(n, 10)\<close>, and \<open>%d\<close>.\<close>

definition digit_char :: "int \<Rightarrow> char" where
  "digit_char d = char_of (48 + d)"

function decimal_digits :: "int \<Rightarrow> go_string" where
  "decimal_digits n =
     (if n < 10 then [digit_char n] else decimal_digits (n div 10) @ [digit_char (n mod 10)])"
  by pat_completeness auto
termination by (relation "measure nat") auto

declare decimal_digits.simps [simp del]

definition decimal :: "int \<Rightarrow> go_string" where
  "decimal n = (if n < 0 then CHR ''-'' # decimal_digits (- n) else decimal_digits n)"

lemma digit_value_char [simp]: "0 \<le> d \<Longrightarrow> d < 10 \<Longrightarrow> digit_value (digit_char d) = Some d"
  by (simp add: digit_value_def digit_char_def)

lemma digits_value_append:
  "digits_value acc (xs @ ys) =
     (case digits_value acc xs of None \<Rightarrow> None | Some a \<Rightarrow> digits_value a ys)"
  by (induction acc xs rule: digits_value.induct) (auto split: option.splits)

lemma digits_value_decimal: "0 \<le> n \<Longrightarrow> digits_value 0 (decimal_digits n) = Some n"
proof (induction n rule: decimal_digits.induct)
  case (1 n)
  show ?case
  proof (cases "n < 10")
    case True
    with 1 show ?thesis by (simp add: decimal_digits.simps [of n])
  next
    case False
    with 1 have "digits_value 0 (decimal_digits n) = Some (10 * (n div 10) + n mod 10)"
      by (simp add: decimal_digits.simps [of n] digits_value_append)
    then show ?thesis by simp
  qed
qed

definition ascii_digit :: "char \<Rightarrow> bool" where
  "ascii_digit c \<longleftrightarrow> digit_value c \<noteq> None"

lemma ascii_digit_char [simp]: "0 \<le> d \<Longrightarrow> d < 10 \<Longrightarrow> ascii_digit (digit_char d)"
  by (simp add: ascii_digit_def)

lemma decimal_digits_ascii: "0 \<le> n \<Longrightarrow> c \<in> set (decimal_digits n) \<Longrightarrow> ascii_digit c"
proof (induction n rule: decimal_digits.induct)
  case (1 n)
  then show ?case
    by (cases "n < 10") (auto simp: decimal_digits.simps [of n])
qed

lemma decimal_digits_nonempty [simp]: "decimal_digits n \<noteq> []"
  by (subst decimal_digits.simps) simp

lemma ascii_digit_sign: "ascii_digit c \<Longrightarrow> c \<noteq> CHR ''-'' \<and> c \<noteq> CHR ''+''"
  by (auto simp: ascii_digit_def digit_value_def Let_def)

lemma parse_decimal: "is_int64 n \<Longrightarrow> parse_int64 (decimal n) = Some n"
proof -
  assume n: "is_int64 n"
  show ?thesis
  proof (cases "n < 0")
    case True
    with n show ?thesis by (simp add: decimal_def parse_int64_def digits_value_decimal)
  next
    case False
    obtain c cs where c: "decimal_digits n = c # cs" by (cases "decimal_digits n") simp_all
    with False decimal_digits_ascii [of n c] have "ascii_digit c" by simp
    with ascii_digit_sign have "c \<noteq> CHR ''-''" "c \<noteq> CHR ''+''" by blast+
    with n False c show ?thesis
      using digits_value_decimal [of n] by (simp add: decimal_def parse_int64_def)
  qed
qed

lemma decimal_inject: "0 \<le> m \<Longrightarrow> 0 \<le> n \<Longrightarrow> decimal m = decimal n \<longleftrightarrow> m = n"
  unfolding decimal_def by (metis digits_value_decimal not_le option.inject)

section \<open>Calendar dates\<close>

text \<open>The proleptic Gregorian calendar with years that begin in March: the leap day is the last day
  of such a year, so a cycle of 400 years is three centuries of 36524 days and one of 36525, each
  a row of four-year groups.\<close>

definition is_leap :: "int \<Rightarrow> bool" where
  "is_leap y \<longleftrightarrow> y mod 4 = 0 \<and> (y mod 100 \<noteq> 0 \<or> y mod 400 = 0)"

definition days_in :: "int \<Rightarrow> int \<Rightarrow> int" where
  "days_in m y =
     (if m = 2 then (if is_leap y then 29 else 28)
      else if m = 4 \<or> m = 6 \<or> m = 9 \<or> m = 11 then 30 else 31)"

text \<open>The March year of a day, counted from 0000-03-01, and the day's place in it.\<close>

definition march_year :: "int \<Rightarrow> int \<times> int" where
  "march_year z =
     (let cycle = z div 146097; r0 = z mod 146097;
          century = min 3 (r0 div 36524); r1 = r0 - 36524 * century;
          group = r1 div 1461; r2 = r1 - 1461 * group;
          year = min 3 (r2 div 365); r3 = r2 - 365 * year
      in (400 * cycle + 100 * century + 4 * group + year, r3))"

definition month_day :: "int \<Rightarrow> int \<times> int" where
  "month_day d = (let k = (5 * d + 2) div 153 in (if k < 10 then k + 3 else k - 9, d - (153 * k + 2) div 5 + 1))"

text \<open>Year, month and day of an instant, in UTC.\<close>

definition days_to_epoch :: int where "days_to_epoch = 719468"

definition date_of :: "time \<Rightarrow> int \<times> int \<times> int" where
  "date_of t =
     (let (y, d) = march_year (t div (86400 * second) + days_to_epoch); (m, dom) = month_day d
      in (if m \<le> 2 then y + 1 else y, m, dom))"

lemma quotient: "0 < n \<Longrightarrow> n * (r div n) \<le> r \<and> r < n * (r div n) + n" for n r :: int
  using mult_div_mod_eq [of n r] pos_mod_bound [of n r] pos_mod_sign [of n r] by linarith

lemma month_day_cases:
  assumes "0 \<le> d" "d < 366"
  shows "1 \<le> fst (month_day d) \<and> fst (month_day d) \<le> 12 \<and> 1 \<le> snd (month_day d)
    \<and> snd (month_day d) \<le> days_in (fst (month_day d)) (if d = 365 then 4 else 1)"
proof -
  define k where "k = (5 * d + 2) div 153"
  have k: "153 * k \<le> 5 * d + 2" "5 * d + 2 < 153 * k + 153"
    using quotient [of 153 "5 * d + 2"] by (simp_all add: k_def)
  then have "0 \<le> k" "k < 12" using assms by linarith+
  then have "k \<in> set [0..11]" by simp
  also have "[0..11] = [0, 1, 2, 3, 4, 5, 6, 7, 8, 9, 10, 11 :: int]" by code_simp
  finally have "k = 0 \<or> k = 1 \<or> k = 2 \<or> k = 3 \<or> k = 4 \<or> k = 5 \<or> k = 6 \<or> k = 7 \<or> k = 8
    \<or> k = 9 \<or> k = 10 \<or> k = 11" by simp
  then show ?thesis
    using assms k unfolding month_day_def Let_def days_in_def is_leap_def k_def [symmetric]
    by (elim disjE) simp_all
qed

lemma month_day_last: "month_day 365 = (2, 29)"
  by code_simp

lemma march_year_bounds:
  assumes "march_year z = (y, d)"
  shows "0 \<le> d \<and> d < 366 \<and> (d = 365 \<longrightarrow> is_leap (y + 1))"
proof -
  define cycle r0 where "cycle = z div 146097" and "r0 = z mod 146097"
  define century r1 where "century = min 3 (r0 div 36524)" and "r1 = r0 - 36524 * century"
  define group r2 where "group = r1 div 1461" and "r2 = r1 - 1461 * group"
  define year r3 where "year = min 3 (r2 div 365)" and "r3 = r2 - 365 * year"
  have "march_year z = (400 * cycle + 100 * century + 4 * group + year, r3)"
    by (simp only: march_year_def Let_def cycle_def r0_def century_def r1_def group_def r2_def
        year_def r3_def)
  with assms have yd: "y = 400 * cycle + 100 * century + 4 * group + year" "d = r3" by simp_all
  have r0: "0 \<le> r0" "r0 < 146097" by (simp_all add: r0_def)
  have c: "0 \<le> century" "century \<le> 3" "0 \<le> r1" "r1 \<le> 36524" "r1 = 36524 \<longrightarrow> century = 3"
    using r0 quotient [of 36524 r0] unfolding century_def r1_def min_def by (auto split: if_splits)
  have g: "0 \<le> group" "group \<le> 24" "0 \<le> r2" "r2 \<le> 1460" "group = 24 \<and> r2 = 1460 \<longrightarrow> r1 = 36524"
    using c(3,4) quotient [of 1461 r1] unfolding group_def r2_def by auto
  have a: "0 \<le> year" "year \<le> 3" "0 \<le> r3" "r3 \<le> 365" "r3 = 365 \<longrightarrow> year = 3 \<and> r2 = 1460"
    using g(3,4) quotient [of 365 r2] unfolding year_def r3_def min_def by (auto split: if_splits)
  have "is_leap (y + 1)" if d: "d = 365"
  proof -
    from d a(5) yd have year: "year = 3" "r2 = 1460" by simp_all
    then have y1: "y + 1 = 400 * cycle + 100 * century + 4 * group + 4" using yd by simp
    show ?thesis
    proof (cases "group = 24")
      case True
      with year(2) g(5) c(5) have "century = 3" by simp
      with y1 True have "y + 1 = 400 * (cycle + 1)" by simp
      then have "(y + 1) mod 400 = 0" "(y + 1) mod 4 = 0" by simp_all
      then show ?thesis by (simp only: is_leap_def) simp
    next
      case False
      have "y + 1 = 100 * (4 * cycle + century) + (4 * group + 4)" using y1 by simp
      then have "(y + 1) mod 100 = 4 * group + 4"
        by (rule int_mod_pos_eq) (use g(1,2) False in auto)
      moreover have "y + 1 = 4 * (100 * cycle + 25 * century + group + 1) + 0" using y1 by simp
      then have "(y + 1) mod 4 = 0" by (rule int_mod_pos_eq) simp_all
      ultimately show ?thesis using g(1) by (simp only: is_leap_def) simp
    qed
  qed
  with a(3,4) yd show ?thesis by auto
qed

lemma date_of_valid:
  assumes "date_of t = (y, m, d)"
  shows "1 \<le> m \<and> m \<le> 12 \<and> 1 \<le> d \<and> d \<le> days_in m y"
proof -
  obtain y0 e where e: "march_year (t div (86400 * second) + days_to_epoch) = (y0, e)" by fastforce
  note b = march_year_bounds [OF e]
  have md: "m = fst (month_day e)" "d = snd (month_day e)" "y = (if m \<le> 2 then y0 + 1 else y0)"
    using assms e by (auto simp: date_of_def Let_def split: prod.splits)
  have "1 \<le> m \<and> m \<le> 12 \<and> 1 \<le> d \<and> d \<le> days_in m (if e = 365 then 4 else 1)"
    using month_day_cases [of e] b md by blast
  moreover have "days_in m 1 \<le> days_in m y" by (auto simp: days_in_def is_leap_def)
  moreover have "days_in m 4 \<le> days_in m y" if "e = 365"
  proof -
    from that month_day_last md b have "m = 2" "is_leap y" by auto
    then show ?thesis by (simp add: days_in_def)
  qed
  ultimately show ?thesis by (auto split: if_splits)
qed

section \<open>RFC 3339\<close>

text \<open>\<open>t.UTC().Format(time.RFC3339Nano)\<close>: a fraction without trailing zeros, left out when it is
  zero. \<open>padded\<close> is \<open>appendInt\<close> of package \<open>time\<close>.\<close>

definition padded :: "nat \<Rightarrow> int \<Rightarrow> go_string" where
  "padded width n =
     (let ds = decimal_digits \<bar>n\<bar>
      in (if n < 0 then ''-'' else []) @ replicate (width - length ds) (CHR ''0'') @ ds)"

definition fraction_text :: "int \<Rightarrow> go_string" where
  "fraction_text ns =
     (if ns = 0 then [] else CHR ''.'' # rev (dropWhile (\<lambda>c. c = CHR ''0'') (rev (padded 9 ns))))"

definition format_RFC3339Nano :: "time \<Rightarrow> go_string" where
  "format_RFC3339Nano t =
     (let (y, m, d) = date_of t; s = t div second mod 86400
      in padded 4 y @ ''-'' @ padded 2 m @ ''-'' @ padded 2 d @ ''T''
         @ padded 2 (s div 3600) @ '':'' @ padded 2 (s div 60 mod 60) @ '':'' @ padded 2 (s mod 60)
         @ fraction_text (t mod second) @ ''Z'')"

text \<open>\<open>time.Parse(time.RFC3339Nano, s)\<close>: the program asks only whether it succeeds. The hour may have
  one digit, the fraction any number and a comma, and a zone offset up to 24:60.\<close>

definition getnum :: "bool \<Rightarrow> go_string \<Rightarrow> (int \<times> go_string) option" where
  "getnum fixed s =
     (case s of
        [] \<Rightarrow> None
      | a # t \<Rightarrow>
          (case digit_value a of
             None \<Rightarrow> None
           | Some x \<Rightarrow>
               (case t of
                  [] \<Rightarrow> if fixed then None else Some (x, t)
                | b # u \<Rightarrow>
                    (case digit_value b of
                       None \<Rightarrow> if fixed then None else Some (x, t)
                     | Some y \<Rightarrow> Some (10 * x + y, u)))))"

definition getyear :: "go_string \<Rightarrow> (int \<times> go_string) option" where
  "getyear s =
     (if length s < 4 then None
      else case digits_value 0 (take 4 s) of None \<Rightarrow> None | Some y \<Rightarrow> Some (y, drop 4 s))"

definition skip :: "char \<Rightarrow> go_string \<Rightarrow> go_string option" where
  "skip c s = (case s of d # t \<Rightarrow> if d = c then Some t else None | [] \<Rightarrow> None)"

definition ensure :: "bool \<Rightarrow> unit option" where
  "ensure b = (if b then Some () else None)"

definition skip_fraction :: "go_string \<Rightarrow> go_string" where
  "skip_fraction s =
     (case s of
        c # d # t \<Rightarrow>
          if (c = CHR ''.'' \<or> c = CHR '','') \<and> ascii_digit d then dropWhile ascii_digit (d # t) else s
      | _ \<Rightarrow> s)"

definition skip_zone :: "go_string \<Rightarrow> go_string option" where
  "skip_zone s =
     (if s \<noteq> [] \<and> hd s = CHR ''Z'' then Some (tl s)
      else case s of
        sign # h1 # h2 # colon # m1 # m2 # t \<Rightarrow>
          do { (hr, _) \<leftarrow> getnum True [h1, h2];
               (mm, _) \<leftarrow> getnum True [m1, m2];
               ensure (colon = CHR '':'' \<and> (sign = CHR ''+'' \<or> sign = CHR ''-'') \<and> hr \<le> 24 \<and> mm \<le> 60);
               Some t }
      | _ \<Rightarrow> None)"

definition parse_RFC3339Nano :: "go_string \<Rightarrow> unit option" where
  "parse_RFC3339Nano s =
     do { (year, s) \<leftarrow> getyear s; s \<leftarrow> skip (CHR ''-'') s;
          (month, s) \<leftarrow> getnum True s; ensure (1 \<le> month \<and> month \<le> 12); s \<leftarrow> skip (CHR ''-'') s;
          (day, s) \<leftarrow> getnum True s; s \<leftarrow> skip (CHR ''T'') s;
          (hour, s) \<leftarrow> getnum False s; ensure (hour < 24); s \<leftarrow> skip (CHR '':'') s;
          (minute, s) \<leftarrow> getnum True s; ensure (minute < 60); s \<leftarrow> skip (CHR '':'') s;
          (sec, s) \<leftarrow> getnum True s; ensure (sec < 60);
          s \<leftarrow> skip_zone (skip_fraction s);
          ensure (s = [] \<and> 1 \<le> day \<and> day \<le> days_in month year) }"

lemma skip_Cons [simp]: "skip c (c # s) = Some s"
  by (simp add: skip_def)

lemma ensure_True [simp]: "b \<Longrightarrow> ensure b = Some ()"
  by (simp add: ensure_def)

lemma padded_digits:
  assumes "0 \<le> n"
  shows "digits_value 0 (padded w n) = Some n"
proof -
  have "digits_value 0 (replicate k (CHR ''0'') @ ds) = digits_value 0 ds" for k ds
  proof (induction k)
    case (Suc k)
    then show ?case by (simp add: digit_value_def)
  qed simp
  with assms show ?thesis by (simp add: padded_def Let_def digits_value_decimal)
qed

lemma length_decimal_digits: "n < 10 ^ k \<Longrightarrow> 0 < k \<Longrightarrow> length (decimal_digits n) \<le> k"
proof (induction n arbitrary: k rule: decimal_digits.induct)
  case (1 n)
  show ?case
  proof (cases "n < 10")
    case True
    with 1 show ?thesis by (simp add: decimal_digits.simps [of n])
  next
    case False
    with 1 obtain j where j: "k = Suc j" "0 < j" by (cases k; cases "k - 1") auto
    with 1(2) have "n div 10 < 10 ^ j" by simp
    with 1(1) [OF False _ j(2)] j show ?thesis using False by (simp add: decimal_digits.simps [of n])
  qed
qed

lemma length_padded: "0 \<le> n \<Longrightarrow> n < 10 ^ w \<Longrightarrow> 0 < w \<Longrightarrow> length (padded w n) = w"
  using length_decimal_digits [of n w] by (simp add: padded_def Let_def)

lemma padded_ascii: "0 \<le> n \<Longrightarrow> c \<in> set (padded w n) \<Longrightarrow> ascii_digit c"
  by (auto simp: padded_def Let_def ascii_digit_def digit_value_def
      dest!: decimal_digits_ascii split: if_splits)

lemma getyear_padded: "0 \<le> y \<Longrightarrow> y < 10000 \<Longrightarrow> getyear (padded 4 y @ s) = Some (y, s)"
  using length_padded [of y 4] by (simp add: getyear_def padded_digits)

lemma getnum_padded:
  assumes "0 \<le> n" "n < 100"
  shows "getnum b (padded 2 n @ s) = Some (n, s)"
proof -
  from length_padded [of n 2] assms obtain x y where xy: "padded 2 n = [x, y]"
    by (auto simp: length_Suc_conv numeral_2_eq_2)
  with padded_digits [of n 2] assms show ?thesis
    by (auto simp: getnum_def split: option.splits)
qed

lemma skip_fraction_text:
  assumes "0 \<le> ns" "ns < second"
  shows "skip_fraction (fraction_text ns @ ''Z'') = ''Z''"
proof (cases "ns = 0")
  case True
  then show ?thesis by (simp add: fraction_text_def skip_fraction_def)
next
  case False
  define ds where "ds = rev (dropWhile (\<lambda>c. c = CHR ''0'') (rev (padded 9 ns)))"
  have ascii: "ascii_digit c" if "c \<in> set ds" for c
    using that padded_ascii [OF assms(1)] unfolding ds_def by (auto dest: set_dropWhileD)
  have Z: "\<not> ascii_digit (CHR ''Z'')" by code_simp
  have "ds \<noteq> []"
  proof
    assume "ds = []"
    then have "set (padded 9 ns) \<subseteq> {CHR ''0''}"
      by (auto simp: ds_def dropWhile_eq_Nil_conv)
    then have "padded 9 ns = replicate (length (padded 9 ns)) (CHR ''0'')"
      by (auto simp: replicate_eqI subset_iff)
    moreover have "digits_value 0 (replicate k (CHR ''0'')) = Some 0" for k
      by (induction k) (simp_all add: digit_value_def)
    ultimately have "digits_value 0 (padded 9 ns) = Some 0" by metis
    with padded_digits [OF assms(1), of 9] False show False by simp
  qed
  then obtain d t where ds: "ds = d # t" by (cases ds) auto
  have "dropWhile ascii_digit (ds @ ''Z'') = ''Z''"
    using ascii Z by (subst dropWhile_append2) auto
  with False ascii ds show ?thesis
    by (simp add: fraction_text_def skip_fraction_def flip: ds_def)
qed

text \<open>What \<open>Format\<close> writes for an instant of the years 0 to 9999, \<open>Parse\<close> accepts.\<close>

lemma parse_format:
  assumes "date_of t = (y, m, d)" "0 \<le> y" "y < 10000"
  shows "parse_RFC3339Nano (format_RFC3339Nano t) = Some ()"
proof -
  have date: "1 \<le> m" "m \<le> 12" "1 \<le> d" "d \<le> days_in m y" using date_of_valid [OF assms(1)] by simp_all
  then have d: "d < 100" by (auto simp: days_in_def split: if_splits)
  define s where "s = t div second mod 86400"
  have s: "0 \<le> s" "s < 86400" by (simp_all add: s_def)
  then have clock: "0 \<le> s div 3600" "s div 3600 < 24" "0 \<le> s div 60 mod 60" "s div 60 mod 60 < 60"
    "0 \<le> s mod 60" "s mod 60 < 60"
    using quotient [of 3600 s] by (simp_all add: pos_imp_zdiv_nonneg_iff)
  have ns: "skip_fraction (fraction_text (t mod second) @ ''Z'') = ''Z''"
    by (rule skip_fraction_text) (simp_all add: second_def)
  have Z: "skip_zone ''Z'' = Some []" by (simp add: skip_zone_def)
  show ?thesis
    using assms date d clock
    by (simp add: format_RFC3339Nano_def parse_RFC3339Nano_def Let_def getyear_padded getnum_padded
        ns Z flip: s_def)
qed

lemma sample_instants:
  "format_RFC3339Nano (1782820800 * second) = ''2026-06-30T12:00:00Z''"
  "format_RFC3339Nano (951782400 * second + 120000000) = ''2000-02-29T00:00:00.12Z''"
  "format_RFC3339Nano zero_time = ''0001-01-01T00:00:00Z''"
  by code_simp+

lemma sample_timestamps:
  "parse_RFC3339Nano ''2026-06-30T12:00:00.123456789+09:00'' = Some ()"
  "parse_RFC3339Nano ''2026-06-30T12:00:00'' = None"
  "parse_RFC3339Nano ''2026-02-30T12:00:00Z'' = None"
  "parse_RFC3339Nano ''2026-06-30'' = None"
  by code_simp+

end
