(* ===== verification/Cli.thy ===== *)
theory Cli
  imports Flags Server Store Go_Format
begin

text \<open>
  \<open>cmd/droppoint/main.go\<close>: the commands of the relay's binary. A command returns its exit code and
  what it has written to standard output; messages to standard error and log lines are left out.
  The files and the environment are what the operating system returns for them, \<open>inv_Opened\<close> is
  the result of opening the database and \<open>inv_ListenAndServe\<close> what the process does while the
  server runs.
\<close>

record invocation =
  inv_ReadFile :: "go_string \<Rightarrow> error + go_string"
  inv_LookupEnv :: "go_string \<Rightarrow> go_string option"
  inv_ParseURL :: url_parser
  inv_Opened :: "unit result"
  inv_ListenAndServe :: "config \<Rightarrow> unit result io"

record exit =
  exit_code :: int
  exit_output :: "go_string list"

definition exits :: "int \<Rightarrow> exit" where
  "exits code = \<lparr>exit_code = code, exit_output = []\<rparr>"

text \<open>\<open>fmt.Fprintf(stdout, ...)\<close>, followed by the exit with 0 or 1.\<close>

definition print_and_exit :: "go_string \<Rightarrow> exit io" where
  "print_and_exit text = do {
     r \<leftarrow> may_fail;
     State_Monad.return (case r of
         Inl _ \<Rightarrow> exits 1
       | Inr _ \<Rightarrow> \<lparr>exit_code = 0, exit_output = [text]\<rparr>)
   }"

section \<open>Texts\<close>

definition unlines :: "go_string list \<Rightarrow> go_string" where
  "unlines ls = concat (map (\<lambda>l. l @ [CHR 0x0A]) ls)"

definition usage :: go_string where
  "usage = unlines
     [''Usage:'',
      ''  droppoint serve [--config path]'',
      ''  droppoint [--config path]'',
      ''  droppoint token add --id label [--max-active n] [--config path]'',
      ''  droppoint token list [--config path]'',
      ''  droppoint token disable --id label [--config path]'',
      ''  droppoint token remove --id label [--config path]'',
      ''  droppoint token generate'',
      ''  droppoint cleanup expired [--config path]'',
      [],
      ''Defaults:'',
      ''  listen_addr: 127.0.0.1:8080'',
      ''  data_dir: .data/droppoint'',
      []]"

definition formatOptionalInt :: "int option \<Rightarrow> go_string" where
  "formatOptionalInt v = (case v of None \<Rightarrow> ''default'' | Some n \<Rightarrow> decimal n)"

definition formatOptionalTime :: "time \<Rightarrow> go_string" where
  "formatOptionalTime t = format_RFC3339Nano t"

definition formatOptionalTimePtr :: "time option \<Rightarrow> go_string" where
  "formatOptionalTimePtr v = (case v of None \<Rightarrow> [] | Some t \<Rightarrow> formatOptionalTime t)"

section \<open>Flags and configuration\<close>

definition config_flag :: "go_string \<times> (go_string \<Rightarrow> bool)" where
  "config_flag = string_flag ''config''"

definition id_flag :: "go_string \<times> (go_string \<Rightarrow> bool)" where
  "id_flag = string_flag ''id''"

text \<open>Parsing, and the refusal of arguments that remain; \<open>None\<close> is exit code 2.\<close>

definition parse_flags :: "flag_set \<Rightarrow> go_string list \<Rightarrow> flag_values option" where
  "parse_flags formal args =
     (case flags_Parse formal args [] of
        None \<Rightarrow> None
      | Some (vs, rest) \<Rightarrow> if rest \<noteq> [] then None else Some vs)"

definition flagWasSet :: "flag_values \<Rightarrow> go_string \<Rightarrow> bool" where
  "flagWasSet vs name \<longleftrightarrow> list_ex (\<lambda>(n, _). n = name) vs"

definition load_config :: "invocation \<Rightarrow> go_string \<Rightarrow> error + config" where
  "load_config proc path =
     Load (inv_ParseURL proc) (if path = [] then None else Some (inv_ReadFile proc path)) (inv_LookupEnv proc)"

text \<open>Loading the configuration, preparing the directory, opening the database: \<open>None\<close> on failure.\<close>

definition open_data :: "invocation \<Rightarrow> go_string \<Rightarrow> config option io" where
  "open_data proc path =
     (case load_config proc path of
        Inl _ \<Rightarrow> State_Monad.return None
      | Inr cfg \<Rightarrow> do {
          d \<leftarrow> EnsureDataDir (cfg_DataDir cfg);
          State_Monad.return (case d of
              Inl _ \<Rightarrow> None
            | Inr _ \<Rightarrow> (case inv_Opened proc of Inl _ \<Rightarrow> None | Inr _ \<Rightarrow> Some cfg))
        })"

definition openTokenRepository :: "invocation \<Rightarrow> go_string \<Rightarrow> bool io" where
  "openTokenRepository proc path = do {
     cfg \<leftarrow> open_data proc path;
     State_Monad.return (cfg \<noteq> None)
   }"

section \<open>Token commands\<close>

definition runTokenGenerate :: "go_string list \<Rightarrow> exit io" where
  "runTokenGenerate args =
     (if args \<noteq> [] then State_Monad.return (exits 2)
      else do {
        s \<leftarrow> rand_read entropyBytes;
        case GenerateAPIToken s of
          Inl _ \<Rightarrow> State_Monad.return (exits 1)
        | Inr plaintext \<Rightarrow>
            print_and_exit (''api_token: '' @ plaintext @ [CHR 0x0A] @ ''secret_hash: ''
              @ HashSecret plaintext @ [CHR 0x0A])
      })"

text \<open>What \<open>token add\<close> takes from its flags, \<open>None\<close> for exit code 2.\<close>

definition token_add_options :: "go_string list \<Rightarrow> (go_string \<times> go_string \<times> int option) option" where
  "token_add_options args =
     (case parse_flags [config_flag, id_flag, int_flag ''max-active''] args of
        None \<Rightarrow> None
      | Some vs \<Rightarrow>
          if flag_value vs ''id'' = [] then None
          else if flagWasSet vs ''max-active'' then
            (case ParseInt0 (flag_value vs ''max-active'') of
               None \<Rightarrow> None
             | Some n \<Rightarrow>
                 if n \<le> 0 then None else Some (flag_value vs ''config'', flag_value vs ''id'', Some n))
          else Some (flag_value vs ''config'', flag_value vs ''id'', None))"

text \<open>The token is printed after its row has been stored; when printing fails the row is removed.\<close>

definition add_and_print :: "go_string \<Rightarrow> int option \<Rightarrow> go_string \<Rightarrow> time \<Rightarrow> exit io" where
  "add_and_print tid maxActive plaintext now = do {
     a \<leftarrow> repo_AddAPIToken \<lparr>ap_ID = tid, ap_SecretHash = HashSecret plaintext,
                            ap_MaxActiveDropPoints = maxActive, ap_CreatedAt = now\<rparr>;
     case a of Inl _ \<Rightarrow> State_Monad.return (exits 1) | Inr _ \<Rightarrow> do {
     out \<leftarrow> print_and_exit (''api_token: '' @ plaintext @ [CHR 0x0A] @ ''id: '' @ tid @ [CHR 0x0A]);
     if exit_code out \<noteq> 0 then do {
       _ \<leftarrow> repo_RemoveAPIToken tid;
       State_Monad.return out
     }
     else State_Monad.return out
     }
   }"

definition runTokenAdd :: "invocation \<Rightarrow> go_string list \<Rightarrow> exit io" where
  "runTokenAdd proc args =
     (case token_add_options args of
        None \<Rightarrow> State_Monad.return (exits 2)
      | Some (path, tid, maxActive) \<Rightarrow> do {
          ok \<leftarrow> openTokenRepository proc path;
          if \<not> ok then State_Monad.return (exits 1)
          else do {
            s \<leftarrow> rand_read entropyBytes;
            case GenerateAPIToken s of
              Inl _ \<Rightarrow> State_Monad.return (exits 1)
            | Inr plaintext \<Rightarrow> do {
                now \<leftarrow> now_io;
                add_and_print tid maxActive plaintext now
              }
          }
        })"

definition token_line :: "api_token \<Rightarrow> go_string" where
  "token_line t =
     ''id='' @ tok_ID t @ '' enabled='' @ (if tok_Enabled t then ''true'' else ''false'')
     @ '' max_active_drop_points='' @ formatOptionalInt (tok_MaxActiveDropPoints t)
     @ '' created_at='' @ formatOptionalTime (tok_CreatedAt t)
     @ '' disabled_at='' @ formatOptionalTimePtr (tok_DisabledAt t) @ [CHR 0x0A]"

fun print_tokens :: "api_token list \<Rightarrow> exit io" where
  "print_tokens [] = State_Monad.return (exits 0)"
| "print_tokens (t # ts) = do {
     out \<leftarrow> print_and_exit (token_line t);
     if exit_code out \<noteq> 0 then State_Monad.return out
     else do {
       rest \<leftarrow> print_tokens ts;
       State_Monad.return (rest\<lparr>exit_output := exit_output out @ exit_output rest\<rparr>)
     }
   }"

definition runTokenList :: "invocation \<Rightarrow> go_string list \<Rightarrow> exit io" where
  "runTokenList proc args =
     (case parse_flags [config_flag] args of
        None \<Rightarrow> State_Monad.return (exits 2)
      | Some vs \<Rightarrow> do {
          ok \<leftarrow> openTokenRepository proc (flag_value vs ''config'');
          if \<not> ok then State_Monad.return (exits 1)
          else do {
            r \<leftarrow> repo_ListAPITokens;
            case r of Inl _ \<Rightarrow> State_Monad.return (exits 1) | Inr tokens \<Rightarrow> print_tokens tokens
          }
        })"

text \<open>The shared shape of \<open>token disable\<close> and \<open>token remove\<close>; \<open>op\<close> is the repository method.\<close>

definition on_token :: "invocation \<Rightarrow> go_string list \<Rightarrow> (go_string \<Rightarrow> unit result io) \<Rightarrow> exit io" where
  "on_token proc args op =
     (case parse_flags [config_flag, id_flag] args of
        None \<Rightarrow> State_Monad.return (exits 2)
      | Some vs \<Rightarrow>
          if flag_value vs ''id'' = [] then State_Monad.return (exits 2)
          else do {
            ok \<leftarrow> openTokenRepository proc (flag_value vs ''config'');
            if \<not> ok then State_Monad.return (exits 1)
            else do {
              r \<leftarrow> op (flag_value vs ''id'');
              State_Monad.return (case r of Inl _ \<Rightarrow> exits 1 | Inr _ \<Rightarrow> exits 0)
            }
          })"

definition runTokenDisable :: "invocation \<Rightarrow> go_string list \<Rightarrow> exit io" where
  "runTokenDisable proc args =
     on_token proc args (\<lambda>tid. do { now \<leftarrow> now_io; repo_DisableAPIToken tid now })"

definition runTokenRemove :: "invocation \<Rightarrow> go_string list \<Rightarrow> exit io" where
  "runTokenRemove proc args = on_token proc args repo_RemoveAPIToken"

definition runToken :: "invocation \<Rightarrow> go_string list \<Rightarrow> exit io" where
  "runToken proc args =
     (case args of
        [] \<Rightarrow> State_Monad.return (exits 2)
      | c # rest \<Rightarrow>
          if c = ''generate'' then runTokenGenerate rest
          else if c = ''add'' then runTokenAdd proc rest
          else if c = ''list'' then runTokenList proc rest
          else if c = ''disable'' then runTokenDisable proc rest
          else if c = ''remove'' then runTokenRemove proc rest
          else State_Monad.return (exits 2))"

section \<open>Cleanup\<close>

text \<open>The service as the command composes it.\<close>

definition cli_cleanup_service :: "config \<Rightarrow> cleanup_service" where
  "cli_cleanup_service cfg =
     \<lparr>TerminalRetention = wrap64 (cfg_TerminalRetentionSeconds cfg * second),
      ReceivingStaleAfter =
        wrap64 (wrap64 (max (cfg_ReadTimeoutSeconds cfg) (cfg_WriteTimeoutSeconds cfg) * second)
                + 30 * second)\<rparr>"

definition cleanup_report :: "cleanup_result \<Rightarrow> go_string" where
  "cleanup_report res =
     ''recovered_receiving='' @ decimal (int (RecoveredReceiving res))
     @ '' expired_drop_points='' @ decimal (int (ExpiredDropPoints res))
     @ '' deleted_payloads='' @ decimal (int (DeletedPayloads res))
     @ '' deleted_orphans='' @ decimal (int (DeletedOrphans res))
     @ '' purged_rows='' @ decimal (int (PurgedRows res)) @ [CHR 0x0A]"

definition runCleanup :: "invocation \<Rightarrow> go_string list \<Rightarrow> exit io" where
  "runCleanup proc args =
     (case args of
        [] \<Rightarrow> State_Monad.return (exits 2)
      | c # rest \<Rightarrow>
          if c \<noteq> ''expired'' then State_Monad.return (exits 2)
          else case parse_flags [config_flag] rest of
            None \<Rightarrow> State_Monad.return (exits 2)
          | Some vs \<Rightarrow> do {
              opened \<leftarrow> open_data proc (flag_value vs ''config'');
              case opened of None \<Rightarrow> State_Monad.return (exits 1) | Some cfg \<Rightarrow> do {
                (res, e) \<leftarrow> service_Expire (cli_cleanup_service cfg);
                case e of
                  Some _ \<Rightarrow> State_Monad.return (exits 1)
                | None \<Rightarrow> print_and_exit (cleanup_report res)
              }
            })"

section \<open>The binary\<close>

definition runServe :: "invocation \<Rightarrow> go_string list \<Rightarrow> exit io" where
  "runServe proc args =
     (case parse_flags [config_flag] args of
        None \<Rightarrow> State_Monad.return (exits 2)
      | Some vs \<Rightarrow>
          (case load_config proc (flag_value vs ''config'') of
             Inl _ \<Rightarrow> State_Monad.return (exits 1)
           | Inr cfg \<Rightarrow> do {
               srv \<leftarrow> server_New (inv_ParseURL proc) (inv_Opened proc) cfg;
               case srv of Inl _ \<Rightarrow> State_Monad.return (exits 1) | Inr _ \<Rightarrow> do {
               served \<leftarrow> inv_ListenAndServe proc cfg;
               State_Monad.return (case served of Inl _ \<Rightarrow> exits 1 | Inr _ \<Rightarrow> exits 0)
               }
             }))"

definition run :: "invocation \<Rightarrow> go_string list \<Rightarrow> exit io" where
  "run proc args =
     (case args of
        [] \<Rightarrow> runServe proc []
      | c # rest \<Rightarrow>
          if c = ''help'' \<or> c = ''-h'' \<or> c = ''--help'' then print_and_exit usage
          else if c = ''token'' then runToken proc rest
          else if c = ''cleanup'' then runCleanup proc rest
          else if c = ''serve'' then runServe proc rest
          else runServe proc args)"

end
