(* ===== verification/Database.thy ===== *)
theory Database
  imports Prelude World
begin

text \<open>
  \<open>internal/store/store.go\<close> and \<open>migrate.go\<close>: opening the database file and creating the schema. The
  state is what these functions see of the data directory: the permission bits of the files in it,
  the schema version, the tables and indexes, whether foreign keys are enforced, and the faults
  that are to come. A script of several statements runs one statement after the other, each its
  own transaction. What the driver does with the files, and the journal mode it answers, are
  arguments.
\<close>

definition databaseFileName :: go_string where "databaseFileName = ''relay.db''"
definition schemaVersion :: int where "schemaVersion = 3"

text \<open>The permission bits \<open>0o600\<close>.\<close>

definition private_mode :: int where "private_mode = 384"

record data_dir =
  dd_modes :: "go_string \<Rightarrow> int option"
  dd_version :: int
  dd_tables :: "go_string list"
  dd_indexes :: "go_string list"
  dd_foreign_keys :: bool
  dd_faults :: "fault list"

record driver =
  drv_files :: "(go_string \<Rightarrow> int option) \<Rightarrow> (go_string \<Rightarrow> int option)"
  drv_journal_mode :: go_string

type_synonym 'a dbio = "(data_dir, error + 'a) state"

definition attempt :: "(data_dir \<Rightarrow> (error + 'a) \<times> data_dir) \<Rightarrow> 'a dbio" where
  "attempt f = State (\<lambda>d.
     case dd_faults d of
       [] \<Rightarrow> f d
     | NoFault # fs \<Rightarrow> f (d\<lparr>dd_faults := fs\<rparr>)
     | FaultBefore c # fs \<Rightarrow> (Inl (ErrIO c), d\<lparr>dd_faults := fs\<rparr>)
     | FaultAfter c # fs \<Rightarrow> (Inl (ErrIO c), snd (f (d\<lparr>dd_faults := fs\<rparr>))))"

definition and_on :: "'a dbio \<Rightarrow> ('a \<Rightarrow> 'b dbio) \<Rightarrow> 'b dbio" where
  "and_on m f = do {
     r \<leftarrow> m;
     case r of Inl err \<Rightarrow> State_Monad.return (Inl err) | Inr x \<Rightarrow> f x
   }"

text \<open>A call of the driver.\<close>

definition statement :: "driver \<Rightarrow> (data_dir \<Rightarrow> 'a \<times> data_dir) \<Rightarrow> 'a dbio" where
  "statement drv f = attempt (\<lambda>d.
     case f (d\<lparr>dd_modes := drv_files drv (dd_modes d)\<rparr>) of (x, d') \<Rightarrow> (Inr x, d'))"

section \<open>The schema\<close>

datatype ddl = CreateTable go_string | CreateIndex go_string | UserVersion int

definition add_name :: "go_string \<Rightarrow> go_string list \<Rightarrow> go_string list" where
  "add_name n ns = (if List.member ns n then ns else ns @ [n])"

fun run_ddl :: "ddl \<Rightarrow> data_dir \<Rightarrow> unit \<times> data_dir" where
  "run_ddl (CreateTable n) d = ((), d\<lparr>dd_tables := add_name n (dd_tables d)\<rparr>)"
| "run_ddl (CreateIndex n) d = ((), d\<lparr>dd_indexes := add_name n (dd_indexes d)\<rparr>)"
| "run_ddl (UserVersion v) d = ((), d\<lparr>dd_version := v\<rparr>)"

definition schemaSQL :: "ddl list" where
  "schemaSQL =
     [CreateTable ''drop_points'',
      CreateIndex ''idx_drop_points_status_expires_at'',
      CreateIndex ''idx_drop_points_api_token_status'',
      CreateTable ''submissions'',
      CreateIndex ''idx_submissions_drop_point_status_dropped'',
      CreateIndex ''idx_submissions_status_receiving_started'',
      CreateTable ''api_tokens'',
      UserVersion 3]"

fun exec_script :: "driver \<Rightarrow> ddl list \<Rightarrow> unit dbio" where
  "exec_script drv [] = State_Monad.return (Inr ())"
| "exec_script drv (s # ss) = and_on (statement drv (run_ddl s)) (\<lambda>_. exec_script drv ss)"

definition relayTablesExist :: "driver \<Rightarrow> bool dbio" where
  "relayTablesExist drv =
     statement drv (\<lambda>d. (list_ex (\<lambda>n. n = ''drop_points'' \<or> n = ''api_tokens'') (dd_tables d), d))"

definition Migrate :: "driver \<Rightarrow> unit dbio" where
  "Migrate drv =
     and_on (statement drv (\<lambda>d. (dd_version d, d))) (\<lambda>version.
       if version = 0 then
         and_on (relayTablesExist drv) (\<lambda>hasLegacyTables.
           if hasLegacyTables then State_Monad.return (Inl (ErrOther ''unsupported unversioned DropPoint database''))
           else exec_script drv schemaSQL)
       else if version \<noteq> schemaVersion
       then State_Monad.return (Inl (ErrOther ''unsupported DropPoint schema version''))
       else exec_script drv schemaSQL)"

section \<open>Opening\<close>

definition file_chmod :: "go_string \<Rightarrow> data_dir \<Rightarrow> (error + unit) \<times> data_dir" where
  "file_chmod name d =
     (case dd_modes d name of
        None \<Rightarrow> (Inl ErrNotExist, d)
      | Some _ \<Rightarrow> (Inr (), d\<lparr>dd_modes := (dd_modes d)(name \<mapsto> private_mode)\<rparr>))"

text \<open>\<open>O_CREATE|O_RDWR\<close> with mode \<open>0o600\<close>.\<close>

definition file_create :: "go_string \<Rightarrow> data_dir \<Rightarrow> (error + unit) \<times> data_dir" where
  "file_create name d =
     (Inr (), if dd_modes d name = None then d\<lparr>dd_modes := (dd_modes d)(name \<mapsto> private_mode)\<rparr> else d)"

definition ensureDatabaseFileMode :: "go_string \<Rightarrow> unit dbio" where
  "ensureDatabaseFileMode name =
     and_on (attempt (file_create name)) (\<lambda>_.
     and_on (attempt (file_chmod name)) (\<lambda>_.
     attempt (\<lambda>d. (Inr (), d))))"

definition configureSQLite :: "driver \<Rightarrow> unit dbio" where
  "configureSQLite drv =
     and_on (statement drv (\<lambda>d. ((), d))) (\<lambda>_.
     and_on (statement drv (\<lambda>d. ((), d\<lparr>dd_foreign_keys := True\<rparr>))) (\<lambda>_.
     and_on (statement drv (\<lambda>d. (drv_journal_mode drv, d))) (\<lambda>journalMode.
     State_Monad.return
       (if journalMode \<noteq> ''wal'' then Inl (ErrOther ''enable sqlite WAL journal mode'') else Inr ()))))"

definition database_files :: "go_string list" where
  "database_files = [databaseFileName, databaseFileName @ ''-wal'', databaseFileName @ ''-shm'']"

fun enforce_modes :: "go_string list \<Rightarrow> unit dbio" where
  "enforce_modes [] = State_Monad.return (Inr ())"
| "enforce_modes (f # fs) = do {
     r \<leftarrow> attempt (file_chmod f);
     case r of
       Inl err \<Rightarrow> if err \<noteq> ErrNotExist then State_Monad.return (Inl err) else enforce_modes fs
     | Inr _ \<Rightarrow> enforce_modes fs
   }"

definition enforceSQLiteFileModes :: "unit dbio" where
  "enforceSQLiteFileModes = enforce_modes database_files"

definition store_Open :: "driver \<Rightarrow> go_string \<Rightarrow> unit dbio" where
  "store_Open drv dataDir =
     (if dataDir = [] then State_Monad.return (Inl (ErrOther ''data directory path must not be empty''))
      else
        and_on (attempt (\<lambda>d. (Inr (), d))) (\<lambda>_.
        and_on (ensureDatabaseFileMode databaseFileName) (\<lambda>_.
        and_on (attempt (\<lambda>d. (Inr (), d))) (\<lambda>_.
        and_on (statement drv (\<lambda>d. ((), d))) (\<lambda>_.
        and_on (configureSQLite drv) (\<lambda>_.
        and_on (Migrate drv) (\<lambda>_.
        enforceSQLiteFileModes)))))))"

section \<open>A successful opening\<close>

lemma and_on_Inr:
  "run_state (and_on m f) d = (Inr y, d') \<longleftrightarrow>
   (\<exists>x e. run_state m d = (Inr x, e) \<and> run_state (f x) e = (Inr y, d'))"
  by (auto simp: and_on_def split: prod.splits sum.splits)

lemma statement_run:
  "run_state (statement drv f) d = (r, d') \<Longrightarrow>
   \<exists>e. dd_version e = dd_version d \<and> dd_tables e = dd_tables d \<and> dd_indexes e = dd_indexes d
     \<and> dd_foreign_keys e = dd_foreign_keys d
     \<and> (case r of Inr x \<Rightarrow> f e = (x, d') | Inl _ \<Rightarrow> d' = e \<or> d' = snd (f e))"
proof -
  assume run: "run_state (statement drv f) d = (r, d')"
  let ?e = "\<lambda>fs. d\<lparr>dd_faults := fs, dd_modes := drv_files drv (dd_modes d)\<rparr>"
  show ?thesis
  proof (cases "dd_faults d")
    case Nil
    with run show ?thesis
      by (intro exI [of _ "d\<lparr>dd_modes := drv_files drv (dd_modes d)\<rparr>"])
        (auto simp: statement_def attempt_def split: prod.splits)
  next
    case (Cons a fs)
    show ?thesis
    proof (cases a)
      case (FaultBefore c)
      with run Cons show ?thesis
        by (intro exI [of _ d']) (auto simp: statement_def attempt_def)
    qed (use run Cons in \<open>intro exI [of _ "?e fs"],
      auto simp: statement_def attempt_def split: prod.splits\<close>)+
  qed
qed

lemma statement_Inr:
  "run_state (statement drv f) d = (Inr x, d') \<Longrightarrow>
   \<exists>e. dd_version e = dd_version d \<and> dd_tables e = dd_tables d \<and> dd_indexes e = dd_indexes d
     \<and> dd_foreign_keys e = dd_foreign_keys d \<and> f e = (x, d')"
  by (drule statement_run) simp

lemma set_add_name: "set (add_name n ns) = insert n (set ns)"
  by (auto simp: add_name_def List.member_iff)

lemma script_Inr:
  "run_state (exec_script drv ss) d = (Inr (), d') \<Longrightarrow>
   dd_foreign_keys d' = dd_foreign_keys d \<and> set (dd_tables d) \<subseteq> set (dd_tables d')
   \<and> (\<forall>n. CreateTable n \<in> set ss \<longrightarrow> n \<in> set (dd_tables d'))
   \<and> (ss \<noteq> [] \<and> last ss = UserVersion v \<longrightarrow> dd_version d' = v)"
proof (induction ss arbitrary: d)
  case (Cons s ss)
  obtain e where s: "run_state (statement drv (run_ddl s)) d = (Inr (), e)"
    and ss: "run_state (exec_script drv ss) e = (Inr (), d')"
    using Cons.prems by (auto simp: and_on_Inr)
  obtain e0 where e0: "dd_tables e0 = dd_tables d" "dd_foreign_keys e0 = dd_foreign_keys d"
    "run_ddl s e0 = ((), e)" using statement_Inr [OF s] by auto
  have e: "dd_foreign_keys e = dd_foreign_keys d" "set (dd_tables d) \<subseteq> set (dd_tables e)"
    "\<And>n. s = CreateTable n \<Longrightarrow> n \<in> set (dd_tables e)" "\<And>v. s = UserVersion v \<Longrightarrow> dd_version e = v"
    using e0 by (cases s; auto simp: set_add_name)+
  from Cons.IH [OF ss] e ss show ?case by (cases "ss = []") auto
qed simp

lemma migrate_Inr:
  assumes "run_state (Migrate drv) d = (Inr (), d')"
  shows "dd_version d' = schemaVersion \<and> dd_foreign_keys d' = dd_foreign_keys d
    \<and> {''drop_points'', ''submissions'', ''api_tokens''} \<subseteq> set (dd_tables d')"
proof -
  obtain e where "run_state (exec_script drv schemaSQL) e = (Inr (), d')"
    "dd_foreign_keys e = dd_foreign_keys d"
    using assms by (auto simp: Migrate_def and_on_Inr relayTablesExist_def split: if_splits
        dest!: statement_Inr)
  with script_Inr [of drv schemaSQL e d' 3] show ?thesis
    by (simp add: schemaSQL_def schemaVersion_def)
qed

definition owner_only :: "go_string \<Rightarrow> data_dir \<Rightarrow> bool" where
  "owner_only f d \<longleftrightarrow> dd_modes d f = None \<or> dd_modes d f = Some private_mode"

lemma chmod_run:
  "run_state (attempt (file_chmod f)) d = (r, d') \<Longrightarrow>
   dd_version d' = dd_version d \<and> dd_tables d' = dd_tables d \<and> dd_foreign_keys d' = dd_foreign_keys d
   \<and> (\<forall>g. owner_only g d \<longrightarrow> owner_only g d') \<and> (r = Inr () \<or> r = Inl ErrNotExist \<longrightarrow> owner_only f d')"
  by (auto simp: attempt_def file_chmod_def owner_only_def
      split: list.splits fault.splits option.splits if_splits)

lemma enforce_Inr:
  "run_state (enforce_modes fs) d = (Inr (), d') \<Longrightarrow>
   dd_version d' = dd_version d \<and> dd_tables d' = dd_tables d \<and> dd_foreign_keys d' = dd_foreign_keys d
   \<and> (\<forall>g. owner_only g d \<or> g \<in> set fs \<longrightarrow> owner_only g d')"
proof (induction fs arbitrary: d)
  case (Cons f fs)
  then obtain r e where r: "run_state (attempt (file_chmod f)) d = (r, e)"
    "r = Inr () \<or> r = Inl ErrNotExist" and rest: "run_state (enforce_modes fs) e = (Inr (), d')"
    by (auto split: prod.splits sum.splits if_splits)
  from chmod_run [OF r(1)] r(2) Cons.IH [OF rest] show ?case by auto
qed simp


definition sample_driver :: driver where
  "sample_driver = \<lparr>drv_files = (\<lambda>m. m(databaseFileName @ ''-wal'' \<mapsto> 420)), drv_journal_mode = ''wal''\<rparr>"

definition new_data_dir :: "fault list \<Rightarrow> data_dir" where
  "new_data_dir fs = \<lparr>dd_modes = (\<lambda>_. None), dd_version = 0, dd_tables = [], dd_indexes = [],
     dd_foreign_keys = False, dd_faults = fs\<rparr>"

lemma sample_open: "fst (run_state (store_Open sample_driver ''data'') (new_data_dir [])) = Inr ()"
  by code_simp


section \<open>An interrupted first migration\<close>

text \<open>A directory with tables but without a version is refused, whatever happens, and stays so.\<close>

definition stuck :: "data_dir \<Rightarrow> bool" where
  "stuck d \<longleftrightarrow> dd_version d = 0 \<and> ''drop_points'' \<in> set (dd_tables d)"

lemma stuck_Migrate:
  assumes "stuck d" "run_state (Migrate drv) d = (r, d')"
  shows "(\<exists>e. r = Inl e) \<and> stuck d'"
proof -
  obtain x e where v: "run_state (statement drv (\<lambda>d. (dd_version d, d))) d = (x, e)" by fastforce
  from statement_run [OF v] assms(1) have e: "stuck e" "\<And>n. x = Inr n \<Longrightarrow> n = 0"
    by (cases x; auto simp: stuck_def)+
  obtain y u where t: "run_state (relayTablesExist drv) e = (y, u)" by fastforce
  from statement_run [OF t [unfolded relayTablesExist_def]] e(1)
  have u: "stuck u" "\<And>b. y = Inr b \<Longrightarrow> b"
    by (cases y; auto simp: stuck_def list_ex_iff)+
  show ?thesis
    using assms(2) v t e u by (auto simp: Migrate_def and_on_def split: sum.splits if_splits)
qed

text \<open>Any number of further attempts, each with its own faults.\<close>

inductive later :: "driver \<Rightarrow> data_dir \<Rightarrow> data_dir \<Rightarrow> bool" for drv where
  later_now: "later drv d (d\<lparr>dd_faults := fs\<rparr>)"
| later_again: "later drv d e \<Longrightarrow> run_state (Migrate drv) e = (r, u) \<Longrightarrow>
    later drv d (u\<lparr>dd_faults := fs\<rparr>)"

lemma stuck_later: "later drv d e \<Longrightarrow> stuck d \<Longrightarrow> stuck e"
proof (induction rule: later.induct)
  case (later_again d e r u fs)
  from stuck_Migrate [OF later_again.IH [OF later_again.prems] later_again.hyps(2)]
  show ?case by (simp add: stuck_def)
qed (simp add: stuck_def)

lemma interrupted_script:
  "k < length ss \<Longrightarrow> dd_faults d = replicate k NoFault @ [FaultBefore c] \<Longrightarrow>
   run_state (exec_script drv ss) d = (r, d') \<Longrightarrow>
   r = Inl (ErrIO c)
   \<and> dd_tables d' = foldl (\<lambda>ts s. case s of CreateTable n \<Rightarrow> add_name n ts | _ \<Rightarrow> ts) (dd_tables d) (take k ss)
   \<and> ((\<forall>v. UserVersion v \<notin> set (take k ss)) \<longrightarrow> dd_version d' = dd_version d)"
proof (induction ss arbitrary: k d)
  case (Cons s ss)
  show ?case
  proof (cases k)
    case 0
    with Cons.prems show ?thesis by (auto simp: and_on_def statement_def attempt_def)
  next
    case (Suc m)
    let ?e = "snd (run_ddl s (d\<lparr>dd_faults := replicate m NoFault @ [FaultBefore c],
        dd_modes := drv_files drv (dd_modes d)\<rparr>))"
    have "run_state (exec_script drv ss) ?e = (r, d')"
      using Cons.prems Suc by (cases s) (auto simp: and_on_def statement_def attempt_def)
    moreover have "dd_faults ?e = replicate m NoFault @ [FaultBefore c]" by (cases s) simp_all
    ultimately show ?thesis
      using Cons.IH [of m ?e] Cons.prems(1) Suc by (cases s) auto
  qed
qed simp

text \<open>C24. The first migration is not atomic: when it is interrupted after its first statement and
  before its last, it reports the fault, and from then on every migration of that directory is
  refused, with or without faults, until somebody deletes the database.\<close>

theorem interrupted_first_migration_stays_refused:
  assumes "1 \<le> k" "k < length schemaSQL"
    and "dd_version d = 0" "dd_tables d = []"
    and "dd_faults d = [NoFault, NoFault] @ replicate k NoFault @ [FaultBefore c]"
    and "run_state (Migrate drv) d = (r, d')"
  shows "r = Inl (ErrIO c)
    \<and> (\<forall>e. later drv d' e \<longrightarrow> (\<exists>err. fst (run_state (Migrate drv) e) = Inl err))"
proof -
  let ?e = "d\<lparr>dd_faults := replicate k NoFault @ [FaultBefore c],
      dd_modes := drv_files drv (drv_files drv (dd_modes d))\<rparr>"
  have run: "run_state (exec_script drv schemaSQL) ?e = (r, d')"
    using assms(3-6) by (simp add: Migrate_def relayTablesExist_def and_on_def statement_def attempt_def)
  have "take k schemaSQL = CreateTable ''drop_points'' # take (k - 1) (tl schemaSQL)"
    using assms(1) by (cases k) (simp_all add: schemaSQL_def)
  moreover have "n \<in> set ts \<Longrightarrow>
      n \<in> set (foldl (\<lambda>ts s. case s of CreateTable n \<Rightarrow> add_name n ts | _ \<Rightarrow> ts) ts ss)" for n ts ss
    by (induction ss arbitrary: ts) (auto simp: set_add_name split: ddl.splits)
  moreover have "UserVersion v \<notin> set (take k schemaSQL)" for v
  proof -
    have "take k schemaSQL = take k (butlast schemaSQL)"
      using assms(2) by (simp add: take_butlast)
    then show ?thesis by (auto simp: schemaSQL_def dest: in_set_takeD)
  qed
  moreover have "add_name ''drop_points'' [] = [''drop_points'']" by (simp add: add_name_def)
  ultimately have "r = Inl (ErrIO c)" "stuck d'"
    using interrupted_script [OF assms(2) _ run] assms(3,4) by (auto simp: stuck_def)
  moreover from this(2) have "\<exists>err. fst (run_state (Migrate drv) e) = Inl err" if "later drv d' e" for e
    using stuck_Migrate [OF stuck_later [OF that]] by (metis prod.collapse)
  ultimately show ?thesis by blast
qed

lemma interrupted_first_migration_stays_refused_witness:
  "fst (run_state (Migrate sample_driver)
     (new_data_dir ([NoFault, NoFault] @ replicate 3 NoFault @ [FaultBefore ENOSPC]))) = Inl (ErrIO ENOSPC)"
  using interrupted_first_migration_stays_refused [of 3 "new_data_dir ([NoFault, NoFault]
      @ replicate 3 NoFault @ [FaultBefore ENOSPC])" ENOSPC sample_driver, OF _ _ _ _ _ surjective_pairing]
  by (simp add: schemaSQL_def new_data_dir_def)

end
