(* ===== verification/Relay_Submit.thy ===== *)
theory Relay_Submit
  imports Relay_Handlers
begin

text \<open>
  The storage invariant under an upload. Another submission's upload never touches this one. Its
  own upload finds it absent, makes it receiving, and either commits it with its files in place or
  takes it back while it is not ready, also when the commit was reported as failed but took effect.
\<close>

section \<open>Taking an upload back\<close>

lemma guard_finalize: "holds (guard G K i j ((a, b) = (i, j))) (finalizeSubmissionAttempt a b)"
  unfolding finalizeSubmissionAttempt_def by (intro holds_rules guard_files)

lemma guard_take_back:
  "triple (guard G K i j ((a, b) = (i, j))) (fail_submit a b e st) (\<lambda>_. stored G K i j)"
  "triple (guard G K i j ((a, b) = (i, j))) (take_back a b e) (\<lambda>_. stored G K i j)"
  unfolding fail_submit_def take_back_def
  by (intro guard_stored(1) holds_rules guard_finalize)+

lemma storage_resolve: "storage_holds G K i j (resolve_commit a b e)"
proof -
  have find: "triple (stored G K i j) (repo_FindSubmission a b)
     (\<lambda>r w. stored G K i j w
        \<and> ((\<forall>s. r = Inr s \<longrightarrow>
              (\<exists>q \<in> set (submissions (w_db w)). sr_key q = (a, b) \<and> s = submission_of_row q))
        \<and> (r = Inl ErrSubmissionNotFound \<longrightarrow> (\<forall>q \<in> set (submissions (w_db w)). sr_key q \<noteq> (a, b)))
        \<and> (\<forall>e. r = Inl e \<longrightarrow> errors_is e ErrSubmissionNotFound \<longrightarrow> e = ErrSubmissionNotFound)))"
    by (rule triple_real [OF storage_lookups(2) real_find_submission])
  show ?thesis
    unfolding resolve_commit_def
  proof (rule triple_bind [OF find], intro triple_sum triple_if, goal_cases)
    case (2 x err)
    then show ?case
      by (intro triple_weaken [OF guard_take_back(2)]) (auto simp: guard_def intro: absent_idle)
  next
    case (5 x s)
    then have "sub_Status s = SubmissionStatusReceiving" by simp
    with 5 show ?case
      by (intro triple_weaken [OF guard_take_back(2)])
        (auto simp: guard_def submission_of_row_def intro: storage.not_ready)
  qed (auto intro: triple_return)
qed

section \<open>The stored files\<close>

definition placed ::
    "go_string \<Rightarrow> go_string \<Rightarrow> go_string \<Rightarrow> read_event list \<Rightarrow> commit_submission_result \<Rightarrow> fs \<Rightarrow> bool" where
  "placed a b env events st t \<longleftrightarrow>
     validateDropPointID a = None \<and> ValidSubmissionID b
     \<and> (\<exists>data. stream_data events = Some data \<and> st = stored_result a b (int (length data)) \<and> is_int64 (int (length data))
          \<and> fs_get t (submissionDir a b @ [EnvelopeFileName]) = Some (File env)
          \<and> fs_get t (submissionDir a b @ [PayloadFileName]) = Some (File data))"

lemma real_write:
  "is_int64 limit \<Longrightarrow>
   triple (\<lambda>_. True) (WriteSubmission a b env events limit)
     (\<lambda>r w. \<forall>st. r = Inr st \<longrightarrow> placed a b env events st (w_fs w))"
proof (rule tripleI)
  fix w r w' assume "is_int64 limit" "run_state (WriteSubmission a b env events limit) w = (r, w')"
  with WriteSubmission_Inr show "\<forall>st. r = Inr st \<longrightarrow> placed a b env events st (w_fs w')"
    by (fastforce simp: placed_def is_int64_def)
qed

lemma placed_result:
  "placed a b env events st t \<Longrightarrow>
   cs_EnvelopePath st \<noteq> [] \<and> cs_PayloadPath st \<noteq> [] \<and> 0 \<le> cs_EncryptedSize st
   \<and> is_int64 (cs_EncryptedSize st)"
  by (auto simp: placed_def stored_result_def blob_names)

lemma commit_stored:
  assumes idle: "idle False i j w" and placed: "placed i j env events st (w_fs w)"
    and y: "tx_commit i j st now (w_db w) = Inr (y, w_db w')" and fs: "w_fs w' = w_fs w"
    and G: "\<And>data. stream_data events = Some data \<Longrightarrow> G env data"
    and valid: "\<exists>e. ValidateEnvelopeJSON env = Inr e"
  shows "stored G True i j w'"
proof -
  let ?P = "\<lambda>r. sr_key r = (i, j) \<and> sr_status r = SubmissionStatusReceiving"
  obtain n where upd: "update_submissions ?P (set_ready st now) (w_db w) = Inr (n, w_db w')" "n = 1"
    using y by (auto simp: tx_commit_def Let_def split: sum.splits option.splits if_splits prod.splits)
  have d': "w_db w' = (w_db w)\<lparr>submissions := update_where ?P (set_ready st now) (submissions (w_db w))\<rparr>"
    using upd by (simp add: update_submissions_def)
  have "db_inv (w_db w')"
    using idle placed_result [OF placed] y
    by (auto intro: db_step_inv db_step.step_commit simp: idle_def)
  moreover have "anchored i j (w_db w')"
  proof -
    have "has_status i j SubmissionStatusReady (w_db w')"
      using upd by (intro updated_status [of ?P "set_ready st now" "w_db w"])
        (auto simp: set_ready_def sr_key_def)
    then show ?thesis by (auto simp: anchored_def has_status_def)
  qed
  moreover have "row_stored G i j s (w_fs w')" if h: "hot i j (w_db w') s" for s
  proof -
    obtain q where q: "q \<in> set (submissions (w_db w))" "s = (if ?P q then set_ready st now q else q)"
      using h by (auto simp: hot_def d' set_update_where)
    have "?P q"
    proof (rule ccontr)
      assume "\<not> ?P q"
      with q h have "hot i j (w_db w) q" by (auto simp: hot_def d')
      with idle show False by (simp add: idle_def)
    qed
    with q have "s = set_ready st now q" by simp
    with placed G valid fs show ?thesis
      by (auto simp: row_stored_def placed_def set_ready_def stored_result_def)
  qed
  ultimately show ?thesis by (simp add: stored_def)
qed

lemma commit_own:
  assumes "\<forall>e d. G e d" "\<exists>e. ValidateEnvelopeJSON env = Inr e"
  shows "triple (\<lambda>w. idle K i j w \<and> placed i j env events st (w_fs w)) (sql_exec (tx_commit i j st now))
    (\<lambda>_. stored G K i j)"
proof (rule tripleI)
  fix w r w' assume P: "idle K i j w \<and> placed i j env events st (w_fs w)"
    and run: "run_state (sql_exec (tx_commit i j st now)) w = (r, w')"
  note still = sql_exec_still [OF run]
  show "stored G K i j w'"
  proof (cases "w_db w' = w_db w")
    case True
    with P still show ?thesis by (auto intro: idle_stored idle_still)
  next
    case False
    with still obtain y where "tx_commit i j st now (w_db w) = Inr (y, w_db w')" by blast
    from commit_stored [of i j w env events, OF _ _ this] P still assms have "stored G True i j w'"
      by (simp add: idle_def)
    then show ?thesis by (simp add: stored_def)
  qed
qed

section \<open>The upload\<close>

lemma guard_receive:
  assumes "dropRequestSizeLimit (dp_MaxBytes dp) = Inr lim"
    and G: "(dp_ID dp, b) = (i, j) \<Longrightarrow> \<forall>e d. G e d"
  shows "triple (guard G K i j ((dp_ID dp, b) = (i, j))) (receive_submission deps r dp b lim)
    (\<lambda>_. stored G K i j)"
proof -
  let ?a = "dp_ID dp" and ?c = "(dp_ID dp, b) = (i, j)"
  have int64: "is_int64 (dp_MaxBytes dp)"
    using assms(1) by (auto simp: dropRequestSizeLimit_def framingBytes_def is_int64_def split: if_splits)
  have put: "triple (guard G K i j ?c) (WriteSubmission ?a b env events (dp_MaxBytes dp))
      (\<lambda>x w. guard G K i j ?c w \<and> (\<forall>st. x = Inr st \<longrightarrow> placed ?a b env events st (w_fs w)))" for env events
    by (rule triple_real [OF holds_guard real_write [OF int64]]) (auto intro: stored_files idle_files)
  have clock: "holds (\<lambda>w. guard G K i j ?c w \<and> placed ?a b env events st (w_fs w)) now_io" for env events st
    by (rule triple_keeps [OF still.keeps_prims(7)])
      (auto simp: guard_def intro: stored_still idle_still)
  have commit: "triple (\<lambda>w. guard G K i j ?c w \<and> placed ?a b env events st (w_fs w))
      (repo_CommitSubmission ?a b st now) (\<lambda>_. stored G K i j)"
    if "\<exists>e. ValidateEnvelopeJSON env = Inr e" for env events st now
  proof (cases ?c)
    case True
    then have ij: "?a = i" "b = j" by auto
    have "triple (\<lambda>w. guard G K i j ?c w \<and> placed ?a b env events st (w_fs w))
        (sql_exec (tx_commit ?a b st now)) (\<lambda>_. stored G K i j)"
      unfolding ij by (rule triple_weaken [OF commit_own [OF G [OF True] that]]) (auto simp: guard_def)
    then show ?thesis
      unfolding repo_CommitSubmission_def
      by (intro triple_if triple_return) (auto simp: guard_def)
  next
    case False
    show ?thesis
    proof (rule tripleI)
      fix w x w' assume P: "guard G K i j ?c w \<and> placed ?a b env events st (w_fs w)"
        and run: "run_state (repo_CommitSubmission ?a b st now) w = (x, w')"
      with placed_result [of ?a b env events st "w_fs w"] have "holds (stored G K i j) (repo_CommitSubmission ?a b st now)"
        unfolding repo_CommitSubmission_def by (intro holds_rules exec_commit_other False) auto
      with P run show "stored G K i j w'" by (auto simp: guard_def dest: tripleD)
    qed
  qed
  show ?thesis
    unfolding receive_submission_def
  proof (intro triple_sum triple_prod guard_take_back triple_bind [OF put], goal_cases)
    case (1 v env events e u err)
    show ?case by (rule triple_weaken [OF guard_take_back(1)]) auto
  next
    case (2 v env events e u st)
    have "triple (\<lambda>w. guard G K i j ?c w \<and> placed ?a b env events st (w_fs w)) (do {
        now \<leftarrow> now_io;
        c \<leftarrow> repo_CommitSubmission ?a b st now;
        case c of
          Inl commitErr \<Rightarrow> resolve_commit ?a b commitErr
        | Inr _ \<Rightarrow> State_Monad.return (submitted b SubmissionStatusReady)}) (\<lambda>_. stored G K i j)"
      by (intro triple_bind [OF clock] triple_bind [OF commit] triple_sum storage_resolve holds_return)
        (use 2 in blast)
    then show ?case by (rule triple_weaken) (use 2 in auto)
  qed
qed

lemma begin_guard:
  assumes "K \<or> (\<forall>e d. G e d)"
  shows "triple (stored G K i j) (repo_BeginSubmission a b now)
     (\<lambda>r w. stored G K i j w \<and> (r = Inr () \<and> (a, b) = (i, j) \<longrightarrow> idle K i j w \<and> (\<forall>e d. G e d)))"
proof (rule triple_weaken [OF triple_real [OF storage_repo(4) real_begin]], assumption)
  fix r w
  assume w: "stored G K i j w \<and> (r = Inr () \<longrightarrow> has_status a b SubmissionStatusReceiving (w_db w)
    \<and> (\<exists>q \<in> set (drop_points (w_db w)). dpr_id q = a \<and> dpr_status q = StatusOpen))"
  have "idle K i j w \<and> (\<forall>e d. G e d)" if "r = Inr ()" "(a, b) = (i, j)"
  proof
    from w that show i: "idle K i j w" by (auto intro: status_idle)
    have "\<not> K"
    proof
      assume K
      with i have inv: "db_inv (w_db w)" and anc: "anchored i j (w_db w)" by (auto simp: idle_def)
      from w that obtain q where q: "q \<in> set (submissions (w_db w))" "sr_key q = (i, j)"
        "sr_status q = SubmissionStatusReceiving" by (auto simp: has_status_def)
      from anc w that obtain s where "s \<in> set (submissions (w_db w))" "sr_key s = (i, j)"
        "sr_status s \<noteq> SubmissionStatusReceiving" by (auto simp: anchored_def)
      with q show False using distinct_key_unique [OF inv_distinct(2) [OF inv], of s q] by auto
    qed
    with assms show "\<forall>e d. G e d" by blast
  qed
  with w show "stored G K i j w \<and> (r = Inr () \<and> (a, b) = (i, j) \<longrightarrow> idle K i j w \<and> (\<forall>e d. G e d))"
    by blast
qed

lemma storage_submit:
  assumes "K \<or> (\<forall>e d. G e d)"
  shows "storage_holds G K i j (HandleSubmitDrop deps r tok b)"
proof -
  have received: "triple (\<lambda>w. stored G K i j w \<and> (x = Inr () \<and> (dp_ID dp, b) = (i, j) \<longrightarrow>
        idle K i j w \<and> (\<forall>e d. G e d))) (receive_submission deps r dp b lim) (\<lambda>_. stored G K i j)"
    if "x = Inr ()" "dropRequestSizeLimit (dp_MaxBytes dp) = Inr lim" for x dp lim
  proof (rule tripleI)
    fix w y w' assume P: "stored G K i j w \<and> (x = Inr () \<and> (dp_ID dp, b) = (i, j) \<longrightarrow>
        idle K i j w \<and> (\<forall>e d. G e d))" and run: "run_state (receive_submission deps r dp b lim) w = (y, w')"
    then have "guard G K i j ((dp_ID dp, b) = (i, j)) w" by (auto simp: guard_def that)
    moreover have "(dp_ID dp, b) = (i, j) \<Longrightarrow> \<forall>e d. G e d" using P that by blast
    ultimately show "stored G K i j w'"
      using tripleD [OF guard_receive [OF that(2)] _ run] by blast
  qed
  have existing: "storage_holds G K i j (submitExistingSubmission a b)" for a
    unfolding submitExistingSubmission_def by (intro holds_rules storage_lookups)
  show ?thesis
    unfolding HandleSubmitDrop_def
  proof (intro triple_if triple_sum holds_return triple_bind [OF storage.reads(9)]
      triple_bind [OF storage_repo(1)] triple_bind [OF begin_guard [OF assms]], goal_cases)
    case (3 now f dp lim x u)
    then show ?case by (intro received) simp_all
  qed (auto intro: triple_weaken [OF existing] triple_return)
qed

end
