(* ===== verification/Relay_Steps.thy ===== *)
theory Relay_Steps
  imports Relay_Submit Cli
begin

text \<open>
  The relay as a whole: its steps are requests through the router, passes of the cleanup loop, starts
  of the server and commands of the operator, each under any faults, while time passes and random
  bytes arrive in between. The locale \<open>relay_invariant\<close> says what a predicate must survive to hold in
  every reachable world; \<open>R\<close> is what may be assumed before a step.
\<close>

section \<open>Steps and paths\<close>

inductive relay_step :: "world \<Rightarrow> world \<Rightarrow> bool" where
  request: "run_state (NewRouterWithDependencies deps r) w = (x, w') \<Longrightarrow> relay_step w w'"
| tick: "run_state (service_Expire v) w = (x, w') \<Longrightarrow> relay_step w w'"
| start: "run_state (server_New parse opened cfg) w = (srv, w') \<Longrightarrow> relay_step w w'"
| token_command: "run_state (runToken proc args) w = (out, w') \<Longrightarrow> relay_step w w'"
| cleanup_command: "run_state (runCleanup proc args) w = (out, w') \<Longrightarrow> relay_step w w'"
| environment: "w_db w' = w_db w \<Longrightarrow> w_fs w' = w_fs w \<Longrightarrow> relay_step w w'"

inductive relay_path :: "(world \<Rightarrow> bool) \<Rightarrow> world \<Rightarrow> world \<Rightarrow> bool" for R where
  path_refl: "relay_path R w w"
| path_step: "relay_path R u v \<Longrightarrow> R v \<Longrightarrow> relay_step v w \<Longrightarrow> relay_path R u w"

text \<open>A relay without drop points, which may have API tokens, and whose data directory may hold
  anything.\<close>

definition new_relay :: "world \<Rightarrow> bool" where
  "new_relay w \<longleftrightarrow> drop_points (w_db w) = [] \<and> submissions (w_db w) = [] \<and> db_inv (w_db w)"

definition reachable :: "world \<Rightarrow> bool" where
  "reachable w \<longleftrightarrow> (\<exists>u. new_relay u \<and> relay_path (\<lambda>_. True) u w)"

lemma path_trans: "relay_path R v w \<Longrightarrow> relay_path R u v \<Longrightarrow> relay_path R u w"
  by (induction rule: relay_path.induct) (auto intro: relay_path.intros)

lemma path_weaken: "relay_path R u w \<Longrightarrow> (\<And>v. R v \<Longrightarrow> S v) \<Longrightarrow> relay_path S u w"
  by (induction rule: relay_path.induct) (auto intro: relay_path.intros)

lemma reachable_path: "reachable u \<Longrightarrow> relay_path R u w \<Longrightarrow> reachable w"
proof -
  assume "reachable u" and p: "relay_path R u w"
  then obtain v where v: "new_relay v" "relay_path (\<lambda>_. True) v u" by (auto simp: reachable_def)
  have "relay_path (\<lambda>_. True) u w" by (rule path_weaken [OF p]) simp
  with v show "reachable w" unfolding reachable_def using path_trans by blast
qed

lemma reachable_step: "reachable u \<Longrightarrow> relay_step u w \<Longrightarrow> reachable w"
  by (rule reachable_path [where R = "\<lambda>_. True"]) (auto intro: relay_path.intros)

section \<open>Routing\<close>

lemma find_route_from:
  "find_route rts r = Some (p, m) \<Longrightarrow> \<exists>f vs. (p, f) \<in> set rts \<and> m = f vs r"
proof (induction rts)
  case (Cons x rts)
  obtain pattern f where x: "x = (pattern, f)" by (cases x)
  from Cons.prems consider "find_route rts r = Some (p, m)" | vs where "p = pattern" "m = f vs r"
    by (auto simp: x split: prod.splits option.splits if_splits)
  then show ?case using Cons.IH by cases (auto simp: x)
qed simp

text \<open>A program that is only wrapped up in its result.\<close>

lemma triple_routed:
  assumes "\<And>p f vs. (p, f) \<in> set (routes deps) \<Longrightarrow> triple P (f vs r) (\<lambda>_. Q)" "\<And>w. P w \<Longrightarrow> Q w"
  shows "triple P (NewRouterWithDependencies deps r) (\<lambda>_. Q)"
proof -
  have mux: "triple P (serve_mux deps r) (\<lambda>_. Q)"
    unfolding serve_mux_def
  proof (intro triple_option triple_prod triple_return, goal_cases)
    case (2 v p m)
    then obtain f vs where "(p, f) \<in> set (routes deps)" "m = f vs r"
      by (auto dest: find_route_from)
    with assms(1) have "triple P m (\<lambda>_. Q)" by blast
    then show ?case by (rule triple_bind) (rule holds_return)
  qed (use assms(2) in auto)
  have "triple P (ApplyCORS parse cfg (serve_mux deps) r) (\<lambda>_. Q)" for parse cfg
    unfolding ApplyCORS_def Let_def
    by (intro triple_if triple_return triple_bind [OF mux] triple_prod holds_return)
      (use assms(2) in auto)
  then show ?thesis
    unfolding NewRouterWithDependencies_def LogRequests_def SetNoSniff_def
    by (intro triple_bind [where Q = "\<lambda>_. Q"] triple_prod holds_return) auto
qed

section \<open>Invariants of the relay\<close>

locale relay_invariant =
  fixes Q R :: "world \<Rightarrow> bool"
  assumes Q_env: "Q w \<Longrightarrow> w_db w' = w_db w \<Longrightarrow> w_fs w' = w_fs w \<Longrightarrow> Q w'"
    and Q_create: "triple (\<lambda>w. Q w \<and> R w) (HandleCreateDropPoint deps r) (\<lambda>_. Q)"
    and Q_status: "holds Q (HandleGetDropPointStatus deps r a)"
    and Q_list: "holds Q (HandleListSubmissions deps r a)"
    and Q_pickup: "holds Q (HandlePickupSubmission deps r a b)"
    and Q_acknowledge: "holds Q (HandleAcknowledgeSubmission deps r a b)"
    and Q_close: "holds Q (HandleCloseDropPoint deps r a)"
    and Q_metadata: "holds Q (HandleGetDropMetadata deps tok)"
    and Q_submit: "holds Q (HandleSubmitDrop deps r tok b)"
    and Q_Expire: "holds Q (service_Expire v)"
    and Q_Reconcile: "holds Q (ReconcileStartup v)"
    and Q_data_dir: "holds Q (EnsureDataDir dir)"
    and Q_add_token: "holds Q (repo_AddAPIToken p)"
    and Q_disable_token: "holds Q (repo_DisableAPIToken a now)"
    and Q_remove_token: "holds Q (repo_RemoveAPIToken a)"
begin

lemma Q_neutral:
  assumes "keeps (\<lambda>w w'. w_db w' = w_db w \<and> w_fs w' = w_fs w) m"
  shows "holds Q m"
  by (rule triple_keeps [OF assms]) (blast intro: Q_env)

lemma Q_prims:
  "holds Q (sql_query q)" "holds Q may_fail" "holds Q now_io" "holds Q (rand_read n)"
  by (rule Q_neutral, rule still.keeps_prims)+

lemma Q_get: "holds Q m \<Longrightarrow> holds Q (getOrHead (\<lambda>_. m) r)"
  unfolding getOrHead_def by (intro holds_rules)

lemma Q_route:
  assumes "(p, f) \<in> set (routes deps)"
  shows "triple (\<lambda>w. Q w \<and> R w) (f vs r) (\<lambda>_. Q)"
proof -
  have q: "triple (\<lambda>w. Q w \<and> R w) m (\<lambda>_. Q)" if "holds Q m" for m :: "response io"
    using that by (rule triple_weaken) auto
  have get: "holds Q (getOrHead g r)" if "holds Q (g r)" for g
    unfolding getOrHead_def by (intro holds_rules that)
  have static: "holds Q (static_route g vs r)" for g
    unfolding static_route_def by (rule holds_return)
  show ?thesis
    using assms unfolding routes_def
    by (auto simp: not_allowed_def)
      (rule Q_create | rule q, rule static Q_acknowledge Q_close Q_submit
        | rule q, rule get, rule static Q_status Q_list Q_pickup Q_metadata)+
qed

lemma Q_request: "triple (\<lambda>w. Q w \<and> R w) (NewRouterWithDependencies deps r) (\<lambda>_. Q)"
  by (rule triple_routed) (auto intro: Q_route)

lemma Q_start: "holds Q (server_New parse opened cfg)"
  unfolding server_New_def by (intro holds_rules Q_data_dir Q_Reconcile)

lemma Q_loop: "holds Q (cleanup_loop cfg n)"
  by (induction n) (simp_all, (intro holds_rules Q_Expire; assumption?)+)

lemma Q_print: "holds Q (print_and_exit x)"
  unfolding print_and_exit_def by (intro holds_rules Q_prims)

lemma Q_open: "holds Q (open_data proc path)" "holds Q (openTokenRepository proc path)"
proof -
  show "holds Q (open_data proc path)" for path
    unfolding open_data_def by (intro holds_rules Q_data_dir)
  then show "holds Q (openTokenRepository proc path)"
    unfolding openTokenRepository_def by (intro holds_rules)
qed

lemma Q_print_tokens: "holds Q (print_tokens ts)"
proof (induction ts)
  case (Cons t ts)
  show ?case unfolding print_tokens.simps by (intro holds_rules Q_print Cons.IH)
qed (simp add: holds_return)

lemma Q_on_token: "(\<And>tid. holds Q (op tid)) \<Longrightarrow> holds Q (on_token proc args op)"
  unfolding on_token_def by (intro holds_rules Q_open)

lemma Q_token_command: "holds Q (runToken proc args)"
proof -
  have add: "holds Q (runTokenAdd proc as)" for as
    unfolding runTokenAdd_def add_and_print_def
    by (intro holds_rules Q_open Q_prims Q_add_token Q_print Q_remove_token)
  have list: "holds Q (runTokenList proc as)" for as
    unfolding runTokenList_def repo_ListAPITokens_def
    by (intro holds_rules Q_open Q_prims Q_print_tokens)
  have generate: "holds Q (runTokenGenerate as)" for as
    unfolding runTokenGenerate_def by (intro holds_rules Q_prims Q_print)
  have others: "holds Q (runTokenDisable proc as)" "holds Q (runTokenRemove proc as)" for as
    unfolding runTokenDisable_def runTokenRemove_def
    by (intro Q_on_token holds_rules Q_prims Q_disable_token Q_remove_token)+
  show ?thesis
    unfolding runToken_def
    by (cases args) (auto intro!: holds_return add list generate others)
qed

lemma Q_cleanup_command: "holds Q (runCleanup proc args)"
  unfolding runCleanup_def
  by (cases args) (auto intro!: holds_rules Q_open Q_Expire Q_print)

lemma Q_step: "relay_step w w' \<Longrightarrow> Q w \<Longrightarrow> R w \<Longrightarrow> Q w'"
proof (induction rule: relay_step.induct)
  case (request deps r w x w')
  then show ?case using tripleD [OF Q_request] by blast
next
  case (tick v w x w')
  then show ?case using tripleD [OF Q_Expire] by blast
next
  case (start parse opened cfg w srv w')
  then show ?case using tripleD [OF Q_start] by blast
next
  case (token_command proc args w out w')
  then show ?case using tripleD [OF Q_token_command] by blast
next
  case (cleanup_command proc args w out w')
  then show ?case using tripleD [OF Q_cleanup_command] by blast
qed (blast intro: Q_env)

lemma Q_path: "relay_path R u w \<Longrightarrow> Q u \<Longrightarrow> Q w"
  by (induction rule: relay_path.induct) (auto intro: Q_step)

end

end
