(* ===== verification/Relay_Storage.thy ===== *)
theory Relay_Storage
  imports Relay_Steps
begin

text \<open>
  The storage invariant is an invariant of the relay: in every reachable world, and for a committed
  submission with its very bytes as long as its drop point exists.
\<close>

section \<open>Creating drop points\<close>

definition has_row :: "go_string \<Rightarrow> world \<Rightarrow> bool" where
  "has_row i w \<longleftrightarrow> i \<in> dpr_id ` set (drop_points (w_db w))"

definition creatable ::
    "(go_string \<Rightarrow> go_string \<Rightarrow> bool) \<Rightarrow> bool \<Rightarrow> go_string \<Rightarrow> go_string \<Rightarrow> world \<Rightarrow> bool" where
  "creatable G K i j w \<longleftrightarrow> stored G K i j w \<and> (K \<longrightarrow> has_row i w)"

lemma creatable_still:
  "creatable G K i j w \<Longrightarrow> w_db w' = w_db w \<Longrightarrow> w_fs w' = w_fs w \<Longrightarrow> creatable G K i j w'"
  by (auto simp: creatable_def has_row_def intro: stored_still)

lemma creatable_neutral:
  "keeps (\<lambda>w w'. w_db w' = w_db w \<and> w_fs w' = w_fs w) m \<Longrightarrow> holds (creatable G K i j) m"
  by (erule triple_keeps) (blast intro: creatable_still)

lemma creatable_prims:
  "holds (creatable G K i j) (sql_query q)" "holds (creatable G K i j) now_io"
  "holds (creatable G K i j) (rand_read n)" "holds (creatable G K i j) (rows_affected c)"
  by (rule creatable_neutral, rule still.keeps_prims)+

lemma creatable_name: "holds (creatable G K i j) generate_name"
  by (rule creatable_neutral, rule keepsI) (auto simp: generate_name_def split: prod.splits)

text \<open>A new drop point has no submissions: its key was free, and submissions refer to drop points.\<close>

lemma insert_creatable:
  assumes "dp_wf dp" "dp_Status dp = StatusOpen" "is_int64 (dp_MaxPendingBytes dp)"
  shows "holds (creatable G K i j) (sql_exec (stmt_insert_drop_point dp m now))"
proof (rule tripleI)
  fix w x w' assume c: "creatable G K i j w"
    and run: "run_state (sql_exec (stmt_insert_drop_point dp m now)) w = (x, w')"
  note still = sql_exec_still [OF run]
  show "creatable G K i j w'"
  proof (cases "w_db w' = w_db w")
    case False
    with still obtain n where n: "stmt_insert_drop_point dp m now (w_db w) = Inr (n, w_db w')" by auto
    have fresh: "dp_ID dp \<notin> dpr_id ` set (drop_points (w_db w))"
      and d': "w_db w' = (w_db w)\<lparr>drop_points := drop_points (w_db w) @ [row_of_drop_point dp]\<rparr>"
      using n False by (auto simp: stmt_insert_drop_point_def list_ex_iff split: if_splits)
    have inv: "db_inv (w_db w)" using c by (simp add: creatable_def stored_def)
    then have inv': "db_inv (w_db w')"
      using n assms by (blast intro: db_step_inv db_step.step_create)
    have id: "dpr_id (row_of_drop_point dp) = dp_ID dp" by (simp add: row_of_drop_point_def)
    have hot: "hot i j (w_db w) s" if h: "hot i j (w_db w') s" for s
    proof -
      have s: "s \<in> set (submissions (w_db w))" "sr_key s = (i, j)" using h by (auto simp: hot_def d')
      with inv have "i \<in> dpr_id ` set (drop_points (w_db w))"
        by (auto simp: db_inv_def fk_inv_def sr_key_def)
      with fresh h show ?thesis by (auto simp: hot_def d' id)
    qed
    have anchor: "anchored i j (w_db w')" if "anchored i j (w_db w)" "has_row i w"
      using that fresh by (auto simp: anchored_def d' id has_row_def)
    have "row_stored G i j s (w_fs w')" if "hot i j (w_db w') s" for s
      using hot [OF that] c still by (simp add: creatable_def stored_def)
    with c inv' anchor show ?thesis by (auto simp: creatable_def stored_def has_row_def d')
  qed (use c still in \<open>auto intro: creatable_still\<close>)
qed

lemma creatable_allocate:
  "holds (creatable G K i j) (allocate n tid active name ttl maxBytes now)"
proof (induction n)
  case (Suc n)
  have create: "holds (creatable G K i j) (repo_CreateDropPointWithinQuota dp active now)"
    if "New \<lparr>cr_ID = a, cr_APITokenID = b, cr_ClientName = c, cr_DisplayName = d, cr_DropTokenHash = e,
      cr_PickupTokenHash = f, cr_TTL = g, cr_MaxBytes = h, cr_MaxPendingSubmissions = k,
      cr_MaxPendingBytes = wrap64 l\<rparr> now = Inr dp" for dp a b c d e f g h k l
  proof -
    have "dp_MaxPendingBytes dp = wrap64 l" using that by (auto simp: New_def split: if_splits)
    with New_wf [OF that] show ?thesis
      unfolding repo_CreateDropPointWithinQuota_def
      by (intro holds_rules creatable_prims insert_creatable) (auto simp: wrap64_int64)
  qed
  show ?case
    unfolding allocate.simps generateDropPointSecrets_def
    by (intro holds_rules creatable_prims creatable_name create Suc.IH; assumption)
qed (simp add: holds_return)

lemma storage_create:
  "triple (\<lambda>w. stored G K i j w \<and> (K \<longrightarrow> has_row i w)) (HandleCreateDropPoint deps r)
     (\<lambda>_. stored G K i j)"
proof -
  have "holds (creatable G K i j) (HandleCreateDropPoint deps r)"
    unfolding HandleCreateDropPoint_def authenticateAPIToken_def
      repo_FindEnabledAPITokenBySecretHash_def createDropPoint_def
    by (intro holds_rules creatable_prims creatable_allocate)
  then show ?thesis by (rule triple_weaken) (auto simp: creatable_def)
qed

section \<open>The data directory and the operator's commands\<close>

definition no_loss :: "world \<Rightarrow> world \<Rightarrow> bool" where
  "no_loss w w' \<longleftrightarrow>
     w_db w' = w_db w \<and> (\<forall>q n. fs_get (w_fs w) q = Some n \<longrightarrow> fs_get (w_fs w') q = Some n)"

interpretation loss: io_frame no_loss
  by unfold_locales (auto simp: no_loss_def)

lemma data_dir_no_loss: "keeps no_loss (EnsureDataDir dir)"
proof -
  have mkdir: "keeps no_loss (fs_exec (os_MkdirAll p))" for p
  proof (rule loss.keeps_fs)
    fix w :: world and r t assume m: "os_MkdirAll p (w_fs w) = (r, t)"
    let ?ps = "map (\<lambda>n. take (Suc n) p) [0..<length p]"
    have "\<forall>q \<in> set ?ps. q \<noteq> []" by (intro ballI) (rule prefixes_nonempty)
    from mkdirs_change [OF this, of "w_fs w"] m show "no_loss w (w\<lparr>w_fs := t\<rparr>)"
      by (auto simp: no_loss_def os_MkdirAll_def) (metis option.distinct(1) snd_conv)
  qed
  have chmod: "keeps no_loss (fs_exec (os_Chmod p))" for p
    by (rule loss.keeps_fs) (auto simp: no_loss_def os_Chmod_def split: if_splits)
  show ?thesis
    unfolding EnsureDataDir_def ensureDirectory_def
    by (intro loss.keeps_prims keeps_cases mkdir chmod)
qed

lemma stored_no_loss: "stored G K i j w \<Longrightarrow> no_loss w w' \<Longrightarrow> stored G K i j w'"
proof -
  assume s: "stored G K i j w" and n: "no_loss w w'"
  have "row_stored G i j q (w_fs w')" if "row_stored G i j q (w_fs w)" for q
    using that n unfolding row_stored_def no_loss_def by blast
  with s n show "stored G K i j w'" by (simp add: stored_def no_loss_def)
qed

lemma storage_data_dir: "storage_holds G K i j (EnsureDataDir dir)"
  by (rule triple_keeps [OF data_dir_no_loss]) (rule stored_no_loss)

lemma storage_tokens:
  "storage_holds G K i j (repo_AddAPIToken p)"
  "storage_holds G K i j (repo_DisableAPIToken a now)"
  "storage_holds G K i j (repo_RemoveAPIToken a)"
  unfolding repo_AddAPIToken_def repo_DisableAPIToken_def repo_RemoveAPIToken_def exec_on_token_def
  by (intro holds_rules storage.reads exec_statements exec_add_token; assumption?)+

section \<open>The invariants\<close>

interpretation live: relay_invariant "stored (\<lambda>_ _. True) False i j" "\<lambda>_. True" for i j
  by unfold_locales
    (auto intro: stored_still storage_read_handlers storage_pickup storage_acknowledge storage_close
      storage_submit storage.Q_Expire storage.Q_Reconcile storage_data_dir storage_tokens
      triple_weaken [OF storage_create])

interpretation committed: relay_invariant "stored G True i j" "has_row i" for G i j
  by unfold_locales
    (auto intro: stored_still storage_read_handlers storage_pickup storage_acknowledge storage_close
      storage_submit storage.Q_Expire storage.Q_Reconcile storage_data_dir storage_tokens
      triple_weaken [OF storage_create])

lemma new_relay_stored: "new_relay w \<Longrightarrow> stored G False i j w"
  by (auto simp: new_relay_def stored_def hot_def)

lemma reachable_stored: "reachable w \<Longrightarrow> stored (\<lambda>_ _. True) False i j w"
  by (auto simp: reachable_def intro: live.Q_path new_relay_stored)

lemma reachable_inv: "reachable w \<Longrightarrow> db_inv (w_db w)"
  using reachable_stored [of w] by (simp add: stored_def)

end
