(* ===== verification/Relay_Pickup.thy ===== *)
theory Relay_Pickup
  imports Relay_Storage
begin

text \<open>
  Reading a stored submission back: what the storage invariant gives the two reads of a pickup, the
  whole pickup without faults, and the same through the router.
\<close>

section \<open>The stored files of a ready submission\<close>

lemma submission_at_row:
  "submission_at d i j = Some s \<Longrightarrow> \<exists>q \<in> set (submissions d). sr_key q = (i, j) \<and> s = submission_of_row q"
  by (auto simp: submission_at_def dest!: find_SomeD)

lemma drop_point_at_row:
  "drop_point_at d i = Some dp \<Longrightarrow> \<exists>r \<in> set (drop_points d). dpr_id r = i \<and> dp = drop_point_of_row r"
  by (auto simp: drop_point_at_def dest!: find_SomeD)

definition available ::
    "(go_string \<Rightarrow> go_string \<Rightarrow> bool) \<Rightarrow> go_string \<Rightarrow> go_string \<Rightarrow> submission \<Rightarrow> fs \<Rightarrow> bool" where
  "available G i j s t \<longleftrightarrow>
     validateDropPointID i = None \<and> ValidSubmissionID j
     \<and> sub_EnvelopePath s \<noteq> [] \<and> sub_PayloadPath s \<noteq> []
     \<and> Path (sub_EnvelopePath s) = Inr (submissionDir i j @ [EnvelopeFileName])
     \<and> Path (sub_PayloadPath s) = Inr (submissionDir i j @ [PayloadFileName])
     \<and> (\<exists>env data. G env data \<and> (\<exists>e. ValidateEnvelopeJSON env = Inr e)
          \<and> sub_EncryptedSize s = int (length data)
          \<and> fs_get t (submissionDir i j @ [EnvelopeFileName]) = Some (File env)
          \<and> fs_get t (submissionDir i j @ [PayloadFileName]) = Some (File data))"

lemma row_stored_available: "row_stored G i j q t \<Longrightarrow> available G i j (submission_of_row q) t"
  using stored_paths [of i j]
  by (auto simp: row_stored_def available_def submission_of_row_def string_of_null_def)
    (auto simp: stored_result_def blob_names)

lemma stored_available:
  assumes "stored G K i j w" "submission_at (w_db w) i j = Some s" "sub_Status s = SubmissionStatusReady"
    and "drop_point_at (w_db w) i = Some dp" "dp_Status dp = StatusOpen"
  shows "available G i j s (w_fs w)"
proof -
  obtain q where q: "q \<in> set (submissions (w_db w))" "sr_key q = (i, j)" "s = submission_of_row q"
    using submission_at_row [OF assms(2)] by blast
  obtain r where "r \<in> set (drop_points (w_db w))" "dpr_id r = i" "dp = drop_point_of_row r"
    using drop_point_at_row [OF assms(4)] by blast
  with q assms(3,5) have "hot i j (w_db w) q"
    by (auto simp: hot_def submission_of_row_def drop_point_of_row_def)
  with assms(1) q show ?thesis by (auto simp: stored_def intro: row_stored_available)
qed

section \<open>A pickup without faults\<close>

lemma available_reads:
  assumes "available G i j s (w_fs w)" "w_faults w = []"
  shows "\<exists>env data e. G env data \<and> ValidateEnvelopeJSON env = Inr e
    \<and> sub_EncryptedSize s = int (length data)
    \<and> run_state (ReadEnvelope (sub_EnvelopePath s)) w = (Inr env, w)
    \<and> run_state (OpenPayload (sub_PayloadPath s)) w = (Inr (data, int (length data)), w)"
  using assms by (auto simp: available_def ReadEnvelope_def OpenPayload_def no_fault os_ReadFile_def)

lemma now_io_still: "run_state now_io w = (now, w') \<Longrightarrow> w_db w' = w_db w \<and> w_fs w' = w_fs w \<and> w_faults w' = w_faults w"
  by (auto simp: now_io_def split: list.splits)

lemma mark_picked_up_run:
  assumes "w_faults w = []"
  shows "\<exists>r w'. run_state (repo_MarkSubmissionPickedUp i j now) w = (r, w')"
  by fastforce

lemma pickup_run:
  assumes quiet: "w_faults w = []" and s: "stored G K i j w"
    and sub: "submission_at (w_db w) i j = Some s" "sub_Status s = SubmissionStatusReady"
    and dp: "drop_point_at (w_db w) i = Some dp" "dp_Status dp = StatusOpen"
      "fst (run_state now_io w) < dp_ExpiresAt dp"
    and tok: "bearerToken (rq_Authorization r) = Some secret" "verifySecretHash secret (dp_PickupTokenHash dp)"
    and deps: "dep_Repository deps" "dep_BlobStore deps" and get: "rq_Method r \<noteq> MethodHead"
  shows "\<exists>env data. G env data \<and> (\<exists>e. ValidateEnvelopeJSON env = Inr e)
    \<and> sub_EncryptedSize s = int (length data)
    \<and> fst (run_state (HandlePickupSubmission deps r i j) w) = multipart_response (PickupBody env data)"
proof -
  have inv: "db_inv (w_db w)" using s by (simp add: stored_def)
  obtain now w1 where now: "run_state now_io w = (now, w1)" by fastforce
  note w1 = now_io_still [OF now]
  have av: "available G i j s (w_fs w1)" using stored_available [OF s sub dp(1,2)] w1 by simp
  then have valid: "i \<noteq> []" "ValidSubmissionID j"
    by (auto simp: available_def validateDropPointID_def)
  have auth: "run_state (repo_AuthorizePickupToken i (HashSecret secret) now) w1 = (Inr dp, w1)"
    using quiet w1 dp tok inv now
    by (auto simp: repo_AuthorizePickupToken_def find_by_id_run expire_if_elapsed_def Expire_def
        verifySecretHash_def EqualHash_def split: if_splits)
  have find: "run_state (repo_FindSubmission i j) w1 = (Inr s, w1)"
    using quiet w1 inv sub by (simp add: find_submission_run)
  obtain env data e where reads: "G env data" "ValidateEnvelopeJSON env = Inr e"
    "sub_EncryptedSize s = int (length data)"
    "run_state (ReadEnvelope (sub_EnvelopePath s)) w1 = (Inr env, w1)"
    "run_state (OpenPayload (sub_PayloadPath s)) w1 = (Inr (data, int (length data)), w1)"
    using available_reads [OF av] quiet w1 by auto
  have sent: "run_state writePickupMultipart w1 = (Inr (), w1)"
    using quiet w1 by (simp add: writePickupMultipart_def no_fault)
  have paths: "sub_EnvelopePath s \<noteq> []" "sub_PayloadPath s \<noteq> []" using av by (auto simp: available_def)
  have "fst (run_state (HandlePickupSubmission deps r i j) w) = multipart_response (PickupBody env data)"
    using deps tok(1) valid now auth find sub(2) paths reads sent get dp(2)
    by (simp add: HandlePickupSubmission_def authorized_open_def authorized_def authorizePickup_def
        requireOpenDropPoint_def send_submission_def split: prod.splits)
  with reads show ?thesis by blast
qed

section \<open>Through the router\<close>

lemma routed:
  assumes "find_route (routes deps) r = Some (pattern, m)" "rq_Method r \<noteq> MethodOptions"
    and "run_state m w = (resp, w')"
  shows "\<exists>h. run_state (NewRouterWithDependencies deps r) w =
    ((with_header h resp,
      \<lparr>al_Method = rq_Method r, al_Path = requestLogPath pattern r,
       al_Status = recorder_Status (recorder_WriteHeader (rs_Status resp) \<lparr>rec_status = 0, rec_bytes = 0\<rparr>)\<rparr>),
     w')"
  using assms
  by (auto simp: NewRouterWithDependencies_def LogRequests_def SetNoSniff_def ApplyCORS_def Let_def
      serve_mux_def with_header_def intro!: exI [of _ "[NoSniff] @ cors_header a b" for a b])

end
