(* ===== verification/Relay_Upload.thy ===== *)
theory Relay_Upload
  imports Relay_Pickup
begin

text \<open>
  What a successful upload has stored: the bytes of the request. The invariant of the upload is that
  the row under its key, if there is one, is still being received; it holds until the commit has
  taken effect, whatever the commit reports.
\<close>

definition fresh :: "go_string \<Rightarrow> go_string \<Rightarrow> world \<Rightarrow> bool" where
  "fresh i j w \<longleftrightarrow>
     db_inv (w_db w)
     \<and> (\<forall>q \<in> set (submissions (w_db w)). sr_key q = (i, j) \<longrightarrow> sr_status q = SubmissionStatusReceiving)"

text \<open>The envelope and the payload a request carries.\<close>

definition uploaded :: "dependencies \<Rightarrow> request \<Rightarrow> int \<Rightarrow> go_string \<Rightarrow> go_string \<Rightarrow> bool" where
  "uploaded deps r limit env data \<longleftrightarrow>
     (\<exists>events. multipartDropParts (dep_ParseMediaType deps) r limit = Inr (env, events)
        \<and> stream_data events = Some data)"

lemma fresh_still: "fresh i j w \<Longrightarrow> w_db w' = w_db w \<Longrightarrow> fresh i j w'"
  by (simp add: fresh_def)

lemma fresh_idle: "fresh i j w \<Longrightarrow> idle False i j w"
  by (auto simp: fresh_def idle_def hot_def)

lemma fresh_neutral:
  "keeps (\<lambda>w w'. w_db w' = w_db w \<and> w_fs w' = w_fs w) m \<Longrightarrow> holds (fresh i j) m"
  by (erule triple_keeps) (blast intro: fresh_still)

lemma fresh_prims:
  "holds (fresh i j) (sql_query q)" "holds (fresh i j) now_io" "holds (fresh i j) (rows_affected n)"
  by (rule fresh_neutral, rule still.keeps_prims)+

lemma fresh_exec:
  assumes "\<And>d n d'. stmt d = Inr (n, d') \<Longrightarrow> db_step d d'"
    and "\<And>d n d'. stmt d = Inr (n, d') \<Longrightarrow> \<forall>q \<in> set (submissions d'). q \<in> set (submissions d)
      \<or> sr_status q = SubmissionStatusReceiving"
  shows "holds (fresh i j) (sql_exec stmt)"
proof (rule tripleI)
  fix w x w' assume f: "fresh i j w" and run: "run_state (sql_exec stmt) w = (x, w')"
  note still = sql_exec_still [OF run]
  show "fresh i j w'"
  proof (cases "w_db w' = w_db w")
    case False
    with still obtain y where y: "stmt (w_db w) = Inr (y, w_db w')" by blast
    from f have "db_inv (w_db w')" using db_step_inv assms(1) [OF y] by (auto simp: fresh_def)
    with f assms(2) [OF y] show ?thesis unfolding fresh_def by blast
  qed (use f in \<open>auto intro: fresh_still\<close>)
qed

lemma fresh_begin: "holds (fresh i j) (repo_BeginSubmission a b now)"
proof -
  have "holds (fresh i j) (sql_exec (stmt_begin a b now))"
    by (rule fresh_exec, erule db_step.step_begin)
      (auto simp: stmt_begin_def new_submission_row_def split: option.splits if_splits)
  moreover have "holds (fresh i j) (repo_markExpired a)"
    unfolding repo_markExpired_def
    by (intro holds_rules fresh_exec, erule db_step.step_mark_expired)
      (auto simp: stmt_mark_expired_def update_drop_points_def)
  ultimately show ?thesis
    unfolding repo_BeginSubmission_def repo_FindDropPointByID_def repo_FindSubmission_def
    by (intro holds_rules fresh_prims)
qed

lemma fresh_find:
  "triple (fresh i j) (repo_FindSubmission i j)
     (\<lambda>x w. fresh i j w \<and> (\<forall>s. x = Inr s \<longrightarrow> sub_Status s = SubmissionStatusReceiving))"
proof -
  have "holds (fresh i j) (repo_FindSubmission i j)"
    unfolding repo_FindSubmission_def by (intro holds_rules fresh_prims)
  from triple_real [OF this real_find_submission] show ?thesis
    by (rule triple_weaken) (auto simp: fresh_def submission_of_row_def)
qed

section \<open>No success is reported for what was taken back\<close>

abbreviation not_submitted :: "response \<Rightarrow> bool" where
  "not_submitted resp \<equiv> \<forall>j st. rs_Body resp \<noteq> SubmitBody j st"

lemma errors_not_submitted:
  "not_submitted (writeError st c m)" "not_submitted (writeStorageFailure e)"
  "not_submitted (writeSubmissionStorageFailure e)" "not_submitted (writeMultipartDropError e)"
  "not_submitted (writeDropAuthError e)" "not_submitted (writeSubmissionUnavailable e)"
  by (auto simp: error_response_defs response_defs split: failure_class.splits)

lemma taken_back:
  "triple P (fail_submit a b e st) (\<lambda>resp _. not_submitted resp)"
  "triple P (take_back a b e) (\<lambda>resp _. not_submitted resp)"
proof -
  have any: "triple P m (\<lambda>_ _. True)" for m :: "unit result io" by (simp add: triple_def)
  show "triple P (fail_submit a b e st) (\<lambda>resp _. not_submitted resp)"
    unfolding fail_submit_def
    by (rule triple_bind [OF any], rule triple_return)
      (auto simp: errors_not_submitted split: sum.splits)
  show "triple P (take_back a b e) (\<lambda>resp _. not_submitted resp)"
    unfolding take_back_def
    by (rule triple_bind [OF any], rule triple_return)
      (auto simp: errors_not_submitted split: sum.splits)
qed

section \<open>The upload\<close>

definition success_stores ::
    "(go_string \<Rightarrow> go_string \<Rightarrow> bool) \<Rightarrow> go_string \<Rightarrow> go_string \<Rightarrow> response \<Rightarrow> world \<Rightarrow> bool" where
  "success_stores G i j resp w \<longleftrightarrow>
     (rs_Body resp = SubmitBody j SubmissionStatusReady \<longrightarrow> stored G True i j w)"

lemma taken_back_stores:
  "triple P (fail_submit a b e st) (success_stores G i j)"
  "triple P (take_back a b e) (success_stores G i j)"
  by (rule triple_weaken [OF taken_back(1)], simp, simp add: success_stores_def)
    (rule triple_weaken [OF taken_back(2)], simp, simp add: success_stores_def)

lemma resolve_stores:
  "triple (\<lambda>w. stored G True i j w \<or> fresh i j w) (resolve_commit i j e) (success_stores G i j)"
proof -
  have find: "triple (\<lambda>w. stored G True i j w \<or> fresh i j w) (repo_FindSubmission i j)
    (\<lambda>x w. stored G True i j w
      \<or> fresh i j w \<and> (\<forall>s. x = Inr s \<longrightarrow> sub_Status s = SubmissionStatusReceiving))"
    using storage_lookups(2) [of G True i j i j] fresh_find [of i j] unfolding triple_def by blast
  show ?thesis
    unfolding resolve_commit_def
    by (rule triple_bind [OF find], intro triple_sum triple_if taken_back_stores triple_return)
      (auto simp: success_stores_def errors_not_submitted)
qed

lemma receive_stores:
  assumes lim: "dropRequestSizeLimit (dp_MaxBytes dp) = Inr lim" and i: "dp_ID dp = i"
  shows "triple (fresh i j) (receive_submission deps r dp j lim)
    (success_stores (uploaded deps r lim) i j)"
proof -
  let ?G = "uploaded deps r lim"
  have int64: "is_int64 (dp_MaxBytes dp)"
    using lim by (auto simp: dropRequestSizeLimit_def framingBytes_def is_int64_def split: if_splits)
  have blob: "holds (fresh i j) (WriteSubmission a b env events m)" for a b env events m
    by (rule triple_keeps [OF keeps_WriteSubmission]) (auto simp: blob_frame_def intro: fresh_still)
  have put: "triple (fresh i j) (WriteSubmission i j env events (dp_MaxBytes dp))
      (\<lambda>x w. fresh i j w \<and> (\<forall>st. x = Inr st \<longrightarrow> placed i j env events st (w_fs w)))" for env events
    by (rule triple_real [OF blob real_write [OF int64]])
  have clock: "holds (\<lambda>w. fresh i j w \<and> placed i j env events st (w_fs w)) now_io" for env events st
    by (rule triple_keeps [OF still.keeps_prims(7)]) (auto intro: fresh_still)
  have commit: "triple (\<lambda>w. fresh i j w \<and> placed i j env events st (w_fs w))
      (repo_CommitSubmission i j st now)
      (\<lambda>x w. (x = Inr () \<longrightarrow> stored ?G True i j w) \<and> (stored ?G True i j w \<or> fresh i j w))"
    if parts: "multipartDropParts (dep_ParseMediaType deps) r lim = Inr (env, events)"
      "\<exists>e. ValidateEnvelopeJSON env = Inr e" for env events st now
  proof (rule tripleI)
    fix w x w' assume P: "fresh i j w \<and> placed i j env events st (w_fs w)"
      and run: "run_state (repo_CommitSubmission i j st now) w = (x, w')"
    show "(x = Inr () \<longrightarrow> stored ?G True i j w') \<and> (stored ?G True i j w' \<or> fresh i j w')"
    proof (cases "cs_EnvelopePath st = [] \<or> cs_PayloadPath st = [] \<or> cs_EncryptedSize st < 0")
      case True
      with run P show ?thesis by (auto simp: repo_CommitSubmission_def)
    next
      case False
      with run have run: "run_state (sql_exec (tx_commit i j st now)) w = (x, w')"
        by (simp add: repo_CommitSubmission_def)
      note still = sql_exec_still [OF run]
      have ok: "stored ?G True i j w'" if "tx_commit i j st now (w_db w) = Inr (y, w_db w')" for y
        using P that still parts
        by (intro commit_stored [OF fresh_idle]) (auto simp: uploaded_def)
      from still P ok show ?thesis
        using sql_exec_Inr [of "tx_commit i j st now" w "()" w'] run by (auto intro: fresh_still)
    qed
  qed
  have fallback: "triple P (fail_submit (dp_ID dp) j e st) (success_stores ?G i j)" for P e st
    by (rule taken_back_stores)
  show ?thesis
    unfolding receive_submission_def i
  proof (intro triple_sum triple_prod fallback [unfolded i] triple_bind [OF put], goal_cases)
    case (1 v env events e x st)
    have "triple (\<lambda>w. fresh i j w \<and> placed i j env events st (w_fs w)) (do {
        now \<leftarrow> now_io;
        c \<leftarrow> repo_CommitSubmission i j st now;
        case c of
          Inl commitErr \<Rightarrow> resolve_commit i j commitErr
        | Inr _ \<Rightarrow> State_Monad.return (submitted j SubmissionStatusReady)}) (success_stores ?G i j)"
    proof (rule triple_bind [OF clock], rule triple_bind [OF commit], goal_cases)
      case (3 now c)
      show ?case
        by (intro triple_sum triple_return triple_weaken [OF resolve_stores])
          (auto simp: success_stores_def)
    qed (use 1 in auto)
    then show ?case by (rule triple_weaken) (use 1 in auto)
  qed
qed

text \<open>Two drop points with the same drop token are the same.\<close>

lemma drop_token_unique:
  assumes inv: "db_inv d" and dp: "drop_point_at d i = Some dp" "drop_point_at d i' = Some dp'"
    and tok: "dp_DropTokenHash dp = dp_DropTokenHash dp'"
  shows "dp = dp'"
proof -
  obtain q q' where q: "q \<in> set (drop_points d)" "q' \<in> set (drop_points d)"
    "dp = drop_point_of_row q" "dp' = drop_point_of_row q'"
    using drop_point_at_row [OF dp(1)] drop_point_at_row [OF dp(2)] by blast
  moreover have "dpr_drop_token_hash q = dpr_drop_token_hash q'"
    using q tok by (simp add: drop_point_of_row_def)
  moreover have "distinct (map dpr_drop_token_hash (drop_points d))"
    using inv by (simp add: db_inv_def keys_inv_def)
  ultimately show ?thesis using distinct_key_unique by metis
qed

lemma submit_stores:
  assumes inv: "db_inv (w_db w)"
    and dp: "drop_point_at (w_db w) i = Some dp" "dp_DropTokenHash dp = HashSecret tok"
    and absent: "submission_at (w_db w) i j = None"
    and run: "run_state (HandleSubmitDrop deps r tok j) w = (resp, w')"
    and ok: "rs_Body resp = SubmitBody j SubmissionStatusReady"
  shows "\<exists>lim. dropRequestSizeLimit (dp_MaxBytes dp) = Inr lim
    \<and> stored (uploaded deps r lim) True i j w'"
proof -
  have fresh: "fresh i j w"
    using inv absent by (auto simp: fresh_def submission_at_def find_None_iff)
  obtain now w1 where now: "run_state now_io w = (now, w1)" by fastforce
  note w1 = now_io_still [OF now]
  obtain f w2 where f: "run_state (repo_FindOpenDropPointByDropTokenHash (HashSecret tok) now) w1 = (f, w2)"
    by fastforce
  obtain dp' where dp': "f = Inr dp'"
    using run ok now f errors_not_submitted
    by (cases f) (auto simp: HandleSubmitDrop_def split: if_splits)
  from open_lookup [OF _ f [unfolded dp']] inv w1
  have dp'': "drop_point_at (w_db w) (dp_ID dp') = Some dp'" "dp_DropTokenHash dp' = HashSecret tok"
    and w2: "w_db w2 = w_db w" "w_fs w2 = w_fs w" by auto
  have same: "dp' = dp" by (rule drop_token_unique [OF inv dp''(1) dp(1)]) (simp add: dp''(2) dp(2))
  have i: "dp_ID dp = i" using drop_point_at_wf [OF inv dp(1)] by simp
  obtain lim where lim: "dropRequestSizeLimit (dp_MaxBytes dp) = Inr lim"
    using run ok now f dp' same errors_not_submitted
    by (cases "dropRequestSizeLimit (dp_MaxBytes dp)")
      (auto simp: HandleSubmitDrop_def split: if_splits)
  let ?S = "success_stores (uploaded deps r lim) i j"
  have existing: "triple (fresh i j) (submitExistingSubmission i j) ?S"
    unfolding submitExistingSubmission_def
    by (rule triple_bind [OF fresh_find], rule triple_return)
      (auto simp: success_stores_def errors_not_submitted submitted_def response_defs
        split: sum.splits)
  have rest: "triple (fresh i j) (do {
        b \<leftarrow> repo_BeginSubmission i j now;
        case b of
          Inl err \<Rightarrow>
            if errors_is err ErrSubmissionAlreadyExists then submitExistingSubmission i j
            else State_Monad.return (writeDropAuthError err)
        | Inr _ \<Rightarrow> receive_submission deps r dp j lim}) ?S"
    by (intro triple_bind [OF fresh_begin] triple_sum triple_if existing triple_return
        receive_stores [OF lim i])
      (simp add: success_stores_def errors_not_submitted)
  have "run_state (do {
        b \<leftarrow> repo_BeginSubmission i j now;
        case b of
          Inl err \<Rightarrow>
            if errors_is err ErrSubmissionAlreadyExists then submitExistingSubmission i j
            else State_Monad.return (writeDropAuthError err)
        | Inr _ \<Rightarrow> receive_submission deps r dp j lim}) w2 = (resp, w')"
    using run now f dp' same i lim ok
    by (auto simp: HandleSubmitDrop_def errors_not_submitted split: if_splits)
  from tripleD [OF rest _ this] fresh w2 ok have "stored (uploaded deps r lim) True i j w'"
    by (auto simp: success_stores_def intro: fresh_still)
  with lim show ?thesis by blast
qed

end
