(* ===== verification/Relay_Accept.thy ===== *)
theory Relay_Accept
  imports Relay_Upload
begin

text \<open>
  Progress: without faults a valid upload within the limits is accepted, and a submission that is
  ready is handed out.
\<close>

section \<open>The clock\<close>

text \<open>The \<open>n\<close>-th reading of the clock from now on.\<close>

definition clock_after :: "nat \<Rightarrow> world \<Rightarrow> time" where
  "clock_after n w = w_now w + int (sum_list (take n (w_ticks w)))"

lemma now_io_run:
  "run_state now_io w =
     (clock_after 1 w, w\<lparr>w_now := clock_after 1 w, w_ticks := drop 1 (w_ticks w)\<rparr>)"
  by (cases "w_ticks w") (simp_all add: now_io_def clock_after_def)

lemma clock_after_next:
  "clock_after 1 (w\<lparr>w_now := clock_after 1 w, w_ticks := drop 1 (w_ticks w)\<rparr>) = clock_after 2 w"
  by (cases "w_ticks w") (simp_all add: clock_after_def numeral_2_eq_2)

lemma clock_after_cong: "w_now w' = w_now w \<Longrightarrow> w_ticks w' = w_ticks w \<Longrightarrow> clock_after n w' = clock_after n w"
  by (simp add: clock_after_def)

lemma clock_mono: "m \<le> n \<Longrightarrow> clock_after m w \<le> clock_after n w"
proof -
  assume "m \<le> n"
  then have "take n (w_ticks w) = take m (w_ticks w) @ take (n - m) (drop m (w_ticks w))"
    by (metis le_add_diff_inverse take_add)
  then show ?thesis by (simp add: clock_after_def)
qed

section \<open>Lookups without faults\<close>

lemma find_open_run:
  assumes "w_faults w = []" "db_inv (w_db w)" "drop_point_at (w_db w) i = Some dp"
    "dp_DropTokenHash dp = h" "dp_Status dp = StatusOpen" "now < dp_ExpiresAt dp"
  shows "run_state (repo_FindOpenDropPointByDropTokenHash h now) w = (Inr dp, w)"
proof -
  obtain q where q: "q \<in> set (drop_points (w_db w))" "dpr_id q = i" "dp = drop_point_of_row q"
    using drop_point_at_row [OF assms(3)] by blast
  have hash: "dpr_drop_token_hash q = h" using assms(4) q by (simp add: drop_point_of_row_def)
  have "find (\<lambda>r. dpr_drop_token_hash r = dpr_drop_token_hash q) (drop_points (w_db w)) = Some q"
    by (rule find_key_unique [OF _ q(1)]) (use assms(2) in \<open>simp add: db_inv_def keys_inv_def\<close>)
  moreover have "scanDropPoint q = Inr dp"
    using assms(2) q by (auto simp: db_inv_def rows_inv_def dpr_wf_def intro: scanDropPoint_wf)
  ultimately have "query_drop_point (\<lambda>r. dpr_drop_token_hash r = h) (w_db w) = Inr dp"
    by (simp add: query_drop_point_def hash)
  moreover have "RequireOpen dp now = None" using assms by (simp add: RequireOpen_None)
  ultimately show ?thesis
    using assms
    by (simp add: repo_FindOpenDropPointByDropTokenHash_def repo_FindDropPointByDropTokenHash_def
        no_fault expire_if_elapsed_def)
qed

lemma begin_run:
  assumes "w_faults w = []" "db_inv (w_db w)" "drop_point_at (w_db w) i = Some dp"
    "dp_Status dp = StatusOpen" "now < dp_ExpiresAt dp" "submission_at (w_db w) i j = None"
    "int (pending_count (w_db w) i) < dp_MaxPendingSubmissions dp"
  shows "run_state (repo_BeginSubmission i j now) w =
    (Inr (), w\<lparr>w_db := (w_db w)\<lparr>submissions := submissions (w_db w) @ [new_submission_row i j now]\<rparr>\<rparr>)"
  using assms by (simp add: repo_BeginSubmission_def no_fault stmt_begin_at RequireOpen_None)

section \<open>An upload\<close>

text \<open>What is on disk where the upload will go: nothing, and no file in place of a directory.\<close>

definition clear_place :: "go_string \<Rightarrow> go_string \<Rightarrow> fs \<Rightarrow> bool" where
  "clear_place i j t \<longleftrightarrow>
     (\<forall>p \<in> {[DropPointsDirName], dropDir i}. \<forall>bs. fs_get t p \<noteq> Some (File bs))
     \<and> (\<forall>q. below (submissionDir i j) q \<longrightarrow> fs_get t q = None)"

lemma new_row_at:
  assumes "submission_at d i j = None"
  shows "submission_at (d\<lparr>submissions := submissions d @ [new_submission_row i j now]\<rparr>) i j
      = Some (submission_of_row (new_submission_row i j now))"
    "drop_point_at (d\<lparr>submissions := submissions d @ [new_submission_row i j now]\<rparr>) = drop_point_at d"
    "ready_bytes (d\<lparr>submissions := submissions d @ [new_submission_row i j now]\<rparr>) i = ready_bytes d i"
proof -
  have "sr_key (new_submission_row i j now) = (i, j)" by (simp add: new_submission_row_def sr_key_def)
  then show "submission_at (d\<lparr>submissions := submissions d @ [new_submission_row i j now]\<rparr>) i j
      = Some (submission_of_row (new_submission_row i j now))"
    using assms by (simp add: submission_at_def find_append)
  show "drop_point_at (d\<lparr>submissions := submissions d @ [new_submission_row i j now]\<rparr>) = drop_point_at d"
    by (simp add: fun_eq_iff drop_point_at_def)
  show "ready_bytes (d\<lparr>submissions := submissions d @ [new_submission_row i j now]\<rparr>) i = ready_bytes d i"
    by (simp add: ready_bytes_def sum_where_append sum_where_Cons new_submission_row_def)
qed

lemma submit_accepted:
  assumes quiet: "w_faults w = []" "16 \<le> length (w_entropy w)"
    and inv: "db_inv (w_db w)"
    and dp: "drop_point_at (w_db w) i = Some dp" "dp_DropTokenHash dp = HashSecret tok"
      "dp_Status dp = StatusOpen" "clock_after 2 w < dp_ExpiresAt dp"
    and ids: "validateDropPointID i = None" "ValidSubmissionID j" "submission_at (w_db w) i j = None"
    and room: "int (pending_count (w_db w) i) < dp_MaxPendingSubmissions dp"
      "ready_bytes (w_db w) i + int (length data) \<le> dp_MaxPendingBytes dp"
    and lim: "dropRequestSizeLimit (dp_MaxBytes dp) = Inr lim"
    and parts: "multipartDropParts (dep_ParseMediaType deps) r lim = Inr (env, events)"
      "ValidateEnvelopeJSON env = Inr e" "copy_spec events (dp_MaxBytes dp) = Inr data"
    and place: "clear_place i j (w_fs w)"
    and deps: "dep_Repository deps" "dep_BlobStore deps"
  shows "\<exists>w' s. run_state (HandleSubmitDrop deps r tok j) w = (submitted j SubmissionStatusReady, w')
    \<and> submission_at (w_db w') i j = Some s \<and> sub_Status s = SubmissionStatusReady
    \<and> sub_EncryptedSize s = int (length data) \<and> drop_point_at (w_db w') = drop_point_at (w_db w)
    \<and> w_faults w' = [] \<and> w_ticks w' = drop 2 (w_ticks w) \<and> w_now w' = clock_after 2 w
    \<and> fs_frame (submissionDir i j) (w_fs w) (w_fs w')"
proof -
  let ?now = "clock_after 1 w"
  let ?d1 = "(w_db w)\<lparr>submissions := submissions (w_db w) @ [new_submission_row i j ?now]\<rparr>"
  have i: "dp_ID dp = i" using drop_point_at_wf [OF inv dp(1)] by simp
  let ?w1 = "w\<lparr>w_now := ?now, w_ticks := drop 1 (w_ticks w)\<rparr>"
  have now1: "run_state now_io w = (?now, ?w1)" by (rule now_io_run)
  have early: "?now < dp_ExpiresAt dp" using dp(4) clock_mono [of 1 2 w] by simp
  have found: "run_state (repo_FindOpenDropPointByDropTokenHash (HashSecret tok) ?now) ?w1 = (Inr dp, ?w1)"
    using find_open_run [of ?w1 i dp "HashSecret tok" ?now] quiet inv dp early by simp
  let ?w2 = "?w1\<lparr>w_db := ?d1\<rparr>"
  have begun: "run_state (repo_BeginSubmission i j ?now) ?w1 = (Inr (), ?w2)"
    using begin_run [of ?w1 i dp ?now j] quiet inv dp(1,3) early ids(3) room(1) by simp
  have inv1: "db_inv ?d1"
  proof -
    have "stmt_begin i j ?now (w_db w) = Inr (1, ?d1)"
      using stmt_begin_at [OF inv dp(1)] dp(3) early ids(3) room(1) by (simp add: RequireOpen_None)
    then show ?thesis using inv by (blast intro: db_step_inv db_step.step_begin)
  qed
  have args: "0 < dp_MaxBytes dp" "is_int64 (dp_MaxBytes dp)"
    using lim by (auto simp: dropRequestSizeLimit_def framingBytes_def is_int64_def split: if_splits)
  have env: "env \<noteq> []"
  proof
    assume "env = []"
    moreover have "ValidateEnvelopeJSON [] = Inl ErrEnvelopeInvalid" by code_simp
    ultimately show False using parts(2) by simp
  qed
  obtain x w3 where put: "run_state (WriteSubmission i j env events (dp_MaxBytes dp)) ?w2 = (x, w3)"
    by fastforce
  let ?st = "stored_result i j (int (length data))"
  have x: "x = Inr ?st" and w3: "w3 = ?w2\<lparr>w_fs := w_fs w3, w_entropy := drop 16 (w_entropy w)\<rparr>"
    using WriteSubmission_quiet_world [OF _ _ ids(1,2) args env _ _ put] quiet place parts(3)
    by (simp_all add: clear_place_def)
  from keepsD [OF keeps_WriteSubmission put]
  have frame: "fs_frame (submissionDir i j) (w_fs w) (w_fs w3)" by (simp add: blob_frame_def)
  have "clock_after 1 w3 = clock_after 1 ?w1"
    by (rule clock_after_cong) (subst w3, simp)+
  also have "\<dots> = clock_after 2 w" by (rule clock_after_next)
  finally have c3: "clock_after 1 w3 = clock_after 2 w" .
  let ?w4 = "w3\<lparr>w_now := clock_after 2 w, w_ticks := drop 1 (w_ticks w3)\<rparr>"
  have now2: "run_state now_io w3 = (clock_after 2 w, ?w4)"
    using now_io_run [of w3] by (simp only: c3)
  have w4': "w_db ?w4 = ?d1" "w_faults ?w4 = []" "w_ticks ?w4 = drop 2 (w_ticks w)"
    using arg_cong [OF w3, of w_db] arg_cong [OF w3, of w_faults] arg_cong [OF w3, of w_ticks] quiet
    by (simp_all add: numeral_2_eq_2)
  let ?new = "submission_of_row (new_submission_row i j ?now)"
  have at1: "submission_at ?d1 i j = Some ?new" "drop_point_at ?d1 i = Some dp"
    "ready_bytes ?d1 i = ready_bytes (w_db w) i"
    using new_row_at [OF ids(3)] dp(1) by simp_all
  have new: "sub_Status ?new = SubmissionStatusReceiving"
    by (simp add: submission_of_row_def new_submission_row_def)
  obtain d2 where d2: "tx_commit i j ?st (clock_after 2 w) ?d1 = Inr ((), d2)"
    and upd: "sub_updated ?d1 d2 i j (\<lambda>s. sub_Status s = SubmissionStatusReceiving)
      (\<lambda>s. s\<lparr>sub_Status := SubmissionStatusReady, sub_EnvelopePath := cs_EnvelopePath ?st,
             sub_PayloadPath := cs_PayloadPath ?st,
             sub_EncryptedSize := cs_EncryptedSize ?st, sub_DroppedAt := Some (clock_after 2 w)\<rparr>)"
  proof -
    have "open": "RequireOpen dp (clock_after 2 w) = None" using dp(3,4) by (simp add: RequireOpen_None)
    have small: "\<not> dp_MaxPendingBytes dp < ready_bytes ?d1 i + cs_EncryptedSize ?st"
      unfolding at1(3) using room(2) by (simp add: stored_result_def)
    from tx_commit_at [OF inv1 at1(2,1), where stored = ?st and now = "clock_after 2 w",
        unfolded "open" new option.case if_not_P [OF small]]
    show thesis by (elim exE conjE) (rule that, simp_all)
  qed
  have committed: "run_state (repo_CommitSubmission i j ?st (clock_after 2 w)) ?w4 = (Inr (), ?w4\<lparr>w_db := d2\<rparr>)"
    using w4' d2 by (simp add: repo_CommitSubmission_def no_fault stored_result_def blob_names)
  have "run_state (HandleSubmitDrop deps r tok j) w = (submitted j SubmissionStatusReady, ?w4\<lparr>w_db := d2\<rparr>)"
    using deps ids(2) now1 found lim i begun parts put x now2 committed
    by (simp add: HandleSubmitDrop_def receive_submission_def)
  moreover obtain s where "submission_at d2 i j = Some s" "sub_Status s = SubmissionStatusReady"
    "sub_EncryptedSize s = int (length data)"
    using sub_updated_at [OF upd at1(1)] new by (auto simp: stored_result_def)
  moreover have "drop_point_at d2 = drop_point_at (w_db w)"
    using upd by (simp add: sub_updated_def fun_eq_iff drop_point_at_def)
  ultimately show ?thesis using w4' frame by auto
qed

end
