(* ===== verification/Relay_Reading.thy ===== *)
theory Relay_Reading
  imports Relay_Pickup
begin

text \<open>
  Reading is never destructive: whatever faults occur, a pickup request leaves every ready submission
  of an open drop point ready. Only a stored file that is really missing or damaged makes a pickup
  mark the submission as failed, and the storage invariant excludes that.
\<close>

section \<open>Ready rows\<close>

abbreviation ready :: "go_string \<Rightarrow> go_string \<Rightarrow> world \<Rightarrow> bool" where
  "ready i j w \<equiv> has_status i j SubmissionStatusReady (w_db w)"

lemma ready_exec:
  assumes "\<And>d n d'. stmt d = Inr (n, d') \<Longrightarrow> has_status i j SubmissionStatusReady d \<Longrightarrow>
    has_status i j SubmissionStatusReady d'"
  shows "holds (ready i j) (sql_exec stmt)"
  by (rule tripleI, drule sql_exec_still) (use assms in metis)

lemma ready_update:
  assumes "\<And>s. sr_key (f s) = sr_key s"
    and "\<And>s. P s \<Longrightarrow> sr_key s = (i, j) \<Longrightarrow> sr_status (f s) = sr_status s"
  shows "holds (ready i j) (sql_exec (update_submissions P f))"
proof (rule ready_exec)
  fix d n d' assume "update_submissions P f d = Inr (n, d')" "has_status i j SubmissionStatusReady d"
  then obtain q where q: "q \<in> set (submissions d)" "sr_key q = (i, j)" "sr_status q = SubmissionStatusReady"
    and d': "submissions d' = update_where P f (submissions d)"
    by (auto simp: has_status_def update_submissions_def)
  let ?q = "if P q then f q else q"
  have "?q \<in> set (submissions d')" unfolding d' set_update_where using q(1) by auto
  with q assms show "has_status i j SubmissionStatusReady d'"
    unfolding has_status_def by (intro bexI [of _ ?q]) auto
qed

lemma ready_statements:
  "holds (ready i j) (sql_exec (stmt_mark_expired a))"
  "holds (ready i j) (sql_exec (stmt_mark_picked_up a b now))"
  "(a, b) \<noteq> (i, j) \<Longrightarrow> holds (ready i j) (sql_exec (stmt_fail_submission a b now))"
proof -
  show "holds (ready i j) (sql_exec (stmt_mark_expired a))"
    by (rule ready_exec) (auto simp: stmt_mark_expired_def update_drop_points_def has_status_def)
  show "holds (ready i j) (sql_exec (stmt_mark_picked_up a b now))"
    unfolding stmt_mark_picked_up_def by (rule ready_update) (auto simp: set_picked_up_def sr_key_def)
  show "holds (ready i j) (sql_exec (stmt_fail_submission a b now))" if "(a, b) \<noteq> (i, j)"
    unfolding stmt_fail_submission_def
    by (rule ready_update) (use that in \<open>auto simp: set_submission_failed_def sr_key_def\<close>)
qed

lemma ready_neutral:
  "keeps (\<lambda>w w'. w_db w' = w_db w \<and> w_fs w' = w_fs w) m \<Longrightarrow> holds (ready i j) m"
  by (erule triple_keeps) simp

lemma ready_prims:
  "holds (ready i j) (sql_query q)" "holds (ready i j) may_fail" "holds (ready i j) (rows_affected n)"
  "holds (ready i j) (fs_read g)" "holds (ready i j) now_io"
  by (rule ready_neutral, rule still.keeps_prims)+

lemmas ready_rules = holds_rules ready_prims ready_statements

lemma ready_repo:
  "holds (ready i j) (repo_FindDropPointByID a)"
  "holds (ready i j) (repo_FindSubmission a b)"
  "holds (ready i j) (expire_if_elapsed dp now)"
  "holds (ready i j) (repo_MarkSubmissionPickedUp a b now)"
  "(a, b) \<noteq> (i, j) \<Longrightarrow> holds (ready i j) (repo_FailSubmission a b now)"
  unfolding repo_FindDropPointByID_def repo_FindSubmission_def expire_if_elapsed_def repo_markExpired_def
    repo_MarkSubmissionPickedUp_def repo_FailSubmission_def
  by (intro ready_rules; assumption?)+

lemma ready_send: "holds (ready i j) (send_submission r a b env data)"
  unfolding send_submission_def writePickupMultipart_def by (intro ready_rules ready_repo)

lemma ready_authorize: "holds (ready i j) (authorizePickup deps r a)"
  unfolding authorizePickup_def repo_AuthorizePickupToken_def by (intro ready_rules ready_repo)

lemma ready_reading: "holds (ready i j) (ReadEnvelope p)" "holds (ready i j) (OpenPayload p)"
  unfolding ReadEnvelope_def OpenPayload_def by (intro ready_rules)+

text \<open>A pickup of another submission.\<close>

lemma ready_other:
  assumes "(a, b) \<noteq> (i, j)"
  shows "holds (ready i j) (HandlePickupSubmission deps r a b)"
  unfolding HandlePickupSubmission_def authorized_open_def authorized_def corrupt_def failCorruptSubmission_def
  by (intro ready_rules ready_repo ready_send ready_authorize ready_reading assms)

section \<open>A pickup of the submission itself\<close>

definition is_open :: "go_string \<Rightarrow> db \<Rightarrow> bool" where
  "is_open a d \<longleftrightarrow> (\<exists>q \<in> set (drop_points d). dpr_id q = a \<and> dpr_status q = StatusOpen)"

lemma real_authorize_open:
  "triple (\<lambda>_. True) (repo_AuthorizePickupToken a h now)
     (\<lambda>r w. \<forall>dp. r = Inr dp \<and> dp_Status dp = StatusOpen \<longrightarrow> is_open a (w_db w))"
proof -
  let ?row = "\<lambda>dp w. \<exists>q \<in> set (drop_points (w_db w)). dpr_id q = a \<and> dp = drop_point_of_row q"
  have elapsed: "triple (?row dp) (expire_if_elapsed dp now)
     (\<lambda>r w. \<forall>dp. r = Inr dp \<and> dp_Status dp = StatusOpen \<longrightarrow> is_open a (w_db w))" for dp
  proof (cases "\<not> now < dp_ExpiresAt dp \<and> dp_Status dp = StatusOpen")
    case True
    have "triple (?row dp) (repo_markExpired (dp_ID dp)) (\<lambda>_ _. True)" by (simp add: triple_def)
    then show ?thesis
      unfolding expire_if_elapsed_def if_P [OF True]
      by (rule triple_bind) (rule triple_return, auto split: sum.splits)
  next
    case False
    then show ?thesis
      unfolding expire_if_elapsed_def if_not_P [OF False]
      by (intro triple_return) (auto simp: is_open_def drop_point_of_row_def)
  qed
  show ?thesis
    unfolding repo_AuthorizePickupToken_def
  proof (rule triple_bind [OF real_find_by_id], intro triple_sum triple_if, goal_cases)
    case (3 r dp)
    then show ?case by (intro triple_weaken [OF elapsed]) auto
  qed (auto intro: triple_return)
qed

definition pickable :: "go_string \<Rightarrow> go_string \<Rightarrow> world \<Rightarrow> bool" where
  "pickable i j w \<longleftrightarrow> stored (\<lambda>_ _. True) False i j w \<and> ready i j w"

lemma authorize_open:
  "triple (pickable i j) (authorizePickup deps r i)
     (\<lambda>x w. pickable i j w \<and> (\<forall>dp. x = Inr dp \<and> dp_Status dp = StatusOpen \<longrightarrow> is_open i (w_db w)))"
proof -
  have keep: "holds (pickable i j) (repo_AuthorizePickupToken i h now)" for h now
    unfolding pickable_def
    by (rule triple_conj [OF storage_repo(2)])
      (unfold repo_AuthorizePickupToken_def, intro ready_rules ready_repo)
  have auth: "triple (pickable i j) (repo_AuthorizePickupToken i h now)
     (\<lambda>x w. pickable i j w \<and> (\<forall>dp. x = Inr dp \<and> dp_Status dp = StatusOpen \<longrightarrow> is_open i (w_db w)))" for h now
    by (rule triple_real [OF keep real_authorize_open])
  have clock: "holds (pickable i j) now_io"
    unfolding pickable_def by (rule triple_conj [OF storage.reads(9) ready_prims(5)])
  show ?thesis
    unfolding authorizePickup_def
    by (intro triple_if triple_option triple_return triple_bind [OF clock] triple_bind [OF auth])
      (auto split: sum.splits)
qed

text \<open>From here on the files of the submission are there.\<close>

definition at_hand :: "go_string \<Rightarrow> go_string \<Rightarrow> submission \<Rightarrow> world \<Rightarrow> bool" where
  "at_hand i j s w \<longleftrightarrow> ready i j w \<and> available (\<lambda>_ _. True) i j s (w_fs w)"

lemma find_at_hand:
  "triple (\<lambda>w. pickable i j w \<and> is_open i (w_db w)) (repo_FindSubmission i j)
     (\<lambda>x w. ready i j w \<and> (\<forall>s. x = Inr s \<longrightarrow> at_hand i j s w \<and> sub_Status s = SubmissionStatusReady))"
proof (rule tripleI)
  fix w x w' assume P: "pickable i j w \<and> is_open i (w_db w)"
    and run: "run_state (repo_FindSubmission i j) w = (x, w')"
  have still: "w_db w' = w_db w \<and> w_fs w' = w_fs w"
  proof -
    have "keeps (\<lambda>w w'. w_db w' = w_db w \<and> w_fs w' = w_fs w) (repo_FindSubmission i j)"
      unfolding repo_FindSubmission_def by (intro still.keeps_prims keeps_cases)
    from keepsD [OF this run] show ?thesis .
  qed
  have "at_hand i j s w' \<and> sub_Status s = SubmissionStatusReady" if x: "x = Inr s" for s
  proof -
    from tripleD [OF real_find_submission, OF _ run] x obtain q
      where q: "q \<in> set (submissions (w_db w))" "sr_key q = (i, j)" "s = submission_of_row q"
      using still by auto
    from P obtain q' where q': "q' \<in> set (submissions (w_db w))" "sr_key q' = (i, j)"
      "sr_status q' = SubmissionStatusReady" by (auto simp: pickable_def has_status_def)
    have "db_inv (w_db w)" using P by (simp add: pickable_def stored_def)
    from distinct_key_unique [OF inv_distinct(2) [OF this] q(1) q'(1)] q q' have "q' = q" by simp
    with q q' P have "hot i j (w_db w) q" by (auto simp: hot_def is_open_def)
    with P have "row_stored (\<lambda>_ _. True) i j q (w_fs w)" by (auto simp: pickable_def stored_def)
    from row_stored_available [OF this] P still q(3) have "at_hand i j s w'"
      by (simp add: at_hand_def pickable_def)
    moreover from q(3) q'(3) \<open>q' = q\<close> have "sub_Status s = SubmissionStatusReady"
      by (simp add: submission_of_row_def)
    ultimately show ?thesis by blast
  qed
  with P still show "ready i j w' \<and> (\<forall>s. x = Inr s \<longrightarrow> at_hand i j s w' \<and> sub_Status s = SubmissionStatusReady)"
    by (simp add: pickable_def)
qed

lemma reads_at_hand:
  assumes "p = sub_EnvelopePath s"
  shows "triple (at_hand i j s) (ReadEnvelope p)
    (\<lambda>x w. at_hand i j s w \<and> (\<forall>e. x = Inl e \<longrightarrow> (\<exists>c. e = ErrIO c))
       \<and> (\<forall>env. x = Inr env \<longrightarrow> (\<exists>e. ValidateEnvelopeJSON env = Inr e)))"
proof (rule tripleI)
  fix w x w' assume P: "at_hand i j s w" and run: "run_state (ReadEnvelope p) w = (x, w')"
  have "keeps (\<lambda>w w'. w_db w' = w_db w \<and> w_fs w' = w_fs w) (ReadEnvelope p)"
    unfolding ReadEnvelope_def by (intro still.keeps_prims keeps_cases)
  from keepsD [OF this run] P have "at_hand i j s w'" by (simp add: at_hand_def)
  moreover obtain env e where env: "Path p = Inr (submissionDir i j @ [EnvelopeFileName])"
    "fs_get (w_fs w) (submissionDir i j @ [EnvelopeFileName]) = Some (File env)"
    "ValidateEnvelopeJSON env = Inr e"
    using P assms by (auto simp: at_hand_def available_def)
  have "(\<exists>c. x = Inl (ErrIO c)) \<or> x = Inr env"
    using run env
    by (auto simp: ReadEnvelope_def may_fail_def fs_read_def effect_def os_ReadFile_def
        split: list.splits fault.splits)
  ultimately show "at_hand i j s w' \<and> (\<forall>e. x = Inl e \<longrightarrow> (\<exists>c. e = ErrIO c))
       \<and> (\<forall>env. x = Inr env \<longrightarrow> (\<exists>e. ValidateEnvelopeJSON env = Inr e))"
    using env(3) by auto
qed

lemma opens_at_hand:
  assumes "p = sub_PayloadPath s"
  shows "triple (at_hand i j s) (OpenPayload p)
    (\<lambda>x w. at_hand i j s w \<and> (\<forall>e. x = Inl e \<longrightarrow> (\<exists>c. e = ErrIO c))
       \<and> (\<forall>data n. x = Inr (data, n) \<longrightarrow> n = sub_EncryptedSize s))"
proof (rule tripleI)
  fix w x w' assume P: "at_hand i j s w" and run: "run_state (OpenPayload p) w = (x, w')"
  have "keeps (\<lambda>w w'. w_db w' = w_db w \<and> w_fs w' = w_fs w) (OpenPayload p)"
    unfolding OpenPayload_def by (intro still.keeps_prims keeps_cases)
  from keepsD [OF this run] P have "at_hand i j s w'" by (simp add: at_hand_def)
  moreover obtain data where data: "Path p = Inr (submissionDir i j @ [PayloadFileName])"
    "fs_get (w_fs w) (submissionDir i j @ [PayloadFileName]) = Some (File data)"
    "sub_EncryptedSize s = int (length data)"
    using P assms by (auto simp: at_hand_def available_def)
  have "(\<exists>c. x = Inl (ErrIO c)) \<or> x = Inr (data, int (length data))"
    using run data
    by (auto simp: OpenPayload_def may_fail_def fs_read_def effect_def os_ReadFile_def
        split: list.splits fault.splits)
  ultimately show "at_hand i j s w' \<and> (\<forall>e. x = Inl e \<longrightarrow> (\<exists>c. e = ErrIO c))
       \<and> (\<forall>data n. x = Inr (data, n) \<longrightarrow> n = sub_EncryptedSize s)"
    using data(3) by auto
qed

lemma at_hand_weaken:
  "holds (ready i j) m \<Longrightarrow> (\<And>w. P w \<Longrightarrow> ready i j w) \<Longrightarrow> triple P m (\<lambda>_. ready i j)"
  by (rule triple_weaken)

lemma ready_corrupt_io:
  assumes "\<And>w. P w \<Longrightarrow> ready i j w" "c = False"
  shows "triple P (corrupt a b c msg) (\<lambda>_. ready i j)"
  unfolding corrupt_def assms(2) using assms(1) by (auto simp: triple_def)

lemma ready_own: "triple (pickable i j) (HandlePickupSubmission deps r i j) (\<lambda>_. ready i j)"
proof -
  have rest: "triple (at_hand i j s) (do {
         e \<leftarrow> ReadEnvelope (sub_EnvelopePath s);
         case e of
           Inl err \<Rightarrow> corrupt i j (errors_is err ErrNotExist) m1
         | Inr envelope \<Rightarrow>
         case ValidateEnvelopeJSON envelope of
           Inl _ \<Rightarrow> corrupt i j True m2
         | Inr _ \<Rightarrow> do {
         p \<leftarrow> OpenPayload (sub_PayloadPath s);
         case p of
           Inl err \<Rightarrow> corrupt i j (errors_is err ErrNotExist) m3
         | Inr (payload, payloadSize) \<Rightarrow>
         if payloadSize \<noteq> sub_EncryptedSize s then corrupt i j True m4
         else send_submission r i j envelope payload
         }}) (\<lambda>_. ready i j)" for s m1 m2 m3 m4
  proof (rule triple_bind [OF reads_at_hand [OF refl]], intro triple_sum, goal_cases)
    case (1 x err)
    show ?case
    proof (cases "errors_is err ErrNotExist")
      case True
      with 1 show ?thesis by (auto simp: triple_def)
    qed (use 1 in \<open>intro ready_corrupt_io, auto simp: at_hand_def\<close>)
  next
    case (2 x env err)
    then show ?case by (auto simp: triple_def)
  next
    case (3 x env e)
    have payload: "triple (at_hand i j s) (do {
         p \<leftarrow> OpenPayload (sub_PayloadPath s);
         case p of
           Inl err \<Rightarrow> corrupt i j (errors_is err ErrNotExist) m3
         | Inr (payload, payloadSize) \<Rightarrow>
         if payloadSize \<noteq> sub_EncryptedSize s then corrupt i j True m4
         else send_submission r i j env payload}) (\<lambda>_. ready i j)"
    proof (rule triple_bind [OF opens_at_hand [OF refl]], intro triple_sum triple_prod triple_if, goal_cases)
      case (1 x err)
      show ?case
      proof (cases "errors_is err ErrNotExist")
        case True
        with 1 show ?thesis by (auto simp: triple_def)
      qed (use 1 in \<open>intro ready_corrupt_io, auto simp: at_hand_def\<close>)
    next
      case (2 x v data n)
      then show ?case by (auto simp: triple_def)
    next
      case (3 x v data n)
      then show ?case by (intro at_hand_weaken [OF ready_send]) (simp add: at_hand_def)
    qed
    then show ?case by (rule triple_weaken) auto
  qed
  have found: "triple (\<lambda>w. pickable i j w \<and> is_open i (w_db w)) (do {
         f \<leftarrow> repo_FindSubmission i j;
         case f of Inl err \<Rightarrow> State_Monad.return (writeSubmissionUnavailable err) | Inr s \<Rightarrow>
         if sub_Status s \<noteq> SubmissionStatusReady
         then State_Monad.return (writeSubmissionUnavailable (submissionStatusError (sub_Status s)))
         else if sub_EnvelopePath s = [] \<or> sub_PayloadPath s = [] then corrupt i j True m0
         else if \<not> dep_BlobStore deps then State_Monad.return m5
         else do {
         e \<leftarrow> ReadEnvelope (sub_EnvelopePath s);
         case e of
           Inl err \<Rightarrow> corrupt i j (errors_is err ErrNotExist) m1
         | Inr envelope \<Rightarrow>
         case ValidateEnvelopeJSON envelope of
           Inl _ \<Rightarrow> corrupt i j True m2
         | Inr _ \<Rightarrow> do {
         p \<leftarrow> OpenPayload (sub_PayloadPath s);
         case p of
           Inl err \<Rightarrow> corrupt i j (errors_is err ErrNotExist) m3
         | Inr (payload, payloadSize) \<Rightarrow>
         if payloadSize \<noteq> sub_EncryptedSize s then corrupt i j True m4
         else send_submission r i j envelope payload
         }}}) (\<lambda>_. ready i j)" for m0 m1 m2 m3 m4 m5
  proof (rule triple_bind [OF find_at_hand], intro triple_sum triple_if, goal_cases)
    case (3 x s)
    then have "sub_EnvelopePath s = [] \<or> sub_PayloadPath s = []" "x = Inr s" by blast+
    then have "False" if "ready i j w \<and> (\<forall>s. x = Inr s \<longrightarrow>
        at_hand i j s w \<and> sub_Status s = SubmissionStatusReady)" for w
      using that by (simp add: at_hand_def available_def)
    then show ?case by (intro tripleI) blast
  next
    case (5 x s)
    then show ?case by (intro triple_weaken [OF rest]) auto
  qed (auto intro!: triple_return)
  show ?thesis
    unfolding HandlePickupSubmission_def authorized_open_def authorized_def
  proof (rule triple_bind [OF authorize_open], intro triple_sum triple_option triple_if, goal_cases)
    case (3 x dp)
    then have "dp_Status dp = StatusOpen" by (cases "dp_Status dp") (auto simp: requireOpenDropPoint_def)
    with 3 show ?case by (intro triple_weaken [OF found]) auto
  qed (auto intro!: triple_return simp: pickable_def)
qed

end
