(* ===== verification/Routing_Facts.thy ===== *)
theory Routing_Facts
  imports Router
begin

text \<open>
  The route table as a decision on method and path: which endpoint a request reaches, which methods
  a known path allows, and that every other path is not found.
\<close>

section \<open>The endpoints\<close>

datatype endpoint =
    Health | Create | Status go_string | Submissions go_string | Pickup go_string go_string
  | Acknowledge go_string go_string | CloseDropPoint go_string | Metadata go_string
  | Submit go_string go_string | DropPage | Asset go_string

datatype decision = Serve endpoint | NotAllowed go_string | NotFound

definition reading :: "go_string \<Rightarrow> endpoint \<Rightarrow> decision" where
  "reading m e = (if m = MethodGet \<or> m = MethodHead then Serve e else NotAllowed ''GET, HEAD'')"

definition writing :: "go_string \<Rightarrow> go_string \<Rightarrow> endpoint \<Rightarrow> decision" where
  "writing want m e = (if m = want then Serve e else NotAllowed want)"

text \<open>The documented API: a path is its segments, and a parameter is not the trailing slash.\<close>

fun decide :: "go_string \<Rightarrow> go_string list \<Rightarrow> decision" where
  "decide m [a] = (if a = ''health'' then reading m Health else NotFound)"
| "decide m [a, b] =
     (if a = ''api'' \<and> b = ''drop-points'' then writing ''POST'' m Create
      else if a = ''drop'' \<and> b \<noteq> ''/'' then reading m DropPage
      else if a = ''drop-assets'' \<and> b \<noteq> ''/'' then reading m (Asset b)
      else NotFound)"
| "decide m [a, b, c] =
     (if a \<noteq> ''api'' \<or> c = ''/'' then NotFound
      else if b = ''drop-points'' then writing ''DELETE'' m (CloseDropPoint c)
      else if b = ''drops'' then reading m (Metadata c) else NotFound)"
| "decide m [a, b, c, d] =
     (if a \<noteq> ''api'' \<or> b \<noteq> ''drop-points'' \<or> c = ''/'' then NotFound
      else if d = ''status'' then reading m (Status c)
      else if d = ''submissions'' then reading m (Submissions c) else NotFound)"
| "decide m [a, b, c, d, e] =
     (if a \<noteq> ''api'' \<or> c = ''/'' \<or> d \<noteq> ''submissions'' \<or> e = ''/'' then NotFound
      else if b = ''drop-points'' then writing ''DELETE'' m (Acknowledge c e)
      else if b = ''drops'' then writing ''PUT'' m (Submit c e) else NotFound)"
| "decide m [a, b, c, d, e, f] =
     (if a \<noteq> ''api'' \<or> b \<noteq> ''drop-points'' \<or> c = ''/'' \<or> d \<noteq> ''submissions'' \<or> e = ''/'' \<or> f \<noteq> ''pickup''
      then NotFound else reading m (Pickup c e))"
| "decide m _ = NotFound"

definition serve :: "dependencies \<Rightarrow> request \<Rightarrow> endpoint \<Rightarrow> response io" where
  "serve deps r e =
     (case e of
        Health \<Rightarrow> State_Monad.return (HandleHealth r)
      | Create \<Rightarrow> HandleCreateDropPoint deps r
      | Status i \<Rightarrow> getOrHead (\<lambda>r. HandleGetDropPointStatus deps r i) r
      | Submissions i \<Rightarrow> getOrHead (\<lambda>r. HandleListSubmissions deps r i) r
      | Pickup i j \<Rightarrow> getOrHead (\<lambda>r. HandlePickupSubmission deps r i j) r
      | Acknowledge i j \<Rightarrow> HandleAcknowledgeSubmission deps r i j
      | CloseDropPoint i \<Rightarrow> HandleCloseDropPoint deps r i
      | Metadata t \<Rightarrow> getOrHead (\<lambda>r. HandleGetDropMetadata deps t) r
      | Submit t j \<Rightarrow> HandleSubmitDrop deps r t j
      | DropPage \<Rightarrow> getOrHead (\<lambda>_. State_Monad.return (HandleServeDropPage (dep_Files deps))) r
      | Asset a \<Rightarrow> getOrHead (\<lambda>_. State_Monad.return (HandleDropPageAsset (dep_Files deps) a)) r)"

definition answer :: "dependencies \<Rightarrow> request \<Rightarrow> decision \<Rightarrow> response io" where
  "answer deps r d =
     (case d of
        Serve e \<Rightarrow> serve deps r e
      | NotAllowed allow \<Rightarrow> State_Monad.return (methodNotAllowed allow)
      | NotFound \<Rightarrow> State_Monad.return http_NotFound)"

section \<open>The table\<close>

lemma parsed_patterns:
  "parse_pattern ''GET /health'' =
     (Some ''GET'', [Lit ''health''])"
  "parse_pattern ''/health'' =
     (None, [Lit ''health''])"
  "parse_pattern ''POST /api/drop-points'' =
     (Some ''POST'', [Lit ''api'', Lit ''drop-points''])"
  "parse_pattern ''/api/drop-points'' =
     (None, [Lit ''api'', Lit ''drop-points''])"
  "parse_pattern ''GET /api/drop-points/{drop_point_id}/status'' =
     (Some ''GET'', [Lit ''api'', Lit ''drop-points'', Wild, Lit ''status''])"
  "parse_pattern ''/api/drop-points/{drop_point_id}/status'' =
     (None, [Lit ''api'', Lit ''drop-points'', Wild, Lit ''status''])"
  "parse_pattern ''GET /api/drop-points/{drop_point_id}/submissions'' =
     (Some ''GET'', [Lit ''api'', Lit ''drop-points'', Wild, Lit ''submissions''])"
  "parse_pattern ''/api/drop-points/{drop_point_id}/submissions'' =
     (None, [Lit ''api'', Lit ''drop-points'', Wild, Lit ''submissions''])"
  "parse_pattern ''GET /api/drop-points/{drop_point_id}/submissions/{submission_id}/pickup'' =
     (Some ''GET'', [Lit ''api'', Lit ''drop-points'', Wild, Lit ''submissions'', Wild, Lit ''pickup''])"
  "parse_pattern ''/api/drop-points/{drop_point_id}/submissions/{submission_id}/pickup'' =
     (None, [Lit ''api'', Lit ''drop-points'', Wild, Lit ''submissions'', Wild, Lit ''pickup''])"
  "parse_pattern ''DELETE /api/drop-points/{drop_point_id}/submissions/{submission_id}'' =
     (Some ''DELETE'', [Lit ''api'', Lit ''drop-points'', Wild, Lit ''submissions'', Wild])"
  "parse_pattern ''/api/drop-points/{drop_point_id}/submissions/{submission_id}'' =
     (None, [Lit ''api'', Lit ''drop-points'', Wild, Lit ''submissions'', Wild])"
  "parse_pattern ''DELETE /api/drop-points/{drop_point_id}'' =
     (Some ''DELETE'', [Lit ''api'', Lit ''drop-points'', Wild])"
  "parse_pattern ''/api/drop-points/{drop_point_id}'' =
     (None, [Lit ''api'', Lit ''drop-points'', Wild])"
  "parse_pattern ''GET /api/drops/{drop_token}'' =
     (Some ''GET'', [Lit ''api'', Lit ''drops'', Wild])"
  "parse_pattern ''/api/drops/{drop_token}'' =
     (None, [Lit ''api'', Lit ''drops'', Wild])"
  "parse_pattern ''PUT /api/drops/{drop_token}/submissions/{submission_id}'' =
     (Some ''PUT'', [Lit ''api'', Lit ''drops'', Wild, Lit ''submissions'', Wild])"
  "parse_pattern ''/api/drops/{drop_token}/submissions/{submission_id}'' =
     (None, [Lit ''api'', Lit ''drops'', Wild, Lit ''submissions'', Wild])"
  "parse_pattern ''GET /drop/{drop_token}'' =
     (Some ''GET'', [Lit ''drop'', Wild])"
  "parse_pattern ''/drop/{drop_token}'' =
     (None, [Lit ''drop'', Wild])"
  "parse_pattern ''GET /drop-assets/{asset}'' =
     (Some ''GET'', [Lit ''drop-assets'', Wild])"
  "parse_pattern ''/drop-assets/{asset}'' =
     (None, [Lit ''drop-assets'', Wild])"
  by code_simp+

text \<open>Only the routes with as many segments as the path can match.\<close>

lemma match_length: "match_segments ps ss = Some vs \<Longrightarrow> length ps = length ss"
  by (induction ps ss arbitrary: vs rule: match_segments.induct) (auto split: if_splits)

definition segments_of :: "route \<Rightarrow> nat" where
  "segments_of x = length (snd (parse_pattern (fst x)))"

lemma find_route_length:
  "find_route rts r = find_route (filter (\<lambda>x. segments_of x = length (rq_Path r)) rts) r"
proof (induction rts)
  case (Cons x rts)
  obtain p f m ps where x: "x = (p, f)" "parse_pattern p = (m, ps)" by (metis surj_pair)
  show ?case
  proof (cases "match_segments ps (rq_Path r)")
    case None
    with Cons.IH x show ?thesis by simp
  next
    case (Some vs)
    with match_length [OF Some] Cons.IH x show ?thesis by (simp add: segments_of_def)
  qed
qed simp

definition found :: "dependencies \<Rightarrow> request \<Rightarrow> response io" where
  "found deps r =
     (case find_route (routes deps) r of
        None \<Rightarrow> State_Monad.return http_NotFound | Some (_, m) \<Rightarrow> m)"

lemma found_length:
  "length (rq_Path r) = n \<Longrightarrow>
   found deps r = (case find_route (filter (\<lambda>x. segments_of x = n) (routes deps)) r of
     None \<Rightarrow> State_Monad.return http_NotFound | Some (_, m) \<Rightarrow> m)"
  using find_route_length [of "routes deps" r] by (simp add: found_def)

lemma get_matches:
  "method_matches (Some ''GET'') m \<longleftrightarrow> m = ''GET'' \<or> m = ''HEAD''"
  "method_matches (Some ''POST'') m \<longleftrightarrow> m = ''POST''"
  "method_matches (Some ''PUT'') m \<longleftrightarrow> m = ''PUT''"
  "method_matches (Some ''DELETE'') m \<longleftrightarrow> m = ''DELETE''"
  "method_matches None m"
  by (auto simp: method_matches_def MethodGet_def MethodHead_def)

lemma get_static: "getOrHead (static_route (\<lambda>_. x) vs) = getOrHead (\<lambda>_. State_Monad.return x)"
  by (simp add: fun_eq_iff getOrHead_def static_route_def)

lemmas decisions = answer_def serve_def reading_def writing_def not_allowed_def static_route_def
  MethodGet_def MethodHead_def
lemmas table = routes_def segments_of_def parsed_patterns get_matches get_static

text \<open>The table with its patterns and handlers as variables, so that no proof looks into a pattern
  twice: first the routes with a given number of segments, then what they decide.\<close>

lemma routes_of_length:
  assumes "parse_pattern p1 = (Some ''GET'', [Lit ''health''])"
    and "parse_pattern p2 = (None, [Lit ''health''])"
    and "parse_pattern p3 = (Some ''POST'', [Lit ''api'', Lit ''drop-points''])"
    and "parse_pattern p4 = (None, [Lit ''api'', Lit ''drop-points''])"
    and "parse_pattern p5 = (Some ''GET'', [Lit ''api'', Lit ''drop-points'', Wild, Lit ''status''])"
    and "parse_pattern p6 = (None, [Lit ''api'', Lit ''drop-points'', Wild, Lit ''status''])"
    and "parse_pattern p7 = (Some ''GET'', [Lit ''api'', Lit ''drop-points'', Wild, Lit ''submissions''])"
    and "parse_pattern p8 = (None, [Lit ''api'', Lit ''drop-points'', Wild, Lit ''submissions''])"
    and "parse_pattern p9 = (Some ''GET'', [Lit ''api'', Lit ''drop-points'', Wild, Lit ''submissions'', Wild, Lit ''pickup''])"
    and "parse_pattern p10 = (None, [Lit ''api'', Lit ''drop-points'', Wild, Lit ''submissions'', Wild, Lit ''pickup''])"
    and "parse_pattern p11 = (Some ''DELETE'', [Lit ''api'', Lit ''drop-points'', Wild, Lit ''submissions'', Wild])"
    and "parse_pattern p12 = (None, [Lit ''api'', Lit ''drop-points'', Wild, Lit ''submissions'', Wild])"
    and "parse_pattern p13 = (Some ''DELETE'', [Lit ''api'', Lit ''drop-points'', Wild])"
    and "parse_pattern p14 = (None, [Lit ''api'', Lit ''drop-points'', Wild])"
    and "parse_pattern p15 = (Some ''GET'', [Lit ''api'', Lit ''drops'', Wild])"
    and "parse_pattern p16 = (None, [Lit ''api'', Lit ''drops'', Wild])"
    and "parse_pattern p17 = (Some ''PUT'', [Lit ''api'', Lit ''drops'', Wild, Lit ''submissions'', Wild])"
    and "parse_pattern p18 = (None, [Lit ''api'', Lit ''drops'', Wild, Lit ''submissions'', Wild])"
    and "parse_pattern p19 = (Some ''GET'', [Lit ''drop'', Wild])"
    and "parse_pattern p20 = (None, [Lit ''drop'', Wild])"
    and "parse_pattern p21 = (Some ''GET'', [Lit ''drop-assets'', Wild])"
    and "parse_pattern p22 = (None, [Lit ''drop-assets'', Wild])"
  shows
    "filter (\<lambda>x. segments_of x = 1)
       [(p1, h1), (p2, h2), (p3, h3), (p4, h4), (p5, h5), (p6, h6),
        (p7, h7), (p8, h8), (p9, h9), (p10, h10), (p11, h11), (p12, h12),
        (p13, h13), (p14, h14), (p15, h15), (p16, h16), (p17, h17), (p18, h18),
        (p19, h19), (p20, h20), (p21, h21), (p22, h22)] =
       [(p1, h1), (p2, h2)]"
    "filter (\<lambda>x. segments_of x = 2)
       [(p1, h1), (p2, h2), (p3, h3), (p4, h4), (p5, h5), (p6, h6),
        (p7, h7), (p8, h8), (p9, h9), (p10, h10), (p11, h11), (p12, h12),
        (p13, h13), (p14, h14), (p15, h15), (p16, h16), (p17, h17), (p18, h18),
        (p19, h19), (p20, h20), (p21, h21), (p22, h22)] =
       [(p3, h3), (p4, h4), (p19, h19), (p20, h20), (p21, h21), (p22, h22)]"
    "filter (\<lambda>x. segments_of x = 3)
       [(p1, h1), (p2, h2), (p3, h3), (p4, h4), (p5, h5), (p6, h6),
        (p7, h7), (p8, h8), (p9, h9), (p10, h10), (p11, h11), (p12, h12),
        (p13, h13), (p14, h14), (p15, h15), (p16, h16), (p17, h17), (p18, h18),
        (p19, h19), (p20, h20), (p21, h21), (p22, h22)] =
       [(p13, h13), (p14, h14), (p15, h15), (p16, h16)]"
    "filter (\<lambda>x. segments_of x = 4)
       [(p1, h1), (p2, h2), (p3, h3), (p4, h4), (p5, h5), (p6, h6),
        (p7, h7), (p8, h8), (p9, h9), (p10, h10), (p11, h11), (p12, h12),
        (p13, h13), (p14, h14), (p15, h15), (p16, h16), (p17, h17), (p18, h18),
        (p19, h19), (p20, h20), (p21, h21), (p22, h22)] =
       [(p5, h5), (p6, h6), (p7, h7), (p8, h8)]"
    "filter (\<lambda>x. segments_of x = 5)
       [(p1, h1), (p2, h2), (p3, h3), (p4, h4), (p5, h5), (p6, h6),
        (p7, h7), (p8, h8), (p9, h9), (p10, h10), (p11, h11), (p12, h12),
        (p13, h13), (p14, h14), (p15, h15), (p16, h16), (p17, h17), (p18, h18),
        (p19, h19), (p20, h20), (p21, h21), (p22, h22)] =
       [(p11, h11), (p12, h12), (p17, h17), (p18, h18)]"
    "filter (\<lambda>x. segments_of x = 6)
       [(p1, h1), (p2, h2), (p3, h3), (p4, h4), (p5, h5), (p6, h6),
        (p7, h7), (p8, h8), (p9, h9), (p10, h10), (p11, h11), (p12, h12),
        (p13, h13), (p14, h14), (p15, h15), (p16, h16), (p17, h17), (p18, h18),
        (p19, h19), (p20, h20), (p21, h21), (p22, h22)] =
       [(p9, h9), (p10, h10)]"
    "n \<notin> {1, 2, 3, 4, 5, 6} \<Longrightarrow> filter (\<lambda>x. segments_of x = n)
       [(p1, h1), (p2, h2), (p3, h3), (p4, h4), (p5, h5), (p6, h6),
        (p7, h7), (p8, h8), (p9, h9), (p10, h10), (p11, h11), (p12, h12),
        (p13, h13), (p14, h14), (p15, h15), (p16, h16), (p17, h17), (p18, h18),
        (p19, h19), (p20, h20), (p21, h21), (p22, h22)] = []"
  using assms by (simp_all add: segments_of_def)

lemma decide_1:
  assumes "parse_pattern p1 = (Some ''GET'', [Lit ''health''])"
    and "parse_pattern p2 = (None, [Lit ''health''])"
    and "rq_Path r = [a]"
  shows "map_option snd (find_route [(p1, h1), (p2, h2)] r) =
    (if a = ''health'' then Some (if rq_Method r = ''GET'' \<or> rq_Method r = ''HEAD'' then h1 [] r else h2 [] r) else None)"
  using assms by (simp add: get_matches)

lemma decide_2:
  assumes "parse_pattern p3 = (Some ''POST'', [Lit ''api'', Lit ''drop-points''])"
    and "parse_pattern p4 = (None, [Lit ''api'', Lit ''drop-points''])"
    and "parse_pattern p19 = (Some ''GET'', [Lit ''drop'', Wild])"
    and "parse_pattern p20 = (None, [Lit ''drop'', Wild])"
    and "parse_pattern p21 = (Some ''GET'', [Lit ''drop-assets'', Wild])"
    and "parse_pattern p22 = (None, [Lit ''drop-assets'', Wild])"
    and "rq_Path r = [a, b]"
  shows "map_option snd (find_route [(p3, h3), (p4, h4), (p19, h19), (p20, h20), (p21, h21), (p22, h22)] r) =
    (if a = ''api'' \<and> b = ''drop-points'' then Some (if rq_Method r = ''POST'' then h3 [] r else h4 [] r)
     else if a = ''drop'' \<and> b \<noteq> ''/'' then Some (if rq_Method r = ''GET'' \<or> rq_Method r = ''HEAD'' then h19 [b] r else h20 [b] r)
     else if a = ''drop-assets'' \<and> b \<noteq> ''/'' then Some (if rq_Method r = ''GET'' \<or> rq_Method r = ''HEAD'' then h21 [b] r else h22 [b] r)
     else None)"
  using assms by (simp add: get_matches)

lemma decide_3:
  assumes "parse_pattern p13 = (Some ''DELETE'', [Lit ''api'', Lit ''drop-points'', Wild])"
    and "parse_pattern p14 = (None, [Lit ''api'', Lit ''drop-points'', Wild])"
    and "parse_pattern p15 = (Some ''GET'', [Lit ''api'', Lit ''drops'', Wild])"
    and "parse_pattern p16 = (None, [Lit ''api'', Lit ''drops'', Wild])"
    and "rq_Path r = [a, b, c]"
  shows "map_option snd (find_route [(p13, h13), (p14, h14), (p15, h15), (p16, h16)] r) =
    (if a \<noteq> ''api'' \<or> c = ''/'' then None
     else if b = ''drop-points'' then Some (if rq_Method r = ''DELETE'' then h13 [c] r else h14 [c] r)
     else if b = ''drops'' then Some (if rq_Method r = ''GET'' \<or> rq_Method r = ''HEAD'' then h15 [c] r else h16 [c] r) else None)"
  using assms by (simp add: get_matches)

lemma decide_4:
  assumes "parse_pattern p5 = (Some ''GET'', [Lit ''api'', Lit ''drop-points'', Wild, Lit ''status''])"
    and "parse_pattern p6 = (None, [Lit ''api'', Lit ''drop-points'', Wild, Lit ''status''])"
    and "parse_pattern p7 = (Some ''GET'', [Lit ''api'', Lit ''drop-points'', Wild, Lit ''submissions''])"
    and "parse_pattern p8 = (None, [Lit ''api'', Lit ''drop-points'', Wild, Lit ''submissions''])"
    and "rq_Path r = [a, b, c, d]"
  shows "map_option snd (find_route [(p5, h5), (p6, h6), (p7, h7), (p8, h8)] r) =
    (if a \<noteq> ''api'' \<or> b \<noteq> ''drop-points'' \<or> c = ''/'' then None
     else if d = ''status'' then Some (if rq_Method r = ''GET'' \<or> rq_Method r = ''HEAD'' then h5 [c] r else h6 [c] r)
     else if d = ''submissions'' then Some (if rq_Method r = ''GET'' \<or> rq_Method r = ''HEAD'' then h7 [c] r else h8 [c] r) else None)"
  using assms by (simp add: get_matches)

lemma decide_5:
  assumes "parse_pattern p11 = (Some ''DELETE'', [Lit ''api'', Lit ''drop-points'', Wild, Lit ''submissions'', Wild])"
    and "parse_pattern p12 = (None, [Lit ''api'', Lit ''drop-points'', Wild, Lit ''submissions'', Wild])"
    and "parse_pattern p17 = (Some ''PUT'', [Lit ''api'', Lit ''drops'', Wild, Lit ''submissions'', Wild])"
    and "parse_pattern p18 = (None, [Lit ''api'', Lit ''drops'', Wild, Lit ''submissions'', Wild])"
    and "rq_Path r = [a, b, c, d, e]"
  shows "map_option snd (find_route [(p11, h11), (p12, h12), (p17, h17), (p18, h18)] r) =
    (if a \<noteq> ''api'' \<or> c = ''/'' \<or> d \<noteq> ''submissions'' \<or> e = ''/'' then None
     else if b = ''drop-points'' then Some (if rq_Method r = ''DELETE'' then h11 [c, e] r else h12 [c, e] r)
     else if b = ''drops'' then Some (if rq_Method r = ''PUT'' then h17 [c, e] r else h18 [c, e] r) else None)"
  using assms by (simp add: get_matches)

lemma decide_6:
  assumes "parse_pattern p9 = (Some ''GET'', [Lit ''api'', Lit ''drop-points'', Wild, Lit ''submissions'', Wild, Lit ''pickup''])"
    and "parse_pattern p10 = (None, [Lit ''api'', Lit ''drop-points'', Wild, Lit ''submissions'', Wild, Lit ''pickup''])"
    and "rq_Path r = [a, b, c, d, e, f]"
  shows "map_option snd (find_route [(p9, h9), (p10, h10)] r) =
    (if a \<noteq> ''api'' \<or> b \<noteq> ''drop-points'' \<or> c = ''/'' \<or> d \<noteq> ''submissions'' \<or> e = ''/'' \<or> f \<noteq> ''pickup''
     then None else Some (if rq_Method r = ''GET'' \<or> rq_Method r = ''HEAD'' then h9 [c, e] r else h10 [c, e] r))"
  using assms by (simp add: get_matches)

lemma found_snd:
  "found deps r = (case map_option snd (find_route (filter (\<lambda>x. segments_of x = length (rq_Path r))
      (routes deps)) r) of None \<Rightarrow> State_Monad.return http_NotFound | Some m \<Rightarrow> m)"
  using find_route_length [of "routes deps" r] by (auto simp: found_def split: option.splits)

lemma found_1:
  assumes "rq_Path r = [a]"
  shows "found deps r = answer deps r (decide (rq_Method r) (rq_Path r))"
proof -
  have n: "length (rq_Path r) = 1" using assms by simp
  show ?thesis
    unfolding found_snd n routes_def
    by (subst routes_of_length(1) [OF parsed_patterns],
        subst decide_1 [OF parsed_patterns(1) parsed_patterns(2) assms])
      (simp add: assms decisions get_static)
qed

lemma found_2:
  assumes "rq_Path r = [a, b]"
  shows "found deps r = answer deps r (decide (rq_Method r) (rq_Path r))"
proof -
  have n: "length (rq_Path r) = 2" using assms by simp
  show ?thesis
    unfolding found_snd n routes_def
    by (subst routes_of_length(2) [OF parsed_patterns],
        subst decide_2 [OF parsed_patterns(3) parsed_patterns(4) parsed_patterns(19) parsed_patterns(20) parsed_patterns(21) parsed_patterns(22) assms])
      (simp add: assms decisions get_static)
qed

lemma found_3:
  assumes "rq_Path r = [a, b, c]"
  shows "found deps r = answer deps r (decide (rq_Method r) (rq_Path r))"
proof -
  have n: "length (rq_Path r) = 3" using assms by simp
  show ?thesis
    unfolding found_snd n routes_def
    by (subst routes_of_length(3) [OF parsed_patterns],
        subst decide_3 [OF parsed_patterns(13) parsed_patterns(14) parsed_patterns(15) parsed_patterns(16) assms])
      (simp add: assms decisions get_static)
qed

lemma found_4:
  assumes "rq_Path r = [a, b, c, d]"
  shows "found deps r = answer deps r (decide (rq_Method r) (rq_Path r))"
proof -
  have n: "length (rq_Path r) = 4" using assms by simp
  show ?thesis
    unfolding found_snd n routes_def
    by (subst routes_of_length(4) [OF parsed_patterns],
        subst decide_4 [OF parsed_patterns(5) parsed_patterns(6) parsed_patterns(7) parsed_patterns(8) assms])
      (simp add: assms decisions get_static)
qed

lemma found_5:
  assumes "rq_Path r = [a, b, c, d, e]"
  shows "found deps r = answer deps r (decide (rq_Method r) (rq_Path r))"
proof -
  have n: "length (rq_Path r) = 5" using assms by simp
  show ?thesis
    unfolding found_snd n routes_def
    by (subst routes_of_length(5) [OF parsed_patterns],
        subst decide_5 [OF parsed_patterns(11) parsed_patterns(12) parsed_patterns(17) parsed_patterns(18) assms])
      (simp add: assms decisions get_static)
qed

lemma found_6:
  assumes "rq_Path r = [a, b, c, d, e, f]"
  shows "found deps r = answer deps r (decide (rq_Method r) (rq_Path r))"
proof -
  have n: "length (rq_Path r) = 6" using assms by simp
  show ?thesis
    unfolding found_snd n routes_def
    by (subst routes_of_length(6) [OF parsed_patterns],
        subst decide_6 [OF parsed_patterns(9) parsed_patterns(10) assms])
      (simp add: assms decisions get_static)
qed

lemma found_other:
  assumes "length (rq_Path r) \<notin> {1, 2, 3, 4, 5, 6}"
  shows "found deps r = answer deps r (decide (rq_Method r) (rq_Path r))"
proof -
  have "decide m ss = NotFound" if "length ss \<notin> {1, 2, 3, 4, 5, 6}" for m ss
    using that by (cases "(m, ss)" rule: decide.cases) auto
  from this [OF assms] show ?thesis
    unfolding found_snd routes_def
    by (subst routes_of_length(7) [OF parsed_patterns assms]) (simp add: answer_def)
qed

lemma found_decided: "found deps r = answer deps r (decide (rq_Method r) (rq_Path r))"
proof (cases "length (rq_Path r) \<notin> {1, 2, 3, 4, 5, 6}")
  case False
  then consider a where "rq_Path r = [a]" | a b where "rq_Path r = [a, b]"
    | a b c where "rq_Path r = [a, b, c]" | a b c d where "rq_Path r = [a, b, c, d]"
    | a b c d e where "rq_Path r = [a, b, c, d, e]" | a b c d e f where "rq_Path r = [a, b, c, d, e, f]"
    by (auto simp: length_Suc_conv numeral_eq_Suc)
  then show ?thesis
    by cases (erule found_1 found_2 found_3 found_4 found_5 found_6)+
qed (rule found_other)

section \<open>The whole chain\<close>

lemma serve_mux_found:
  "run_state (serve_mux deps r) w = ((resp, p), w') \<Longrightarrow> run_state (found deps r) w = (resp, w')"
  by (auto simp: serve_mux_def found_def split: option.splits prod.splits)


end
