(* ===== verification/Relay_Samples.thy ===== *)
theory Relay_Samples
  imports Samples Router
begin

text \<open>
  Concrete dependencies and requests on which the properties of the relay are instantiated: a media
  type parser for the types the relay asks for, the default configuration, an upload of a valid
  envelope with three bytes of payload.
\<close>

definition sample_media :: media_parser where
  "sample_media t =
     (if t = jsonContentType \<or> t = octetContentType then Some (t, [])
      else if t = ''multipart/form-data; boundary=b'' then Some (multipartFormPrefix, [(''boundary'', ''b'')])
      else None)"

definition sample_url :: url_parser where
  "sample_url s =
     Some \<lparr>u_Scheme = ''http'', u_Host = ''127.0.0.1:8080'', u_Hostname = ''127.0.0.1'',
           u_RawQuery = [], u_Fragment = [], u_User = None, u_Path = []\<rparr>"

definition sample_deps :: dependencies where
  "sample_deps =
     \<lparr>dep_Config = Default, dep_Repository = True, dep_BlobStore = True,
      dep_ParseMediaType = sample_media, dep_ParseURL = sample_url, dep_Files = \<lambda>_. None\<rparr>"

definition sample_request :: "go_string \<Rightarrow> go_string list \<Rightarrow> go_string \<Rightarrow> request" where
  "sample_request method path secret =
     \<lparr>rq_Method = method, rq_Path = path,
      rq_EscapedPath = concat (map (\<lambda>s. CHR ''/'' # s) path), rq_Origin = [],
      rq_Authorization = ''Bearer '' @ secret, rq_ContentType = jsonContentType,
      rq_Body = ([], None), rq_Parts = \<lambda>_ _. []\<rparr>"

definition sample_id :: go_string where "sample_id = ''sub_'' @ replicate 22 CHR ''A''"

definition sample_parts :: "part list" where
  "sample_parts =
     [NextPart envelopePartName jsonContentType [Read (sample_envelope_json []) ReadEOF],
      NextPart payloadPartName octetContentType [Read ''xyz'' ReadEOF]]"

definition sample_upload :: "go_string \<Rightarrow> request" where
  "sample_upload tok =
     (sample_request ''PUT'' [''api'', ''drops'', tok, ''submissions'', sample_id] [])
       \<lparr>rq_ContentType := ''multipart/form-data; boundary=b'', rq_Parts := \<lambda>_ _. sample_parts\<rparr>"

lemma sample_deps_simps [simp]:
  "dep_Config sample_deps = Default" "dep_Repository sample_deps" "dep_BlobStore sample_deps"
  "dep_ParseMediaType sample_deps = sample_media" "dep_ParseURL sample_deps = sample_url"
  by (simp_all add: sample_deps_def)

lemma sample_id_valid: "ValidSubmissionID sample_id"
  by code_simp

lemma sample_upload_parts:
  "multipartDropParts sample_media (sample_upload tok) lim =
     Inr (sample_envelope_json [], [Read ''xyz'' ReadEOF])"
proof -
  have small: "length (sample_envelope_json []) \<le> 1000" by code_simp
  then have env: "readEnvelopePart [Read (sample_envelope_json []) ReadEOF] = Inr (sample_envelope_json [])"
    by (simp add: readEnvelopePart_def maxEnvelopeBytes_def)
  have types: "jsonContentType \<noteq> ''multipart/form-data; boundary=b''"
    "octetContentType \<noteq> ''multipart/form-data; boundary=b''"
    by (simp_all add: jsonContentType_def octetContentType_def)
  have names: "validatePart sample_media envelopePartName jsonContentType envelopePartName jsonContentType = None"
    "validatePart sample_media payloadPartName octetContentType payloadPartName octetContentType = None"
    by code_simp+
  have media: "sample_media ''multipart/form-data; boundary=b'' = Some (multipartFormPrefix, [(''boundary'', ''b'')])"
    by code_simp
  show ?thesis
    using env names media
    by (simp add: multipartDropParts_def sample_upload_def part_sequence_def sample_parts_def
        end_of_payload_def)
qed

end
