(* ===== verification/Access_Log.thy ===== *)
theory Access_Log
  imports Relay_Samples
begin

text \<open>
  What an access log line can show of a request path. A capability token is one of the three
  prefixes followed by token characters; no line contains one with twelve or more of them, and the
  tokens the relay generates have 43.
\<close>

section \<open>Texts without tokens\<close>

fun token_free :: "go_string \<Rightarrow> bool" where
  "token_free [] \<longleftrightarrow> True"
| "token_free (c # s) \<longleftrightarrow>
     (case match_capability (c # s) of
        None \<Rightarrow> True | Some rest \<Rightarrow> length (c # s) - length rest < 16) \<and> token_free s"

lemma token_free_append: "token_free (xs @ ys) \<Longrightarrow> token_free ys"
  by (induction xs) auto

lemma match_token:
  assumes "name \<in> set capability_names" "list_all token_char cs" "cs \<noteq> []"
  shows "match_capability (name @ cs @ ys) = Some (dropWhile token_char ys)"
proof -
  have "find (has_prefix (name @ cs @ ys)) capability_names = Some name"
    using assms(1) by (auto simp: capability_names_def)
  moreover obtain d ds where "cs = d # ds" using assms(3) by (cases cs) auto
  ultimately show ?thesis
    using assms(2) by (simp add: match_capability_def list_all_iff dropWhile_append3)
qed

lemma token_free_no_token:
  assumes "token_free s" "name \<in> set capability_names" "list_all token_char cs" "12 \<le> length cs"
  shows "s \<noteq> xs @ name @ cs @ ys"
proof
  assume s: "s = xs @ name @ cs @ ys"
  have free: "token_free (name @ cs @ ys)" using assms(1) token_free_append s by blast
  have ne: "cs \<noteq> []" "name \<noteq> []" using assms(2,4) by (auto simp: capability_names_def)
  have m: "match_capability (name @ cs @ ys) = Some (dropWhile token_char ys)"
    by (rule match_token [OF assms(2,3) ne(1)])
  have "length (dropWhile token_char ys) \<le> length ys" by (rule length_dropWhile_le)
  moreover have "4 \<le> length name" using assms(2) by (auto simp: capability_names_def)
  moreover obtain c t where ct: "name @ cs @ ys = c # t" using ne(2) by (cases name) auto
  moreover have len: "length name + length cs + length ys = Suc (length t)"
    using arg_cong [OF ct, of length] by simp
  moreover have "Suc (length t) - length (dropWhile token_char ys) < 16"
    using free m unfolding ct by simp
  ultimately show False using assms(4) by arith
qed

section \<open>Redacted texts\<close>

lemma redact_steps:
  "redact_capabilities [] = []"
  "match_capability s = Some rest \<Longrightarrow> redact_capabilities s = '':capability'' @ redact_capabilities rest"
  "match_capability (c # cs) = None \<Longrightarrow> redact_capabilities (c # cs) = c # redact_capabilities cs"
  by (subst redact_capabilities.simps, simp add: match_capability_def capability_names_def)+

lemma take_redacted:
  "CHR '':'' \<notin> set (take k (redact_capabilities s)) \<Longrightarrow> take k (redact_capabilities s) = take k s"
proof (induction s arbitrary: k rule: redact_capabilities.induct)
  case (1 s)
  show ?case
  proof (cases "match_capability s")
    case (Some rest)
    with 1(3) show ?thesis by (cases k) (simp_all add: redact_steps)
  next
    case None
    show ?thesis
    proof (cases s)
      case (Cons c cs)
      then show ?thesis
        using 1(1) [OF None Cons, of "k - 1"] 1(3) None
        by (cases k) (simp_all add: redact_steps)
    qed (simp add: redact_steps)
  qed
qed

lemma match_prefix:
  "match_capability s = Some rest \<Longrightarrow>
   \<exists>name d ds. name \<in> set capability_names \<and> token_char d \<and> s = name @ d # ds"
proof -
  assume m: "match_capability s = Some rest"
  then obtain name where f: "find (has_prefix s) capability_names = Some name"
    by (auto simp: match_capability_def split: option.splits)
  then have name: "name \<in> set capability_names" "has_prefix s name" by (auto dest: find_SomeD)
  then obtain t where s: "s = name @ t" by (auto elim: has_prefixE)
  with m f obtain d ds where "t = d # ds" "token_char d"
    by (auto simp: match_capability_def split: list.splits if_splits)
  with name s show ?thesis by blast
qed

lemma colon: "\<not> token_char CHR '':''"
  by code_simp

lemma redacted_no_match: "match_capability (redact_capabilities s) = None \<or> s = []"
proof (cases "match_capability s")
  case (Some rest)
  have "find (has_prefix ('':capability'' @ t)) capability_names = None" for t
    by (simp add: capability_names_def)
  with Some show ?thesis
    by (simp add: redact_steps match_capability_def del: append_Cons)
next
  case None
  show ?thesis
  proof (rule disjCI, rule ccontr)
    assume s: "s \<noteq> []" and "match_capability (redact_capabilities s) \<noteq> None"
    then obtain rest where "match_capability (redact_capabilities s) = Some rest" by auto
    from match_prefix [OF this] obtain name d ds where n: "name \<in> set capability_names"
      "token_char d" "redact_capabilities s = name @ d # ds" by blast
    let ?k = "Suc (length name)"
    have k: "take ?k (redact_capabilities s) = name @ [d]" using n(3) by simp
    have "CHR '':'' \<notin> set (name @ [d])"
      using n(1,2) colon by (auto simp: capability_names_def)
    with take_redacted [of ?k s] k have "take ?k s = name @ [d]" by simp
    then have "s = name @ [d] @ drop ?k s" by (metis append_assoc append_take_drop_id)
    with match_token [OF n(1), of "[d]" "drop ?k s"] n(2) None show False by simp
  qed
qed

lemma token_free_mark: "token_free t \<Longrightarrow> token_free ('':capability'' @ t)"
  by (simp add: match_capability_def capability_names_def)

lemma token_free_redacted: "token_free (redact_capabilities s)"
proof (induction s rule: redact_capabilities.induct)
  case (1 s)
  show ?case
  proof (cases "match_capability s")
    case (Some rest)
    with 1(2) [OF Some] show ?thesis
      by (simp add: redact_steps token_free_mark del: append_Cons)
  next
    case None
    show ?thesis
    proof (cases s)
      case (Cons c cs)
      with 1(1) [OF None Cons] None redacted_no_match [of s] show ?thesis
        by (simp add: redact_steps)
    qed (simp add: redact_steps)
  qed
qed

section \<open>Log lines\<close>

lemma token_free_RedactTokenPath: "token_free (RedactTokenPath p)"
proof -
  have fixed: "token_free ''/drop/:drop_token''" "token_free ''/api/drops/:drop_token''"
    "token_free ''/:redacted-capability-path''" by code_simp+
  show ?thesis
    using token_free_redacted fixed
    by (simp add: RedactTokenPath_def Let_def del: token_free.simps) (metis token_free_redacted)
qed

lemma token_free_patterns:
  "list_all (\<lambda>p. p \<noteq> [] \<and> token_free (replace_all (case cut_space p of Some (_, route) \<Rightarrow> route | None \<Rightarrow> p)
       ''{drop_token}'' '':drop_token'')) (map fst (routes deps))"
  unfolding routes_def by code_simp

lemma find_route_pattern: "find_route rts r = Some (p, m) \<Longrightarrow> p \<in> set (map fst rts)"
proof (induction rts)
  case (Cons x rts)
  obtain pattern f where x: "x = (pattern, f)" by (cases x)
  from Cons.prems have "p = pattern \<or> find_route rts r = Some (p, m)"
    by (auto simp: x split: prod.splits option.splits if_splits)
  with Cons.IH show ?case by (auto simp: x)
qed simp

lemma token_free_log_path:
  assumes "run_state (NewRouterWithDependencies deps r) w = ((resp, line), w')"
  shows "token_free (al_Path line)"
proof -
  obtain resp0 p w0 where mux: "run_state (serve_mux deps r) w = ((resp0, p), w0)" by (metis surj_pair)
  have p: "p = [] \<or> p \<in> set (map fst (routes deps))"
    using mux find_route_pattern by (fastforce simp: serve_mux_def split: option.splits prod.splits)
  then have "token_free (requestLogPath p r)"
  proof
    assume "p \<in> set (map fst (routes deps))"
    then show ?thesis using token_free_patterns [of deps] by (auto simp: list_all_iff requestLogPath_def)
  qed (simp add: requestLogPath_def token_free_RedactTokenPath)
  moreover have "token_free (requestLogPath [] r)"
    by (simp add: requestLogPath_def token_free_RedactTokenPath)
  moreover have "al_Path line = requestLogPath p r \<or> al_Path line = requestLogPath [] r"
    using assms mux
    by (auto simp: NewRouterWithDependencies_def LogRequests_def SetNoSniff_def ApplyCORS_def Let_def
        split: if_splits)
  ultimately show ?thesis by auto
qed



text \<open>A token whose prefix is encoded twice, next to an escape that becomes malformed by decoding,
  is logged as it came.\<close>

lemma encoded_prefix_survives:
  "RedactTokenPath ''/x/%2564rop_secret%25zz'' = ''/x/%2564rop_secret%25zz''"
  by code_simp

end
