(* ===== verification/Config_Properties.thy ===== *)
theory Config_Properties
  imports Cli Relay_Samples
begin

text \<open>
  What a loaded configuration guarantees to the code that computes with it: no conversion of seconds
  and no limit derived from it overflows, and the two places that compose the cleanup service agree.
\<close>

lemma check_that_Nil [simp]: "check_that ok msg = [] \<longleftrightarrow> ok"
  by (simp add: check_that_def)

lemma validate_seconds_Nil [simp]:
  "validateDurationSeconds name v = [] \<longleftrightarrow> 0 < v \<and> v \<le> MaxConfiguredDurationSeconds"
  by (simp add: validateDurationSeconds_def)

lemma valid_config:
  assumes "Validate parse cfg = []"
  shows "0 < cfg_DefaultTTLSeconds cfg" "cfg_DefaultTTLSeconds cfg \<le> cfg_MaxTTLSeconds cfg"
    "0 < cfg_MaxTTLSeconds cfg" "cfg_MaxTTLSeconds cfg \<le> MaxConfiguredDurationSeconds"
    "0 < cfg_DefaultMaxBytes cfg" "cfg_DefaultMaxBytes cfg \<le> cfg_MaxBytes cfg"
    "cfg_MaxBytes cfg \<le> MaxConfiguredPayloadBytes" "0 < cfg_DefaultMaxActiveDropPoints cfg"
    "0 < cfg_ReadTimeoutSeconds cfg" "cfg_ReadTimeoutSeconds cfg \<le> MaxConfiguredDurationSeconds"
    "0 < cfg_WriteTimeoutSeconds cfg" "cfg_WriteTimeoutSeconds cfg \<le> MaxConfiguredDurationSeconds"
    "0 < cfg_CleanupIntervalSeconds cfg" "cfg_CleanupIntervalSeconds cfg \<le> MaxConfiguredDurationSeconds"
    "0 < cfg_TerminalRetentionSeconds cfg" "cfg_TerminalRetentionSeconds cfg \<le> MaxConfiguredDurationSeconds"
  using assms by (simp_all add: Validate_def)

lemma wrap64_small: "0 \<le> x \<Longrightarrow> x < 2 ^ 62 \<Longrightarrow> wrap64 x = x"
  by (rule wrap64_id) (simp add: is_int64_def)

lemma secondsDuration_exact:
  "0 \<le> s \<Longrightarrow> s \<le> MaxConfiguredDurationSeconds \<Longrightarrow> secondsDuration s = s * second"
  by (simp add: secondsDuration_def wrap64_small config_bounds second_def)

lemma limit_exact:
  assumes "0 < n" "n \<le> MaxConfiguredPayloadBytes"
  shows "dropRequestSizeLimit n = Inr (n + framingBytes)" "wrap64 (n * maxPendingSubmissions) = n * 10"
  using assms
  by (simp_all add: dropRequestSizeLimit_def framingBytes_def maxEnvelopeBytes_def multipartOverhead_def
      config_bounds wrap64_small maxPendingSubmissions_def)

lemma max_seconds:
  assumes "0 < a" "a \<le> MaxConfiguredDurationSeconds" "0 < b" "b \<le> MaxConfiguredDurationSeconds"
  shows "wrap64 (wrap64 (max a b * second) + 30 * second) = max a b * second + 30 * second"
    "wrap64 (max (wrap64 (a * second)) (wrap64 (b * second)) + 30 * second)
      = max a b * second + 30 * second"
  using assms by (simp_all add: wrap64_small config_bounds second_def max_def)

lemma Load_valid: "Load parse file lookup = Inr cfg \<Longrightarrow> Validate parse cfg = []"
  by (auto simp: Load_def split: sum.splits option.splits prod.splits if_splits)

text \<open>C27. Every configuration \<open>Load\<close> returns, from whatever file and environment, keeps the arithmetic
  of the relay exact: each number of seconds is converted to a positive duration without wrapping,
  the age at which an interrupted upload counts as stale exceeds both transfer timeouts by thirty
  seconds and is the same for the server and for the cleanup command, and the request limit and
  the queue quota of every drop point it allows are the exact sums and products.\<close>

theorem loaded_configuration_is_exact:
  assumes "Load parse file lookup = Inr cfg"
  shows "(\<forall>s \<in> {cfg_DefaultTTLSeconds cfg, cfg_MaxTTLSeconds cfg, cfg_ReadTimeoutSeconds cfg,
        cfg_WriteTimeoutSeconds cfg, cfg_CleanupIntervalSeconds cfg, cfg_TerminalRetentionSeconds cfg}.
        secondsDuration s = s * second \<and> 0 < secondsDuration s)
    \<and> ReceivingStaleAfter (newCleanupService cfg)
      = max (cfg_ReadTimeoutSeconds cfg) (cfg_WriteTimeoutSeconds cfg) * second + 30 * second
    \<and> cli_cleanup_service cfg = newCleanupService cfg
    \<and> (\<forall>n. 0 < n \<and> n \<le> cfg_MaxBytes cfg \<longrightarrow>
        dropRequestSizeLimit n = Inr (n + framingBytes) \<and> wrap64 (n * maxPendingSubmissions) = n * 10)"
proof (intro conjI)
  note v = valid_config [OF Load_valid [OF assms]]
  have pos: "0 < second" by (simp add: second_def)
  show "\<forall>s \<in> {cfg_DefaultTTLSeconds cfg, cfg_MaxTTLSeconds cfg, cfg_ReadTimeoutSeconds cfg,
      cfg_WriteTimeoutSeconds cfg, cfg_CleanupIntervalSeconds cfg, cfg_TerminalRetentionSeconds cfg}.
      secondsDuration s = s * second \<and> 0 < secondsDuration s"
    using v pos by (simp add: secondsDuration_exact)
  note stale = max_seconds [OF v(9,10,11,12)]
  show "ReceivingStaleAfter (newCleanupService cfg)
      = max (cfg_ReadTimeoutSeconds cfg) (cfg_WriteTimeoutSeconds cfg) * second + 30 * second"
    "cli_cleanup_service cfg = newCleanupService cfg"
    using stale
    by (simp_all add: newCleanupService_def cli_cleanup_service_def secondsDuration_def
        cleanupOperationTimeout_def)
  show "\<forall>n. 0 < n \<and> n \<le> cfg_MaxBytes cfg \<longrightarrow>
      dropRequestSizeLimit n = Inr (n + framingBytes) \<and> wrap64 (n * maxPendingSubmissions) = n * 10"
    using v limit_exact by auto
qed

lemma default_config_valid: "Validate sample_url Default = []"
  by code_simp

lemma sample_Load: "Load sample_url None (\<lambda>_. None) = Inr Default"
  by code_simp

lemma loaded_configuration_is_exact_witness:
  "ReceivingStaleAfter (newCleanupService Default) = 630 * second"
  using loaded_configuration_is_exact [OF sample_Load]
  by (simp add: Default_def config_defaults)

end
