(* ===== verification/Relay_Create.thy ===== *)
theory Relay_Create
  imports Relay_Accept Config_Properties
begin

text \<open>
  Creating a drop point: what a reported creation has stored, whatever faults occurred, and that
  without faults a valid request is accepted.
\<close>

section \<open>A reported creation is real\<close>

text \<open>The drop point a response was issued for.\<close>

definition issued ::
    "go_string \<Rightarrow> go_string \<Rightarrow> duration \<Rightarrow> int \<Rightarrow> time \<Rightarrow> create_drop_point_response \<Rightarrow> drop_point \<Rightarrow> bool" where
  "issued tid client ttl maxBytes now c dp \<longleftrightarrow>
     New \<lparr>cr_ID = resp_DropPointID c, cr_APITokenID = tid, cr_ClientName = client,
          cr_DisplayName = resp_DisplayName c, cr_DropTokenHash = HashSecret (resp_DropToken c),
          cr_PickupTokenHash = HashSecret (resp_PickupToken c), cr_TTL = ttl, cr_MaxBytes = maxBytes,
          cr_MaxPendingSubmissions = maxPendingSubmissions,
          cr_MaxPendingBytes = wrap64 (maxBytes * maxPendingSubmissions)\<rparr> now = Inr dp
     \<and> resp_ExpiresAt c = dp_ExpiresAt dp \<and> resp_MaxBytes c = maxBytes
     \<and> resp_MaxPendingSubmissions c = maxPendingSubmissions
     \<and> resp_MaxPendingBytes c = wrap64 (maxBytes * maxPendingSubmissions)"

lemma triple_fact:
  "(\<And>w. P w \<Longrightarrow> b) \<Longrightarrow> (b \<Longrightarrow> triple (\<lambda>_. True) m Q) \<Longrightarrow> triple P m Q"
  unfolding triple_def by blast

lemma insert_row:
  "stmt_insert_drop_point dp m now d = Inr (n, d') \<Longrightarrow> n \<noteq> 0 \<Longrightarrow> row_of_drop_point dp \<in> set (drop_points d')"
  by (auto simp: stmt_insert_drop_point_def split: if_splits)

lemma real_create:
  "triple (\<lambda>_. True) (repo_CreateDropPointWithinQuota dp m now)
     (\<lambda>x w. x = Inr () \<longrightarrow> row_of_drop_point dp \<in> set (drop_points (w_db w)))"
proof -
  have rows: "triple (\<lambda>w. n \<noteq> 0 \<longrightarrow> row_of_drop_point dp \<in> set (drop_points (w_db w))) (rows_affected n)
      (\<lambda>r w. (n \<noteq> 0 \<longrightarrow> row_of_drop_point dp \<in> set (drop_points (w_db w))) \<and> (\<forall>c. r = Inr c \<longrightarrow> c = n))" for n
    by (rule triple_weaken
        [OF real_rows [of "\<lambda>d. n \<noteq> 0 \<longrightarrow> row_of_drop_point dp \<in> set (drop_points d)"]]) auto
  have rest: "triple (\<lambda>w. n \<noteq> 0 \<longrightarrow> row_of_drop_point dp \<in> set (drop_points (w_db w))) (do {
        changed \<leftarrow> rows_affected n;
        State_Monad.return (case changed of
            Inl err \<Rightarrow> Inl err
          | Inr c \<Rightarrow> if c = 0 then Inl ErrActiveDropPointQuotaExceeded else Inr ())})
      (\<lambda>x w. x = Inr () \<longrightarrow> row_of_drop_point dp \<in> set (drop_points (w_db w)))" for n
    by (rule triple_bind [OF rows], rule triple_return) (auto split: sum.splits if_splits)
  show ?thesis
    unfolding repo_CreateDropPointWithinQuota_def
    by (intro triple_if triple_return triple_bind [OF real_exec] triple_sum triple_weaken [OF rest])
      (auto dest: insert_row)
qed

lemma real_allocate:
  "triple (\<lambda>_. True) (allocate n tid m client ttl maxBytes now)
     (\<lambda>x w. \<forall>c. x = Inr c \<longrightarrow> (\<exists>dp. issued tid client ttl maxBytes now c dp
        \<and> Valid (resp_DisplayName c) \<and> has_prefix (resp_DropToken c) DropTokenPrefix
        \<and> has_prefix (resp_PickupToken c) PickupTokenPrefix
        \<and> row_of_drop_point dp \<in> set (drop_points (w_db w))))"
    (is "triple _ _ ?R")
proof (induction n)
  case 0
  show ?case by (simp add: triple_return)
next
  case (Suc n)
  let ?secrets = "\<lambda>x w. \<forall>a b c. x = Inr (a, b, c) \<longrightarrow> has_prefix b DropTokenPrefix \<and> has_prefix c PickupTokenPrefix"
  have secrets: "triple (\<lambda>_. True) generateDropPointSecrets ?secrets"
    unfolding generateDropPointSecrets_def
    by (intro triple_bind [where Q = "\<lambda>_ _. True"] triple_sum triple_return)
      (auto simp: GenerateDropToken_def GeneratePickupToken_def generate_def has_prefix_def triple_def
        split: option.splits sum.splits if_splits)
  have name: "triple (\<lambda>_. True) generate_name (\<lambda>x _. \<forall>s. x = Inr s \<longrightarrow> Valid s)"
    by (rule tripleI) (auto simp: generate_name_def Generate_def numeral_3_eq_3 Let_def
        split: prod.splits if_splits)
  show ?case
    unfolding allocate.simps
  proof (rule triple_bind [OF secrets], intro triple_sum triple_prod, goal_cases)
    case (2 x v dpid t dropToken pickupToken)
    show ?case
    proof (rule triple_fact [where b = "has_prefix dropToken DropTokenPrefix \<and> has_prefix pickupToken PickupTokenPrefix"],
        goal_cases)
      case p: 2
      show ?case
      proof (rule triple_bind [OF name], intro triple_sum, goal_cases)
        case new: (3 y displayName dp)
        show ?case
        proof (rule triple_fact [where b = "Valid displayName"], goal_cases)
          case v: 2
          show ?case
          proof (rule triple_bind [OF real_create], intro triple_sum triple_if, goal_cases)
            case (1 z err)
            show ?case by (rule triple_any [OF Suc.IH])
          next
            case (3 z u)
            then show ?case using p v new by (intro triple_return) (auto simp: issued_def)
          qed (auto intro!: triple_return)
        qed (use new in auto)
      qed (auto intro!: triple_return)
    qed (use 2 in auto)
  qed (auto intro!: triple_return)
qed

text \<open>The validated numbers are within the configuration.\<close>

lemma validated_create:
  assumes "validateCreateRequest cfg req = Inr (ttl, maxBytes)"
  shows "0 < ttl" "ttl \<le> cfg_MaxTTLSeconds cfg" "0 < maxBytes" "maxBytes \<le> cfg_MaxBytes cfg"
  using assms by (auto simp: validateCreateRequest_def Let_def split: if_splits)

lemma issued_exact:
  assumes i: "issued tid client (secondsDuration ttl) maxBytes now c dp"
    and cfg: "Validate parse cfg = []" "validateCreateRequest cfg req = Inr (ttl, maxBytes)"
  shows "dp_ID dp = resp_DropPointID c \<and> dp_DisplayName dp = resp_DisplayName c \<and> dp_Status dp = StatusOpen
    \<and> dp_DropTokenHash dp = HashSecret (resp_DropToken c)
    \<and> dp_PickupTokenHash dp = HashSecret (resp_PickupToken c)
    \<and> dp_CreatedAt dp < dp_ExpiresAt dp
    \<and> dp_ExpiresAt dp \<le> dp_CreatedAt dp + cfg_MaxTTLSeconds cfg * second
    \<and> resp_ExpiresAt c = dp_ExpiresAt dp
    \<and> dp_MaxBytes dp = maxBytes \<and> resp_MaxBytes c = maxBytes
    \<and> dp_MaxPendingSubmissions dp = 10 \<and> resp_MaxPendingSubmissions c = 10
    \<and> dp_MaxPendingBytes dp = 10 * maxBytes \<and> resp_MaxPendingBytes c = 10 * maxBytes"
proof -
  note v = valid_config [OF cfg(1)] and r = validated_create [OF cfg(2)]
  have ttl: "secondsDuration ttl = ttl * second"
    using r(1,2) v(4) by (intro secondsDuration_exact) auto
  have pos: "0 < ttl * second" "ttl * second \<le> cfg_MaxTTLSeconds cfg * second"
    using r(1,2) by (simp_all add: second_def)
  have quota: "wrap64 (maxBytes * maxPendingSubmissions) = 10 * maxBytes"
    using limit_exact(2) [of maxBytes] r(3,4) v(7) by simp
  show ?thesis
    using i pos unfolding issued_def quota ttl
    by (auto simp: New_def maxPendingSubmissions_def split: if_splits)
qed

lemma create_errors:
  "decodeCreateRequest b = Inl resp \<Longrightarrow> rs_Body resp \<noteq> CreatedBody c"
  "validateCreateRequest cfg req = Inl resp \<Longrightarrow> rs_Body resp \<noteq> CreatedBody c"
  by (auto simp: decodeCreateRequest_def validateCreateRequest_def Let_def invalid_json_def
      response_defs split: sum.splits option.splits prod.splits if_splits)

definition answer_of :: "config \<Rightarrow> create_drop_point_response \<Rightarrow> created_response" where
  "answer_of cfg k =
     \<lparr>crr_DropPointID = resp_DropPointID k, crr_DisplayName = resp_DisplayName k,
      crr_DropLink = dropLink (cfg_BaseURL cfg) (resp_DropToken k),
      crr_PickupToken = resp_PickupToken k, crr_ExpiresAt = resp_ExpiresAt k,
      crr_MaxBytes = resp_MaxBytes k,
      crr_MaxPendingSubmissions = resp_MaxPendingSubmissions k,
      crr_MaxPendingBytes = resp_MaxPendingBytes k\<rparr>"

definition created :: "config \<Rightarrow> create_drop_point_response \<Rightarrow> drop_point \<Rightarrow> bool" where
  "created cfg k dp \<longleftrightarrow>
     (\<exists>tid client ttl maxBytes now req. validateCreateRequest cfg req = Inr (ttl, maxBytes)
        \<and> issued tid client (secondsDuration ttl) maxBytes now k dp)
     \<and> Valid (resp_DisplayName k) \<and> has_prefix (resp_DropToken k) DropTokenPrefix
     \<and> has_prefix (resp_PickupToken k) PickupTokenPrefix"

lemma real_create_response:
  "triple (\<lambda>_. True) (HandleCreateDropPoint deps r) (\<lambda>resp w. \<forall>c. rs_Body resp = CreatedBody c \<longrightarrow>
     (\<exists>k dp. created (dep_Config deps) k dp \<and> row_of_drop_point dp \<in> set (drop_points (w_db w))
        \<and> c = answer_of (dep_Config deps) k))"
    (is "triple _ _ ?R")
  unfolding HandleCreateDropPoint_def createDropPoint_def answer_of_def [symmetric]
proof (rule triple_if, goal_cases)
  case 2
  have any: "triple (\<lambda>_. True) m (\<lambda>_ _. True)" for m :: "authenticated_api_token option result io"
    by (simp add: triple_def)
  have now: "triple (\<lambda>_. True) now_io (\<lambda>_ _. True)" by (simp add: triple_def)
  show ?case
  proof (rule triple_bind [OF any], intro triple_sum triple_option triple_if triple_prod, goal_cases)
    case (6 a auth v req u ttl maxBytes)
    have made: "rs_Body (case x of
          Inl err \<Rightarrow>
            if errors_is err ErrActiveDropPointQuotaExceeded
            then writeError 429 ''active_drop_point_quota_exceeded'' ''active drop point quota exceeded''
            else writeError 500 ''drop_point_create_failed'' ''could not create drop point''
        | Inr k \<Rightarrow> writeJSON 201 (CreatedBody (answer_of (dep_Config deps) k))) = CreatedBody c
      \<Longrightarrow> \<exists>k. x = Inr k \<and> c = answer_of (dep_Config deps) k" for x c
      by (auto simp: response_defs split: sum.splits if_splits)
    have "created (dep_Config deps) k dp"
      if "issued tid client (secondsDuration ttl) maxBytes now k dp
        \<and> Valid (resp_DisplayName k) \<and> has_prefix (resp_DropToken k) DropTokenPrefix
        \<and> has_prefix (resp_PickupToken k) PickupTokenPrefix" for tid client now k dp
      using that 6 unfolding created_def by blast
    with made show ?case
      by (intro triple_bind [OF now] triple_bind [OF real_allocate] triple_return) blast
  qed (auto intro!: triple_return simp: response_defs dest: create_errors)
qed (auto intro!: triple_return simp: response_defs)

section \<open>Progress\<close>

text \<open>A request that can be served is answered with a drop point.\<close>

lemma Valid_sql_length: "Valid name \<Longrightarrow> sql_length name \<noteq> 0"
proof -
  assume "Valid name"
  then obtain c s where "name = c # s" "is_lower c" by (cases name) (auto simp: Valid_def split: if_splits)
  moreover from this have "c \<noteq> CHR 0x00" by (auto simp: is_lower_def)
  ultimately show ?thesis by (simp add: sql_length_def)
qed

lemma secrets_run:
  assumes "w_entropy w = b1 @ b2 @ b3 @ rest" "length b1 = 32" "length b2 = 32" "length b3 = 32"
  shows "run_state generateDropPointSecrets w =
    (Inr (DropPointIDPrefix @ EncodeToString b1, DropTokenPrefix @ EncodeToString b2,
          PickupTokenPrefix @ EncodeToString b3), w\<lparr>w_entropy := rest\<rparr>)"
  using assms
  by (simp add: generateDropPointSecrets_def rand_read_def entropyBytes_def GenerateDropPointID_def
      GenerateDropToken_def GeneratePickupToken_def generate_def DropPointIDPrefix_def
      DropTokenPrefix_def PickupTokenPrefix_def)

lemma create_accepted:
  assumes quiet: "w_faults w = []" and cfg: "Validate parse (dep_Config deps) = []"
    and entropy: "w_entropy w = b1 @ b2 @ b3 @ rest" "length b1 = 32" "length b2 = 32" "length b3 = 32"
    and name: "w_names w = name # names" "Valid name"
    and token: "bearerToken (rq_Authorization r) = Some secret"
      "query_enabled_token (HashSecret secret) (w_db w) = Inr t" "\<not> is_blank (tok_ID t)"
    and request: "dep_Repository deps" "dep_ParseMediaType deps (rq_ContentType r) = Some (jsonContentType, ps)"
      "decodeCreateRequest (rq_Body r) = Inr req"
      "validateCreateRequest (dep_Config deps) req = Inr (ttl, maxBytes)"
    and quota: "maxActive = (case tok_MaxActiveDropPoints t of
          None \<Rightarrow> cfg_DefaultMaxActiveDropPoints (dep_Config deps) | Some n \<Rightarrow> n)"
      "int (active_count (w_db w) (tok_ID t) (clock_after 1 w)) < maxActive"
    and fresh: "\<forall>q \<in> set (drop_points (w_db w)). dpr_id q \<noteq> DropPointIDPrefix @ EncodeToString b1
      \<and> dpr_drop_token_hash q \<noteq> HashSecret (DropTokenPrefix @ EncodeToString b2)"
  shows "\<exists>k dp. resp_DropPointID k = DropPointIDPrefix @ EncodeToString b1
    \<and> resp_DropToken k = DropTokenPrefix @ EncodeToString b2
    \<and> resp_PickupToken k = PickupTokenPrefix @ EncodeToString b3
    \<and> issued (tok_ID t) (pv_Value (req_ClientName req)) (secondsDuration ttl) maxBytes (clock_after 1 w) k dp
    \<and> run_state (HandleCreateDropPoint deps r) w =
       (writeJSON 201 (CreatedBody (answer_of (dep_Config deps) k)),
        w\<lparr>w_db := (w_db w)\<lparr>drop_points := drop_points (w_db w) @ [row_of_drop_point dp]\<rparr>,
          w_now := clock_after 1 w, w_ticks := drop 1 (w_ticks w), w_entropy := rest, w_names := names\<rparr>)"
proof -
  let ?now = "clock_after 1 w"
  let ?k = "\<lambda>e. \<lparr>resp_DropPointID = DropPointIDPrefix @ EncodeToString b1, resp_DisplayName = name,
    resp_DropToken = DropTokenPrefix @ EncodeToString b2,
    resp_PickupToken = PickupTokenPrefix @ EncodeToString b3, resp_ExpiresAt = e,
    resp_MaxBytes = maxBytes, resp_MaxPendingSubmissions = maxPendingSubmissions,
    resp_MaxPendingBytes = wrap64 (maxBytes * maxPendingSubmissions)\<rparr>"
  note v = valid_config [OF cfg] and n = validated_create [OF request(4)]
  have ttl: "0 < secondsDuration ttl"
    using secondsDuration_exact [of ttl] n(1,2) v(4) by (simp add: second_def)
  have bytes: "wrap64 (maxBytes * maxPendingSubmissions) = maxBytes * 10"
    using limit_exact(2) [of maxBytes] n(3,4) v(7) by simp
  have nonblank: "\<not> is_blank (DropPointIDPrefix @ EncodeToString b1)"
    by (simp add: DropPointIDPrefix_def not_blank_letter)
  obtain dp where dp: "New \<lparr>cr_ID = DropPointIDPrefix @ EncodeToString b1, cr_APITokenID = tok_ID t,
      cr_ClientName = pv_Value (req_ClientName req),
      cr_DisplayName = name, cr_DropTokenHash = HashSecret (DropTokenPrefix @ EncodeToString b2),
      cr_PickupTokenHash = HashSecret (PickupTokenPrefix @ EncodeToString b3),
      cr_TTL = secondsDuration ttl, cr_MaxBytes = maxBytes,
      cr_MaxPendingSubmissions = maxPendingSubmissions,
      cr_MaxPendingBytes = wrap64 (maxBytes * maxPendingSubmissions)\<rparr> ?now = Inr dp"
    and fields: "dp_ID dp = DropPointIDPrefix @ EncodeToString b1" "dp_APITokenID dp = tok_ID t"
      "dp_DropTokenHash dp = HashSecret (DropTokenPrefix @ EncodeToString b2)" "dp_DisplayName dp = name"
    using ttl bytes n(3) nonblank token(3) Valid_not_blank [OF name(2)]
    by (simp add: New_def maxPendingSubmissions_def)
  have insert: "stmt_insert_drop_point dp maxActive ?now (w_db w) =
      Inr (1, (w_db w)\<lparr>drop_points := drop_points (w_db w) @ [row_of_drop_point dp]\<rparr>)"
    using quota(2) fresh Valid_sql_length [OF name(2)]
    by (auto simp: stmt_insert_drop_point_def fields list_ex_iff)
  have positive: "0 < maxActive" using quota(2) by linarith
  let ?w1 = "w\<lparr>w_now := ?now, w_ticks := drop 1 (w_ticks w)\<rparr>"
  let ?w2 = "w\<lparr>w_db := (w_db w)\<lparr>drop_points := drop_points (w_db w) @ [row_of_drop_point dp]\<rparr>,
          w_now := ?now, w_ticks := drop 1 (w_ticks w), w_entropy := rest, w_names := names\<rparr>"
  have auth: "run_state (authenticateAPIToken (cfg_DefaultMaxActiveDropPoints (dep_Config deps)) (rq_Authorization r)) w
      = (Inr (Some \<lparr>auth_ID = tok_ID t, auth_MaxActiveDropPoints = maxActive\<rparr>), w)"
    using quiet token quota(1)
    by (simp add: authenticateAPIToken_def repo_FindEnabledAPITokenBySecretHash_def no_fault)
  have alloc: "run_state (allocate 3 (tok_ID t) maxActive (pv_Value (req_ClientName req))
        (secondsDuration ttl) maxBytes ?now) ?w1 = (Inr (?k (dp_ExpiresAt dp)), ?w2)"
    using quiet secrets_run [of ?w1 b1 b2 b3 rest] entropy name dp insert positive
    by (simp add: numeral_3_eq_3 generate_name_def Generate_def Let_def
        repo_CreateDropPointWithinQuota_def no_fault)
  have run: "run_state (HandleCreateDropPoint deps r) w =
      (writeJSON 201 (CreatedBody (answer_of (dep_Config deps) (?k (dp_ExpiresAt dp)))), ?w2)"
    using request auth alloc now_io_run [of w]
    by (simp add: HandleCreateDropPoint_def createDropPoint_def answer_of_def)
  show ?thesis
    by (rule exI [of _ "?k (dp_ExpiresAt dp)"], rule exI [of _ dp])
      (use run dp in \<open>simp add: issued_def\<close>)
qed

section \<open>What the client is told\<close>

text \<open>C28. When the relay answers a creation request with a drop point, whatever faults occurred, that
  drop point is stored and open with the ID, name, expiry and limits of the response; the drop link
  carries a token and the response a pickup token that verify against its stored hashes, which are
  all the database keeps of them. Its limit is within the configured maximum, its quota is exactly
  ten payloads of that size and its life at most the configured maximum.\<close>

theorem created_response_is_sound:
  assumes "Validate parse (dep_Config deps) = []"
    and "run_state (HandleCreateDropPoint deps r) w = (resp, w')" "rs_Body resp = CreatedBody c"
  shows "\<exists>dp tok. row_of_drop_point dp \<in> set (drop_points (w_db w')) \<and> dp_Status dp = StatusOpen
    \<and> dp_ID dp = crr_DropPointID c \<and> dp_DisplayName dp = crr_DisplayName c \<and> Valid (crr_DisplayName c)
    \<and> crr_DropLink c = dropLink (cfg_BaseURL (dep_Config deps)) tok
    \<and> has_prefix tok DropTokenPrefix \<and> verifySecretHash tok (dp_DropTokenHash dp)
    \<and> has_prefix (crr_PickupToken c) PickupTokenPrefix
    \<and> verifySecretHash (crr_PickupToken c) (dp_PickupTokenHash dp)
    \<and> crr_ExpiresAt c = dp_ExpiresAt dp \<and> dp_CreatedAt dp < dp_ExpiresAt dp
    \<and> dp_ExpiresAt dp \<le> dp_CreatedAt dp + cfg_MaxTTLSeconds (dep_Config deps) * second
    \<and> crr_MaxBytes c = dp_MaxBytes dp \<and> dp_MaxBytes dp \<le> cfg_MaxBytes (dep_Config deps)
    \<and> crr_MaxPendingSubmissions c = dp_MaxPendingSubmissions dp \<and> dp_MaxPendingSubmissions dp = 10
    \<and> crr_MaxPendingBytes c = dp_MaxPendingBytes dp \<and> dp_MaxPendingBytes dp = 10 * dp_MaxBytes dp"
proof -
  from tripleD [OF real_create_response _ assms(2)] assms(3) obtain k dp where
    k: "created (dep_Config deps) k dp" "row_of_drop_point dp \<in> set (drop_points (w_db w'))"
      "c = answer_of (dep_Config deps) k" by blast
  then obtain tid client ttl maxBytes now req where
    i: "validateCreateRequest (dep_Config deps) req = Inr (ttl, maxBytes)"
      "issued tid client (secondsDuration ttl) maxBytes now k dp" by (auto simp: created_def)
  show ?thesis
    by (rule exI [of _ dp], rule exI [of _ "resp_DropToken k"])
      (use k issued_exact [OF i(2) assms(1) i(1)] validated_create [OF i(1)] in
        \<open>simp add: answer_of_def created_def verifySecretHash_def\<close>)
qed

section \<open>A relay with a drop point\<close>

text \<open>A relay with one API token and nothing else, and the creation of its first drop point.\<close>

definition sample_start :: world where
  "sample_start =
     (world_of \<lparr>drop_points = [], submissions = [], api_tokens = [sample_token_row]\<rparr>)
       \<lparr>w_fs := [([DropPointsDirName], Dir)], w_entropy := replicate 112 CHR 0x00,
        w_names := [''calm-otter'']\<rparr>"

definition sample_create :: request where
  "sample_create =
     (sample_request ''POST'' [''api'', ''drop-points''] ''s'')\<lparr>rq_Body := (''{}'', None)\<rparr>"

definition sample_dp_id :: go_string where
  "sample_dp_id = DropPointIDPrefix @ EncodeToString (replicate 32 CHR 0x00)"
definition sample_drop_token :: go_string where
  "sample_drop_token = DropTokenPrefix @ EncodeToString (replicate 32 CHR 0x00)"
definition sample_pickup_token :: go_string where
  "sample_pickup_token = PickupTokenPrefix @ EncodeToString (replicate 32 CHR 0x00)"

lemma sample_start_simps [simp]:
  "w_faults sample_start = []" "w_fs sample_start = [([DropPointsDirName], Dir)]" "drop_points (w_db sample_start) = []"
  "submissions (w_db sample_start) = []" "api_tokens (w_db sample_start) = [sample_token_row]"
  "w_now sample_start = 7" "w_ticks sample_start = []"
  by (simp_all add: sample_start_def world_of_def)

lemma sample_start_new: "new_relay sample_start"
  using sample_rows_wf(3)
  by (simp add: new_relay_def db_inv_def keys_inv_def fk_inv_def rows_inv_def quota_inv_def)

lemma sample_start_created:
  "\<exists>k dp. resp_DropPointID k = sample_dp_id \<and> resp_DropToken k = sample_drop_token
    \<and> resp_PickupToken k = sample_pickup_token
    \<and> issued ''desktop'' [] (secondsDuration DefaultTTLSeconds) DefaultMaxBytes 7 k dp
    \<and> run_state (HandleCreateDropPoint sample_deps sample_create) sample_start =
       (writeJSON 201 (CreatedBody (answer_of Default k)),
        sample_start\<lparr>w_db := (w_db sample_start)\<lparr>drop_points := [row_of_drop_point dp]\<rparr>,
          w_entropy := replicate 16 CHR 0x00, w_names := []\<rparr>)"
proof -
  let ?z = "replicate 32 CHR 0x00"
  have clock: "clock_after (Suc 0) sample_start = 7" by (simp add: clock_after_def)
  have still: "sample_start\<lparr>w_db := d, w_now := 7, w_ticks := [], w_entropy := es, w_names := ns\<rparr>
      = sample_start\<lparr>w_db := d, w_entropy := es, w_names := ns\<rparr>" for d es ns
    by (simp add: sample_start_def world_of_def)
  have entropy: "w_entropy sample_start = ?z @ ?z @ ?z @ replicate 16 CHR 0x00"
    by (simp add: sample_start_def flip: replicate_add)
  have names: "w_names sample_start = [''calm-otter'']" "Valid ''calm-otter''"
    by (simp add: sample_start_def, code_simp)
  have secret: "bearerToken (rq_Authorization sample_create) = Some ''s''" by code_simp
  have token: "query_enabled_token (HashSecret ''s'') (w_db sample_start) =
      Inr \<lparr>tok_ID = ''desktop'', tok_Enabled = True, tok_MaxActiveDropPoints = Some 3,
           tok_CreatedAt = 1, tok_DisabledAt = None\<rparr>"
    by (simp add: query_enabled_token_def scanAPIToken_def) (simp add: sample_token_row_def)
  have media: "sample_media (rq_ContentType sample_create) = Some (jsonContentType, [])" by code_simp
  have body: "decodeCreateRequest (rq_Body sample_create) = Inr zero_create_request"
  proof -
    have all: "MaxBytesReader maxCreateRequestBytes (''{}'', None) = (''{}'', None)"
      by (simp add: MaxBytesReader_def maxCreateRequestBytes_def)
    have decoded: "decode_body (''{}'', None) = Inr (JObject [], [])" "decode_body ([], None) = Inl None"
      "utf8_valid (raw_text ''{}'' [])"
      "decode_struct create_fields assign_create (JObject []) zero_create_request = Some zero_create_request"
      by code_simp+
    have rq: "rq_Body sample_create = (''{}'', None)" by (simp add: sample_create_def)
    show ?thesis unfolding rq decodeCreateRequest_def all using decoded by simp
  qed
  have numbers: "validateCreateRequest Default zero_create_request = Inr (DefaultTTLSeconds, DefaultMaxBytes)"
    by code_simp
  have client: "pv_Value (req_ClientName zero_create_request) = []" by code_simp
  have blank: "\<not> is_blank ''desktop''" by code_simp
  from create_accepted [of sample_start sample_url sample_deps ?z ?z ?z "replicate 16 CHR 0x00"
      "''calm-otter''" "[]" sample_create "''s''" _ "[]" zero_create_request DefaultTTLSeconds
      DefaultMaxBytes 3, OF _ _ entropy _ _ _ names secret token]
    default_config_valid media body numbers blank
  show ?thesis
    by (simp add: clock still active_count_def client sample_dp_id_def sample_drop_token_def
        sample_pickup_token_def)
qed

lemma created_response_is_sound_witness:
  "\<exists>c (dp :: drop_point) tok. rs_Body (fst (run_state (HandleCreateDropPoint sample_deps sample_create) sample_start)) = CreatedBody c
    \<and> crr_DropLink c = dropLink DefaultBaseURL tok \<and> verifySecretHash tok (dp_DropTokenHash dp)
    \<and> crr_ExpiresAt c = dp_ExpiresAt dp"
proof -
  obtain k w' where run: "run_state (HandleCreateDropPoint sample_deps sample_create) sample_start =
      (writeJSON 201 (CreatedBody (answer_of Default k)), w')"
    using sample_start_created by blast
  have body: "rs_Body (writeJSON 201 (CreatedBody (answer_of Default k))) = CreatedBody (answer_of Default k)"
    by (simp add: writeJSON_def)
  have valid: "Validate sample_url (dep_Config sample_deps) = []" using default_config_valid by simp
  have url: "cfg_BaseURL (dep_Config sample_deps) = DefaultBaseURL" by (simp add: Default_def)
  from created_response_is_sound [OF valid run body, unfolded url] obtain dp :: drop_point and tok where
    "crr_DropLink (answer_of Default k) = dropLink DefaultBaseURL tok"
    "verifySecretHash tok (dp_DropTokenHash dp)" "crr_ExpiresAt (answer_of Default k) = dp_ExpiresAt dp"
    by blast
  then show ?thesis unfolding run fst_conv body by blast
qed

end
