(* ===== verification/Relay_Example.thy ===== *)
theory Relay_Example
  imports Relay_Create Relay_Reading Routing_Facts
begin

text \<open>
  Running an endpoint through the router, and a reachable relay on which the properties are
  instantiated: a fresh relay creates a drop point and accepts an upload to it.
\<close>

section \<open>Endpoints through the router\<close>

lemma router_run:
  assumes "rq_Method r \<noteq> MethodOptions"
    and "run_state (answer deps r (decide (rq_Method r) (rq_Path r))) w = (resp, w')"
  shows "\<exists>h line. run_state (NewRouterWithDependencies deps r) w = ((with_header h resp, line), w')"
proof -
  obtain resp0 p w0 where mux: "run_state (serve_mux deps r) w = ((resp0, p), w0)" by (metis surj_pair)
  with serve_mux_found [OF mux] assms(2) have "resp0 = resp" "w0 = w'" by (simp_all add: found_decided)
  with mux assms(1) show ?thesis
    by (auto simp: NewRouterWithDependencies_def LogRequests_def SetNoSniff_def ApplyCORS_def Let_def
        with_header_def intro!: exI [of _ "[NoSniff] @ cors_header a b" for a b])
qed

lemma router_step:
  assumes "rq_Method r \<noteq> MethodOptions"
    and "run_state (answer deps r (decide (rq_Method r) (rq_Path r))) w = (resp, w')"
  shows "relay_step w w'"
  using router_run [OF assms] by (blast intro: relay_step.request)

lemma methods [simp]:
  "''POST'' \<noteq> MethodOptions" "''PUT'' \<noteq> MethodOptions" "''DELETE'' \<noteq> MethodOptions"
  "MethodGet \<noteq> MethodOptions"
  by (simp_all add: MethodOptions_def MethodGet_def)

section \<open>An upload to the drop point of the sample relay\<close>

text \<open>The relay after the creation.\<close>

definition sample_pickup_request :: request where
  "sample_pickup_request =
     sample_request MethodGet [''api'', ''drop-points'', sample_dp_id, ''submissions'', sample_id, ''pickup'']
       sample_pickup_token"

lemma sample_created:
  obtains w dp where "reachable w" "w_faults w = []" "w_fs w = [([DropPointsDirName], Dir)]" "w_now w = 7" "w_ticks w = []"
    "length (w_entropy w) = 16" "submissions (w_db w) = []"
    "drop_point_at (w_db w) sample_dp_id = Some dp" "dp_Status dp = StatusOpen" "7 < dp_ExpiresAt dp"
    "dp_DropTokenHash dp = HashSecret sample_drop_token"
    "dp_PickupTokenHash dp = HashSecret sample_pickup_token"
    "dp_MaxBytes dp = DefaultMaxBytes" "dp_MaxPendingSubmissions dp = 10"
    "dp_MaxPendingBytes dp = 10 * DefaultMaxBytes"
proof -
  obtain k dp where k: "resp_DropPointID k = sample_dp_id" "resp_DropToken k = sample_drop_token"
      "resp_PickupToken k = sample_pickup_token"
      "issued ''desktop'' [] (secondsDuration DefaultTTLSeconds) DefaultMaxBytes 7 k dp"
    and run: "run_state (HandleCreateDropPoint sample_deps sample_create) sample_start =
       (writeJSON 201 (CreatedBody (answer_of Default k)),
        sample_start\<lparr>w_db := (w_db sample_start)\<lparr>drop_points := [row_of_drop_point dp]\<rparr>,
          w_entropy := replicate 16 CHR 0x00, w_names := []\<rparr>)"
    using sample_start_created by blast
  let ?w = "sample_start\<lparr>w_db := (w_db sample_start)\<lparr>drop_points := [row_of_drop_point dp]\<rparr>,
          w_entropy := replicate 16 CHR 0x00, w_names := []\<rparr>"
  have rq: "rq_Method sample_create = ''POST''" "rq_Path sample_create = [''api'', ''drop-points'']"
    by (simp_all add: sample_create_def sample_request_def)
  have step: "relay_step sample_start ?w"
    by (rule router_step [where deps = sample_deps and r = sample_create])
      (use run in \<open>simp_all add: rq writing_def answer_def serve_def\<close>)
  have "reachable sample_start"
    unfolding reachable_def using sample_start_new relay_path.path_refl by blast
  then have "reachable ?w" using step by (rule reachable_step)
  have num: "validateCreateRequest Default zero_create_request = Inr (DefaultTTLSeconds, DefaultMaxBytes)"
    by code_simp
  note fields = issued_exact [OF k(4) default_config_valid num, unfolded k(1-3)]
  have created: "dp_CreatedAt dp = 7" using k(4) by (auto simp: issued_def New_def split: if_splits)
  have "drop_point_at (w_db ?w) sample_dp_id = Some dp"
    using fields by (simp add: drop_point_at_def row_of_drop_point_def drop_point_of_row_def)
  with fields created \<open>reachable ?w\<close> show thesis
    by (intro that [of ?w dp]) simp_all
qed

lemma sample_place: "clear_place i j [([DropPointsDirName], Dir)]"
proof -
  have "\<not> below (submissionDir i j) [DropPointsDirName]" "\<not> below (submissionDir i j) []"
    by (simp_all add: submissionDir_def dropDir_def)
  then show ?thesis by (auto simp: clear_place_def fs_get_def dropDir_def)
qed

lemma sample_upload_facts:
  assumes "submissions d = []" "dp_MaxBytes dp = DefaultMaxBytes" "dp_MaxPendingSubmissions dp = 10"
    "dp_MaxPendingBytes dp = 10 * DefaultMaxBytes"
  shows "validateDropPointID sample_dp_id = None"
    "int (pending_count d sample_dp_id) < dp_MaxPendingSubmissions dp"
    "ready_bytes d sample_dp_id + int (length ''xyz'') \<le> dp_MaxPendingBytes dp"
    "dropRequestSizeLimit (dp_MaxBytes dp) = Inr (DefaultMaxBytes + framingBytes)"
    "copy_spec [Read ''xyz'' ReadEOF] (dp_MaxBytes dp) = Inr ''xyz''"
proof -
  show "validateDropPointID sample_dp_id = None" by code_simp
  show "int (pending_count d sample_dp_id) < dp_MaxPendingSubmissions dp"
    "ready_bytes d sample_dp_id + int (length ''xyz'') \<le> dp_MaxPendingBytes dp"
    using assms by (simp_all add: pending_count_def ready_bytes_def count_where_def sum_where_def DefaultMaxBytes_def)
  show "dropRequestSizeLimit (dp_MaxBytes dp) = Inr (DefaultMaxBytes + framingBytes)"
    using assms(2) limit_exact(1) [of DefaultMaxBytes] by (simp add: DefaultMaxBytes_def config_bounds)
  show "copy_spec [Read ''xyz'' ReadEOF] (dp_MaxBytes dp) = Inr ''xyz''"
    using assms(2) by (simp add: DefaultMaxBytes_def)
qed

lemma sample_uploaded:
  obtains v w dp s where "reachable v" "reachable w"
    "run_state (HandleSubmitDrop sample_deps (sample_upload sample_drop_token) sample_drop_token sample_id) v
       = (submitted sample_id SubmissionStatusReady, w)"
    "drop_point_at (w_db v) sample_dp_id = Some dp" "submission_at (w_db v) sample_dp_id sample_id = None"
    "w_faults w = []" "w_now w = 7" "w_ticks w = []"
    "drop_point_at (w_db w) sample_dp_id = Some dp" "dp_Status dp = StatusOpen" "7 < dp_ExpiresAt dp"
    "dp_DropTokenHash dp = HashSecret sample_drop_token"
    "dp_PickupTokenHash dp = HashSecret sample_pickup_token"
    "submission_at (w_db w) sample_dp_id sample_id = Some s" "sub_Status s = SubmissionStatusReady"
    "sub_EncryptedSize s = 3" "fs_get (w_fs w) [DropPointsDirName] \<noteq> None"
proof -
  obtain v dp where v: "reachable v" "w_faults v = []" "w_fs v = [([DropPointsDirName], Dir)]" "w_now v = 7" "w_ticks v = []"
    "length (w_entropy v) = 16" "submissions (w_db v) = []"
    "drop_point_at (w_db v) sample_dp_id = Some dp" "dp_Status dp = StatusOpen" "7 < dp_ExpiresAt dp"
    "dp_DropTokenHash dp = HashSecret sample_drop_token"
    "dp_PickupTokenHash dp = HashSecret sample_pickup_token"
    "dp_MaxBytes dp = DefaultMaxBytes" "dp_MaxPendingSubmissions dp = 10"
    "dp_MaxPendingBytes dp = 10 * DefaultMaxBytes"
    by (rule sample_created)
  have absent: "submission_at (w_db v) sample_dp_id sample_id = None" using v(7) by (simp add: submission_at_def)
  have clock: "clock_after 2 v = 7" using v(4,5) by (simp add: clock_after_def)
  note upload = sample_upload_facts [OF v(7,13,14,15)]
  from submit_accepted [where deps = sample_deps and r = "sample_upload sample_drop_token",
      OF v(2) _ reachable_inv [OF v(1)] v(8,11,9) _ upload(1) sample_id_valid absent upload(2,3,4) _
        sample_envelope_valid upload(5)]
    sample_upload_parts v(3,6,10) clock sample_place
  obtain w s where w:
    "run_state (HandleSubmitDrop sample_deps (sample_upload sample_drop_token) sample_drop_token sample_id) v
       = (submitted sample_id SubmissionStatusReady, w)"
    "submission_at (w_db w) sample_dp_id sample_id = Some s" "sub_Status s = SubmissionStatusReady"
    "sub_EncryptedSize s = 3" "drop_point_at (w_db w) = drop_point_at (w_db v)"
    "w_faults w = []" "w_ticks w = drop 2 (w_ticks v)" "w_now w = clock_after 2 v"
    "fs_frame (submissionDir sample_dp_id sample_id) (w_fs v) (w_fs w)"
    by fastforce
  have "\<not> below (submissionDir sample_dp_id sample_id) [DropPointsDirName]"
    by (simp add: submissionDir_def dropDir_def)
  with w(9) v(3) have dir: "fs_get (w_fs w) [DropPointsDirName] \<noteq> None"
    by (auto simp: fs_frame_def fs_get_def)
  have rq: "rq_Method (sample_upload sample_drop_token) = ''PUT''"
    "rq_Path (sample_upload sample_drop_token) = [''api'', ''drops'', sample_drop_token, ''submissions'', sample_id]"
    by (simp_all add: sample_upload_def sample_request_def)
  have slash: "sample_drop_token \<noteq> ''/''" "sample_id \<noteq> ''/''" by code_simp+
  have "relay_step v w"
    by (rule router_step [where deps = sample_deps and r = "sample_upload sample_drop_token"])
      (use w(1) slash in \<open>simp_all add: rq writing_def answer_def serve_def\<close>)
  with v(1) have "reachable w" by (rule reachable_step)
  with v w clock absent dir show thesis by (intro that [of v w dp s]) simp_all
qed

end
