(* ===== verification/Receiver_Properties.thy ===== *)
theory Receiver_Properties
  imports Relay_Properties Cleanup_Success
begin

text \<open>
  What the holder of a pickup token achieves by acknowledging and closing, and that nobody achieves
  or learns anything without that token.
\<close>

section \<open>Without the token\<close>

definition for_drop_point :: "go_string \<Rightarrow> endpoint \<Rightarrow> bool" where
  "for_drop_point i e \<longleftrightarrow>
     (case e of
        Status k \<Rightarrow> k = i
      | Submissions k \<Rightarrow> k = i
      | Pickup k j \<Rightarrow> k = i
      | Acknowledge k j \<Rightarrow> k = i
      | CloseDropPoint k \<Rightarrow> k = i
      | _ \<Rightarrow> False)"

definition refusal :: "response \<Rightarrow> bool" where
  "refusal resp \<longleftrightarrow>
     rs_Status resp \<in> {401, 404, 500, 503} \<and> (rs_Body resp = NoBody \<or> (\<exists>c m. rs_Body resp = ErrorBody c m))"

lemma refusal_errors [simp]:
  "refusal (writeError st c m) \<longleftrightarrow> st \<in> {401, 404, 500, 503}"
  by (simp add: refusal_def response_defs)

lemma refusal_NoBody: "refusal resp \<Longrightarrow> refusal (resp\<lparr>rs_Body := NoBody\<rparr>)"
  by (simp add: refusal_def)

lemma authorize_refused:
  assumes wrong: "\<forall>q secret. q \<in> set (drop_points d) \<and> dpr_id q = i
      \<and> bearerToken (rq_Authorization r) = Some secret \<longrightarrow> \<not> verifySecretHash secret (dpr_pickup_token_hash q)"
  shows "triple (\<lambda>w. w_db w = d \<and> w_fs w = t) (authorizePickup deps r i)
    (\<lambda>x w. w_db w = d \<and> w_fs w = t \<and> (\<exists>resp. x = Inl resp \<and> refusal resp))"
proof -
  let ?still = "\<lambda>w. w_db w = d \<and> w_fs w = t"
  have keep: "keeps (\<lambda>w w'. w_db w' = w_db w \<and> w_fs w' = w_fs w) m \<Longrightarrow> holds ?still m" for m :: "'b io"
    by (erule triple_keeps) auto
  have find: "triple ?still (repo_FindDropPointByID i) (\<lambda>x w. ?still w
      \<and> (\<forall>dp. x = Inr dp \<longrightarrow> (\<exists>q \<in> set (drop_points d). dpr_id q = i \<and> dp = drop_point_of_row q)))"
  proof -
    have "holds ?still (repo_FindDropPointByID i)"
      by (rule triple_keeps [of "\<lambda>w w'. w_db w' = w_db w \<and> w_fs w' = w_fs w"])
        (unfold repo_FindDropPointByID_def, intro still.keeps_prims keeps_cases, auto)
    from triple_real [OF this real_find_by_id] show ?thesis by (rule triple_weaken) auto
  qed
  have auth: "triple ?still (repo_AuthorizePickupToken i (HashSecret secret) now)
      (\<lambda>x w. ?still w \<and> (\<exists>e. x = Inl e))" if "bearerToken (rq_Authorization r) = Some secret" for secret now
    unfolding repo_AuthorizePickupToken_def
  proof (rule triple_bind [OF find], intro triple_sum triple_if, goal_cases)
    case (3 x dp)
    then have "\<not> (\<exists>q \<in> set (drop_points d). dpr_id q = i \<and> dp = drop_point_of_row q)"
      using wrong that by (auto simp: EqualHash_def verifySecretHash_def drop_point_of_row_def split: if_splits)
    with 3 show ?case by (auto simp: triple_def)
  qed (auto intro!: triple_return)
  have clock: "holds ?still now_io"
    by (rule triple_keeps [OF still.keeps_prims(7)]) auto
  show ?thesis
    unfolding authorizePickup_def
    by (intro triple_if triple_option triple_return triple_bind [OF clock] triple_bind [OF auth])
      (auto split: sum.splits)
qed

text \<open>C30. Without the pickup token of a drop point nothing can be done to it and nothing is learned of
  it: whatever the request carries instead, and whatever faults occur, each of its five endpoints
  answers 401, 404, 500 or 503 with no content but an error, and leaves the database and the files
  as they were.\<close>

theorem wrong_pickup_token_is_refused:
  assumes "for_drop_point i e"
    and "\<forall>q secret. q \<in> set (drop_points (w_db w)) \<and> dpr_id q = i
      \<and> bearerToken (rq_Authorization r) = Some secret \<longrightarrow> \<not> verifySecretHash secret (dpr_pickup_token_hash q)"
    and "run_state (serve deps r e) w = (resp, w')"
  shows "w_db w' = w_db w \<and> w_fs w' = w_fs w
    \<and> rs_Status resp \<in> {401, 404, 500, 503}
    \<and> (rs_Body resp = NoBody \<or> (\<exists>c m. rs_Body resp = ErrorBody c m))"
proof -
  let ?still = "\<lambda>u. w_db u = w_db w \<and> w_fs u = w_fs w"
  let ?S = "\<lambda>resp u. w_db u = w_db w \<and> w_fs u = w_fs w \<and> refusal resp"
  have auth: "triple ?still (authorized deps r i f) ?S" for f
    unfolding authorized_def
  proof (rule triple_bind [OF authorize_refused [OF assms(2)]], rule triple_sum, goal_cases)
    case (2 x dp)
    then show ?case by (simp add: triple_def)
  qed (auto intro: triple_return)
  have head: "triple ?still (getOrHead h r) ?S" if "triple ?still (h r) ?S" for h
    unfolding getOrHead_def
    by (rule triple_bind [OF that], rule triple_return) (auto intro: refusal_NoBody)
  have "triple ?still (serve deps r e) ?S"
    using assms(1)
    by (cases e)
      (auto simp: for_drop_point_def serve_def HandleGetDropPointStatus_def HandleListSubmissions_def
        HandlePickupSubmission_def HandleAcknowledgeSubmission_def HandleCloseDropPoint_def
        authorized_open_def intro!: head auth)
  from tripleD [OF this _ assms(3)] show ?thesis by (simp add: refusal_def)
qed

lemma wrong_pickup_token_is_refused_witness:
  "w_db (snd (run_state (serve sample_deps (sample_request ''DELETE'' [] []) (CloseDropPoint ''dp_a''))
      (world_of sample_db))) = sample_db"
proof -
  have "bearerToken (rq_Authorization (sample_request ''DELETE'' [] [])) = None" by code_simp
  with wrong_pickup_token_is_refused [of "''dp_a''" "CloseDropPoint ''dp_a''" "world_of sample_db"
      "sample_request ''DELETE'' [] []" sample_deps, OF _ _ surjective_pairing]
  show ?thesis by (simp add: for_drop_point_def)
qed

section \<open>Acknowledging\<close>

lemma authorize_id:
  "triple (\<lambda>_. True) (authorizePickup deps r i)
     (\<lambda>x w. \<forall>dp. x = Inr dp \<longrightarrow> dp_ID dp = i \<and> (dp_Status dp \<noteq> StatusOpen \<longrightarrow> shut i (w_db w)))"
proof -
  have clock: "triple (\<lambda>_. True) now_io (\<lambda>_ _. True)" by (simp add: triple_def)
  show ?thesis
    unfolding authorizePickup_def
    by (intro triple_if triple_option triple_return triple_bind [OF clock] triple_bind [OF real_authorize])
      (auto split: sum.splits)
qed

lemma refused_not_204 [simp]:
  "rs_Status (writeSubmissionUnavailable e) \<noteq> 204" "rs_Status (writeError st c m) = st"
  by (simp_all add: writeSubmissionUnavailable_def response_defs)

lemma authorize_not_204:
  "triple (\<lambda>_. True) (authorizePickup deps r i) (\<lambda>x _. \<forall>resp. x = Inl resp \<longrightarrow> rs_Status resp \<noteq> 204)"
proof -
  have any: "triple (\<lambda>_. True) m (\<lambda>_ _. True)" for m :: "'b io" by (simp add: triple_def)
  show ?thesis
    unfolding authorizePickup_def
    by (intro triple_if triple_option triple_return triple_bind [OF any]) (auto split: sum.splits)
qed

lemma clear_statements:
  assumes "update_submissions P clear_pointers d = Inr (n, d')"
  shows "drop_points d' = drop_points d" "has_status i j st d \<Longrightarrow> has_status i j st d'"
    "s \<in> set (submissions d') \<Longrightarrow> P s \<Longrightarrow> (\<And>r. P (clear_pointers r) = P r) \<Longrightarrow> \<not> has_pointers s"
proof -
  from assms have d': "d' = d\<lparr>submissions := update_where P clear_pointers (submissions d)\<rparr>"
    by (auto simp: update_submissions_def)
  show "drop_points d' = drop_points d" by (simp add: d')
  show "has_status i j st d'" if h: "has_status i j st d"
  proof -
    obtain q where q: "q \<in> set (submissions d)" "sr_key q = (i, j)" "sr_status q = st"
      using h by (auto simp: has_status_def)
    then show ?thesis
      unfolding has_status_def d'
      by (intro bexI [of _ "if P q then clear_pointers q else q"])
        (auto simp: set_update_where clear_pointers_def sr_key_def)
  qed
  show "\<not> has_pointers s" if "s \<in> set (submissions d')" "P s" "\<And>r. P (clear_pointers r) = P r"
  proof -
    have "\<not> has_pointers (clear_pointers r)" for r by (simp add: has_pointers_def clear_pointers_def)
    moreover from that have "(\<exists>q. s = clear_pointers q) \<or> \<not> P s"
      by (auto simp: d' set_update_where split: if_splits)
    ultimately show ?thesis using that(2) by metis
  qed
qed

lemma triple_success:
  assumes "holds P m" "\<And>w w'. P w \<Longrightarrow> run_state m w = (Inr (), w') \<Longrightarrow> Q w'"
  shows "triple P m (\<lambda>x w. P w \<and> (x = Inr () \<longrightarrow> Q w))"
  using assms unfolding triple_def by blast

lemma deleted_files:
  "triple (\<lambda>w. D (w_db w)) (DeleteSubmission i j) (\<lambda>x w. D (w_db w) \<and> (x = Inr () \<longrightarrow> gone (submissionDir i j) w))"
  "triple (\<lambda>w. D (w_db w)) (DeleteDropPoint i) (\<lambda>x w. D (w_db w) \<and> (x = Inr () \<longrightarrow> gone (dropDir i) w))"
proof -
  have "holds (\<lambda>w. D (w_db w)) (DeleteSubmission i j)"
    by (rule triple_keeps [OF keeps_deletes(2)]) (simp add: blob_frame_def)
  then show "triple (\<lambda>w. D (w_db w)) (DeleteSubmission i j)
      (\<lambda>x w. D (w_db w) \<and> (x = Inr () \<longrightarrow> gone (submissionDir i j) w))"
    by (rule triple_success) (rule DeleteSubmission_gone)
  have "holds (\<lambda>w. D (w_db w)) (DeleteDropPoint i)"
    by (rule triple_keeps [OF keeps_deletes(1)]) (simp add: blob_frame_def)
  then show "triple (\<lambda>w. D (w_db w)) (DeleteDropPoint i)
      (\<lambda>x w. D (w_db w) \<and> (x = Inr () \<longrightarrow> gone (dropDir i) w))"
    by (rule triple_success) (rule DeleteDropPoint_gone)
qed

text \<open>A clearing statement that reported success, with what it keeps.\<close>

lemma cleared_files:
  assumes keep: "\<And>d n d'. update_submissions P clear_pointers d = Inr (n, d') \<Longrightarrow> D d \<Longrightarrow> D d'"
    and neutral: "\<And>r. P (clear_pointers r) = P r"
  shows "triple (\<lambda>w. D (w_db w) \<and> gone p w)
    (do { r \<leftarrow> sql_exec (update_submissions P clear_pointers);
          State_Monad.return (case r of Inl err \<Rightarrow> Inl err | Inr _ \<Rightarrow> Inr ()) })
    (\<lambda>x w. D (w_db w) \<and> gone p w
       \<and> (x = Inr () \<longrightarrow> (\<forall>s \<in> set (submissions (w_db w)). P s \<longrightarrow> \<not> has_pointers s)))"
proof (rule tripleI)
  fix w :: world and x :: "unit result" and w'
  assume pre: "D (w_db w) \<and> gone p w"
    and run: "run_state (do { r \<leftarrow> sql_exec (update_submissions P clear_pointers);
          State_Monad.return (case r of Inl err \<Rightarrow> Inl err | Inr _ \<Rightarrow> Inr ()) }) w = (x, w')"
  obtain y where y: "run_state (sql_exec (update_submissions P clear_pointers)) w = (y, w')"
    "x = (case y of Inl err \<Rightarrow> Inl err | Inr _ \<Rightarrow> Inr ())"
    using run by (auto split: prod.splits)
  note still = sql_exec_still [OF y(1)]
  have D: "D (w_db w')"
    using still pre keep by (cases "w_db w' = w_db w") auto
  have "\<forall>s \<in> set (submissions (w_db w')). P s \<longrightarrow> \<not> has_pointers s" if "x = Inr ()"
  proof -
    from that y(2) obtain n where n: "y = Inr n" by (cases y) auto
    from sql_exec_Inr [OF y(1) [unfolded n]] obtain d where
      "update_submissions P clear_pointers d = Inr (n, w_db w')" by blast
    from clear_statements(3) [OF this _ _ neutral] show ?thesis by blast
  qed
  with D pre still show "D (w_db w') \<and> gone p w'
       \<and> (x = Inr () \<longrightarrow> (\<forall>s \<in> set (submissions (w_db w')). P s \<longrightarrow> \<not> has_pointers s))"
    by (simp add: gone_def)
qed

lemma acknowledged_response:
  "triple (\<lambda>_. True) (HandleAcknowledgeSubmission deps r i j)
     (\<lambda>resp w. rs_Status resp = 204 \<longrightarrow>
        has_status i j SubmissionStatusAcknowledged (w_db w) \<and> submission_reclaimed (i, j) w)"
  (is "triple _ _ ?S")
proof -
  let ?ack = "has_status i j SubmissionStatusAcknowledged"
  have any: "triple P m (\<lambda>_ _. True)" for m :: "'b io" and P by (simp add: triple_def)
  have clear: "triple (\<lambda>w. ?ack (w_db w) \<and> gone (submissionDir i j) w) (do {
         c \<leftarrow> repo_ClearSubmissionFiles i j;
         State_Monad.return (case c of
             Inl _ \<Rightarrow> writeError 500 ''submission_acknowledge_failed'' ''could not finalize acknowledged submission''
           | Inr _ \<Rightarrow> StatusNoContent)}) ?S"
    unfolding repo_ClearSubmissionFiles_def stmt_clear_submission_def
    by (rule triple_bind [OF cleared_files [where D = ?ack]], erule clear_statements(2), assumption,
        simp add: clear_pointers_def sr_key_def, rule triple_return)
      (auto simp: submission_reclaimed_def split: sum.splits)
  have rest: "triple (\<lambda>w. ?ack (w_db w)) (do {
         d \<leftarrow> DeleteSubmission i j;
         case d of
           Inl _ \<Rightarrow>
             State_Monad.return
               (writeError 500 ''submission_acknowledge_failed'' ''could not delete acknowledged submission'')
         | Inr _ \<Rightarrow> do {
         c \<leftarrow> repo_ClearSubmissionFiles i j;
         State_Monad.return (case c of
             Inl _ \<Rightarrow> writeError 500 ''submission_acknowledge_failed'' ''could not finalize acknowledged submission''
           | Inr _ \<Rightarrow> StatusNoContent)
         }}) ?S"
    by (rule triple_bind [OF deleted_files(1) [where D = ?ack]], intro triple_sum triple_return triple_weaken [OF clear])
      auto
  have step: "triple (\<lambda>_. True) (if \<not> ValidSubmissionID j
       then State_Monad.return (writeError 404 ''submission_not_found'' ''submission not found'')
       else do {
         now \<leftarrow> now_io;
         a \<leftarrow> repo_AcknowledgeSubmission i j now;
         case a of Inl err \<Rightarrow> State_Monad.return (writeSubmissionUnavailable err) | Inr _ \<Rightarrow>
         if \<not> dep_BlobStore deps
         then State_Monad.return (writeError 500 ''blob_store_unavailable'' ''payload storage is unavailable'')
         else do {
         d \<leftarrow> DeleteSubmission i j;
         case d of
           Inl _ \<Rightarrow>
             State_Monad.return
               (writeError 500 ''submission_acknowledge_failed'' ''could not delete acknowledged submission'')
         | Inr _ \<Rightarrow> do {
         c \<leftarrow> repo_ClearSubmissionFiles i j;
         State_Monad.return (case c of
             Inl _ \<Rightarrow> writeError 500 ''submission_acknowledge_failed'' ''could not finalize acknowledged submission''
           | Inr _ \<Rightarrow> StatusNoContent)
         }}}) ?S"
    by (intro triple_if triple_bind [OF any [of "\<lambda>_. True" now_io]] triple_bind [OF real_acknowledge]
        triple_sum triple_return triple_weaken [OF rest]) auto
  have auth: "triple (\<lambda>_. True) (authorizePickup deps r i)
     (\<lambda>x w. (\<forall>dp. x = Inr dp \<longrightarrow> dp_ID dp = i \<and> (dp_Status dp \<noteq> StatusOpen \<longrightarrow> shut i (w_db w)))
        \<and> (\<forall>resp. x = Inl resp \<longrightarrow> rs_Status resp \<noteq> 204))"
    by (rule triple_real [OF authorize_id authorize_not_204])
  show ?thesis
    unfolding HandleAcknowledgeSubmission_def authorized_open_def authorized_def
  proof (rule triple_bind [OF auth], intro triple_sum triple_option, goal_cases)
    case (2 x dp)
    show ?case
    proof (cases "dp_ID dp = i")
      case True
      show ?thesis unfolding True by (rule triple_any [OF step])
    next
      case False
      with 2 show ?thesis by (simp add: triple_def)
    qed
  qed (auto intro!: triple_return simp: requireOpenDropPoint_def split: status.splits)
qed

section \<open>Closing\<close>

lemma finished_close:
  "triple (\<lambda>w. shut i (w_db w)) (finish_close deps i st)
     (\<lambda>resp w. rs_Status resp = 204 \<longrightarrow> shut i (w_db w) \<and> drop_point_reclaimed i w)"
proof -
  have clear: "triple (\<lambda>w. shut i (w_db w) \<and> gone (dropDir i) w) (repo_ClearDropPointFiles i)
      (\<lambda>x w. shut i (w_db w) \<and> gone (dropDir i) w
         \<and> (x = Inr () \<longrightarrow> (\<forall>s \<in> set (submissions (w_db w)). sr_drop_point_id s = i \<longrightarrow> \<not> has_pointers s)))"
    unfolding repo_ClearDropPointFiles_def stmt_clear_drop_point_def
    by (rule cleared_files) (auto simp: shut_def clear_statements(1) clear_pointers_def)
  have blobs: "triple (\<lambda>w. shut i (w_db w)) (deleteDropPointBlobs deps i)
      (\<lambda>x w. x = Inr () \<longrightarrow> shut i (w_db w) \<and> drop_point_reclaimed i w)"
    unfolding deleteDropPointBlobs_def
    by (intro triple_if triple_bind [OF deleted_files(2) [where D = "shut i"]] triple_sum triple_return
        triple_weaken [OF clear]) (auto simp: drop_point_reclaimed_def)
  show ?thesis
    unfolding finish_close_def
    by (rule triple_bind [OF blobs], rule triple_return) (auto simp: response_defs split: sum.splits)
qed

lemma closed_response:
  "triple (\<lambda>_. True) (HandleCloseDropPoint deps r i)
     (\<lambda>resp w. rs_Status resp = 204 \<longrightarrow> shut i (w_db w) \<and> drop_point_reclaimed i w)"
  (is "triple _ _ ?S")
proof -
  have any: "triple P m (\<lambda>_ _. True)" for m :: "'b io" and P by (simp add: triple_def)
  have auth: "triple (\<lambda>_. True) (authorizePickup deps r i)
     (\<lambda>x w. (\<forall>dp. x = Inr dp \<longrightarrow> dp_ID dp = i \<and> (dp_Status dp \<noteq> StatusOpen \<longrightarrow> shut i (w_db w)))
        \<and> (\<forall>resp. x = Inl resp \<longrightarrow> rs_Status resp \<noteq> 204))"
    by (rule triple_real [OF authorize_id authorize_not_204])
  have close: "triple (\<lambda>_. True) (do {
       now \<leftarrow> now_io;
       c \<leftarrow> repo_CloseDropPoint i now;
       case c of
         Inl err \<Rightarrow>
           if errors_is err ErrDropPointExpired then finish_close deps i StatusExpired
           else State_Monad.return (writeError 500 ''drop_point_close_failed'' ''could not close drop point'')
       | Inr _ \<Rightarrow> finish_close deps i StatusOpen}) ?S"
    by (intro triple_bind [OF any [of "\<lambda>_. True" now_io]] triple_bind [OF real_close] triple_sum triple_if
        triple_return triple_weaken [OF finished_close]) auto
  show ?thesis
    unfolding HandleCloseDropPoint_def authorized_def
  proof (rule triple_bind [OF auth], rule triple_sum, goal_cases)
    case (2 x dp)
    have finish: "triple (\<lambda>w. (\<forall>dp. x = Inr dp \<longrightarrow> dp_ID dp = i \<and> (dp_Status dp \<noteq> StatusOpen \<longrightarrow> shut i (w_db w)))
        \<and> (\<forall>resp. x = Inl resp \<longrightarrow> rs_Status resp \<noteq> 204)) (finish_close deps i st) ?S"
      if "dp_Status dp \<noteq> StatusOpen" for st
      using 2 that by (intro triple_weaken [OF finished_close]) auto
    show ?case
      by (cases "dp_Status dp") (auto intro!: triple_any [OF close] finish triple_return)
  qed (auto intro!: triple_return)
qed

end
