(* ===== verification/Receiver_Progress.thy ===== *)
theory Receiver_Progress
  imports Receiver_Properties
begin

text \<open>
  Progress of the receiver: without faults a deletion succeeds, a ready submission can be acknowledged
  and an open drop point can be closed.
\<close>

section \<open>Deleting a tree\<close>

text \<open>Removing the entries of a directory deepest first never meets a directory that is not empty.\<close>

definition covers :: "path \<Rightarrow> path list \<Rightarrow> fs \<Rightarrow> bool" where
  "covers p es t \<longleftrightarrow> (\<forall>q \<in> fst ` set t. below p q \<longrightarrow> q \<in> set es)"

lemma below_prefix: "below p q \<longleftrightarrow> (\<exists>r. q = p @ r)"
  by (metis append_eq_conv_conj append_take_drop_id below_def)

lemma below_strict: "below p q \<Longrightarrow> q \<noteq> p \<Longrightarrow> length p < length q"
  by (auto simp: below_prefix)

lemma below_trans: "below p q \<Longrightarrow> below q r \<Longrightarrow> below p r"
  by (auto simp: below_prefix)

lemma fs_del_keys: "fst ` set (fs_del p t) = fst ` set t - {p}"
  by (force simp: fs_del_def AList.delete_eq)

lemma remove_entries_quiet:
  assumes "w_faults w = []" "sorted_wrt (\<lambda>a b. length b \<le> length a) es"
    and "\<forall>e \<in> set es. below p e \<and> e \<noteq> []" "covers p es (w_fs w)"
  shows "\<exists>t. run_state (remove_entries es) w = (Inr (), w\<lparr>w_fs := t\<rparr>)"
  using assms
proof (induction es arbitrary: w)
  case Nil
  show ?case by (rule exI [of _ "w_fs w"]) simp
next
  case (Cons e es)
  have childless: "\<not> has_children (w_fs w) e"
  proof
    assume "has_children (w_fs w) e"
    then obtain q where q: "q \<in> fst ` set (w_fs w)" "below e q" "q \<noteq> e"
      by (force simp: has_children_def list_ex_iff)
    with Cons.prems(3) have "below p q" by (auto intro: below_trans)
    with q Cons.prems(4) have "q \<in> set es" by (auto simp: covers_def)
    with Cons.prems(2) below_strict [OF q(2,3)] show False by auto
  qed
  show ?case
  proof (cases "fs_get (w_fs w) e")
    case None
    have "e \<notin> fst ` set (w_fs w)"
      using None Cons.prems(3) by (auto simp: fs_get_def map_of_eq_None_iff)
    with Cons.prems(4) have "covers p es (w_fs w)" by (auto simp: covers_def)
    with Cons.IH [of w] Cons.prems obtain t where
      "run_state (remove_entries es) w = (Inr (), w\<lparr>w_fs := t\<rparr>)" by auto
    with None Cons.prems(1) show ?thesis by (intro exI [of _ t]) (simp add: no_fault os_Remove_def)
  next
    case (Some n)
    let ?w = "w\<lparr>w_fs := fs_del e (w_fs w)\<rparr>"
    have "covers p es (w_fs ?w)"
      using Cons.prems(4) by (auto simp: covers_def fs_del_keys)
    with Cons.IH [of ?w] Cons.prems obtain t where
      "run_state (remove_entries es) ?w = (Inr (), ?w\<lparr>w_fs := t\<rparr>)" by auto
    moreover have "os_Remove e (w_fs w) = (Inr (), fs_del e (w_fs w))"
      using Some Cons.prems(3) childless by (cases n) (auto simp: os_Remove_def)
    ultimately show ?thesis using Cons.prems(1) by (intro exI [of _ t]) (simp add: no_fault)
  qed
qed

lemma RemoveAll_quiet:
  assumes "w_faults w = []" "p \<noteq> []"
  shows "\<exists>t. run_state (os_RemoveAll p) w = (Inr (), w\<lparr>w_fs := t\<rparr>)"
proof -
  let ?es = "tree_entries (w_fs w) p"
  have sorted: "sorted_wrt (\<lambda>a b. length b \<le> length a) ?es"
  proof -
    have "sorted (map length (sort_key length (map fst (filter (\<lambda>(q, _). below p q) (w_fs w)))))" by simp
    then show ?thesis by (simp add: tree_entries_def sorted_wrt_rev sorted_map)
  qed
  have inside: "\<forall>e \<in> set ?es. below p e \<and> e \<noteq> []"
    using assms(2) by (auto dest: tree_entries_below below_nonempty)
  have "covers p ?es (w_fs w)"
    by (force simp: covers_def tree_entries_def)
  from remove_entries_quiet [OF assms(1) sorted inside this] assms(1)
  show ?thesis by (auto simp: os_RemoveAll_def no_fault)
qed

lemma DeleteSubmission_quiet:
  assumes "w_faults w = []" "validateDropPointID i = None" "ValidSubmissionID j"
  shows "\<exists>t. run_state (DeleteSubmission i j) w = (Inr (), w\<lparr>w_fs := t\<rparr>)"
proof -
  obtain t where "run_state (os_RemoveAll (submissionDir i j)) w = (Inr (), w\<lparr>w_fs := t\<rparr>)"
    using RemoveAll_quiet [OF assms(1), of "submissionDir i j"] by (auto simp: submissionDir_def)
  with assms show ?thesis
    by (intro exI [of _ t]) (simp add: DeleteSubmission_def no_fault os_SyncDir_def)
qed

lemma DeleteDropPoint_quiet:
  assumes "w_faults w = []" "validateDropPointID i = None" "fs_get (w_fs w) [DropPointsDirName] \<noteq> None"
  shows "\<exists>t. run_state (DeleteDropPoint i) w = (Inr (), w\<lparr>w_fs := t\<rparr>)"
proof -
  obtain t where t: "run_state (os_RemoveAll (dropDir i)) w = (Inr (), w\<lparr>w_fs := t\<rparr>)"
    using RemoveAll_quiet [OF assms(1), of "dropDir i"] by (auto simp: dropDir_def)
  have "keeps (blob_frame (dropDir i)) (os_RemoveAll (dropDir i))"
    by (rule keeps_RemoveAll) (simp add: dropDir_def)
  from keepsD [OF this t] have frame: "fs_frame (dropDir i) (w_fs w) t" by (simp add: blob_frame_def)
  have "\<not> below (dropDir i) [DropPointsDirName]" by (simp add: dropDir_def)
  with frame assms(3) have "fs_get t [DropPointsDirName] \<noteq> None" by (auto simp: fs_frame_def)
  with assms t show ?thesis
    by (intro exI [of _ t]) (simp add: DeleteDropPoint_def no_fault os_SyncDir_def)
qed

section \<open>The handlers\<close>

lemma authorize_quiet:
  assumes "w_faults w = []" "db_inv (w_db w)" "drop_point_at (w_db w) i = Some dp" "i \<noteq> []"
    and "dp_Status dp = StatusOpen" "clock_after 1 w < dp_ExpiresAt dp" "dep_Repository deps"
    and "bearerToken (rq_Authorization r) = Some secret" "verifySecretHash secret (dp_PickupTokenHash dp)"
  shows "run_state (authorizePickup deps r i) w =
    (Inr dp, w\<lparr>w_now := clock_after 1 w, w_ticks := drop 1 (w_ticks w)\<rparr>)"
  using assms now_io_run [of w]
  by (auto simp: authorizePickup_def repo_AuthorizePickupToken_def find_by_id_run expire_if_elapsed_def
      Expire_def verifySecretHash_def EqualHash_def split: if_splits)

lemma clear_quiet:
  "w_faults w = [] \<Longrightarrow> \<exists>w'. run_state (repo_ClearSubmissionFiles i j) w = (Inr (), w')"
  "w_faults w = [] \<Longrightarrow> \<exists>w'. run_state (repo_ClearDropPointFiles i) w = (Inr (), w')"
  by (simp_all add: repo_ClearSubmissionFiles_def repo_ClearDropPointFiles_def no_fault
      stmt_clear_submission_def stmt_clear_drop_point_def update_submissions_def)

lemma acknowledge_quiet:
  assumes "w_faults w = []" "db_inv (w_db w)" "submission_at (w_db w) i j = Some s"
    "sub_Status s = SubmissionStatusReady"
  shows "\<exists>d. run_state (repo_AcknowledgeSubmission i j now) w = (Inr (), w\<lparr>w_db := d\<rparr>)"
proof -
  obtain d where d: "stmt_acknowledge i j now (w_db w) = Inr (1, d)"
    using stmt_acknowledge_at [OF assms(2), of i j now] assms(3,4) by (auto simp: hits_def)
  then show ?thesis using assms(1) by (auto simp: repo_AcknowledgeSubmission_def no_fault)
qed

lemma close_quiet:
  assumes "w_faults w = []" "db_inv (w_db w)" "drop_point_at (w_db w) i = Some dp"
    "dp_Status dp = StatusOpen" "now < dp_ExpiresAt dp"
  shows "\<exists>d. run_state (repo_CloseDropPoint i now) w = (Inr (), w\<lparr>w_db := d\<rparr>)"
proof -
  obtain d where d: "stmt_close i now (w_db w) = Inr (1, d)"
    using stmt_close_at [OF assms(2), of i now] assms(3-5) by (auto simp: hits_def)
  moreover have "RequireOpen dp now = None" using assms(4,5) by (simp add: RequireOpen_None)
  ultimately show ?thesis
    using assms by (auto simp: repo_CloseDropPoint_def find_by_id_run no_fault)
qed

lemma finish_quiet:
  assumes "w_faults w = []" "reachable w" "submission_at (w_db w) i j = Some s"
      "sub_Status s = SubmissionStatusReady"
    and "drop_point_at (w_db w) i = Some dp" "dp_Status dp = StatusOpen" "clock_after 2 w < dp_ExpiresAt dp"
    and "bearerToken (rq_Authorization r) = Some secret" "verifySecretHash secret (dp_PickupTokenHash dp)"
    and "dep_Repository deps" "dep_BlobStore deps" "fs_get (w_fs w) [DropPointsDirName] \<noteq> None"
  shows "fst (run_state (HandleAcknowledgeSubmission deps r i j) w) = StatusNoContent
    \<and> fst (run_state (HandleCloseDropPoint deps r i) w) = StatusNoContent"
proof -
  note inv = reachable_inv [OF assms(2)]
  have ids: "i \<noteq> []" "validateDropPointID i = None" "ValidSubmissionID j"
    using stored_available [OF reachable_stored [OF assms(2)] assms(3-6)]
    by (auto simp: available_def validateDropPointID_def)
  let ?w1 = "w\<lparr>w_now := clock_after 1 w, w_ticks := drop 1 (w_ticks w)\<rparr>"
  have early: "clock_after 1 w < dp_ExpiresAt dp" using assms(7) clock_mono [of 1 2 w] by simp
  note auth = authorize_quiet [OF assms(1) inv assms(5) ids(1) assms(6) early assms(10,8,9)]
  have i: "dp_ID dp = i" using drop_point_at_wf [OF inv assms(5)] by simp
  obtain w2 where now: "run_state now_io ?w1 = (clock_after 2 w, w2)"
    and w2: "w_db w2 = w_db w" "w_fs w2 = w_fs w" "w_faults w2 = []"
    using now_io_run [of ?w1] assms(1) by (simp only: clock_after_next) simp
  obtain d where ack: "run_state (repo_AcknowledgeSubmission i j (clock_after 2 w)) w2 = (Inr (), w2\<lparr>w_db := d\<rparr>)"
    using acknowledge_quiet [of w2 i j s] w2 inv assms(3,4) by auto
  obtain t where del: "run_state (DeleteSubmission i j) (w2\<lparr>w_db := d\<rparr>) = (Inr (), w2\<lparr>w_db := d, w_fs := t\<rparr>)"
    using DeleteSubmission_quiet [of "w2\<lparr>w_db := d\<rparr>" i j] w2 ids by auto
  obtain w3 where clear: "run_state (repo_ClearSubmissionFiles i j) (w2\<lparr>w_db := d, w_fs := t\<rparr>) = (Inr (), w3)"
    using clear_quiet(1) [of "w2\<lparr>w_db := d, w_fs := t\<rparr>" i j] w2 by auto
  have "fst (run_state (HandleAcknowledgeSubmission deps r i j) w) = StatusNoContent"
    using auth assms(6,11) ids i now ack del clear
    by (simp add: HandleAcknowledgeSubmission_def authorized_open_def authorized_def
        requireOpenDropPoint_def split: prod.splits)
  moreover obtain d' where close: "run_state (repo_CloseDropPoint i (clock_after 2 w)) w2 = (Inr (), w2\<lparr>w_db := d'\<rparr>)"
    using close_quiet [of w2 i dp "clock_after 2 w"] w2 inv assms(5-7) by auto
  obtain t' where del': "run_state (DeleteDropPoint i) (w2\<lparr>w_db := d'\<rparr>) = (Inr (), w2\<lparr>w_db := d', w_fs := t'\<rparr>)"
    using DeleteDropPoint_quiet [of "w2\<lparr>w_db := d'\<rparr>" i] w2 ids assms(12) by auto
  obtain w4 where clear': "run_state (repo_ClearDropPointFiles i) (w2\<lparr>w_db := d', w_fs := t'\<rparr>) = (Inr (), w4)"
    using clear_quiet(2) [of "w2\<lparr>w_db := d', w_fs := t'\<rparr>" i] w2 by auto
  have "fst (run_state (HandleCloseDropPoint deps r i) w) = StatusNoContent"
    using auth assms(6,11) now close del' clear'
    by (simp add: HandleCloseDropPoint_def authorized_def finish_close_def deleteDropPointBlobs_def
        split: prod.splits)
  ultimately show ?thesis by blast
qed

section \<open>The sample relay\<close>

text \<open>The sample relay after the upload, with the request of its receiver.\<close>

lemma sample_receiver:
  obtains w s dp where "w_faults w = []" "reachable w"
    "submission_at (w_db w) sample_dp_id sample_id = Some s" "sub_Status s = SubmissionStatusReady"
    "drop_point_at (w_db w) sample_dp_id = Some dp" "dp_Status dp = StatusOpen"
    "clock_after 2 w < dp_ExpiresAt dp"
    "bearerToken (rq_Authorization sample_pickup_request) = Some sample_pickup_token"
    "verifySecretHash sample_pickup_token (dp_PickupTokenHash dp)"
    "dep_Repository sample_deps" "dep_BlobStore sample_deps" "fs_get (w_fs w) [DropPointsDirName] \<noteq> None"
proof -
  obtain u dp s where u: "reachable u" "w_faults u = []" "w_now u = 7" "w_ticks u = []"
    "drop_point_at (w_db u) sample_dp_id = Some dp" "dp_Status dp = StatusOpen" "7 < dp_ExpiresAt dp"
    "dp_PickupTokenHash dp = HashSecret sample_pickup_token"
    "submission_at (w_db u) sample_dp_id sample_id = Some s" "sub_Status s = SubmissionStatusReady"
    "fs_get (w_fs u) [DropPointsDirName] \<noteq> None"
    by (rule sample_uploaded)
  moreover have "bearerToken (rq_Authorization sample_pickup_request) = Some sample_pickup_token" by code_simp
  ultimately show thesis
    by (intro that [of u s dp]) (simp_all add: clock_after_def verifySecretHash_def)
qed

section \<open>Properties\<close>

text \<open>C31. Without faults the holder of the pickup token can always finish: acknowledging a ready
  submission of an open, unexpired drop point is answered with 204, and so is closing that drop
  point. Deleting a tree never fails halfway, since it removes the deepest entries first.\<close>

theorem receiver_can_finish:
  assumes "w_faults w = []" "reachable w" "submission_at (w_db w) i j = Some s"
      "sub_Status s = SubmissionStatusReady"
    and "drop_point_at (w_db w) i = Some dp" "dp_Status dp = StatusOpen" "clock_after 2 w < dp_ExpiresAt dp"
    and "bearerToken (rq_Authorization r) = Some secret" "verifySecretHash secret (dp_PickupTokenHash dp)"
    and "dep_Repository deps" "dep_BlobStore deps" "fs_get (w_fs w) [DropPointsDirName] \<noteq> None"
  shows "fst (run_state (HandleAcknowledgeSubmission deps r i j) w) = StatusNoContent
    \<and> fst (run_state (HandleCloseDropPoint deps r i) w) = StatusNoContent"
  by (rule finish_quiet [OF assms])

lemma receiver_can_finish_witness:
  "\<exists>w. reachable w
    \<and> fst (run_state (HandleAcknowledgeSubmission sample_deps sample_pickup_request sample_dp_id sample_id) w)
        = StatusNoContent"
proof -
  obtain w s dp where w: "w_faults w = []" "reachable w"
    "submission_at (w_db w) sample_dp_id sample_id = Some s" "sub_Status s = SubmissionStatusReady"
    "drop_point_at (w_db w) sample_dp_id = Some dp" "dp_Status dp = StatusOpen"
    "clock_after 2 w < dp_ExpiresAt dp"
    "bearerToken (rq_Authorization sample_pickup_request) = Some sample_pickup_token"
    "verifySecretHash sample_pickup_token (dp_PickupTokenHash dp)"
    "dep_Repository sample_deps" "dep_BlobStore sample_deps" "fs_get (w_fs w) [DropPointsDirName] \<noteq> None"
    by (rule sample_receiver)
  from receiver_can_finish [OF w] w(2) show ?thesis by blast
qed

text \<open>C32. When the relay answers an acknowledgement with 204, whatever faults occurred, the submission is
  acknowledged, nothing of it is left on disk and its row names no files any more; and an
  acknowledged submission stays so, since no operation of the domain leaves that status.\<close>

theorem acknowledged_submission_is_gone:
  assumes "reachable w" "run_state (HandleAcknowledgeSubmission deps r i j) w = (resp, w')"
    and "rs_Status resp = 204"
  shows "\<exists>s. submission_at (w_db w') i j = Some s \<and> sub_Status s = SubmissionStatusAcknowledged
    \<and> sub_EnvelopePath s = [] \<and> sub_PayloadPath s = []
    \<and> (\<forall>p. below (submissionDir i j) p \<longrightarrow> fs_get (w_fs w') p = None)"
proof -
  from tripleD [OF acknowledged_response _ assms(2)] assms(3)
  have r: "has_status i j SubmissionStatusAcknowledged (w_db w')" "submission_reclaimed (i, j) w'" by auto
  have "db_inv (w_db w')"
    using tripleD [OF storage_acknowledge reachable_stored [OF assms(1)] assms(2)] by (simp add: stored_def)
  with r(1) obtain s where s: "submission_at (w_db w') i j = Some s"
    "sub_Status s = SubmissionStatusAcknowledged" by (auto simp: status_at)
  then obtain q where "q \<in> set (submissions (w_db w'))" "sr_key q = (i, j)" "s = submission_of_row q"
    using submission_at_row by blast
  with r(2) have "sub_EnvelopePath s = []" "sub_PayloadPath s = []"
    by (auto simp: submission_reclaimed_def has_pointers_def submission_of_row_def string_of_null_def)
  with s r(2) show ?thesis by (auto simp: submission_reclaimed_def gone_def)
qed

lemma acknowledged_submission_is_gone_witness:
  "\<exists>w w' resp. run_state (HandleAcknowledgeSubmission sample_deps sample_pickup_request sample_dp_id sample_id) w
      = (resp, w')
    \<and> fs_get (w_fs w) (submissionDir sample_dp_id sample_id @ [PayloadFileName]) \<noteq> None
    \<and> fs_get (w_fs w') (submissionDir sample_dp_id sample_id @ [PayloadFileName]) = None"
proof -
  obtain w s dp where w: "w_faults w = []" "reachable w"
    "submission_at (w_db w) sample_dp_id sample_id = Some s" "sub_Status s = SubmissionStatusReady"
    "drop_point_at (w_db w) sample_dp_id = Some dp" "dp_Status dp = StatusOpen"
    "clock_after 2 w < dp_ExpiresAt dp"
    "bearerToken (rq_Authorization sample_pickup_request) = Some sample_pickup_token"
    "verifySecretHash sample_pickup_token (dp_PickupTokenHash dp)"
    "dep_Repository sample_deps" "dep_BlobStore sample_deps" "fs_get (w_fs w) [DropPointsDirName] \<noteq> None"
    by (rule sample_receiver)
  obtain w' where run: "run_state (HandleAcknowledgeSubmission sample_deps sample_pickup_request
      sample_dp_id sample_id) w = (StatusNoContent, w')"
    using finish_quiet [OF w] by (metis prod.collapse)
  have code: "rs_Status StatusNoContent = 204" by (simp add: StatusNoContent_def)
  from acknowledged_submission_is_gone [OF w(2) run code]
  have "fs_get (w_fs w') (submissionDir sample_dp_id sample_id @ [PayloadFileName]) = None" by auto
  moreover have "fs_get (w_fs w) (submissionDir sample_dp_id sample_id @ [PayloadFileName]) \<noteq> None"
    using stored_available [OF reachable_stored [OF w(2)] w(3-6)] by (auto simp: available_def)
  ultimately show ?thesis using run by blast
qed

text \<open>C33. When the relay answers a close with 204, whatever faults occurred, the drop point is not open,
  nothing below its directory is left on disk, and no row of its submissions names a file.\<close>

theorem closed_drop_point_is_gone:
  assumes "reachable w" "run_state (HandleCloseDropPoint deps r i) w = (resp, w')" "rs_Status resp = 204"
  shows "(\<forall>dp. drop_point_at (w_db w') i = Some dp \<longrightarrow> dp_Status dp \<noteq> StatusOpen)
    \<and> (\<forall>p. below (dropDir i) p \<longrightarrow> fs_get (w_fs w') p = None)
    \<and> (\<forall>j s. submission_at (w_db w') i j = Some s \<longrightarrow> sub_EnvelopePath s = [] \<and> sub_PayloadPath s = [])"
proof -
  from tripleD [OF closed_response _ assms(2)] assms(3)
  have r: "shut i (w_db w')" "drop_point_reclaimed i w'" by auto
  have inv: "db_inv (w_db w')"
    using tripleD [OF storage_close reachable_stored [OF assms(1)] assms(2)] by (simp add: stored_def)
  have "dp_Status dp \<noteq> StatusOpen" if d: "drop_point_at (w_db w') i = Some dp" for dp
  proof -
    obtain q where q: "q \<in> set (drop_points (w_db w'))" "dpr_id q = i" "dp = drop_point_of_row q"
      using drop_point_at_row [OF d] by blast
    have "dpr_status q \<noteq> StatusOpen"
      using r(1) q(1,2) distinct_key_unique [OF inv_distinct(1) [OF inv]]
      unfolding shut_def by metis
    with q(3) show ?thesis by (simp add: drop_point_of_row_def)
  qed
  moreover have "sub_EnvelopePath s = [] \<and> sub_PayloadPath s = []" if "submission_at (w_db w') i j = Some s" for j s
    using submission_at_row [OF that] r(2)
    by (auto simp: drop_point_reclaimed_def has_pointers_def submission_of_row_def string_of_null_def sr_key_def)
  ultimately show ?thesis using r(2) by (auto simp: drop_point_reclaimed_def gone_def)
qed

lemma closed_drop_point_is_gone_witness:
  "\<exists>w w' resp. run_state (HandleCloseDropPoint sample_deps sample_pickup_request sample_dp_id) w = (resp, w')
    \<and> fs_get (w_fs w) (submissionDir sample_dp_id sample_id @ [PayloadFileName]) \<noteq> None
    \<and> fs_get (w_fs w') (submissionDir sample_dp_id sample_id @ [PayloadFileName]) = None"
proof -
  obtain w s dp where w: "w_faults w = []" "reachable w"
    "submission_at (w_db w) sample_dp_id sample_id = Some s" "sub_Status s = SubmissionStatusReady"
    "drop_point_at (w_db w) sample_dp_id = Some dp" "dp_Status dp = StatusOpen"
    "clock_after 2 w < dp_ExpiresAt dp"
    "bearerToken (rq_Authorization sample_pickup_request) = Some sample_pickup_token"
    "verifySecretHash sample_pickup_token (dp_PickupTokenHash dp)"
    "dep_Repository sample_deps" "dep_BlobStore sample_deps" "fs_get (w_fs w) [DropPointsDirName] \<noteq> None"
    by (rule sample_receiver)
  obtain w' where run: "run_state (HandleCloseDropPoint sample_deps sample_pickup_request sample_dp_id) w
      = (StatusNoContent, w')"
    using finish_quiet [OF w] by (metis prod.collapse)
  have code: "rs_Status StatusNoContent = 204" by (simp add: StatusNoContent_def)
  have inside: "below (dropDir sample_dp_id) (submissionDir sample_dp_id sample_id @ [PayloadFileName])"
    by (simp add: submissionDir_def dropDir_def)
  from closed_drop_point_is_gone [OF w(2) run code] inside
  have "fs_get (w_fs w') (submissionDir sample_dp_id sample_id @ [PayloadFileName]) = None" by blast
  moreover have "fs_get (w_fs w) (submissionDir sample_dp_id sample_id @ [PayloadFileName]) \<noteq> None"
    using stored_available [OF reachable_stored [OF w(2)] w(3-6)] by (auto simp: available_def)
  ultimately show ?thesis using run by blast
qed

end
