(* ===== verification/Timestamps.thy ===== *)
theory Timestamps
  imports Go_Format
begin

text \<open>
  The time columns of the database: \<open>sqliteTimeFormat\<close>, \<open>formatTime\<close>, \<open>parseTime\<close> and the
  functions for nullable columns in \<open>internal/store/repository.go\<close>. SQLite compares these columns
  as texts. The other theories keep the instant in the row; the theorem below is what makes that
  exact: for instants of the years 0 to 9999 the texts compare as the instants do, and reading a
  text gives back the instant to the nanosecond.
\<close>

section \<open>Texts of a fixed width\<close>

text \<open>\<open>value.UTC().Format("2006-01-02T15:04:05.000000000Z07:00")\<close>: nine digits of fraction, always.\<close>

definition formatTime :: "time \<Rightarrow> go_string" where
  "formatTime t =
     (let (y, m, d) = date_of t; s = t div second mod 86400
      in padded 4 y @ ''-'' @ padded 2 m @ ''-'' @ padded 2 d @ ''T''
         @ padded 2 (s div 3600) @ '':'' @ padded 2 (s div 60 mod 60) @ '':'' @ padded 2 (s mod 60)
         @ ''.'' @ padded 9 (t mod second) @ ''Z'')"

text \<open>\<open>time.Date\<close> in UTC for a valid date: the days before the year, the days before the month and
  the day, from 1970-01-01.\<close>

definition january_first :: "int \<Rightarrow> int" where
  "january_first y = 365 * y + (y - 1) div 4 - (y - 1) div 100 + (y - 1) div 400 - 719527"

definition days_before_month :: "int \<Rightarrow> int \<Rightarrow> int" where
  "days_before_month m y =
     [0, 31, 59, 90, 120, 151, 181, 212, 243, 273, 304, 334] ! nat (m - 1)
     + (if 2 < m \<and> is_leap y then 1 else 0)"

definition days_of_date :: "int \<Rightarrow> int \<Rightarrow> int \<Rightarrow> int" where
  "days_of_date y m d = january_first y + days_before_month m y + (d - 1)"

definition time_Date :: "int \<Rightarrow> int \<Rightarrow> int \<Rightarrow> int \<Rightarrow> int \<Rightarrow> int \<Rightarrow> int \<Rightarrow> time" where
  "time_Date y m d hour minute sec ns =
     (86400 * days_of_date y m d + 3600 * hour + 60 * minute + sec) * second + ns"

text \<open>The fraction: a point or comma and exactly nine digits. \<open>atoi\<close> takes a sign, a negative number
  is out of range.\<close>

definition parse_nanoseconds :: "go_string \<Rightarrow> (int \<times> go_string) option" where
  "parse_nanoseconds s =
     (if length s < 10 \<or> (hd s \<noteq> CHR ''.'' \<and> hd s \<noteq> CHR '','') then None
      else case parse_int64 (take 9 (tl s)) of
        None \<Rightarrow> None
      | Some ns \<Rightarrow> if ns < 0 then None else Some (ns, drop 10 s))"

text \<open>The zone: \<open>Z\<close>, or a signed offset in seconds.\<close>

definition parse_zone :: "go_string \<Rightarrow> (int \<times> go_string) option" where
  "parse_zone s =
     (if s \<noteq> [] \<and> hd s = CHR ''Z'' then Some (0, tl s)
      else case s of
        sign # h1 # h2 # colon # m1 # m2 # t \<Rightarrow>
          do { (hr, _) \<leftarrow> getnum True [h1, h2];
               (mm, _) \<leftarrow> getnum True [m1, m2];
               ensure (colon = CHR '':'' \<and> (sign = CHR ''+'' \<or> sign = CHR ''-'') \<and> hr \<le> 24 \<and> mm \<le> 60);
               Some ((if sign = CHR ''-'' then - 1 else 1) * 60 * (60 * hr + mm), t) }
      | _ \<Rightarrow> None)"

text \<open>\<open>time.Parse(sqliteTimeFormat, value)\<close>.\<close>

definition parseTime :: "go_string \<Rightarrow> time option" where
  "parseTime value =
     do { (year, s) \<leftarrow> getyear value; s \<leftarrow> skip (CHR ''-'') s;
          (month, s) \<leftarrow> getnum True s; ensure (1 \<le> month \<and> month \<le> 12); s \<leftarrow> skip (CHR ''-'') s;
          (day, s) \<leftarrow> getnum True s; s \<leftarrow> skip (CHR ''T'') s;
          (hour, s) \<leftarrow> getnum False s; ensure (hour < 24); s \<leftarrow> skip (CHR '':'') s;
          (minute, s) \<leftarrow> getnum True s; ensure (minute < 60); s \<leftarrow> skip (CHR '':'') s;
          (sec, s) \<leftarrow> getnum True s; ensure (sec < 60);
          (ns, s) \<leftarrow> parse_nanoseconds s;
          (offset, s) \<leftarrow> parse_zone s;
          ensure (s = [] \<and> 1 \<le> day \<and> day \<le> days_in month year);
          Some (time_Date year month day hour minute sec ns - offset * second) }"

text \<open>Nullable columns: NULL is no text.\<close>

definition nullTime :: "time option \<Rightarrow> go_string option" where
  "nullTime v = map_option formatTime v"

definition parseNullTime :: "go_string option \<Rightarrow> time option option" where
  "parseNullTime v =
     (case v of None \<Rightarrow> Some None | Some s \<Rightarrow> map_option Some (parseTime s))"

text \<open>SQLite's comparison of texts under the collation \<open>BINARY\<close>: \<open>memcmp\<close>, then the length.\<close>

fun text_less :: "go_string \<Rightarrow> go_string \<Rightarrow> bool" where
  "text_less _ [] \<longleftrightarrow> False"
| "text_less [] (_ # _) \<longleftrightarrow> True"
| "text_less (a # as) (b # bs) \<longleftrightarrow>
     (of_char a :: int) < of_char b \<or> a = b \<and> text_less as bs"

section \<open>From dates back to days\<close>

lemma div_step:
  fixes n y :: int
  assumes "1 < n"
  shows "y div n = (y - 1) div n + (if y mod n = 0 then 1 else 0)"
proof (cases "y mod n = 0")
  case True
  then have "y - 1 = n * (y div n - 1) + (n - 1)"
    using mult_div_mod_eq [of n y] by (simp add: right_diff_distrib)
  then have "(y - 1) div n = y div n - 1" by (rule int_div_pos_eq) (use assms in simp_all)
  with True show ?thesis by simp
next
  case False
  then have "y - 1 = n * (y div n) + (y mod n - 1)" using mult_div_mod_eq [of n y] by simp
  then have "(y - 1) div n = y div n"
    by (rule int_div_pos_eq)
      (use assms False pos_mod_sign [of n y] pos_mod_bound [of n y] in linarith)+
  with False show ?thesis by simp
qed

lemma leap_year_length:
  fixes a b c y :: int
  assumes "R \<longrightarrow> Q" "Q \<longrightarrow> P"
    and "a = a' + (if P then 1 else 0)" "b = b' + (if Q then 1 else 0)" "c = c' + (if R then 1 else 0)"
  shows "365 * (y + 1) + a - b + c - 719527
    = 365 * y + a' - b' + c' - 719527 + (if P \<and> (\<not> Q \<or> R) then 366 else 365)"
  unfolding assms(3-5) using assms(1,2) by (cases P; cases Q; cases R) simp_all

lemma january_first_step:
  "january_first (y + 1) = january_first y + (if is_leap y then 366 else 365)"
proof -
  have "y mod 400 = 0 \<longrightarrow> y mod 100 = 0" "y mod 100 = 0 \<longrightarrow> y mod 4 = 0"
    unfolding dvd_eq_mod_eq_0 [symmetric] by (auto intro: dvd_trans [of 100 400 y] dvd_trans [of 4 100 y])
  from leap_year_length [OF this div_step div_step div_step]
  show ?thesis by (simp only: january_first_def is_leap_def add_diff_cancel_right')
qed

text \<open>The March year begins 306 days before the year it ends in.\<close>

lemma march_year_days:
  assumes "march_year z = (y, e)"
  shows "z = january_first (y + 1) + days_to_epoch - 306 + e"
proof -
  define cycle r0 where "cycle = z div 146097" and "r0 = z mod 146097"
  define century r1 where "century = min 3 (r0 div 36524)" and "r1 = r0 - 36524 * century"
  define gr r2 where "gr = r1 div 1461" and "r2 = r1 - 1461 * gr"
  define year r3 where "year = min 3 (r2 div 365)" and "r3 = r2 - 365 * year"
  have "march_year z = (400 * cycle + 100 * century + 4 * gr + year, r3)"
    by (simp only: march_year_def Let_def cycle_def r0_def century_def r1_def gr_def r2_def
        year_def r3_def)
  with assms have y: "y = 400 * cycle + 100 * century + 4 * gr + year" and e: "e = r3" by simp_all
  have r0: "0 \<le> r0" "r0 < 146097" by (simp_all add: r0_def)
  have c: "0 \<le> century" "century \<le> 3" "0 \<le> r1" "r1 \<le> 36524"
    using r0 quotient [of 36524 r0] unfolding century_def r1_def min_def by (auto split: if_splits)
  have g: "0 \<le> gr" "gr \<le> 24" "0 \<le> r2" "r2 \<le> 1460"
    using c(3,4) quotient [of 1461 r1] unfolding gr_def r2_def by auto
  have a: "0 \<le> year" "year \<le> 3"
    using g(3,4) quotient [of 365 r2] unfolding year_def min_def by (auto split: if_splits)
  have "y div 4 = 100 * cycle + 25 * century + gr"
    using y by (intro int_div_pos_eq [of _ _ _ year]) (use a in simp_all)
  moreover have "y div 100 = 4 * cycle + century"
    using y by (intro int_div_pos_eq [of _ _ _ "4 * gr + year"]) (use a g in simp_all)
  moreover have "y div 400 = cycle"
    using y by (intro int_div_pos_eq [of _ _ _ "100 * century + 4 * gr + year"]) (use a g c in simp_all)
  moreover have "z = 146097 * cycle + 36524 * century + 1461 * gr + 365 * year + e"
    using mult_div_mod_eq [of 146097 z] unfolding e r3_def r2_def r1_def cycle_def r0_def by simp
  ultimately show ?thesis by (simp add: january_first_def days_to_epoch_def y)
qed

lemma month_day_days:
  assumes "0 \<le> e" "e < 366" "month_day e = (m, d)"
  shows "days_before_month m y + (d - 1) = (if m \<le> 2 then e - 306 else e + 59 + (if is_leap y then 1 else 0))"
proof -
  define k where "k = (5 * e + 2) div 153"
  have k: "153 * k \<le> 5 * e + 2" "5 * e + 2 < 153 * k + 153"
    using quotient [of 153 "5 * e + 2"] by (simp_all add: k_def)
  then have "0 \<le> k" "k < 12" using assms by linarith+
  then have "k \<in> set [0..11]" by simp
  also have "[0..11] = [0, 1, 2, 3, 4, 5, 6, 7, 8, 9, 10, 11 :: int]" by code_simp
  finally have "k = 0 \<or> k = 1 \<or> k = 2 \<or> k = 3 \<or> k = 4 \<or> k = 5 \<or> k = 6 \<or> k = 7 \<or> k = 8
    \<or> k = 9 \<or> k = 10 \<or> k = 11" by simp
  then show ?thesis
    using assms(3) unfolding month_day_def Let_def days_before_month_def k_def [symmetric]
    by (elim disjE) auto
qed

lemma days_of_date_of:
  assumes "date_of t = (y, m, d)"
  shows "days_of_date y m d = t div (86400 * second)"
proof -
  obtain y0 e where e: "march_year (t div (86400 * second) + days_to_epoch) = (y0, e)" by fastforce
  have md: "month_day e = (m, d)" and y: "y = (if m \<le> 2 then y0 + 1 else y0)"
    using assms e by (auto simp: date_of_def Let_def split: prod.splits)
  have b: "0 \<le> e" "e < 366" using march_year_bounds [OF e] by simp_all
  show ?thesis
    using march_year_days [OF e] month_day_days [OF b md, of y] january_first_step [of y0]
    by (auto simp: days_of_date_def y split: if_splits)
qed

lemma time_Date_of:
  assumes "date_of t = (y, m, d)" "s = t div second mod 86400"
  shows "time_Date y m d (s div 3600) (s div 60 mod 60) (s mod 60) (t mod second) = t"
proof -
  have "3600 * (s div 3600) + 60 * (s div 60 mod 60) + s mod 60 = s"
    using mult_div_mod_eq [of 60 s] mult_div_mod_eq [of 60 "s div 60"]
      zdiv_zmult2_eq [of 60 s 60, simplified] by linarith
  moreover have "t div (86400 * second) = t div second div 86400"
    using zdiv_zmult2_eq [of 86400 t second] by (simp add: mult.commute)
  moreover have "86400 * (t div second div 86400) + s = t div second"
    using mult_div_mod_eq [of 86400 "t div second"] by (simp add: assms(2))
  moreover have "(t div second) * second + t mod second = t" by simp
  ultimately show ?thesis
    using days_of_date_of [OF assms(1)] unfolding time_Date_def by (metis add.assoc)
qed

section \<open>Dates in order\<close>

lemma month_cases:
  assumes "1 \<le> m" "m \<le> 12"
  shows "m = 1 \<or> m = 2 \<or> m = 3 \<or> m = 4 \<or> m = 5 \<or> m = 6 \<or> m = 7 \<or> m = 8 \<or> m = 9 \<or> m = 10
    \<or> m = 11 \<or> m = (12 :: int)"
  using assms by presburger

lemma month_length:
  assumes "1 \<le> m" "m \<le> 11"
  shows "days_before_month (m + 1) y = days_before_month m y + days_in m y"
proof -
  have "m \<le> 12" using assms by simp
  note month_cases [OF assms(1) this]
  then show ?thesis using assms by (elim disjE) (simp_all add: days_before_month_def days_in_def)
qed

lemma days_in_pos: "0 < days_in m y"
  by (simp add: days_in_def)

lemma months_in_order:
  assumes "1 \<le> m" "m < m'" "m' \<le> 12"
  shows "days_before_month m y + days_in m y \<le> days_before_month m' y"
proof -
  have "m + 1 \<le> m'" using assms by simp
  then show ?thesis using assms(3)
  proof (induction m' rule: int_ge_induct)
    case base
    then show ?case using month_length [of m y] assms(1) by simp
  next
    case (step i)
    then show ?case using month_length [of i y] days_in_pos [of i y] assms(1) by simp
  qed
qed

lemma december_last: "days_before_month 12 y + 31 = (if is_leap y then 366 else 365)"
  by (simp add: days_before_month_def)

lemma january_in_order: "y < y' \<Longrightarrow> january_first (y + 1) \<le> january_first y'"
proof -
  assume "y < y'"
  then have "y + 1 \<le> y'" by simp
  then show ?thesis
    by (induction y' rule: int_ge_induct) (simp_all add: january_first_step)
qed

definition valid_date :: "int \<Rightarrow> int \<Rightarrow> int \<Rightarrow> bool" where
  "valid_date y m d \<longleftrightarrow> 1 \<le> m \<and> m \<le> 12 \<and> 1 \<le> d \<and> d \<le> days_in m y"

lemma date_in_year:
  assumes "valid_date y m d"
  shows "january_first y \<le> days_of_date y m d \<and> days_of_date y m d < january_first (y + 1)"
proof -
  have "0 \<le> days_before_month m y"
    using assms month_cases [of m] by (auto simp: valid_date_def days_before_month_def)
  moreover have "days_before_month m y + days_in m y \<le> (if is_leap y then 366 else 365)"
    using months_in_order [of m 12 y] december_last [of y] assms
    by (cases "m = 12") (auto simp: valid_date_def days_in_def)
  ultimately show ?thesis
    using assms by (auto simp: days_of_date_def january_first_step valid_date_def)
qed

lemma dates_in_order:
  assumes "valid_date y m d" "valid_date y' m' d'"
    and "y < y' \<or> y = y' \<and> (m < m' \<or> m = m' \<and> d < d')"
  shows "days_of_date y m d < days_of_date y' m' d'"
  using assms(3)
proof (elim disjE conjE)
  assume "y < y'"
  from date_in_year [OF assms(1)] date_in_year [OF assms(2)] january_in_order [OF this]
  show ?thesis by simp
next
  assume "y = y'" "m < m'"
  then show ?thesis
    using months_in_order [of m m' y] assms(1,2) by (simp add: days_of_date_def valid_date_def)
next
  assume "y = y'" "m = m'" "d < d'"
  then show ?thesis by (simp add: days_of_date_def)
qed

section \<open>Texts in order\<close>

lemma text_less_append:
  "length as = length bs \<Longrightarrow>
   text_less (as @ xs) (bs @ ys) \<longleftrightarrow> text_less as bs \<or> as = bs \<and> text_less xs ys"
  by (induction as bs rule: list_induct2) auto

lemma text_less_irrefl [simp]: "\<not> text_less s s"
  by (induction s) auto

lemma digit_value_code: "digit_value c = Some n \<Longrightarrow> n = of_char c - 48 \<and> 0 \<le> n \<and> n < 10"
  by (auto simp: digit_value_def Let_def split: if_splits)

lemma digits_value_bounds:
  "digits_value acc s = Some n \<Longrightarrow> acc * 10 ^ length s \<le> n \<and> n < (acc + 1) * 10 ^ length s"
proof (induction acc s rule: digits_value.induct)
  case (2 acc c cs)
  then obtain d where d: "digit_value c = Some d" "digits_value (10 * acc + d) cs = Some n"
    by (auto split: option.splits)
  from 2(1) [OF this] have n: "(10 * acc + d) * 10 ^ length cs \<le> n" "n < (10 * acc + d + 1) * 10 ^ length cs"
    by simp_all
  have "acc * 10 ^ length (c # cs) \<le> (10 * acc + d) * 10 ^ length cs"
    "(10 * acc + d + 1) * 10 ^ length cs \<le> (acc + 1) * 10 ^ length (c # cs)"
    using digit_value_code [OF d(1)] by (simp_all add: algebra_simps mult_right_mono [of d 9] mult_right_mono [of 0 d])
  with n show ?case by linarith
qed simp

lemma digits_in_order:
  "length as = length bs \<Longrightarrow> digits_value acc as = Some m \<Longrightarrow> digits_value acc bs = Some n \<Longrightarrow>
   text_less as bs \<longleftrightarrow> m < n"
proof (induction as bs arbitrary: acc rule: list_induct2)
  case (Cons a as b bs)
  then obtain p q where p: "digit_value a = Some p" "digits_value (10 * acc + p) as = Some m"
    and q: "digit_value b = Some q" "digits_value (10 * acc + q) bs = Some n"
    by (auto split: option.splits)
  note code = digit_value_code [OF p(1)] digit_value_code [OF q(1)]
  have far: "u < v" if "digits_value (10 * acc + i) xs = Some u" "digits_value (10 * acc + j) ys = Some v"
    "i < j" "length xs = length ys" for i j u v xs ys
  proof -
    have "(10 * acc + i + 1) * 10 ^ length xs \<le> (10 * acc + j) * 10 ^ length ys"
      unfolding that(4) by (rule mult_right_mono) (use that(3) in simp_all)
    with digits_value_bounds [OF that(1)] digits_value_bounds [OF that(2)] show ?thesis by linarith
  qed
  show ?case
  proof (cases p q rule: linorder_cases)
    case less
    with far [OF p(2) q(2) less Cons(1)] code show ?thesis by auto
  next
    case equal
    then have "a = b" using code by (metis of_char_eq_iff eq_iff_diff_eq_0 diff_add_cancel)
    then show ?thesis using Cons(2) [OF p(2)] q(2) equal by simp
  next
    case greater
    with far [OF q(2) p(2) greater] Cons(1) code show ?thesis by auto
  qed
qed simp

lemma padded_in_order:
  assumes "0 \<le> m" "m < 10 ^ w" "0 \<le> n" "n < 10 ^ w" "0 < w"
  shows "text_less (padded w m @ xs) (padded w n @ ys) \<longleftrightarrow> m < n \<or> m = n \<and> text_less xs ys"
proof -
  have len: "length (padded w m) = length (padded w n)" using assms by (simp add: length_padded)
  have "text_less (padded w m) (padded w n) \<longleftrightarrow> m < n"
    using assms by (intro digits_in_order [OF len, of 0]) (simp_all add: padded_digits)
  moreover have "padded w m = padded w n \<longleftrightarrow> m = n"
    using padded_digits assms by (metis option.inject)
  ultimately show ?thesis by (simp add: text_less_append [OF len])
qed

section \<open>Time columns\<close>

text \<open>The years whose text has four digits.\<close>

definition year_of :: "time \<Rightarrow> int" where
  "year_of t = fst (date_of t)"

definition four_digit_year :: "time \<Rightarrow> bool" where
  "four_digit_year t \<longleftrightarrow> 0 \<le> year_of t \<and> year_of t \<le> 9999"

definition seconds_of_day :: "time \<Rightarrow> int" where
  "seconds_of_day t = t div second mod 86400"

lemma date_of_valid_date: "date_of t = (y, m, d) \<Longrightarrow> valid_date y m d"
  using date_of_valid [of t y m d] by (simp add: valid_date_def)

lemma valid_date_bounds: "valid_date y m d \<Longrightarrow> 0 \<le> m \<and> m < 100 \<and> 0 \<le> d \<and> d < 100"
  by (auto simp: valid_date_def days_in_def split: if_splits)

lemma clock_bounds:
  assumes "0 \<le> s" "s < 86400"
  shows "0 \<le> s div 3600 \<and> s div 3600 < 24 \<and> 0 \<le> s div 60 mod 60 \<and> s div 60 mod 60 < 60
    \<and> 0 \<le> s mod 60 \<and> s mod 60 < (60 :: int)"
  using quotient [of 3600 s] assms by (simp add: pos_imp_zdiv_nonneg_iff)

lemma seconds_of_day_bounds: "0 \<le> seconds_of_day t \<and> seconds_of_day t < 86400"
  by (simp add: seconds_of_day_def)

lemma parse_int64_padded:
  assumes "0 \<le> n" "n < 10 ^ 9"
  shows "parse_int64 (padded 9 n) = Some n"
proof -
  have "length (padded 9 n) = 9" using assms by (simp add: length_padded)
  then obtain c cs where c: "padded 9 n = c # cs" by (cases "padded 9 n") simp_all
  with padded_ascii [OF assms(1), of c 9] have "ascii_digit c" by simp
  with ascii_digit_sign have "c \<noteq> CHR ''-''" "c \<noteq> CHR ''+''" by blast+
  with c padded_digits [OF assms(1), of 9] assms show ?thesis
    by (simp add: parse_int64_def is_int64_def)
qed

lemma parse_nanoseconds_padded:
  assumes "0 \<le> n" "n < 10 ^ 9"
  shows "parse_nanoseconds (''.'' @ padded 9 n @ s) = Some (n, s)"
  using parse_int64_padded [OF assms] length_padded [of n 9] assms
  by (simp add: parse_nanoseconds_def)

lemma parseTime_formatTime:
  assumes "four_digit_year t"
  shows "parseTime (formatTime t) = Some t"
proof -
  obtain y m d where date: "date_of t = (y, m, d)" using prod_cases3 by blast
  with assms have y: "0 \<le> y" "y < 10000" by (simp_all add: four_digit_year_def year_of_def)
  have v: "1 \<le> m" "m \<le> 12" "1 \<le> d" "d \<le> days_in m y" "0 \<le> m" "m < 100" "0 \<le> d" "d < 100"
    using date_of_valid_date [OF date] valid_date_bounds [OF date_of_valid_date [OF date]]
    by (simp_all add: valid_date_def)
  define s where "s = t div second mod 86400"
  then have "0 \<le> s" "s < 86400" by simp_all
  note clock = clock_bounds [OF this]
  have ns: "parse_nanoseconds (CHR ''.'' # padded 9 (t mod second) @ ''Z'') = Some (t mod second, ''Z'')"
    using parse_nanoseconds_padded [of "t mod second" "''Z''"] by (simp add: second_def)
  have Z: "parse_zone ''Z'' = Some (0, [])" by (simp add: parse_zone_def)
  show ?thesis
    using y v clock time_Date_of [OF date s_def]
    by (simp add: formatTime_def parseTime_def Let_def date getyear_padded getnum_padded ns Z
        flip: s_def)
qed

lemma text_less_total: "text_less a b \<or> a = b \<or> text_less b a"
proof (induction a b rule: text_less.induct)
  case (1 a)
  then show ?case by (cases a) simp_all
next
  case (3 a as b bs)
  then show ?case by (metis linorder_neqE_linordered_idom of_char_eq_iff text_less.simps(3))
qed simp

text \<open>An instant by its day, the second of the day and the nanosecond.\<close>

lemma instants_in_order:
  assumes "s div (86400 * second) < t div (86400 * second)
    \<or> s div (86400 * second) = t div (86400 * second)
      \<and> (seconds_of_day s < seconds_of_day t
         \<or> seconds_of_day s = seconds_of_day t \<and> s mod second < t mod second)"
  shows "s < t"
proof -
  have parts: "u = (86400 * (u div (86400 * second)) + seconds_of_day u) * second + u mod second" for u
  proof -
    have "u div (86400 * second) = u div second div 86400"
      using zdiv_zmult2_eq [of 86400 u second] by (simp add: mult.commute)
    then show ?thesis
      using mult_div_mod_eq [of 86400 "u div second"] mult_div_mod_eq [of second u]
      by (simp add: seconds_of_day_def)
  qed
  have b: "0 \<le> u mod second" "u mod second < 1000000000" for u by (simp_all add: second_def)
  define p where "p u = 86400 * (u div (86400 * second)) + seconds_of_day u" for u
  have "u = 1000000000 * p u + u mod second" for u
    using parts [of u] by (simp add: p_def second_def)
  moreover have "p s < p t \<or> p s = p t \<and> s mod second < t mod second"
    using assms seconds_of_day_bounds [of s] seconds_of_day_bounds [of t] unfolding p_def by linarith
  ultimately show ?thesis using b [of s] b [of t] by smt
qed

lemma clock_parts: "u = 3600 * (u div 3600) + 60 * (u div 60 mod 60) + u mod 60" for u :: int
  using mult_div_mod_eq [of 60 u] mult_div_mod_eq [of 60 "u div 60"]
    zdiv_zmult2_eq [of 60 u 60, simplified] by linarith

lemma three_digits_in_order:
  fixes a b c a' b' c' :: int
  assumes "b < 60" "c < 60" "0 \<le> b'" "0 \<le> c'" and "a < a' \<or> a = a' \<and> (b < b' \<or> b = b' \<and> c < c')"
  shows "3600 * a + 60 * b + c < 3600 * a' + 60 * b' + c'"
  using assms by (elim disjE conjE) linarith+

lemma clocks_in_order:
  fixes s t :: int
  assumes "s div 3600 < t div 3600 \<or> s div 3600 = t div 3600
      \<and> (s div 60 mod 60 < t div 60 mod 60 \<or> s div 60 mod 60 = t div 60 mod 60 \<and> s mod 60 < t mod 60)"
  shows "s < t"
  using three_digits_in_order [OF _ _ _ _ assms] unfolding clock_parts [symmetric] by simp

lemma clocks_equal:
  fixes s t :: int
  assumes "s div 3600 = t div 3600" "s div 60 mod 60 = t div 60 mod 60" "s mod 60 = t mod 60"
  shows "s = t"
  by (subst clock_parts [of s], subst clock_parts [of t], simp only: assms)

lemma text_less_formatTime:
  assumes "four_digit_year s" "four_digit_year t" "text_less (formatTime s) (formatTime t)"
  shows "s < t"
proof -
  obtain y m d where date: "date_of s = (y, m, d)" using prod_cases3 by blast
  obtain y' m' d' where date': "date_of t = (y', m', d')" using prod_cases3 by blast
  note v = date_of_valid_date [OF date] and v' = date_of_valid_date [OF date']
  have years: "0 \<le> y" "y < 10 ^ 4" "0 \<le> y'" "y' < 10 ^ 4"
    using assms(1,2) date date' by (simp_all add: four_digit_year_def year_of_def)
  note days = valid_date_bounds [OF v] valid_date_bounds [OF v']
  define p q where "p = seconds_of_day s" and "q = seconds_of_day t"
  have pq: "0 \<le> p" "p < 86400" "0 \<le> q" "q < 86400"
    using seconds_of_day_bounds [of s] seconds_of_day_bounds [of t] by (simp_all add: p_def q_def)
  note clock = clock_bounds [OF pq(1,2)] clock_bounds [OF pq(3,4)]
  have ns: "0 \<le> u mod second" "u mod second < 10 ^ 9" for u by (simp_all add: second_def)
  have two: "text_less (padded 2 a @ xs) (padded 2 b @ ys) \<longleftrightarrow> a < b \<or> a = b \<and> text_less xs ys"
    if "0 \<le> a \<and> a < 100" "0 \<le> b \<and> b < 100" for a b xs ys
    using that by (intro padded_in_order) simp_all
  have nine: "text_less (padded 9 (s mod second) @ xs) (padded 9 (t mod second) @ ys)
      \<longleftrightarrow> s mod second < t mod second \<or> s mod second = t mod second \<and> text_less xs ys" for xs ys
    using ns by (intro padded_in_order) simp_all
  have order: "y < y' \<or> y = y' \<and> (m < m' \<or> m = m' \<and> (d < d' \<or> d = d' \<and>
      (p div 3600 < q div 3600 \<or> p div 3600 = q div 3600 \<and>
       (p div 60 mod 60 < q div 60 mod 60 \<or> p div 60 mod 60 = q div 60 mod 60 \<and>
        (p mod 60 < q mod 60 \<or> p mod 60 = q mod 60 \<and> s mod second < t mod second)))))"
    using assms(3) years days clock
    by (simp add: formatTime_def Let_def date date' two nine padded_in_order
        flip: seconds_of_day_def p_def q_def)
  show ?thesis
  proof (cases "y = y' \<and> m = m' \<and> d = d'")
    case False
    with order have "y < y' \<or> y = y' \<and> (m < m' \<or> m = m' \<and> d < d')" by blast
    from dates_in_order [OF v v' this] show ?thesis
      using days_of_date_of [OF date] days_of_date_of [OF date'] by (intro instants_in_order) simp
  next
    case True
    then have day: "s div (86400 * second) = t div (86400 * second)"
      using days_of_date_of [OF date] days_of_date_of [OF date'] by simp
    have "p < q \<or> p = q \<and> s mod second < t mod second"
      using order True clocks_in_order [of p q] clocks_equal [of p q] by blast
    with day show ?thesis by (intro instants_in_order) (simp add: p_def q_def)
  qed
qed

lemma formatTime_inject:
  "four_digit_year s \<Longrightarrow> four_digit_year t \<Longrightarrow> formatTime s = formatTime t \<longleftrightarrow> s = t"
  using parseTime_formatTime by (metis option.inject)

text \<open>C37. For instants of the years 0 to 9999 a stored time column is exact: the texts that
  \<open>formatTime\<close> writes compare in SQLite as the instants do, and reading a column gives back what was
  stored, NULL included.\<close>

theorem stored_times_are_exact:
  assumes "four_digit_year s" "four_digit_year t"
  shows "(text_less (formatTime s) (formatTime t) \<longleftrightarrow> s < t)
    \<and> (formatTime s = formatTime t \<longleftrightarrow> s = t)
    \<and> parseNullTime (nullTime (Some s)) = Some (Some s) \<and> parseNullTime (nullTime None) = Some None"
proof -
  have "text_less (formatTime s) (formatTime t) \<longleftrightarrow> s < t"
    using text_less_formatTime [OF assms] text_less_formatTime [OF assms(2,1)]
      text_less_total [of "formatTime s" "formatTime t"] formatTime_inject [OF assms]
    by (metis order.asym less_irrefl)
  then show ?thesis
    using parseTime_formatTime [OF assms(1)] formatTime_inject [OF assms]
    by (simp add: nullTime_def parseNullTime_def)
qed

lemma sample_times:
  "formatTime (951782400 * second + 120000000) = ''2000-02-29T00:00:00.120000000Z''"
  "formatTime (1782820800 * second) = ''2026-06-30T12:00:00.000000000Z''"
  "parseTime ''2026-06-30T21:00:00.000000000+09:00'' = Some (1782820800 * second)"
  "parseTime ''2026-06-30T12:00:00Z'' = None"
  by code_simp+

lemma stored_times_are_exact_witness:
  "text_less (formatTime (951782400 * second + 120000000)) (formatTime (1782820800 * second))
   \<and> parseNullTime (nullTime (Some (951782400 * second + 120000000)))
       = Some (Some (951782400 * second + 120000000))"
proof -
  have "four_digit_year (951782400 * second + 120000000)" "four_digit_year (1782820800 * second)"
    by code_simp+
  from stored_times_are_exact [OF this] show ?thesis by (simp add: second_def)
qed

text \<open>In the year 10000 the text grows a digit and the order of the texts is lost.\<close>

lemma fifth_digit_breaks_the_order:
  "text_less (formatTime (253402300800 * second)) (formatTime (253402300799 * second))"
  by code_simp

end
