(* ===== verification/Lifecycle.thy ===== *)
theory Lifecycle
  imports Relay_Create
begin

text \<open>
  The running server: \<open>Handler\<close>, \<open>ListenAndServe\<close>, \<open>startCleanupLoop\<close> and \<open>Close\<close> of
  \<open>internal/server/server.go\<close>, the rest of \<open>run\<close> in \<open>cmd/droppoint/main.go\<close> and
  \<open>internal/logutil\<close>. Three goroutines run interleaved, each at a program point of its own: the one
  that called \<open>ListenAndServe\<close>, the one inside \<open>http.Server\<close>, and the cleanup loop; they meet at the
  channel \<open>errCh\<close>, the two contexts and the channel \<open>cleanupDone\<close>. A request and a cleanup pass are
  single steps on the world. Of \<open>http.Server\<close> the documented behaviour is used: it accepts until it
  fails or \<open>Shutdown\<close> is called, then returns \<open>ErrServerClosed\<close>; \<open>Shutdown\<close> returns without an error
  only when no connection is active any more.
\<close>

section \<open>Logging\<close>

text \<open>\<open>Discard\<close> is \<open>log.New(io.Discard, "", 0)\<close>.\<close>

datatype logger = Discard | Writer

definition DefaultLogger :: "logger option \<Rightarrow> logger" where
  "DefaultLogger l = (case l of Some l' \<Rightarrow> l' | None \<Rightarrow> Discard)"

datatype log_line = CleanupError error | CleanupWork cleanup_result

definition log_Printf :: "logger \<Rightarrow> log_line \<Rightarrow> log_line list" where
  "log_Printf l line = (case l of Discard \<Rightarrow> [] | Writer \<Rightarrow> [line])"

text \<open>What the loop logs after a pass.\<close>

definition pass_lines :: "logger \<Rightarrow> cleanup_result \<times> error option \<Rightarrow> log_line list" where
  "pass_lines l out =
     (case snd out of
        Some err \<Rightarrow> log_Printf l (CleanupError err)
      | None \<Rightarrow> if cleanupResultHasWork (fst out) then log_Printf l (CleanupWork (fst out)) else [])"

section \<open>The goroutines\<close>

text \<open>\<open>ListenAndServe\<close>: the \<open>select\<close>, inside \<open>Shutdown\<close>, the receive after it, the deferred
  \<open>stopCleanup\<close> with the result at hand, the deferred wait for \<open>cleanupDone\<close>, and the caller
  after the return, which closes the server.\<close>

datatype main_point =
    MainSelect | MainShutdown | MainAwait | MainReturning "error option" | MainJoining "error option"
  | MainReturned "error option" | MainClosed "error option"

text \<open>The goroutine around \<open>http.Server.ListenAndServe\<close>: before it returns, about to send its
  result with \<open>ErrServerClosed\<close> made nil, and after the send.\<close>

datatype http_point = HttpServing | HttpSending "error option" | HttpEnded

datatype loop_point = LoopRunning | LoopWaiting | LoopEnded

text \<open>\<open>run_conns\<close> are the active connections with the requests they send.\<close>

record running =
  run_main :: main_point
  run_http :: http_point
  run_loop :: loop_point
  run_errCh :: "error option option"
  run_ctx :: bool
  run_cleanupCtx :: bool
  run_cleanupDone :: bool
  run_shutdown :: bool
  run_conns :: "request list"
  run_open :: bool
  run_log :: "log_line list"
  run_world :: world

text \<open>When \<open>ListenAndServe\<close> reaches its \<open>select\<close>.\<close>

definition serving :: "world \<Rightarrow> running" where
  "serving w =
     \<lparr>run_main = MainSelect, run_http = HttpServing, run_loop = LoopRunning, run_errCh = None,
      run_ctx = False, run_cleanupCtx = False, run_cleanupDone = False, run_shutdown = False,
      run_conns = [], run_open = True, run_log = [], run_world = w\<rparr>"

text \<open>\<open>Handler\<close>: \<open>None\<close> is a server that has not been built.\<close>

definition server_Handler :: "dependencies option \<Rightarrow> request \<Rightarrow> response io" where
  "server_Handler srv r =
     (case srv of
        None \<Rightarrow> State_Monad.return http_NotFound
      | Some deps \<Rightarrow> do { (resp, _) \<leftarrow> NewRouterWithDependencies deps r; State_Monad.return resp })"

definition server_Close :: "running \<Rightarrow> running" where
  "server_Close s = s\<lparr>run_open := False\<rparr>"

inductive loop_step :: "config \<Rightarrow> logger \<Rightarrow> running \<Rightarrow> running \<Rightarrow> bool" for cfg l where
  pass: "run_loop s = LoopRunning \<Longrightarrow>
    run_state (service_Expire (newCleanupService cfg)) (run_world s) = (out, w) \<Longrightarrow>
    loop_step cfg l s (s\<lparr>run_loop := LoopWaiting, run_log := run_log s @ pass_lines l out, run_world := w\<rparr>)"
| ticked: "run_loop s = LoopWaiting \<Longrightarrow> loop_step cfg l s (s\<lparr>run_loop := LoopRunning\<rparr>)"
| loop_stopped: "run_loop s = LoopWaiting \<Longrightarrow> run_cleanupCtx s \<Longrightarrow>
    loop_step cfg l s (s\<lparr>run_loop := LoopEnded, run_cleanupDone := True\<rparr>)"

inductive http_step :: "dependencies \<Rightarrow> running \<Rightarrow> running \<Rightarrow> bool" for deps where
  accepted: "run_http s = HttpServing \<Longrightarrow> \<not> run_shutdown s \<Longrightarrow>
    http_step deps s (s\<lparr>run_conns := r # run_conns s\<rparr>)"
| answered: "run_conns s = before @ r # after \<Longrightarrow>
    run_state (NewRouterWithDependencies deps r) (run_world s) = (x, w) \<Longrightarrow>
    http_step deps s (s\<lparr>run_conns := before @ after, run_world := w\<rparr>)"
| hung_up: "run_conns s = before @ r # after \<Longrightarrow> http_step deps s (s\<lparr>run_conns := before @ after\<rparr>)"
| failed: "run_http s = HttpServing \<Longrightarrow> http_step deps s (s\<lparr>run_http := HttpSending (Some err)\<rparr>)"
| server_closed: "run_http s = HttpServing \<Longrightarrow> run_shutdown s \<Longrightarrow>
    http_step deps s (s\<lparr>run_http := HttpSending None\<rparr>)"
| sent: "run_http s = HttpSending e \<Longrightarrow> run_errCh s = None \<Longrightarrow>
    http_step deps s (s\<lparr>run_http := HttpEnded, run_errCh := Some e\<rparr>)"

inductive main_step :: "running \<Rightarrow> running \<Rightarrow> bool" where
  received: "run_main s = MainSelect \<Longrightarrow> run_errCh s = Some e \<Longrightarrow>
    main_step s (s\<lparr>run_main := MainReturning e, run_errCh := None\<rparr>)"
| stopped: "run_main s = MainSelect \<Longrightarrow> run_ctx s \<Longrightarrow>
    main_step s (s\<lparr>run_main := MainShutdown, run_shutdown := True\<rparr>)"
| drained: "run_main s = MainShutdown \<Longrightarrow> run_conns s = [] \<Longrightarrow> main_step s (s\<lparr>run_main := MainAwait\<rparr>)"
| shutdown_failed: "run_main s = MainShutdown \<Longrightarrow> main_step s (s\<lparr>run_main := MainReturning (Some err)\<rparr>)"
| awaited: "run_main s = MainAwait \<Longrightarrow> run_errCh s = Some e \<Longrightarrow>
    main_step s (s\<lparr>run_main := MainReturning e, run_errCh := None\<rparr>)"
| stop_cleanup: "run_main s = MainReturning e \<Longrightarrow>
    main_step s (s\<lparr>run_main := MainJoining e, run_cleanupCtx := True\<rparr>)"
| joined: "run_main s = MainJoining e \<Longrightarrow> run_cleanupDone s \<Longrightarrow>
    main_step s (s\<lparr>run_main := MainReturned e\<rparr>)"
| closed: "run_main s = MainReturned e \<Longrightarrow>
    main_step s ((server_Close s)\<lparr>run_main := MainClosed e\<rparr>)"

text \<open>A signal cancels the context; the clock moves on and faults come up.\<close>

inductive server_step :: "dependencies \<Rightarrow> logger \<Rightarrow> running \<Rightarrow> running \<Rightarrow> bool" for deps l where
  main: "main_step s t \<Longrightarrow> server_step deps l s t"
| http: "http_step deps s t \<Longrightarrow> server_step deps l s t"
| loop: "loop_step (dep_Config deps) l s t \<Longrightarrow> server_step deps l s t"
| signal: "server_step deps l s (s\<lparr>run_ctx := True\<rparr>)"
| surroundings: "w_db w = w_db (run_world s) \<Longrightarrow> w_fs w = w_fs (run_world s) \<Longrightarrow>
    server_step deps l s (s\<lparr>run_world := w\<rparr>)"

abbreviation server_path :: "dependencies \<Rightarrow> logger \<Rightarrow> running \<Rightarrow> running \<Rightarrow> bool" where
  "server_path deps l \<equiv> (server_step deps l)\<^sup>*\<^sup>*"

lemmas server_steps = main_step.intros [THEN server_step.main] http_step.intros [THEN server_step.http]
  loop_step.intros [THEN server_step.loop] server_step.signal server_step.surroundings

inductive_cases main_stepE: "main_step s t"
inductive_cases http_stepE: "http_step deps s t"
inductive_cases loop_stepE: "loop_step cfg l s t"
inductive_cases server_stepE: "server_step deps l s t"

section \<open>The invariant\<close>

text \<open>The result a goroutine is about to return, once it has one.\<close>

definition result_of :: "running \<Rightarrow> error option option" where
  "result_of s =
     (case run_main s of
        MainReturning e \<Rightarrow> Some e | MainJoining e \<Rightarrow> Some e | MainReturned e \<Rightarrow> Some e
      | MainClosed e \<Rightarrow> Some e | _ \<Rightarrow> None)"

definition has_returned :: "running \<Rightarrow> bool" where
  "has_returned s \<longleftrightarrow> (case run_main s of MainReturned e \<Rightarrow> True | MainClosed e \<Rightarrow> True | _ \<Rightarrow> False)"

definition server_inv :: "running \<Rightarrow> bool" where
  "server_inv s \<longleftrightarrow>
     (run_cleanupDone s \<longleftrightarrow> run_loop s = LoopEnded)
     \<and> (has_returned s \<longrightarrow> run_loop s = LoopEnded)
     \<and> (\<not> run_open s \<longrightarrow> has_returned s)
     \<and> ((\<exists>e. run_main s = MainJoining e) \<longrightarrow> run_cleanupCtx s)
     \<and> (run_main s = MainSelect \<longrightarrow> \<not> run_shutdown s)
     \<and> (run_main s \<in> {MainShutdown, MainAwait} \<longrightarrow> run_shutdown s)
     \<and> (run_http s = HttpSending None \<or> run_errCh s = Some None \<longrightarrow> run_shutdown s)
     \<and> (run_main s = MainAwait \<longrightarrow> run_conns s = [])
     \<and> (result_of s = Some None \<longrightarrow> run_shutdown s \<and> run_conns s = [])
     \<and> (run_errCh s \<noteq> None \<longrightarrow> run_http s = HttpEnded)
     \<and> (run_http s = HttpEnded \<and> result_of s = None \<longrightarrow> run_errCh s \<noteq> None)"

lemmas server_inv_defs = server_inv_def result_of_def has_returned_def

lemma serving_inv: "server_inv (serving w)"
  by (simp add: server_inv_defs serving_def)

lemma main_step_inv: "main_step s t \<Longrightarrow> server_inv s \<Longrightarrow> server_inv t"
  by (erule main_stepE; force simp: server_inv_defs server_Close_def)

lemma http_step_inv: "http_step deps s t \<Longrightarrow> server_inv s \<Longrightarrow> server_inv t"
  by (erule http_stepE; cases "run_main s"; force simp: server_inv_defs)

lemma loop_step_inv: "loop_step cfg l s t \<Longrightarrow> server_inv s \<Longrightarrow> server_inv t"
  by (erule loop_stepE; cases "run_main s"; force simp: server_inv_defs)

lemma server_step_inv: "server_step deps l s t \<Longrightarrow> server_inv s \<Longrightarrow> server_inv t"
proof (induction rule: server_step.induct)
  case (signal s)
  then show ?case by (simp add: server_inv_defs)
next
  case (surroundings w s)
  then show ?case by (simp add: server_inv_defs)
qed (auto intro: main_step_inv http_step_inv loop_step_inv)

interpretation goroutines: invariant_system "server_step deps l" server_inv for deps l
  by unfold_locales (rule server_step_inv)

interpretation loop_ended: invariant_system "server_step deps l" "\<lambda>s. run_loop s = LoopEnded" for deps l
  by unfold_locales (erule server_stepE; (erule main_stepE http_stepE loop_stepE)?; simp add: server_Close_def)

section \<open>After the return\<close>

text \<open>A server that has shut down without an error: nothing is left that could touch the data.\<close>

definition at_rest :: "running \<Rightarrow> bool" where
  "at_rest s \<longleftrightarrow> run_loop s = LoopEnded \<and> run_conns s = [] \<and> run_shutdown s"

lemma at_rest_step:
  "server_step deps l s t \<Longrightarrow> at_rest s \<Longrightarrow>
   at_rest t \<and> w_db (run_world t) = w_db (run_world s) \<and> w_fs (run_world t) = w_fs (run_world s)"
  by (erule server_stepE; (erule main_stepE http_stepE loop_stepE)?; simp add: at_rest_def server_Close_def)

lemma at_rest_forever:
  "server_path deps l s t \<Longrightarrow> at_rest s \<Longrightarrow>
   at_rest t \<and> w_db (run_world t) = w_db (run_world s) \<and> w_fs (run_world t) = w_fs (run_world s)"
  by (induction rule: rtranclp_induct) (auto dest: at_rest_step)

lemma returned_at_rest: "server_inv s \<Longrightarrow> run_main s = MainReturned None \<Longrightarrow> at_rest s"
  by (simp add: server_inv_defs at_rest_def)

text \<open>All the while the world takes steps of the relay.\<close>

lemma server_step_relay: "server_step deps l s t \<Longrightarrow> relay_step (run_world s) (run_world t)"
  by (erule server_stepE; (erule main_stepE http_stepE loop_stepE)?;
      auto simp: server_Close_def intro: relay_step.request relay_step.tick relay_step.environment)

interpretation served_worlds: invariant_system "server_step deps l" "\<lambda>s. reachable (run_world s)" for deps l
  by unfold_locales (blast intro: reachable_step server_step_relay)

section \<open>The way to the return\<close>

definition can_return :: "dependencies \<Rightarrow> logger \<Rightarrow> running \<Rightarrow> error option \<Rightarrow> bool" where
  "can_return deps l s e \<longleftrightarrow> (\<exists>t. server_path deps l s t \<and> run_main t = MainReturned e)"

lemma can_return_step: "server_step deps l s t \<Longrightarrow> can_return deps l t e \<Longrightarrow> can_return deps l s e"
  unfolding can_return_def by (meson converse_rtranclp_into_rtranclp)

lemma returned_can: "run_main s = MainReturned e \<Longrightarrow> can_return deps l s e"
  by (auto simp: can_return_def)

lemma joining_can:
  assumes "server_inv s" "run_main s = MainJoining e"
  shows "can_return deps l s e"
proof -
  have joined: "can_return deps l t e" if "run_main t = MainJoining e" "run_cleanupDone t" for t
    using can_return_step [OF server_step.main [OF main_step.joined [OF that]]] by (simp add: returned_can)
  have waiting: "can_return deps l t e"
    if "run_main t = MainJoining e" "run_loop t = LoopWaiting" "run_cleanupCtx t" for t
    using can_return_step [OF server_step.loop [OF loop_step.loop_stopped [OF that(2,3)]]] that(1)
    by (simp add: joined)
  have ctx: "run_cleanupCtx s" using assms by (simp add: server_inv_defs)
  show ?thesis
  proof (cases "run_loop s")
    case LoopRunning
    obtain out w where "run_state (service_Expire (newCleanupService (dep_Config deps))) (run_world s) = (out, w)"
      by fastforce
    from can_return_step [OF server_step.loop [OF loop_step.pass [OF LoopRunning this]]] show ?thesis
      using assms(2) ctx by (simp add: waiting)
  next
    case LoopWaiting
    from waiting [OF assms(2) this ctx] show ?thesis .
  next
    case LoopEnded
    with assms show ?thesis by (simp add: joined server_inv_defs)
  qed
qed

lemma returning_can:
  assumes "server_inv s" "run_main s = MainReturning e"
  shows "can_return deps l s e"
proof -
  note step = main_step.stop_cleanup [OF assms(2), THEN server_step.main]
  show ?thesis
    by (rule can_return_step [OF step]) (rule joining_can [OF server_step_inv [OF step assms(1)]], simp)
qed

text \<open>What the goroutine of the HTTP server will send, or has sent: nothing else than nil once it has
  been told to shut down.\<close>

fun to_be_received :: "http_point \<Rightarrow> error option option \<Rightarrow> error option" where
  "to_be_received HttpServing _ = None"
| "to_be_received (HttpSending e) _ = e"
| "to_be_received HttpEnded (Some e) = e"
| "to_be_received HttpEnded None = None"

lemma await_can:
  assumes "server_inv s" "run_main s = MainAwait"
  shows "can_return deps l s (to_be_received (run_http s) (run_errCh s))"
proof -
  have ended: "can_return deps l t e" if "server_inv t" "run_main t = MainAwait" "run_errCh t = Some e" for t e
  proof -
    note step = main_step.awaited [OF that(2,3), THEN server_step.main]
    show ?thesis
      by (rule can_return_step [OF step]) (rule returning_can [OF server_step_inv [OF step that(1)]], simp)
  qed
  have sending: "can_return deps l t e"
    if "server_inv t" "run_main t = MainAwait" "run_http t = HttpSending e" for t e
  proof -
    have "run_errCh t = None" using that by (auto simp: server_inv_defs)
    note step = http_step.sent [OF that(3) this, THEN server_step.http]
    show ?thesis
      by (rule can_return_step [OF step])
        (rule ended [OF server_step_inv [OF step that(1)]], simp_all add: that(2))
  qed
  show ?thesis
  proof (cases "run_http s")
    case HttpServing
    have "run_shutdown s" using assms by (simp add: server_inv_defs)
    note step = http_step.server_closed [OF HttpServing this, THEN server_step.http]
    have "can_return deps l s None"
      by (rule can_return_step [OF step])
        (rule sending [OF server_step_inv [OF step assms(1)]], simp_all add: assms(2))
    then show ?thesis by (simp add: HttpServing)
  next
    case (HttpSending e)
    with sending [OF assms this] show ?thesis by simp
  next
    case HttpEnded
    then obtain e where "run_errCh s = Some e" using assms by (auto simp: server_inv_defs)
    with ended [OF assms this] HttpEnded show ?thesis by simp
  qed
qed

text \<open>The requests under way are answered first.\<close>

lemma shutdown_can:
  assumes "server_inv s" "run_main s = MainShutdown"
  shows "can_return deps l s (to_be_received (run_http s) (run_errCh s))"
  using assms
proof (induction "run_conns s" arbitrary: s)
  case Nil
  note step = main_step.drained [OF Nil(3) Nil(1) [symmetric], THEN server_step.main]
  show ?case
    by (rule can_return_step [OF step]) (use await_can [OF server_step_inv [OF step Nil(2)]] in simp)
next
  case (Cons r rs)
  obtain x w where run: "run_state (NewRouterWithDependencies deps r) (run_world s) = (x, w)" by fastforce
  have "run_conns s = [] @ r # rs" using Cons(2) by simp
  note step = http_step.answered [OF this run, THEN server_step.http]
  show ?case
    by (rule can_return_step [OF step])
      (use Cons(1) [OF _ server_step_inv [OF step Cons(3)]] Cons(4) in simp)
qed

lemma cancelled_can:
  assumes "server_inv s" "run_ctx s" "run_main s = MainSelect"
  shows "can_return deps l s (to_be_received (run_http s) (run_errCh s))"
proof -
  note step = main_step.stopped [OF assms(3,2), THEN server_step.main]
  show ?thesis
    by (rule can_return_step [OF step]) (use shutdown_can [OF server_step_inv [OF step assms(1)]] in simp)
qed

lemma can_return_always:
  assumes "server_inv s" "run_ctx s"
  shows "(\<exists>e. run_main s = MainClosed e) \<or> (\<exists>e. can_return deps l s e)"
proof (cases "run_main s")
  case MainSelect
  with cancelled_can [OF assms] show ?thesis by blast
next
  case MainShutdown
  with shutdown_can [OF assms(1)] show ?thesis by blast
next
  case MainAwait
  with await_can [OF assms(1)] show ?thesis by blast
next
  case (MainReturning e)
  with returning_can [OF assms(1)] show ?thesis by blast
next
  case (MainJoining e)
  with joining_can [OF assms(1)] show ?thesis by blast
next
  case (MainReturned e)
  then show ?thesis by (blast intro: returned_can)
qed simp



end
