(* ===== verification/Relay_Refused.thy ===== *)
theory Relay_Refused
  imports Receiver_Properties
begin

text \<open>
  What a refused upload leaves behind: nothing. An upload under a new ID that is answered with a client
  error has no row and no files, whatever faults occurred on the way; only an answer of 500 or more
  may leave an interrupted upload for the cleanup service.
\<close>

definition no_row :: "go_string \<Rightarrow> go_string \<Rightarrow> world \<Rightarrow> bool" where
  "no_row i j w \<longleftrightarrow> (\<forall>q \<in> set (submissions (w_db w)). sr_key q \<noteq> (i, j))"

definition traceless :: "go_string \<Rightarrow> go_string \<Rightarrow> world \<Rightarrow> bool" where
  "traceless i j w \<longleftrightarrow> no_row i j w \<and> gone (submissionDir i j) w"

text \<open>The rows under the key after the commit has taken effect.\<close>

definition all_ready :: "go_string \<Rightarrow> go_string \<Rightarrow> world \<Rightarrow> bool" where
  "all_ready i j w \<longleftrightarrow>
     \<not> no_row i j w
     \<and> (\<forall>q \<in> set (submissions (w_db w)). sr_key q = (i, j) \<longrightarrow> sr_status q = SubmissionStatusReady)"

lemmas trace_defs = traceless_def no_row_def all_ready_def gone_def

text \<open>What the answer says about the world it leaves.\<close>

definition clean_refusal :: "go_string \<Rightarrow> go_string \<Rightarrow> response \<Rightarrow> world \<Rightarrow> bool" where
  "clean_refusal i j resp w \<longleftrightarrow> (rs_Status resp < 500 \<and> not_submitted resp \<longrightarrow> traceless i j w)"

interpretation submissions_still:
  io_frame "\<lambda>w w'. submissions (w_db w') = submissions (w_db w) \<and> w_fs w' = w_fs w"
  by unfold_locales auto

lemma lookups_still:
  "keeps (\<lambda>w w'. submissions (w_db w') = submissions (w_db w) \<and> w_fs w' = w_fs w) (repo_markExpired a)"
  "keeps (\<lambda>w w'. submissions (w_db w') = submissions (w_db w) \<and> w_fs w' = w_fs w) (repo_FindDropPointByID a)"
  "keeps (\<lambda>w w'. submissions (w_db w') = submissions (w_db w) \<and> w_fs w' = w_fs w) (repo_FindSubmission a b)"
  "keeps (\<lambda>w w'. submissions (w_db w') = submissions (w_db w) \<and> w_fs w' = w_fs w)
     (repo_FindOpenDropPointByDropTokenHash h now)"
proof -
  show mark: "keeps (\<lambda>w w'. submissions (w_db w') = submissions (w_db w) \<and> w_fs w' = w_fs w) (repo_markExpired a)"
    for a
    unfolding repo_markExpired_def
    by (intro submissions_still.keeps_prims submissions_still.keeps_exec keeps_cases)
      (auto simp: stmt_mark_expired_def update_drop_points_def)
  show "keeps (\<lambda>w w'. submissions (w_db w') = submissions (w_db w) \<and> w_fs w' = w_fs w) (repo_FindDropPointByID a)"
    "keeps (\<lambda>w w'. submissions (w_db w') = submissions (w_db w) \<and> w_fs w' = w_fs w) (repo_FindSubmission a b)"
    unfolding repo_FindDropPointByID_def repo_FindSubmission_def
    by (intro submissions_still.keeps_prims keeps_cases)+
  show "keeps (\<lambda>w w'. submissions (w_db w') = submissions (w_db w) \<and> w_fs w' = w_fs w)
     (repo_FindOpenDropPointByDropTokenHash h now)"
    unfolding repo_FindOpenDropPointByDropTokenHash_def repo_FindDropPointByDropTokenHash_def
      expire_if_elapsed_def
    by (intro submissions_still.keeps_prims keeps_cases mark)
qed

lemma traceless_lookups:
  "holds (traceless i j) (repo_markExpired a)" "holds (traceless i j) (repo_FindDropPointByID a)"
  "holds (traceless i j) (repo_FindSubmission a b)"
  "holds (traceless i j) (repo_FindOpenDropPointByDropTokenHash h now)"
  "holds (all_ready i j) (repo_FindSubmission a b)"
  by (rule triple_keeps [OF lookups_still(1)], simp add: trace_defs)
    (rule triple_keeps [OF lookups_still(2)], simp add: trace_defs,
     rule triple_keeps [OF lookups_still(3)], simp add: trace_defs,
     rule triple_keeps [OF lookups_still(4)], simp add: trace_defs,
     rule triple_keeps [OF lookups_still(3)], simp add: trace_defs)

section \<open>Taking back\<close>

lemma finalized:
  "triple (fresh i j) (finalizeSubmissionAttempt i j) (\<lambda>x w. x = Inr () \<longrightarrow> traceless i j w)"
proof -
  define F where "F d \<longleftrightarrow> db_inv d \<and> (\<forall>q \<in> set (submissions d). sr_key q = (i, j) \<longrightarrow>
    sr_status q = SubmissionStatusReceiving)" for d
  have F: "fresh i j = (\<lambda>w. F (w_db w))" by (simp add: F_def fresh_def fun_eq_iff)
  have delete: "triple (\<lambda>w. F (w_db w) \<and> gone (submissionDir i j) w) (repo_DeleteReceivingSubmission i j)
    (\<lambda>x w. x = Inr () \<longrightarrow> traceless i j w)"
  proof (rule tripleI)
    fix w x w' assume pre: "F (w_db w) \<and> gone (submissionDir i j) w"
      and run: "run_state (repo_DeleteReceivingSubmission i j) w = (x, w')"
    then obtain y where y: "run_state (sql_exec (stmt_delete_receiving i j)) w = (y, w')"
      "x = (case y of Inl err \<Rightarrow> Inl err | Inr _ \<Rightarrow> Inr ())"
      by (auto simp: repo_DeleteReceivingSubmission_def split: prod.splits)
    show "x = Inr () \<longrightarrow> traceless i j w'"
    proof
      assume "x = Inr ()"
      then obtain n where "y = Inr n" using y(2) by (auto split: sum.splits)
      from sql_exec_Inr [OF y(1) [unfolded this]]
      have "w_db w' = (w_db w)\<lparr>submissions := delete_where (\<lambda>r. sr_key r = (i, j)
          \<and> sr_status r = SubmissionStatusReceiving) (submissions (w_db w))\<rparr>" and fs: "w_fs w' = w_fs w"
        by (simp_all add: stmt_delete_receiving_def Let_def)
      then have "submissions (w_db w') = delete_where (\<lambda>r. sr_key r = (i, j)
          \<and> sr_status r = SubmissionStatusReceiving) (submissions (w_db w))" by simp
      with fs pre show "traceless i j w'" by (auto simp: traceless_def no_row_def gone_def F_def set_delete_where)
    qed
  qed
  show ?thesis
    unfolding finalizeSubmissionAttempt_def F
    by (rule triple_bind [OF deleted_files(1)], intro triple_sum triple_return triple_weaken [OF delete])
      auto
qed

lemma storage_failure_status [simp]: "\<not> rs_Status (writeStorageFailure e) < 500"
  by (auto simp: writeStorageFailure_def response_defs split: failure_class.splits)

lemma taken_back_clean:
  "triple (fresh i j) (fail_submit i j e st) (clean_refusal i j)"
  "triple (fresh i j) (take_back i j e) (clean_refusal i j)"
  unfolding fail_submit_def take_back_def
  by (rule triple_bind [OF finalized], rule triple_return, simp add: clean_refusal_def split: sum.splits)+

section \<open>Beginning\<close>

lemma begin_statement:
  "triple (traceless i j) (sql_exec (stmt_begin i j now))
     (\<lambda>r w. case r of Inl e \<Rightarrow> traceless i j w \<or> (\<exists>c. e = ErrIO c)
                   | Inr n \<Rightarrow> n = 1 \<or> n = 0 \<and> traceless i j w)"
proof (rule tripleI)
  fix w r w' assume t: "traceless i j w" and run: "run_state (sql_exec (stmt_begin i j now)) w = (r, w')"
  note still = sql_exec_still [OF run]
  have same: "traceless i j w'" if "w_db w' = w_db w" using that still t by (simp add: trace_defs)
  show "case r of Inl e \<Rightarrow> traceless i j w' \<or> (\<exists>c. e = ErrIO c) | Inr n \<Rightarrow> n = 1 \<or> n = 0 \<and> traceless i j w'"
  proof (cases r)
    case (Inl e)
    show ?thesis
    proof (cases "\<exists>c. e = ErrIO c")
      case False
      then have "w_db w' = w_db w"
        using run Inl by (auto simp: sql_exec_def effect_def split: list.splits fault.splits sum.splits)
      with Inl same show ?thesis by simp
    qed (simp add: Inl)
  next
    case (Inr n)
    with sql_exec_Inr [of "stmt_begin i j now" w n w'] run
    have "stmt_begin i j now (w_db w) = Inr (n, w_db w')" by simp
    then have "n = 1 \<or> n = 0 \<and> w_db w' = w_db w"
      by (auto simp: stmt_begin_def split: option.splits if_splits)
    with Inr same show ?thesis by auto
  qed
qed

lemma begin_error_traceless:
  "triple (traceless i j) (repo_BeginSubmission i j now)
     (\<lambda>x w. \<forall>e. x = Inl e \<longrightarrow> traceless i j w \<or> (\<exists>c. e = ErrIO c))"
  (is "triple _ _ ?S")
proof -
  have rows: "triple (\<lambda>w. n = 1 \<or> n = 0 \<and> traceless i j w) (rows_affected n)
      (\<lambda>r w. case r of Inl e \<Rightarrow> \<exists>c. e = ErrIO c | Inr c \<Rightarrow> c = 1 \<or> traceless i j w)" for n :: nat
    by (rule tripleI) (auto dest!: rows_affected_run simp: trace_defs)
  have mark: "triple (traceless i j) (do { m \<leftarrow> repo_markExpired i;
        State_Monad.return (case m of Inl markErr \<Rightarrow> Inl markErr | Inr _ \<Rightarrow> Inl e) }) ?S"
    for e
    by (rule triple_bind [OF traceless_lookups(1)], rule triple_return) simp
  have find: "triple (traceless i j) (do { s \<leftarrow> repo_FindSubmission i j;
        State_Monad.return (case s of
            Inr _ \<Rightarrow> Inl ErrSubmissionAlreadyExists
          | Inl err \<Rightarrow> if \<not> errors_is err ErrSubmissionNotFound then Inl err
                       else Inl ErrPendingSubmissionQuotaExceeded) }) ?S"
    by (rule triple_bind [OF traceless_lookups(3)], rule triple_return) simp
  have why: "triple (traceless i j) (do {
       f \<leftarrow> repo_FindDropPointByID i;
       case f of
         Inl err \<Rightarrow> State_Monad.return (Inl err)
       | Inr dp \<Rightarrow>
       (case RequireOpen dp now of
         Some err \<Rightarrow>
           if errors_is err ErrDropPointExpired then do {
             m \<leftarrow> repo_markExpired i;
             State_Monad.return (case m of Inl markErr \<Rightarrow> Inl markErr | Inr _ \<Rightarrow> Inl err)
           }
           else State_Monad.return (Inl err)
       | None \<Rightarrow> do {
           s \<leftarrow> repo_FindSubmission i j;
           State_Monad.return (case s of
               Inr _ \<Rightarrow> Inl ErrSubmissionAlreadyExists
             | Inl err \<Rightarrow> if \<not> errors_is err ErrSubmissionNotFound then Inl err
                          else Inl ErrPendingSubmissionQuotaExceeded)
         }) }) ?S"
    by (rule triple_bind [OF traceless_lookups(2)], intro triple_sum triple_option triple_if mark find triple_return)
      simp_all
  have counted: "triple (\<lambda>w. n = 1 \<or> n = 0 \<and> traceless i j w) (do {
     changed \<leftarrow> rows_affected n;
     case changed of
       Inl err \<Rightarrow> State_Monad.return (Inl err)
     | Inr c \<Rightarrow> if c = 1 then State_Monad.return (Inr ()) else do {
         f \<leftarrow> repo_FindDropPointByID i;
         case f of
           Inl err \<Rightarrow> State_Monad.return (Inl err)
         | Inr dp \<Rightarrow>
         (case RequireOpen dp now of
           Some err \<Rightarrow>
             if errors_is err ErrDropPointExpired then do {
               m \<leftarrow> repo_markExpired i;
               State_Monad.return (case m of Inl markErr \<Rightarrow> Inl markErr | Inr _ \<Rightarrow> Inl err)
             }
             else State_Monad.return (Inl err)
         | None \<Rightarrow> do {
             s \<leftarrow> repo_FindSubmission i j;
             State_Monad.return (case s of
                 Inr _ \<Rightarrow> Inl ErrSubmissionAlreadyExists
               | Inl err \<Rightarrow> if \<not> errors_is err ErrSubmissionNotFound then Inl err
                            else Inl ErrPendingSubmissionQuotaExceeded)
           }) }}) ?S" for n
    by (rule triple_bind [OF rows], intro triple_sum triple_if triple_return triple_weaken [OF why]) auto
  show ?thesis
    unfolding repo_BeginSubmission_def
  proof (rule triple_bind [OF begin_statement], rule triple_sum, goal_cases)
    case (1 x e)
    then show ?case by (intro triple_return) auto
  next
    case (2 x n)
    show ?case unfolding \<open>x = Inr n\<close> sum.case by (rule counted)
  qed
qed

section \<open>Receiving\<close>

lemma begun_refused:
  "triple (\<lambda>w. traceless i j w \<or> (\<exists>c. e = ErrIO c)) (if errors_is e ErrSubmissionAlreadyExists
     then submitExistingSubmission i j else State_Monad.return (writeDropAuthError e)) (clean_refusal i j)"
proof (cases "\<exists>c. e = ErrIO c")
  case True
  then show ?thesis
    by (auto intro!: triple_return simp: clean_refusal_def writeDropAuthError_def response_defs)
next
  case False
  have existing: "triple (traceless i j) (submitExistingSubmission i j) (clean_refusal i j)"
    unfolding submitExistingSubmission_def
    by (rule triple_bind [OF traceless_lookups(3)], rule triple_return) (simp add: clean_refusal_def)
  have "triple (traceless i j) (State_Monad.return (writeDropAuthError e)) (clean_refusal i j)"
    by (rule triple_return) (simp add: clean_refusal_def)
  with False existing show ?thesis by simp
qed

lemma commit_either:
  "triple (fresh i j) (repo_CommitSubmission i j st now) (\<lambda>_ w. all_ready i j w \<or> fresh i j w)"
proof (rule tripleI)
  fix w x w' assume f: "fresh i j w" and run: "run_state (repo_CommitSubmission i j st now) w = (x, w')"
  show "all_ready i j w' \<or> fresh i j w'"
  proof (cases "cs_EnvelopePath st = [] \<or> cs_PayloadPath st = [] \<or> cs_EncryptedSize st < 0")
    case True
    with run f show ?thesis by (auto simp: repo_CommitSubmission_def)
  next
    case False
    with run have "run_state (sql_exec (tx_commit i j st now)) w = (x, w')"
      by (simp add: repo_CommitSubmission_def)
    note still = sql_exec_still [OF this]
    show ?thesis
    proof (cases "w_db w' = w_db w")
      case True
      with f show ?thesis by (auto intro: fresh_still)
    next
      case False
      with still obtain y where y: "tx_commit i j st now (w_db w) = Inr (y, w_db w')" by blast
      let ?P = "\<lambda>r. sr_key r = (i, j) \<and> sr_status r = SubmissionStatusReceiving"
      from y have u: "update_submissions ?P (set_ready st now) (w_db w) = Inr (Suc 0, w_db w')"
        by (auto simp: tx_commit_def Let_def split: sum.splits option.splits if_splits prod.splits)
      then have "has_status i j SubmissionStatusReady (w_db w')"
        by (elim updated_status) (auto simp: set_ready_def sr_key_def)
      moreover have eq: "w_db w' = (w_db w)\<lparr>submissions := update_where ?P (set_ready st now) (submissions (w_db w))\<rparr>"
        using u by (simp add: update_submissions_def)
      have subs: "submissions (w_db w') = update_where ?P (set_ready st now) (submissions (w_db w))"
        unfolding eq by simp
      have "sr_status q = SubmissionStatusReady"
        if "q \<in> set (submissions (w_db w'))" "sr_key q = (i, j)" for q
      proof -
        from that(1) obtain p where p: "p \<in> set (submissions (w_db w))" "q = (if ?P p then set_ready st now p else p)"
          unfolding subs update_where_def by auto
        then have "sr_key p = (i, j)" using that(2) by (auto simp: set_ready_def sr_key_def split: if_splits)
        with f p show ?thesis by (auto simp: fresh_def set_ready_def)
      qed
      ultimately show ?thesis unfolding all_ready_def no_row_def has_status_def by blast
    qed
  qed
qed

lemma resolved_clean:
  "triple (\<lambda>w. all_ready i j w \<or> fresh i j w) (resolve_commit i j e) (clean_refusal i j)"
proof -
  have ready: "triple (all_ready i j) (repo_FindSubmission i j)
      (\<lambda>x w. (\<forall>s. x = Inr s \<longrightarrow> sub_Status s = SubmissionStatusReady)
        \<and> (\<forall>f. x = Inl f \<longrightarrow> \<not> errors_is f ErrSubmissionNotFound))"
    by (rule triple_weaken [OF triple_real [OF traceless_lookups(5) real_find_submission]])
      (auto simp: all_ready_def no_row_def submission_of_row_def)
  have find: "triple (\<lambda>w. all_ready i j w \<or> fresh i j w) (repo_FindSubmission i j)
    (\<lambda>x w. (\<forall>s. x = Inr s \<longrightarrow> sub_Status s = SubmissionStatusReady)
        \<and> (\<forall>f. x = Inl f \<longrightarrow> \<not> errors_is f ErrSubmissionNotFound)
      \<or> fresh i j w \<and> (\<forall>s. x = Inr s \<longrightarrow> sub_Status s = SubmissionStatusReceiving))"
    using ready fresh_find [of i j] unfolding triple_def by blast
  show ?thesis
    unfolding resolve_commit_def
    by (rule triple_bind [OF find], intro triple_sum triple_if triple_return triple_weaken [OF taken_back_clean(2)])
      (auto simp: clean_refusal_def submitted_def response_defs)
qed

lemma receive_clean:
  assumes i: "dp_ID dp = i"
  shows "triple (fresh i j) (receive_submission deps r dp j lim) (clean_refusal i j)"
proof -
  have blob: "holds (fresh i j) (WriteSubmission a b env events m)" for a b env events m
    by (rule triple_keeps [OF keeps_WriteSubmission]) (auto simp: blob_frame_def intro: fresh_still)
  show ?thesis
    unfolding receive_submission_def i
    by (intro triple_sum triple_prod taken_back_clean triple_bind [OF blob] triple_bind [OF fresh_prims(2)]
        triple_bind [OF commit_either] triple_return triple_weaken [OF resolved_clean])
      (auto simp: clean_refusal_def submitted_def response_defs)
qed

lemma begin_clean:
  "triple (\<lambda>w. db_inv (w_db w) \<and> traceless i j w) (repo_BeginSubmission i j now)
     (\<lambda>x w. case x of Inl e \<Rightarrow> traceless i j w \<or> (\<exists>c. e = ErrIO c) | Inr _ \<Rightarrow> fresh i j w)"
  by (rule triple_weaken [OF triple_conj [OF fresh_begin begin_error_traceless]])
    (auto simp: fresh_def trace_defs split: sum.splits)

section \<open>The whole upload\<close>

lemma refused_submit:
  assumes inv: "db_inv (w_db w)" "traceless i j w"
    and dp: "drop_point_at (w_db w) i = Some dp" "dp_DropTokenHash dp = HashSecret tok"
    and run: "run_state (HandleSubmitDrop deps r tok j) w = (resp, w')"
  shows "clean_refusal i j resp w'"
proof -
  have quiet: "clean_refusal i j resp v" if "traceless i j v" for v using that by (simp add: clean_refusal_def)
  obtain now w1 where now: "run_state now_io w = (now, w1)" by fastforce
  note w1 = now_io_still [OF now]
  have t1: "traceless i j w1" using inv(2) w1 by (simp add: trace_defs)
  obtain f w2 where f: "run_state (repo_FindOpenDropPointByDropTokenHash (HashSecret tok) now) w1 = (f, w2)"
    by fastforce
  have t2: "traceless i j w2" by (rule tripleD [OF traceless_lookups(4) t1 f])
  show ?thesis
  proof (cases "\<not> dep_Repository deps \<or> \<not> dep_BlobStore deps \<or> \<not> ValidSubmissionID j \<or> (\<exists>e. f = Inl e)")
    case True
    then have "w' = w \<or> w' = w2" using run now f by (auto simp: HandleSubmitDrop_def split: if_splits)
    with t2 inv(2) quiet show ?thesis by blast
  next
    case False
    then obtain dp' where dp': "f = Inr dp'" by (cases f) auto
    from open_lookup [OF _ f [unfolded dp']] inv w1
    have dp'': "drop_point_at (w_db w) (dp_ID dp') = Some dp'" "dp_DropTokenHash dp' = HashSecret tok"
      and w2: "w_db w2 = w_db w" by auto
    have same: "dp' = dp" by (rule drop_token_unique [OF inv(1) dp''(1) dp(1)]) (simp add: dp''(2) dp(2))
    have i: "dp_ID dp = i" using drop_point_at_wf [OF inv(1) dp(1)] by simp
    show ?thesis
    proof (cases "dropRequestSizeLimit (dp_MaxBytes dp)")
      case (Inl e)
      then have "w' = w2" using run now f dp' same False by (auto simp: HandleSubmitDrop_def)
      with t2 quiet show ?thesis by simp
    next
      case (Inr lim)
      have "triple (\<lambda>w. db_inv (w_db w) \<and> traceless i j w) (do {
          b \<leftarrow> repo_BeginSubmission i j now;
          case b of
            Inl err \<Rightarrow>
              if errors_is err ErrSubmissionAlreadyExists then submitExistingSubmission i j
              else State_Monad.return (writeDropAuthError err)
          | Inr _ \<Rightarrow> receive_submission deps r dp j lim}) (clean_refusal i j)"
      proof (rule triple_bind [OF begin_clean], rule triple_sum, goal_cases)
        case (1 x e)
        show ?case unfolding \<open>x = Inl e\<close> sum.case by (rule begun_refused)
      next
        case (2 x u)
        show ?case unfolding \<open>x = Inr u\<close> sum.case by (rule receive_clean [OF i])
      qed
      moreover have "run_state (do {
          b \<leftarrow> repo_BeginSubmission i j now;
          case b of
            Inl err \<Rightarrow>
              if errors_is err ErrSubmissionAlreadyExists then submitExistingSubmission i j
              else State_Monad.return (writeDropAuthError err)
          | Inr _ \<Rightarrow> receive_submission deps r dp j lim}) w2 = (resp, w')"
        using run now f dp' same i Inr False by (auto simp: HandleSubmitDrop_def)
      ultimately show ?thesis using tripleD [of _ _ _ w2 resp w'] t2 inv(1) w2 by fastforce
    qed
  qed
qed

text \<open>C39. An upload under a new ID that is refused leaves nothing behind: if the answer is neither a success
  nor an error of the relay itself (500 or more), then after it, whatever faults occurred, there is
  no row with that ID and nothing in or below its directory.\<close>

theorem refused_upload_leaves_no_trace:
  assumes "db_inv (w_db w)" "submission_at (w_db w) i j = None"
    and "\<forall>q. below (submissionDir i j) q \<longrightarrow> fs_get (w_fs w) q = None"
    and "drop_point_at (w_db w) i = Some dp" "dp_DropTokenHash dp = HashSecret tok"
    and "run_state (HandleSubmitDrop deps r tok j) w = (resp, w')"
    and "rs_Status resp < 500" "\<forall>k st. rs_Body resp \<noteq> SubmitBody k st"
  shows "submission_at (w_db w') i j = None
    \<and> (\<forall>q. below (submissionDir i j) q \<longrightarrow> fs_get (w_fs w') q = None)"
proof -
  have "traceless i j w"
    using assms(2,3) by (auto simp: trace_defs submission_at_def find_None_iff)
  from refused_submit [OF assms(1) this assms(4,5,6)] assms(7,8) have "traceless i j w'"
    by (simp add: clean_refusal_def)
  then show ?thesis by (auto simp: trace_defs submission_at_def find_None_iff)
qed

text \<open>An upload to the sample relay that is no multipart form: it is begun, taken back and answered 400.\<close>

lemma sample_no_form:
  "\<exists>e. multipartDropParts sample_media (sample_create) lim = Inl e \<and> \<not> dropRequestTooLarge e
     \<and> rs_Status (writeMultipartDropError e) = 400"
proof -
  have "sample_media (rq_ContentType sample_create) = Some (jsonContentType, [])" by code_simp
  moreover have "jsonContentType \<noteq> multipartFormPrefix" by code_simp
  ultimately show ?thesis
    by (simp add: multipartDropParts_def dropRequestTooLarge_def writeMultipartDropError_def response_defs)
qed

lemma sample_finalized:
  assumes "w_faults w = []" "w_fs w = [([DropPointsDirName], Dir)]"
  shows "\<exists>w'. run_state (finalizeSubmissionAttempt sample_dp_id sample_id) w = (Inr (), w')"
proof -
  have valid: "validateDropPointID sample_dp_id = None" by code_simp
  have none: "tree_entries (w_fs w) (submissionDir sample_dp_id sample_id) = []"
    by (simp add: tree_entries_def assms(2) submissionDir_def dropDir_def)
  have sync: "os_SyncDir (dropDir sample_dp_id) (w_fs w) = (Inl ErrNotExist, w_fs w)"
    by (simp add: os_SyncDir_def assms(2) fs_get_def dropDir_def)
  show ?thesis
    using assms(1) valid none sync sample_id_valid
    by (simp add: finalizeSubmissionAttempt_def DeleteSubmission_def repo_DeleteReceivingSubmission_def
        os_RemoveAll_def no_fault may_fail_no_fault fs_read_no_fault fs_exec_no_fault stmt_delete_receiving_def Let_def)
qed

lemma refused_upload_leaves_no_trace_witness:
  "\<exists>w w' resp. run_state (HandleSubmitDrop sample_deps sample_create sample_drop_token sample_id) w = (resp, w')
     \<and> rs_Status resp = 400 \<and> submission_at (w_db w') sample_dp_id sample_id = None"
proof -
  obtain v dp where v: "reachable v" "w_faults v = []" "w_fs v = [([DropPointsDirName], Dir)]" "w_now v = 7"
    "w_ticks v = []" "submissions (w_db v) = []"
    "drop_point_at (w_db v) sample_dp_id = Some dp" "dp_Status dp = StatusOpen" "7 < dp_ExpiresAt dp"
    "dp_DropTokenHash dp = HashSecret sample_drop_token" "dp_MaxBytes dp = DefaultMaxBytes"
    "dp_MaxPendingSubmissions dp = 10" "dp_MaxPendingBytes dp = 10 * DefaultMaxBytes"
    by (rule sample_created)
  note inv = reachable_inv [OF v(1)]
  have absent: "submission_at (w_db v) sample_dp_id sample_id = None" using v(6) by (simp add: submission_at_def)
  note upload = sample_upload_facts [OF v(6,11,12,13)]
  have i: "dp_ID dp = sample_dp_id" using drop_point_at_wf [OF inv v(7)] by simp
  have now: "run_state now_io v = (7, v)" by (simp add: now_io_def v(4,5))
  note found = find_open_run [OF v(2) inv v(7,10,8,9)]
  note begun = begin_run [OF v(2) inv v(7,8,9) absent upload(2)]
  obtain e where e: "multipartDropParts sample_media sample_create (DefaultMaxBytes + framingBytes) = Inl e"
    "rs_Status (writeMultipartDropError e) = 400" using sample_no_form by blast
  obtain w' where fin: "run_state (finalizeSubmissionAttempt sample_dp_id sample_id)
      (v\<lparr>w_db := (w_db v)\<lparr>submissions := submissions (w_db v) @ [new_submission_row sample_dp_id sample_id 7]\<rparr>\<rparr>)
    = (Inr (), w')"
    using sample_finalized v(2,3) by fastforce
  have run: "run_state (HandleSubmitDrop sample_deps sample_create sample_drop_token sample_id) v
      = (writeMultipartDropError e, w')"
    using now found begun e fin i upload(4) sample_id_valid
    by (simp add: HandleSubmitDrop_def receive_submission_def fail_submit_def)
  have "\<forall>q. below (submissionDir sample_dp_id sample_id) q \<longrightarrow> fs_get (w_fs v) q = None"
    using sample_place [of sample_dp_id sample_id] v(3) by (simp add: clear_place_def)
  from refused_upload_leaves_no_trace [OF inv absent this v(7,10) run] e(2) errors_not_submitted(4) run
  show ?thesis by fastforce
qed

end
