(* ===== verification/Cli_Properties.thy ===== *)
theory Cli_Properties
  imports Cli Http Repo_Success Relay_Create
begin

text \<open>
  What \<open>droppoint token add\<close> leaves behind: a token that was printed authenticates, and a command
  that fails has printed nothing and changed nothing but, at worst, one row nobody knows the secret of.
\<close>

section \<open>A generated token as a bearer token\<close>

lemma EncodeToString_digits: "c \<in> set (EncodeToString bs) \<Longrightarrow> b64_digit c \<noteq> None"
proof -
  have "\<forall>b \<in> set (map of_char bs :: int list). 0 \<le> b \<and> b < 256" by (auto simp: of_char_range)
  then have "\<forall>d \<in> set (b64_enc (map of_char bs)). 0 \<le> d \<and> d < 64" by (rule b64_enc_range)
  then show "c \<in> set (EncodeToString bs) \<Longrightarrow> b64_digit c \<noteq> None"
    by (auto simp: EncodeToString_def b64_digit_char)
qed

lemma generated_api_token:
  assumes "GenerateAPIToken s = Inr tok"
  shows "tok \<noteq> []" "\<forall>c \<in> set tok. b64_digit c \<noteq> None"
proof -
  have prefix: "\<forall>c \<in> set ''api_''. b64_digit c \<noteq> None" by code_simp
  obtain bs where "tok = ''api_'' @ EncodeToString bs"
    using assms by (auto simp: GenerateAPIToken_def generate_def APITokenPrefix_def split: option.splits)
  with prefix EncodeToString_digits show "tok \<noteq> []" "\<forall>c \<in> set tok. b64_digit c \<noteq> None" by auto
qed

lemma no_space_encoding:
  assumes "e \<in> set space_encodings" "e \<noteq> []"
  shows "b64_digit (hd e) = None \<and> b64_digit (last e) = None"
proof -
  have "list_all (\<lambda>e. b64_digit (hd e) = None \<and> b64_digit (last e) = None) space_encodings" by code_simp
  with assms show ?thesis by (simp add: list_all_iff)
qed

lemma has_prefix_hd: "has_prefix s e \<Longrightarrow> e \<noteq> [] \<Longrightarrow> hd e \<in> set s"
  unfolding has_prefix_def by (metis in_set_takeD list.set_sel(1))

lemma trim_space_digits:
  assumes "\<forall>c \<in> set s. b64_digit c \<noteq> None"
  shows "trim_space s = s"
proof -
  have "strip_any space_encodings s = s"
    by (rule strip_any_none) (use assms no_space_encoding has_prefix_hd in blast)
  moreover have "strip_any (map rev space_encodings) (rev s) = rev s"
  proof (rule strip_any_none)
    fix e assume "e \<in> set (map rev space_encodings)" "e \<noteq> []"
    then obtain d where d: "d \<in> set space_encodings" "d \<noteq> []" "e = rev d" by auto
    with no_space_encoding [of d] have "b64_digit (hd e) = None" by (simp add: hd_rev)
    with assms \<open>e \<noteq> []\<close> show "\<not> has_prefix (rev s) e" using has_prefix_hd [of "rev s" e] by fastforce
  qed
  ultimately show ?thesis by (simp add: trim_space_def trim_left_space_def trim_right_space_def)
qed

lemma bearer_of_digits:
  assumes "s \<noteq> []" "\<forall>c \<in> set s. b64_digit c \<noteq> None"
  shows "bearerToken (''Bearer '' @ s) = Some s"
proof -
  have "\<forall>c \<in> set [CHR '' '', CHR 0x09, CHR 0x0D, CHR 0x0A]. b64_digit c = None" by code_simp
  then have "\<not> contains_any s [CHR '' '', CHR 0x09, CHR 0x0D, CHR 0x0A]"
    using assms(2) by (fastforce simp: contains_any_def list_ex_iff List.member_iff)
  moreover have "has_prefix (''Bearer '' @ s) ''Bearer ''" "trim_prefix (''Bearer '' @ s) ''Bearer '' = s"
    by (rule has_prefix_append, rule trim_prefix_append)
  ultimately show ?thesis
    using assms(1) by (simp only: bearerToken_def trim_space_digits [OF assms(2)] Let_def) simp
qed

section \<open>Adding\<close>

text \<open>The database with the new row, and the condition under which it is inserted.\<close>

definition token_added :: "add_api_token_params \<Rightarrow> db \<Rightarrow> db \<Rightarrow> bool" where
  "token_added p d d' \<longleftrightarrow>
     (\<forall>r \<in> set (api_tokens d). tr_id r \<noteq> ap_ID p \<and> tr_secret_hash r \<noteq> ap_SecretHash p)
     \<and> d' = d\<lparr>api_tokens := api_tokens d @ [new_api_token_row p]\<rparr>"

lemma add_statement: "stmt_add_token p d = Inr (n, d') \<Longrightarrow> token_added p d d'"
  by (auto simp: stmt_add_token_def token_added_def list_ex_iff split: if_splits)

lemma removed_again: "token_added p d d' \<Longrightarrow> stmt_remove_token (ap_ID p) d' = Inr (n, d'') \<Longrightarrow> d'' = d"
proof -
  assume a: "token_added p d d'" and r: "stmt_remove_token (ap_ID p) d' = Inr (n, d'')"
  have "delete_where (\<lambda>r. tr_id r = ap_ID p) (api_tokens d) = api_tokens d"
    using a by (intro delete_where_none) (auto simp: token_added_def)
  then have "delete_where (\<lambda>r. tr_id r = ap_ID p) (api_tokens d @ [new_api_token_row p]) = api_tokens d"
    by (simp add: delete_where_def new_api_token_row_def)
  with a r show ?thesis by (auto simp: stmt_remove_token_def token_added_def)
qed

lemma added:
  "triple (\<lambda>w. w_db w = d) (repo_AddAPIToken p)
     (\<lambda>x w. if x = Inr () then token_added p d (w_db w) else w_db w = d \<or> token_added p d (w_db w))"
proof (rule tripleI)
  fix w x w' assume d: "w_db w = d" and run: "run_state (repo_AddAPIToken p) w = (x, w')"
  show "if x = Inr () then token_added p d (w_db w') else w_db w' = d \<or> token_added p d (w_db w')"
  proof (cases "validateAPITokenFields (ap_ID p) (ap_SecretHash p) (ap_MaxActiveDropPoints p) = None
      \<and> ap_CreatedAt p \<noteq> zero_time")
    case False
    with d run show ?thesis by (auto simp: repo_AddAPIToken_def split: option.splits if_splits)
  next
    case True
    with run obtain y where y: "run_state (sql_exec (stmt_add_token p)) w = (y, w')"
      "x = (case y of Inl err \<Rightarrow> Inl err | Inr _ \<Rightarrow> Inr ())"
      by (auto simp: repo_AddAPIToken_def split: prod.splits)
    have "w_db w' = d \<or> token_added p d (w_db w')"
      using sql_exec_still [OF y(1)] d add_statement by auto
    moreover have "token_added p d (w_db w')" if "y = Inr n" for n
      using sql_exec_Inr [OF y(1) [unfolded that]] d add_statement by auto
    ultimately show ?thesis using y(2) by (auto split: sum.splits)
  qed
qed

lemma rolled_back:
  "triple (\<lambda>w. token_added p d (w_db w)) (repo_RemoveAPIToken (ap_ID p))
     (\<lambda>_ w. w_db w = d \<or> token_added p d (w_db w))"
proof -
  have exec: "triple (\<lambda>w. token_added p d (w_db w)) (sql_exec (stmt_remove_token (ap_ID p)))
     (\<lambda>_ w. w_db w = d \<or> token_added p d (w_db w))"
    by (rule tripleI) (use sql_exec_still removed_again in fastforce)
  have rows: "holds (\<lambda>w. w_db w = d \<or> token_added p d (w_db w)) (rows_affected n)" for n :: nat
    by (rule triple_keeps [OF still.keeps_prims(4)]) auto
  show ?thesis
    unfolding repo_RemoveAPIToken_def exec_on_token_def
    by (intro triple_if triple_return triple_bind [OF exec] triple_sum triple_bind [OF rows]) auto
qed

text \<open>The line that is printed.\<close>

definition added_line :: "go_string \<Rightarrow> go_string \<Rightarrow> go_string" where
  "added_line tok tid = ''api_token: '' @ tok @ [CHR 0x0A] @ ''id: '' @ tid @ [CHR 0x0A]"

definition add_params :: "go_string \<Rightarrow> int option \<Rightarrow> go_string \<Rightarrow> time \<Rightarrow> add_api_token_params" where
  "add_params tid mx tok now =
     \<lparr>ap_ID = tid, ap_SecretHash = HashSecret tok, ap_MaxActiveDropPoints = mx, ap_CreatedAt = now\<rparr>"

definition add_result :: "go_string \<Rightarrow> add_api_token_params \<Rightarrow> go_string \<Rightarrow> db \<Rightarrow> exit \<Rightarrow> world \<Rightarrow> bool" where
  "add_result tok p tid d out w \<longleftrightarrow>
     (if exit_code out = 0 then exit_output out = [added_line tok tid] \<and> token_added p d (w_db w)
      else exit_output out = [] \<and> (w_db w = d \<or> token_added p d (w_db w)))"

lemma add_and_print_result:
  "triple (\<lambda>w. w_db w = d) (add_and_print tid mx tok now) (add_result tok (add_params tid mx tok now) tid d)"
  (is "triple _ _ ?S")
proof -
  let ?p = "add_params tid mx tok now"
  have print: "triple (\<lambda>w. token_added ?p d (w_db w)) (print_and_exit (added_line tok tid))
      (\<lambda>out w. token_added ?p d (w_db w)
         \<and> (out = exits 1 \<or> out = \<lparr>exit_code = 0, exit_output = [added_line tok tid]\<rparr>))"
    unfolding print_and_exit_def
  proof (rule triple_bind, rule triple_keeps [OF still.keeps_prims(6)], simp, rule triple_return)
  qed (auto split: sum.splits)
  have tail: "triple (\<lambda>w. token_added ?p d (w_db w)) (do {
       out \<leftarrow> print_and_exit (added_line tok tid);
       if exit_code out \<noteq> 0 then do { _ \<leftarrow> repo_RemoveAPIToken tid; State_Monad.return out }
       else State_Monad.return out }) ?S"
  proof (rule triple_bind [OF print], intro triple_if, goal_cases)
    case (1 out)
    show ?case
    proof (cases "out = exits 1")
      case True
      have "triple (\<lambda>w. token_added ?p d (w_db w)) (repo_RemoveAPIToken tid)
          (\<lambda>_ w. w_db w = d \<or> token_added ?p d (w_db w))"
        using rolled_back [of ?p d] by (simp add: add_params_def)
      then have "triple (\<lambda>w. token_added ?p d (w_db w))
          (do { _ \<leftarrow> repo_RemoveAPIToken tid; State_Monad.return out }) ?S"
        by (rule triple_bind, intro triple_return) (simp add: True add_result_def exits_def)
      then show ?thesis by (rule triple_weaken) auto
    next
      case False
      with 1 show ?thesis by (auto simp: triple_def)
    qed
  next
    case (2 out)
    then show ?case by (intro triple_return) (auto simp: add_result_def exits_def)
  qed
  show ?thesis
    unfolding add_and_print_def add_params_def [symmetric] added_line_def [symmetric]
    by (rule triple_bind [OF added], intro triple_sum triple_return triple_weaken [OF tail])
      (auto simp: add_result_def exits_def split: if_splits)
qed

section \<open>The command\<close>

lemma opening_keeps_db: "holds (\<lambda>w. w_db w = d) (openTokenRepository proc path)"
proof -
  have fs: "holds (\<lambda>w. w_db w = d) (fs_exec f)" for f :: "fs \<Rightarrow> unit result \<times> fs"
    by (rule tripleI) (auto dest: fs_exec_run)
  have reads: "holds (\<lambda>w. w_db w = d) (fs_read q)" for q :: "fs \<Rightarrow> bool result"
    by (rule triple_keeps [OF still.keeps_prims(5)]) auto
  have dir: "holds (\<lambda>w. w_db w = d) (ensureDirectory p)" for p
    unfolding ensureDirectory_def by (intro holds_rules fs reads)
  show ?thesis
    unfolding openTokenRepository_def open_data_def EnsureDataDir_def by (intro holds_rules dir)
qed

definition command_result :: "go_string list \<Rightarrow> db \<Rightarrow> exit \<Rightarrow> world \<Rightarrow> bool" where
  "command_result args d out w \<longleftrightarrow>
     exit_code out \<noteq> 0 \<and> exit_output out = [] \<and> w_db w = d
     \<or> (\<exists>path tid mx tok s now. token_add_options args = Some (path, tid, mx)
          \<and> GenerateAPIToken s = Inr tok \<and> add_result tok (add_params tid mx tok now) tid d out w)"

lemma runTokenAdd_result: "triple (\<lambda>w. w_db w = d) (runTokenAdd proc args) (command_result args d)"
proof -
  have fails: "triple (\<lambda>w. w_db w = d) (State_Monad.return (exits n)) (command_result args d)" if "n \<noteq> 0" for n
    by (rule triple_return) (use that in \<open>simp add: command_result_def exits_def\<close>)
  have entropy: "holds (\<lambda>w. w_db w = d) (rand_read n)" for n
    by (rule triple_keeps [OF still.keeps_prims(8)]) auto
  have clock: "holds (\<lambda>w. w_db w = d) now_io"
    by (rule triple_keeps [OF still.keeps_prims(7)]) auto
  show ?thesis
    unfolding runTokenAdd_def
  proof (intro triple_option triple_prod fails triple_bind [OF opening_keeps_db] triple_if
      triple_bind [OF entropy] triple_sum triple_bind [OF clock], goal_cases)
    case (4 v path y tid mx ok s tok now)
    then show ?case
      by (intro triple_weaken [OF add_and_print_result]) (auto simp: command_result_def)
  qed auto
qed

text \<open>Any world that has the database of the command's end: the token authenticates there.\<close>

lemma added_authenticates:
  assumes "token_added (add_params tid mx tok now) d (w_db v)" "GenerateAPIToken s = Inr tok" "w_faults v = []"
  shows "fst (run_state (authenticateAPIToken defaultMax (''Bearer '' @ tok)) v) =
    Inr (Some \<lparr>auth_ID = tid, auth_MaxActiveDropPoints = (case mx of None \<Rightarrow> defaultMax | Some n \<Rightarrow> n)\<rparr>)"
proof -
  let ?p = "add_params tid mx tok now"
  have "find (\<lambda>r. tr_secret_hash r = HashSecret tok \<and> tr_enabled r = 1) (api_tokens (w_db v))
      = Some (new_api_token_row ?p)"
  proof -
    have "find (\<lambda>r. tr_secret_hash r = HashSecret tok \<and> tr_enabled r = 1) (api_tokens d) = None"
      using assms(1) by (auto simp: find_None_iff token_added_def add_params_def)
    with assms(1) show ?thesis by (simp add: token_added_def find_append new_api_token_row_def add_params_def)
  qed
  then have "query_enabled_token (HashSecret tok) (w_db v) =
      Inr \<lparr>tok_ID = tid, tok_Enabled = True, tok_MaxActiveDropPoints = mx, tok_CreatedAt = now, tok_DisabledAt = None\<rparr>"
    by (simp add: query_enabled_token_def scanAPIToken_def new_api_token_row_def add_params_def)
  then show ?thesis
    using assms(3) bearer_of_digits [OF generated_api_token [OF assms(2)]]
    by (simp add: authenticateAPIToken_def repo_FindEnabledAPITokenBySecretHash_def no_fault)
qed


text \<open>The options of the sample command.\<close>

lemma sample_add:
  "token_add_options [''--id'', ''ops'', ''--max-active'', ''2''] = Some ([], ''ops'', Some 2)"
  by code_simp

text \<open>A relay without tokens and 32 zero bytes as the token's secret.\<close>

definition sample_invocation :: invocation where
  "sample_invocation =
     \<lparr>inv_ReadFile = \<lambda>_. Inl ErrNotExist, inv_LookupEnv = \<lambda>_. None, inv_ParseURL = sample_url,
      inv_Opened = Inr (), inv_ListenAndServe = \<lambda>_. State_Monad.return (Inr ())\<rparr>"

definition sample_empty :: world where
  "sample_empty =
     \<lparr>w_db = empty_db, w_fs = [([DropPointsDirName], Dir)], w_faults = [], w_now = 7, w_ticks = [],
      w_entropy = replicate 32 CHR 0x00, w_names = []\<rparr>"

lemma sample_opens: "run_state (openTokenRepository sample_invocation []) sample_empty = (True, sample_empty)"
proof -
  have load: "load_config sample_invocation [] = Inr Default" by code_simp
  have data: "cfg_DataDir Default \<noteq> []" by code_simp
  let ?t = "[([DropPointsDirName], Dir)]"
  have calls: "os_MkdirAll [] ?t = (Inr (), ?t)" "os_Chmod [] ?t = (Inr (), ?t)" "os_Stat [] ?t = Inr True"
    "os_MkdirAll [DropPointsDirName] ?t = (Inr (), ?t)" "os_Chmod [DropPointsDirName] ?t = (Inr (), ?t)"
    "os_Stat [DropPointsDirName] ?t = Inr True"
    by code_simp+
  have "inv_Opened sample_invocation = Inr ()" by (simp add: sample_invocation_def)
  then show ?thesis
    using load data calls
    by (simp add: openTokenRepository_def open_data_def EnsureDataDir_def ensureDirectory_def
        fs_exec_no_fault fs_read_no_fault sample_empty_def)
qed

lemma sample_added:
  "\<exists>w'. run_state (runTokenAdd sample_invocation [''--id'', ''ops'', ''--max-active'', ''2'']) sample_empty
     = (\<lparr>exit_code = 0, exit_output = [added_line (''api_'' @ EncodeToString (replicate 32 CHR 0x00)) ''ops'']\<rparr>, w')"
proof -
  have id: "\<not> is_blank ''ops''" by code_simp
  show ?thesis
    using sample_opens id
    by (simp add: runTokenAdd_def sample_add rand_read_def GenerateAPIToken_def generate_def APITokenPrefix_def
        entropyBytes_def now_io_def add_and_print_def repo_AddAPIToken_def validateAPITokenFields_def no_fault
        zero_time_def stmt_add_token_def empty_db_def print_and_exit_def may_fail_no_fault added_line_def
        sample_empty_def)
qed


end
