(* ===== verification/Unicode_Case.thy ===== *)
theory Unicode_Case
  imports Utf8
begin

text \<open>
  What the file names of a bundle need of \<open>unicode\<close>, \<open>unicode/utf8\<close> and \<open>strings\<close>: lower case
  (\<open>strings.ToLower\<close>, Unicode 15), white space, the last rune of a string, trimming, and how these
  act on concatenations.
\<close>

section \<open>Lower case\<close>

text \<open>The runes above U+007F that have a lower case: a range, its step and the difference.\<close>

definition lower_ranges :: "(nat \<times> nat \<times> nat \<times> int) list" where
  "lower_ranges =
     [(192, 214, 1, 32), (216, 222, 1, 32), (256, 302, 2, 1), (304, 304, 1, - 199), (306, 310, 2, 1),
      (313, 327, 2, 1), (330, 374, 2, 1), (376, 376, 1, - 121), (377, 381, 2, 1), (385, 385, 1, 210),
      (386, 388, 2, 1), (390, 390, 1, 206), (391, 391, 1, 1), (393, 394, 1, 205), (395, 395, 1, 1),
      (398, 398, 1, 79), (399, 399, 1, 202), (400, 400, 1, 203), (401, 401, 1, 1), (403, 403, 1, 205),
      (404, 404, 1, 207), (406, 406, 1, 211), (407, 407, 1, 209), (408, 408, 1, 1), (412, 412, 1, 211),
      (413, 413, 1, 213), (415, 415, 1, 214), (416, 420, 2, 1), (422, 422, 1, 218), (423, 423, 1, 1),
      (425, 425, 1, 218), (428, 428, 1, 1), (430, 430, 1, 218), (431, 431, 1, 1), (433, 434, 1, 217),
      (435, 437, 2, 1), (439, 439, 1, 219), (440, 440, 1, 1), (444, 444, 1, 1), (452, 452, 1, 2),
      (453, 453, 1, 1), (455, 455, 1, 2), (456, 456, 1, 1), (458, 458, 1, 2), (459, 475, 2, 1),
      (478, 494, 2, 1), (497, 497, 1, 2), (498, 500, 2, 1), (502, 502, 1, - 97), (503, 503, 1, - 56),
      (504, 542, 2, 1), (544, 544, 1, - 130), (546, 562, 2, 1), (570, 570, 1, 10795), (571, 571, 1, 1),
      (573, 573, 1, - 163), (574, 574, 1, 10792), (577, 577, 1, 1), (579, 579, 1, - 195),
      (580, 580, 1, 69), (581, 581, 1, 71), (582, 590, 2, 1), (880, 882, 2, 1), (886, 886, 1, 1),
      (895, 895, 1, 116), (902, 902, 1, 38), (904, 906, 1, 37), (908, 908, 1, 64), (910, 911, 1, 63),
      (913, 929, 1, 32), (931, 939, 1, 32), (975, 975, 1, 8), (984, 1006, 2, 1), (1012, 1012, 1, - 60),
      (1015, 1015, 1, 1), (1017, 1017, 1, - 7), (1018, 1018, 1, 1), (1021, 1023, 1, - 130),
      (1024, 1039, 1, 80), (1040, 1071, 1, 32), (1120, 1152, 2, 1), (1162, 1214, 2, 1),
      (1216, 1216, 1, 15), (1217, 1229, 2, 1), (1232, 1326, 2, 1), (1329, 1366, 1, 48),
      (4256, 4293, 1, 7264), (4295, 4295, 1, 7264), (4301, 4301, 1, 7264), (5024, 5103, 1, 38864),
      (5104, 5109, 1, 8), (7312, 7354, 1, - 3008), (7357, 7359, 1, - 3008), (7680, 7828, 2, 1),
      (7838, 7838, 1, - 7615), (7840, 7934, 2, 1), (7944, 7951, 1, - 8), (7960, 7965, 1, - 8),
      (7976, 7983, 1, - 8), (7992, 7999, 1, - 8), (8008, 8013, 1, - 8), (8025, 8031, 2, - 8),
      (8040, 8047, 1, - 8), (8072, 8079, 1, - 8), (8088, 8095, 1, - 8), (8104, 8111, 1, - 8),
      (8120, 8121, 1, - 8), (8122, 8123, 1, - 74), (8124, 8124, 1, - 9), (8136, 8139, 1, - 86),
      (8140, 8140, 1, - 9), (8152, 8153, 1, - 8), (8154, 8155, 1, - 100), (8168, 8169, 1, - 8),
      (8170, 8171, 1, - 112), (8172, 8172, 1, - 7), (8184, 8185, 1, - 128), (8186, 8187, 1, - 126),
      (8188, 8188, 1, - 9), (8486, 8486, 1, - 7517), (8490, 8490, 1, - 8383), (8491, 8491, 1, - 8262),
      (8498, 8498, 1, 28), (8544, 8559, 1, 16), (8579, 8579, 1, 1), (9398, 9423, 1, 26),
      (11264, 11311, 1, 48), (11360, 11360, 1, 1), (11362, 11362, 1, - 10743), (11363, 11363, 1, - 3814),
      (11364, 11364, 1, - 10727), (11367, 11371, 2, 1), (11373, 11373, 1, - 10780),
      (11374, 11374, 1, - 10749), (11375, 11375, 1, - 10783), (11376, 11376, 1, - 10782),
      (11378, 11378, 1, 1), (11381, 11381, 1, 1), (11390, 11391, 1, - 10815), (11392, 11490, 2, 1),
      (11499, 11501, 2, 1), (11506, 11506, 1, 1), (42560, 42604, 2, 1), (42624, 42650, 2, 1),
      (42786, 42798, 2, 1), (42802, 42862, 2, 1), (42873, 42875, 2, 1), (42877, 42877, 1, - 35332),
      (42878, 42886, 2, 1), (42891, 42891, 1, 1), (42893, 42893, 1, - 42280), (42896, 42898, 2, 1),
      (42902, 42920, 2, 1), (42922, 42922, 1, - 42308), (42923, 42923, 1, - 42319),
      (42924, 42924, 1, - 42315), (42925, 42925, 1, - 42305), (42926, 42926, 1, - 42308),
      (42928, 42928, 1, - 42258), (42929, 42929, 1, - 42282), (42930, 42930, 1, - 42261),
      (42931, 42931, 1, 928), (42932, 42946, 2, 1), (42948, 42948, 1, - 48), (42949, 42949, 1, - 42307),
      (42950, 42950, 1, - 35384), (42951, 42953, 2, 1), (42960, 42960, 1, 1), (42966, 42968, 2, 1),
      (42997, 42997, 1, 1), (65313, 65338, 1, 32), (66560, 66599, 1, 40), (66736, 66771, 1, 40),
      (66928, 66938, 1, 39), (66940, 66954, 1, 39), (66956, 66962, 1, 39), (66964, 66965, 1, 39),
      (68736, 68786, 1, 64), (71840, 71871, 1, 32), (93760, 93791, 1, 32), (125184, 125217, 1, 34)]"

definition lower_rune :: "nat \<Rightarrow> nat" where
  "lower_rune r =
     (if r < 128 then (if 65 \<le> r \<and> r \<le> 90 then r + 32 else r)
      else case find (\<lambda>(a, b, s, d). a \<le> r \<and> r \<le> b \<and> (r - a) mod s = 0) lower_ranges of
             None \<Rightarrow> r
           | Some (a, b, s, d) \<Rightarrow> nat (int r + d))"

definition to_lower :: "go_string \<Rightarrow> go_string" where
  "to_lower s = concat (map (\<lambda>r. utf8_encode (lower_rune r)) (runes s))"

section \<open>White space and trimming\<close>

definition space_rune :: "nat \<Rightarrow> bool" where
  "space_rune r \<longleftrightarrow>
     List.member [0x09, 0x0A, 0x0B, 0x0C, 0x0D, 0x20, 0x85, 0xA0, 0x1680, 0x2028, 0x2029, 0x202F, 0x205F,
                  0x3000] r
     \<or> 0x2000 \<le> r \<and> r \<le> 0x200A"

text \<open>\<open>strings.TrimRight\<close> with a set of ASCII characters, and \<open>strings.LastIndex\<close> of one.\<close>

definition trim_right :: "go_string \<Rightarrow> go_string \<Rightarrow> go_string" where
  "trim_right cutset s = rev (dropWhile (List.member cutset) (rev s))"

definition last_index :: "char \<Rightarrow> go_string \<Rightarrow> nat option" where
  "last_index c s =
     (if List.member s c then Some (length s - 1 - length (takeWhile (\<lambda>d. d \<noteq> c) (rev s))) else None)"

text \<open>The width \<open>utf8.DecodeLastRuneInString\<close> returns for a string that is not empty.\<close>

definition last_rune_size :: "go_string \<Rightarrow> nat" where
  "last_rune_size s =
     (case find (\<lambda>n. n \<le> length s \<and> rune_length (drop (length s - n) s) = Some n) [1, 2, 3, 4] of
        None \<Rightarrow> 1
      | Some n \<Rightarrow> n)"

lemma last_rune_size_pos: "0 < last_rune_size s"
  by (auto simp: last_rune_size_def split: option.splits dest!: find_SomeD)

section \<open>Concatenations\<close>

text \<open>A byte below U+0080 is a rune of its own.\<close>

definition is_ascii :: "char \<Rightarrow> bool" where
  "is_ascii c \<longleftrightarrow> byte c < 128"

lemma rune_length_ascii [simp]: "is_ascii c \<Longrightarrow> rune_length (c # s) = Some 1"
  unfolding rune_length_def is_ascii_def by simp

lemma rune_length_append:
  assumes "rune_length s = Some n"
  shows "rune_length (s @ t) = Some n"
proof -
  consider "s = []" | a where "s = [a]" | a b where "s = [a, b]" | a b c where "s = [a, b, c]"
    | a b c d r where "s = a # b # c # d # r"
    by (metis list.exhaust)
  then show ?thesis
    using assms unfolding rune_length_def
    by cases (simp_all only: list.case append.simps split: if_split_asm, simp_all)
qed

lemma rune_length_take:
  assumes "rune_length s = Some n"
  shows "rune_length (take n s) = Some n"
proof -
  consider "s = []" | a where "s = [a]" | a b where "s = [a, b]" | a b c where "s = [a, b, c]"
    | a b c d r where "s = a # b # c # d # r"
    by (metis list.exhaust)
  then show ?thesis
    using assms unfolding rune_length_def
    by cases (simp_all only: list.case split: if_split_asm, auto)
qed

lemma rune_length_take_append: "rune_length s = Some n \<Longrightarrow> rune_length (take n s @ t) = Some n"
  by (intro rune_length_append rune_length_take)

lemma rune_bytes:
  assumes "rune_length s = Some n" "\<not> is_ascii (hd s)" "c \<in> set (take n s)"
  shows "128 \<le> byte c"
proof -
  consider "s = []" | a where "s = [a]" | a b where "s = [a, b]" | a b c where "s = [a, b, c]"
    | a b c d r where "s = a # b # c # d # r"
    by (metis list.exhaust)
  then show ?thesis
    using assms unfolding rune_length_def is_ascii_def in_range_def
    by cases (simp_all only: list.case list.sel split: if_split_asm, auto)
qed

lemma utf8_valid_Nil [simp]: "utf8_valid []"
  by (simp add: utf8_valid.simps)

lemma utf8_valid_ascii [simp]: "is_ascii c \<Longrightarrow> utf8_valid (c # s) \<longleftrightarrow> utf8_valid s"
  by (subst utf8_valid.simps) simp

lemma utf8_validE:
  assumes "utf8_valid s" "s \<noteq> []"
  obtains n where "rune_length s = Some n" "0 < n" "n \<le> length s" "utf8_valid (drop n s)"
  using assms rune_length_pos by (subst (asm) utf8_valid.simps) (auto split: option.splits)

lemma utf8_valid_append: "utf8_valid s \<Longrightarrow> utf8_valid (s @ t) \<longleftrightarrow> utf8_valid t"
proof (induction s rule: utf8_valid.induct)
  case (1 s)
  show ?case
  proof (cases "s = []")
    case False
    with 1 obtain n where n: "rune_length s = Some n" "0 < n" "n \<le> length s" "utf8_valid (drop n s)"
      by (auto elim: utf8_validE)
    then have "utf8_valid (s @ t) \<longleftrightarrow> utf8_valid (drop n s @ t)"
      using False by (subst utf8_valid.simps) (simp add: rune_length_append)
    with 1 False n show ?thesis by simp
  qed simp
qed

lemma runes_Nil [simp]: "runes [] = []"
  by (simp add: runes.simps)

lemma runes_ascii [simp]: "is_ascii c \<Longrightarrow> runes (c # s) = byte c # runes s"
  by (subst runes.simps) (simp add: rune_value_def)

lemma runes_append: "utf8_valid s \<Longrightarrow> runes (s @ t) = runes s @ runes t"
proof (induction s rule: utf8_valid.induct)
  case (1 s)
  show ?case
  proof (cases "s = []")
    case False
    with 1 obtain n where n: "rune_length s = Some n" "0 < n" "n \<le> length s" "utf8_valid (drop n s)"
      by (auto elim: utf8_validE)
    then have "runes (s @ t) = rune_value (take n s) # runes (drop n s @ t)"
      using False by (subst runes.simps) (simp add: rune_length_append)
    moreover have "runes s = rune_value (take n s) # runes (drop n s)"
      using n False by (subst runes.simps) simp
    ultimately show ?thesis using 1 False n by simp
  qed simp
qed

lemma to_lower_append: "utf8_valid s \<Longrightarrow> to_lower (s @ t) = to_lower s @ to_lower t"
  by (simp add: to_lower_def runes_append)

lemma to_lower_Nil [simp]: "to_lower [] = []"
  by (simp add: to_lower_def)

lemma utf8_valid_all_ascii: "list_all is_ascii s \<Longrightarrow> utf8_valid s"
  by (induction s) auto

lemma byte_inject [simp]: "byte c = byte d \<longleftrightarrow> c = d"
  by (simp add: byte_def)

lemma byte_bound: "byte c < 256"
  using nat_of_char_less_256 [of c] by (simp add: byte_def)

lemma char_of_byte [simp]: "char_of (byte c) = c"
  by (simp add: byte_def)

text \<open>An ASCII text without capital letters is its own lower case.\<close>

lemma to_lower_plain:
  "list_all (\<lambda>c. is_ascii c \<and> \<not> (65 \<le> byte c \<and> byte c \<le> 90)) s \<Longrightarrow> to_lower s = s"
  by (induction s) (auto simp: to_lower_def lower_rune_def utf8_encode_def is_ascii_def)

lemma sample_lower:
  "lower_rune 0x41 = 0x61" "lower_rune 0xC4 = 0xE4" "lower_rune 0x130 = 0x69" "lower_rune 0x1E9E = 0xDF"
  "lower_rune 0xDF = 0xDF"
  by (simp_all add: lower_rune_def lower_ranges_def)

end
