(* ===== verification/Json_Marshal.thy ===== *)
theory Json_Marshal
  imports Json Go_Format Unicode_Case
begin

text \<open>
  \<open>json.Marshal\<close> as the program uses it: compact text, with the characters escaped that \<open>encoding/json\<close>
  escapes by default. What it writes of a value whose strings are UTF-8 and whose numbers are 64-bit
  integers, the decoder reads back as that value.
\<close>

section \<open>Writing\<close>

definition hex_lower :: "nat \<Rightarrow> char" where
  "hex_lower d = (if d < 10 then char_of (48 + d) else char_of (87 + d))"

definition unicode_escape :: "nat \<Rightarrow> go_string" where
  "unicode_escape r =
     [CHR 0x5C, CHR ''u'', hex_lower (r div 4096), hex_lower (r div 256 mod 16),
      hex_lower (r div 16 mod 16), hex_lower (r mod 16)]"

definition escape_ascii :: "char \<Rightarrow> go_string" where
  "escape_ascii c =
     (if c = CHR 0x22 \<or> c = CHR 0x5C then [CHR 0x5C, c]
      else if c = CHR 0x08 then [CHR 0x5C, CHR ''b''] else if c = CHR 0x0C then [CHR 0x5C, CHR ''f'']
      else if c = CHR 0x0A then [CHR 0x5C, CHR ''n''] else if c = CHR 0x0D then [CHR 0x5C, CHR ''r'']
      else if c = CHR 0x09 then [CHR 0x5C, CHR ''t'']
      else if byte c < 0x20 \<or> c = CHR ''<'' \<or> c = CHR ''>'' \<or> c = CHR ''&''
      then unicode_escape (byte c) else [c])"

function marshal_text :: "go_string \<Rightarrow> go_string" where
  "marshal_text s =
     (case s of
        [] \<Rightarrow> []
      | c # cs \<Rightarrow>
          if is_ascii c then escape_ascii c @ marshal_text cs
          else case rune_length s of
            None \<Rightarrow> unicode_escape 0xFFFD @ marshal_text cs
          | Some n \<Rightarrow>
              (if take n s = [CHR 0xE2, CHR 0x80, CHR 0xA8] then unicode_escape 0x2028
               else if take n s = [CHR 0xE2, CHR 0x80, CHR 0xA9] then unicode_escape 0x2029
               else take n s) @ marshal_text (drop n s))"
  by pat_completeness auto
termination by (relation "measure length") (auto dest: rune_length_pos)

declare marshal_text.simps [simp del]

definition marshal_string :: "go_string \<Rightarrow> go_string" where
  "marshal_string s = CHR 0x22 # marshal_text s @ [CHR 0x22]"

fun join_with :: "go_string \<Rightarrow> go_string list \<Rightarrow> go_string" where
  "join_with sep [] = []"
| "join_with sep [x] = x"
| "join_with sep (x # y # xs) = x @ sep @ join_with sep (y # xs)"

fun marshal :: "json \<Rightarrow> go_string" where
  "marshal JNull = ''null''"
| "marshal (JBool b) = (if b then ''true'' else ''false'')"
| "marshal (JNumber n) = n"
| "marshal (JString s) = marshal_string s"
| "marshal (JArray vs) = ''['' @ join_with '','' (map marshal vs) @ '']''"
| "marshal (JObject kvs) =
     ''{'' @ join_with '','' (map (\<lambda>(k, v). marshal_string k @ '':'' @ marshal v) kvs) @ ''}''"

section \<open>Strings read back\<close>

lemma hex_value_lower: "d < 16 \<Longrightarrow> hex_value (hex_lower d) = Some d"
proof -
  assume "d < 16"
  then have "byte (hex_lower d) = (if d < 10 then 48 + d else 87 + d)"
    by (simp add: hex_lower_def byte_def)
  with \<open>d < 16\<close> show ?thesis by (auto simp: hex_value_def in_range_def)
qed

lemma hex_digits:
  "4096 * (r div 4096) + 256 * (r div 256 mod 16) + 16 * (r div 16 mod 16) + r mod 16 = (r :: nat)"
proof -
  have "r div 256 div 16 = r div 4096" "r div 16 div 16 = r div 256"
    by (simp_all add: div_mult2_eq [symmetric])
  with mult_div_mod_eq [of 16 "r div 256"] mult_div_mod_eq [of 16 "r div 16"] mult_div_mod_eq [of 16 r]
  show ?thesis by linarith
qed

lemma hex4_escape:
  assumes "r < 65536"
  shows "hex4 (drop 2 (unicode_escape r) @ s) = Some r"
proof -
  have "r div 4096 < 16" using assms by simp
  then show ?thesis
    using hex_digits [of r] by (simp add: hex4_def unicode_escape_def hex_value_lower)
qed

lemma unicode_escape_split:
  "unicode_escape r = CHR 0x5C # CHR ''u'' # drop 2 (unicode_escape r)" "length (drop 2 (unicode_escape r)) = 4"
  by (simp_all add: unicode_escape_def)

declare scan_string.simps(2) [simp del]

definition plain :: "char \<Rightarrow> bool" where
  "plain c \<longleftrightarrow> c \<noteq> CHR 0x22 \<and> c \<noteq> CHR 0x5C \<and> 0x20 \<le> byte c"

lemma scan_plain:
  "list_all plain s \<Longrightarrow> scan_string t = Scanned raw rest \<Longrightarrow> scan_string (s @ t) = Scanned (s @ raw) rest"
  by (induction s) (simp_all add: plain_def scan_string.simps(2))

lemma hex_lower_plain: "d < 16 \<Longrightarrow> plain (hex_lower d)"
proof -
  have "list_all (\<lambda>d. plain (hex_lower d)) [0..<16]" by code_simp
  then show "d < 16 \<Longrightarrow> plain (hex_lower d)" by (simp add: list_all_iff)
qed

lemma scan_unicode_escape:
  assumes "r < 65536" "scan_string t = Scanned raw rest"
  shows "scan_string (unicode_escape r @ t) = Scanned (unicode_escape r @ raw) rest"
proof -
  define h where "h = drop 2 (unicode_escape r)"
  have r: "r div 4096 < 16" using assms(1) by simp
  then have h: "list_all plain h" "list_ex (\<lambda>h. hex_value h = None) (take 4 (h @ t)) = False" "length h = 4"
    by (simp_all add: h_def unicode_escape_def hex_lower_plain hex_value_lower)
  have "scan_string (h @ t) = Scanned (h @ raw) rest" by (rule scan_plain [OF h(1) assms(2)])
  moreover have "unicode_escape r = CHR 0x5C # CHR ''u'' # h"
    unfolding h_def by (rule unicode_escape_split)
  ultimately show ?thesis
    using h by (simp add: scan_string.simps(2) [of "CHR 0x5C"])
qed

lemma scan_escape_ascii:
  assumes "scan_string t = Scanned raw rest"
  shows "scan_string (escape_ascii c @ t) = Scanned (escape_ascii c @ raw) rest"
proof -
  have two: "scan_string (CHR 0x5C # d # t) = Scanned (CHR 0x5C # d # raw) rest"
    if "List.member [CHR 0x22, CHR 0x5C, CHR ''/'', CHR ''b'', CHR ''f'', CHR ''n'', CHR ''r'', CHR ''t''] d" for d
    using that assms by (simp add: scan_string.simps(2) [of "CHR 0x5C"])
  show ?thesis
  proof (cases "byte c < 0x20 \<or> c = CHR 0x22 \<or> c = CHR 0x5C")
    case True
    have "byte c < 65536" using byte_bound [of c] by simp
    from scan_unicode_escape [OF this assms] True show ?thesis
      by (auto simp: escape_ascii_def two)
  next
    case False
    then have "scan_string ([c] @ t) = Scanned ([c] @ raw) rest"
      by (intro scan_plain assms) (simp add: plain_def)
    moreover have "scan_string (unicode_escape (byte c) @ t) = Scanned (unicode_escape (byte c) @ raw) rest"
      using byte_bound [of c] by (intro scan_unicode_escape assms) simp
    ultimately show ?thesis using False by (auto simp: escape_ascii_def two)
  qed
qed

lemma scan_marshal_text:
  "scan_string (marshal_text s @ CHR 0x22 # rest) = Scanned (marshal_text s) rest"
proof (induction s rule: marshal_text.induct)
  case (1 s)
  show ?case
  proof (cases s)
    case Nil
    then show ?thesis by (simp add: marshal_text.simps [of "[]"] scan_string.simps(2))
  next
    case (Cons c cs)
    show ?thesis
    proof (cases "is_ascii c")
      case True
      with Cons 1(1) [OF Cons] show ?thesis
        by (simp add: marshal_text.simps [of "c # cs"] scan_escape_ascii)
    next
      case no: False
      show ?thesis
      proof (cases "rune_length s")
        case None
        with Cons no 1(2) [OF Cons] show ?thesis
          by (simp add: marshal_text.simps [of "c # cs"] scan_unicode_escape)
      next
        case (Some n)
        have "plain d" if "d \<in> set (take n s)" for d
        proof -
          from that no Cons have "128 \<le> byte d" by (intro rune_bytes [OF Some]) simp_all
          then show ?thesis by (auto simp: plain_def byte_def)
        qed
        then have "list_all plain (take n s)" by (simp add: list_all_iff)
        note raw = scan_plain [OF this 1(3) [OF Cons no Some]]
          scan_unicode_escape [of "0x2028", OF _ 1(3) [OF Cons no Some]]
          scan_unicode_escape [of "0x2029", OF _ 1(3) [OF Cons no Some]]
        with Cons no Some show ?thesis by (simp add: marshal_text.simps [of "c # cs"])
      qed
    qed
  qed
qed

lemma unquote_unicode_escape:
  assumes "r < 65536" "\<not> is_surrogate r"
  shows "unquote (unicode_escape r @ t) = utf8_encode r @ unquote t"
proof -
  define h where "h = drop 2 (unicode_escape r)"
  have "unicode_escape r = CHR 0x5C # CHR ''u'' # h" "length h = 4" "hex4 (h @ t) = Some r"
    unfolding h_def by (rule unicode_escape_split hex4_escape assms)+
  then show ?thesis using assms by (subst unquote.simps) simp
qed

lemma unquote_escape_ascii:
  assumes "is_ascii c"
  shows "unquote (escape_ascii c @ t) = c # unquote t"
proof -
  have two: "unquote (CHR 0x5C # d # t) = escape_value d @ unquote t" if "d \<noteq> CHR ''u''" for d
    using that by (subst unquote.simps) simp
  have one: "unquote (c # t) = c # unquote t" if "c \<noteq> CHR 0x5C"
    using that assms by (subst unquote.simps) simp
  have "unquote (unicode_escape (byte c) @ t) = c # unquote t"
    using assms by (subst unquote_unicode_escape)
      (simp_all add: is_surrogate_def is_ascii_def utf8_encode_def)
  with two one show ?thesis by (auto simp: escape_ascii_def escape_value_def)
qed

lemma unquote_rune:
  assumes "u = c # us" "rune_length u = Some (length u)" "\<not> is_ascii c"
  shows "unquote (u @ t) = u @ unquote t"
proof -
  have "c \<noteq> CHR 0x5C" using assms(3) by (auto simp: is_ascii_def byte_def)
  with assms rune_length_append [OF assms(2), of t] show ?thesis by (subst unquote.simps) simp
qed

lemma unquote_marshal_text: "utf8_valid s \<Longrightarrow> unquote (marshal_text s) = s"
proof (induction s rule: marshal_text.induct)
  case (1 s)
  show ?case
  proof (cases s)
    case Nil
    then show ?thesis by (simp add: marshal_text.simps [of "[]"] unquote.simps [of "[]"])
  next
    case (Cons c cs)
    show ?thesis
    proof (cases "is_ascii c")
      case True
      with Cons 1(1) [OF Cons] 1(4) show ?thesis
        by (simp add: marshal_text.simps [of "c # cs"] unquote_escape_ascii)
    next
      case no: False
      from 1(4) Cons obtain n where n: "rune_length s = Some n" "0 < n" "n \<le> length s" "utf8_valid (drop n s)"
        by (auto elim: utf8_validE)
      note IH = 1(3) [OF Cons no n(1) n(4)]
      have "take n s = c # take (n - 1) cs" "length (take n s) = n" using n Cons by (cases n; simp)+
      with rune_length_take [OF n(1)] no
      have raw: "unquote (take n s @ t) = take n s @ unquote t" for t
        by (intro unquote_rune) simp_all
      have ls: "utf8_encode 0x2028 = [CHR 0xE2, CHR 0x80, CHR 0xA8]"
        "utf8_encode 0x2029 = [CHR 0xE2, CHR 0x80, CHR 0xA9]"
        by (simp_all add: utf8_encode_def) code_simp+
      have "unquote (marshal_text s) = take n s @ unquote (marshal_text (drop n s))"
        using Cons no n(1) raw ls
        by (simp add: marshal_text.simps [of "c # cs"] unquote_unicode_escape is_surrogate_def)
      with IH show ?thesis by simp
    qed
  qed
qed

section \<open>Values read back\<close>

text \<open>What \<open>json.Marshal\<close> writes back faithfully: valid UTF-8, 64-bit integers, few open brackets.\<close>

fun faithful :: "json \<Rightarrow> bool" where
  "faithful JNull \<longleftrightarrow> True"
| "faithful (JBool b) \<longleftrightarrow> True"
| "faithful (JNumber n) \<longleftrightarrow> (case parse_int64 n of None \<Rightarrow> False | Some i \<Rightarrow> n = decimal i)"
| "faithful (JString s) \<longleftrightarrow> utf8_valid s"
| "faithful (JArray vs) \<longleftrightarrow> list_all faithful vs"
| "faithful (JObject kvs) \<longleftrightarrow> list_all (\<lambda>(k, v). utf8_valid k \<and> faithful v) kvs"

fun nesting :: "json \<Rightarrow> nat" where
  "nesting (JArray vs) = Suc (foldr max (map nesting vs) 0)"
| "nesting (JObject kvs) = Suc (foldr max (map (\<lambda>(k, v). nesting v) kvs) 0)"
| "nesting _ = 0"

text \<open>A number ends where no digit, point or exponent follows.\<close>

definition number_ends :: "go_string \<Rightarrow> bool" where
  "number_ends s \<longleftrightarrow> s = [] \<or> hd s = CHR '','' \<or> hd s = CHR '']'' \<or> hd s = CHR ''}''"

lemma is_digit_ascii: "is_digit c \<longleftrightarrow> ascii_digit c"
proof -
  have "(of_char c :: int) = int (byte c)" unfolding byte_def by (rule of_nat_of_char [symmetric])
  then show ?thesis
    by (auto simp: ascii_digit_def digit_value_def is_digit_def in_range_def Let_def)
qed

lemma decimal_digits_lead: "0 < n \<Longrightarrow> hd (decimal_digits n) \<noteq> CHR ''0''"
proof (induction n rule: decimal_digits.induct)
  case (1 n)
  show ?case
  proof (cases "n < 10")
    case True
    with 1 have "digit_value (digit_char n) \<noteq> digit_value (CHR ''0'')"
      by (simp add: digit_value_def [of "CHR ''0''"])
    then show ?thesis using True by (auto simp: decimal_digits.simps [of n])
  next
    case False
    with 1 have "hd (decimal_digits (n div 10)) \<noteq> CHR ''0''" by simp
    then show ?thesis using False by (simp add: decimal_digits.simps [of n])
  qed
qed

lemma number_ends_digit: "number_ends s \<Longrightarrow> s = [] \<or> \<not> is_digit (hd s) \<and> hd s \<noteq> CHR ''.''
    \<and> hd s \<noteq> CHR ''e'' \<and> hd s \<noteq> CHR ''E''"
  by (auto simp: number_ends_def is_digit_def in_range_def byte_def)

lemma scan_decimal_digits:
  assumes "0 \<le> n" "number_ends s"
  shows "scan_integer (decimal_digits n @ s) = Scanned (decimal_digits n) s"
proof (cases "n = 0")
  case True
  have "digit_char 0 = CHR ''0''" by code_simp
  with True have "decimal_digits n = ''0''" by (simp add: decimal_digits.simps [of 0])
  then show ?thesis by (simp add: scan_integer_def)
next
  case False
  obtain c cs where c: "decimal_digits n = c # cs" by (cases "decimal_digits n") simp_all
  have digits: "\<forall>d \<in> set (decimal_digits n). is_digit d"
    using decimal_digits_ascii [OF assms(1)] by (simp add: is_digit_ascii)
  have stop: "takeWhile is_digit s = []" "dropWhile is_digit s = s"
    using number_ends_digit [OF assms(2)] by (cases s; simp)+
  from False assms(1) decimal_digits_lead [of n] c have "c \<noteq> CHR ''0''" by simp
  moreover from digits c stop have "scan_digits (decimal_digits n @ s) = Scanned (decimal_digits n) s"
    by (simp add: scan_digits_def takeWhile_append2 dropWhile_append2)
  ultimately show ?thesis using c by (simp add: scan_integer_def)
qed

lemma scan_decimal:
  assumes "number_ends s"
  shows "scan_number (decimal n @ s) = Scanned (decimal n) s"
proof -
  have frac: "scan_fraction s = Scanned [] s" "scan_exponent s = Scanned [] s"
    using number_ends_digit [OF assms]
    by (cases s; simp add: scan_fraction_def scan_exponent_def)+
  show ?thesis
  proof (cases "n < 0")
    case True
    then show ?thesis
      using scan_decimal_digits [OF _ assms, of "- n"] by (simp add: scan_number_def decimal_def frac)
  next
    case False
    obtain c cs where c: "decimal_digits n = c # cs" by (cases "decimal_digits n") simp_all
    with False decimal_digits_ascii [of n c] ascii_digit_sign have "c \<noteq> CHR ''-''" by fastforce
    with False c show ?thesis
      using scan_decimal_digits [OF _ assms, of n] by (simp add: scan_number_def decimal_def frac)
  qed
qed

lemma number_ends_intros [simp]:
  "number_ends []" "number_ends (CHR '','' # s)" "number_ends (CHR '']'' # s)" "number_ends (CHR ''}'' # s)"
  by (simp_all add: number_ends_def)

lemma next_token_marks:
  "next_token (CHR ''{'' # s) = Scanned OpenObject s" "next_token (CHR ''}'' # s) = Scanned CloseObject s"
  "next_token (CHR ''['' # s) = Scanned OpenArray s" "next_token (CHR '']'' # s) = Scanned CloseArray s"
  "next_token (CHR '':'' # s) = Scanned Colon s" "next_token (CHR '','' # s) = Scanned Comma s"
  by (simp_all add: next_token_def json_space_def byte_def)

lemma next_token_words:
  "next_token (''true'' @ s) = Scanned TrueToken s" "next_token (''false'' @ s) = Scanned FalseToken s"
  "next_token (''null'' @ s) = Scanned NullToken s"
  by (simp_all add: next_token_def json_space_def byte_def scan_map_def)

lemmas next_token_chars = next_token_words [simplified]

lemma blank_token: "blank_rest s \<Longrightarrow> next_token s = Truncated"
  by (simp only: blank_rest_def next_token_def list.case)

lemma next_token_string:
  "utf8_valid x \<Longrightarrow> next_token (marshal_string x @ s) = Scanned (StringToken x) s"
  using scan_marshal_text [of x s] unquote_marshal_text [of x]
  by (simp add: next_token_def marshal_string_def json_space_def byte_def scan_map_def)

lemma next_token_decimal:
  assumes "number_ends s"
  shows "next_token (decimal n @ s) = Scanned (NumberToken (decimal n)) s"
proof -
  obtain c cs where c: "decimal n = c # cs" by (cases "decimal n") (auto simp: decimal_def split: if_splits)
  have lead: "c = CHR ''-'' \<or> is_digit c"
    using c decimal_digits_ascii [of n c] by (auto simp: decimal_def is_digit_ascii split: if_splits)
  then have no: "\<not> json_space c" "\<forall>d \<in> set [CHR ''{'', CHR ''}'', CHR ''['', CHR '']'', CHR '':'', CHR '','', CHR 0x22,
      CHR ''t'', CHR ''f'', CHR ''n'']. c \<noteq> d"
    by (auto simp: json_space_def is_digit_def in_range_def byte_def)
  have "next_token (decimal n @ s) = scan_map NumberToken (scan_number (decimal n @ s))"
    unfolding next_token_def c using no lead by simp
  then show ?thesis by (simp add: scan_decimal [OF assms] scan_map_def)
qed

lemma join_with_Cons: "join_with sep (x # xs) = x @ concat (map (\<lambda>y. sep @ y) xs)"
  by (induction sep xs arbitrary: x rule: join_with.induct) simp_all

lemma nesting_member: "v \<in> set vs \<Longrightarrow> nesting v \<le> foldr max (map nesting vs) 0"
  by (induction vs) auto

lemma nesting_value: "(k, v) \<in> set kvs \<Longrightarrow> nesting v \<le> foldr max (map (\<lambda>(k, v). nesting v) kvs) 0"
  by (induction kvs) auto

text \<open>\<open>reads v\<close>: wherever there is room for it, \<open>v\<close> reads back.\<close>

definition reads :: "json \<Rightarrow> bool" where
  "reads v \<longleftrightarrow> (\<forall>stack s. nesting v + length stack \<le> maxNestingDepth \<and> number_ends s \<longrightarrow>
     read_value stack (marshal v @ s) = end_value stack v s)"

lemma array_rest:
  assumes "\<forall>w \<in> set ws. reads w \<and> nesting w + Suc (length outer) \<le> maxNestingDepth"
  shows "end_value (ArrayFrame vs # outer) v (concat (map (\<lambda>w. '','' @ marshal w) ws) @ CHR '']'' # s)
    = end_value outer (JArray (vs @ v # ws)) s"
  using assms
proof (induction ws arbitrary: vs v)
  case Nil
  then show ?case by (subst end_value.simps) (simp add: next_token_marks)
next
  case (Cons w ws)
  let ?rest = "concat (map (\<lambda>w. '','' @ marshal w) ws) @ CHR '']'' # s"
  have "number_ends ?rest" by (cases ws) simp_all
  with Cons.prems have "read_value (ArrayFrame (vs @ [v]) # outer) (marshal w @ ?rest)
      = end_value (ArrayFrame (vs @ [v]) # outer) w ?rest"
    by (simp add: reads_def)
  with Cons show ?case by (subst end_value.simps) (simp add: next_token_marks)
qed

lemma object_rest:
  assumes "\<forall>(l, w) \<in> set kvs. utf8_valid l \<and> reads w \<and> nesting w + Suc (length outer) \<le> maxNestingDepth"
  shows "end_value (ObjectFrame ms k # outer) v
      (concat (map (\<lambda>(l, w). '','' @ marshal_string l @ '':'' @ marshal w) kvs) @ CHR ''}'' # s)
    = end_value outer (JObject (ms @ (k, v) # kvs)) s"
  using assms
proof (induction kvs arbitrary: ms k v)
  case Nil
  then show ?case by (subst end_value.simps) (simp add: next_token_marks)
next
  case (Cons m kvs)
  obtain l w where m: "m = (l, w)" by (cases m)
  let ?rest = "concat (map (\<lambda>(l, w). '','' @ marshal_string l @ '':'' @ marshal w) kvs) @ CHR ''}'' # s"
  have "number_ends ?rest" by (cases kvs) (auto simp: number_ends_def)
  with Cons.prems m have "read_value (ObjectFrame (ms @ [(k, v)]) l # outer) (marshal w @ ?rest)
      = end_value (ObjectFrame (ms @ [(k, v)]) l # outer) w ?rest"
    by (simp add: reads_def)
  with Cons m show ?case
    by (subst end_value.simps) (simp add: next_token_marks next_token_string)
qed

lemma faithful_number: "faithful (JNumber n) \<Longrightarrow> \<exists>i. n = decimal i"
  by (auto split: option.splits)

lemma first_token:
  assumes "faithful v" "number_ends s"
  shows "\<exists>t r. next_token (marshal v @ s) = Scanned t r \<and> t \<noteq> CloseArray"
proof (cases v)
  case (JNumber n)
  with faithful_number assms obtain i where "n = decimal i" by blast
  with JNumber show ?thesis using next_token_decimal [OF assms(2)] by simp
qed (use assms next_token_chars next_token_marks next_token_string in auto)

lemma array_reads:
  assumes IH: "\<And>v. v \<in> set vs \<Longrightarrow> reads v" and faithful: "list_all faithful vs"
  shows "reads (JArray vs)"
  unfolding reads_def
proof (intro allI impI, elim conjE)
  fix stack :: "json_frame list" and s :: go_string
  assume room: "nesting (JArray vs) + length stack \<le> maxNestingDepth" and "number_ends s"
  have inner: "nesting v + Suc (length stack) \<le> maxNestingDepth" if "v \<in> set vs" for v
    using room nesting_member [OF that] by simp
  have fits: "\<not> maxNestingDepth \<le> length stack" using room by simp
  show "read_value stack (marshal (JArray vs) @ s) = end_value stack (JArray vs) s"
  proof (cases vs)
    case Nil
    with fits show ?thesis by (subst read_value.simps) (simp add: next_token_marks)
  next
    case (Cons v ws)
    let ?rest = "concat (map (\<lambda>w. '','' @ marshal w) ws) @ CHR '']'' # s"
    have ends: "number_ends ?rest" by (cases ws) simp_all
    from Cons faithful first_token [OF _ ends, of v] obtain t r where
      t: "next_token (marshal v @ ?rest) = Scanned t r" "t \<noteq> CloseArray" by auto
    have "read_value stack (marshal (JArray vs) @ s) = read_value (ArrayFrame [] # stack) (marshal v @ ?rest)"
      using fits t Cons
      by (subst read_value.simps) (cases t; simp add: next_token_marks join_with_Cons comp_def)
    also have "\<dots> = end_value (ArrayFrame [] # stack) v ?rest"
      using IH [of v] inner [of v] ends Cons by (simp add: reads_def)
    also have "\<dots> = end_value stack (JArray ([] @ v # ws)) s"
      by (rule array_rest) (use IH inner Cons in auto)
    finally show ?thesis using Cons by simp
  qed
qed

lemma object_reads:
  assumes IH: "\<And>k v. (k, v) \<in> set kvs \<Longrightarrow> reads v" and faithful: "\<And>k v. (k, v) \<in> set kvs \<Longrightarrow> utf8_valid k"
  shows "reads (JObject kvs)"
  unfolding reads_def
proof (intro allI impI, elim conjE)
  fix stack :: "json_frame list" and s :: go_string
  assume room: "nesting (JObject kvs) + length stack \<le> maxNestingDepth" and "number_ends s"
  have inner: "nesting v + Suc (length stack) \<le> maxNestingDepth" if "(k, v) \<in> set kvs" for k v
    using room nesting_value [OF that] by simp
  have fits: "\<not> maxNestingDepth \<le> length stack" using room by simp
  show "read_value stack (marshal (JObject kvs) @ s) = end_value stack (JObject kvs) s"
  proof (cases kvs)
    case Nil
    with fits show ?thesis by (subst read_value.simps) (simp add: next_token_marks)
  next
    case (Cons m ms)
    obtain k v where m: "m = (k, v)" by (cases m)
    let ?rest = "concat (map (\<lambda>(l, w). '','' @ marshal_string l @ '':'' @ marshal w) ms) @ CHR ''}'' # s"
    have ends: "number_ends ?rest" by (cases ms) (auto simp: number_ends_def)
    have written: "marshal (JObject kvs) @ s = CHR ''{'' # marshal_string k @ CHR '':'' # marshal v @ ?rest"
      using Cons m by (simp add: join_with_Cons comp_def case_prod_unfold)
    have "read_value stack (marshal (JObject kvs) @ s) = read_value (ObjectFrame [] k # stack) (marshal v @ ?rest)"
      unfolding written using fits faithful [of k v] Cons m
      by (subst read_value.simps) (simp add: next_token_marks next_token_string)
    also have "\<dots> = end_value (ObjectFrame [] k # stack) v ?rest"
      using IH [of k v] inner [of k v] ends Cons m by (simp add: reads_def)
    also have "\<dots> = end_value stack (JObject ([] @ (k, v) # ms)) s"
    proof (rule object_rest, clarify)
      fix l w assume "(l, w) \<in> set ms"
      with Cons have "(l, w) \<in> set kvs" by simp
      with IH inner faithful
      show "utf8_valid l \<and> reads w \<and> nesting w + Suc (length stack) \<le> maxNestingDepth" by blast
    qed
    finally show ?thesis using Cons m by simp
  qed
qed

lemma faithful_reads: "faithful v \<Longrightarrow> reads v"
proof (induction v rule: marshal.induct)
  case (3 n)
  then obtain i where "n = decimal i" using faithful_number by blast
  then show ?case
    by (auto simp: reads_def next_token_decimal intro!: trans [OF read_value.simps])
next
  case (5 vs)
  then show ?case by (intro array_reads) (auto simp: list_all_iff)
next
  case (6 kvs)
  then show ?case by (intro object_reads) (auto simp: list_all_iff)
qed (auto simp: reads_def next_token_chars next_token_string intro!: trans [OF read_value.simps])

lemma marshal_not_blank:
  "faithful v \<Longrightarrow> number_ends s \<Longrightarrow> \<not> blank_rest (marshal v @ s)"
  using first_token [of v s] blank_token by fastforce

lemma marshal_whole:
  assumes "faithful v" "nesting v \<le> maxNestingDepth"
  shows "whole_value (marshal v) = Some v"
proof -
  have "read_value [] (marshal v @ []) = end_value [] v []"
    using faithful_reads [OF assms(1)] assms(2) unfolding reads_def by (metis add_0_right list.size(3) number_ends_intros(1))
  then have "decode_one (marshal v) = Decoded v []"
    using marshal_not_blank [OF assms(1), of "[]"] by (simp add: decode_one_def end_value.simps)
  moreover have "decode_one [] = EndOfInput" by (simp add: decode_one_def blank_rest_def)
  ultimately show ?thesis by (simp add: whole_value_def)
qed

text \<open>Round trip of JSON: what \<open>json.Marshal\<close> writes of a value, the decoder the relay uses on
  envelopes and manifests reads back as exactly that value, with nothing left over, when the strings
  are valid UTF-8, the numbers 64-bit integers and at most 10000 brackets are open at once.\<close>

theorem marshal_reads_back:
  assumes "faithful v" "nesting v \<le> maxNestingDepth"
  shows "whole_value (marshal v) = Some v"
  by (rule marshal_whole [OF assms])

theorem marshal_reads_back_witness:
  "whole_value (marshal (JObject [(''n'', JNumber (decimal 2)), (''s'', JArray [JString ''a<b''])]))
     = Some (JObject [(''n'', JNumber (decimal 2)), (''s'', JArray [JString ''a<b''])])"
proof (rule marshal_reads_back)
  show "faithful (JObject [(''n'', JNumber (decimal 2)), (''s'', JArray [JString ''a<b''])])"
    by code_simp
qed (simp add: maxNestingDepth_def)

end
