(* ===== verification/Manifest.thy ===== *)
theory Manifest
  imports Envelope Json_Marshal
begin

text \<open>
  \<open>internal/cryptoenv/manifest.go\<close>: the manifest of a bundle, the sender's policy that makes file
  names canonical, the receiver's checks, and the split of the payload. \<open>golang.org/x/text\<close> (Unicode
  NFC), \<open>mime\<close> and the cryptographic primitives are the functions of a record. The loop that looks
  for a free file name has no bound in the code: it is a partial function, and \<open>None\<close> is a run that
  does not end.
\<close>

section \<open>Library functions\<close>

text \<open>\<open>lib_X25519 scalar point\<close> is the function of RFC 7748, \<open>lib_Seal key nonce aad plaintext\<close> and
  \<open>lib_Open\<close> are AES-256-GCM.\<close>

record library =
  lib_NFC :: "go_string \<Rightarrow> go_string"
  lib_ParseMediaType :: "go_string \<Rightarrow> (go_string \<times> (go_string \<times> go_string) list) option"
  lib_X25519 :: "go_string \<Rightarrow> go_string \<Rightarrow> go_string"
  lib_Seal :: "go_string \<Rightarrow> go_string \<Rightarrow> go_string \<Rightarrow> go_string \<Rightarrow> go_string"
  lib_Open :: "go_string \<Rightarrow> go_string \<Rightarrow> go_string \<Rightarrow> go_string \<Rightarrow> go_string option"

text \<open>\<open>norm.NFC.IsNormalString\<close>.\<close>

definition IsNormalString :: "library \<Rightarrow> go_string \<Rightarrow> bool" where
  "IsNormalString lib s \<longleftrightarrow> lib_NFC lib s = s"

section \<open>Data\<close>

record manifest_file =
  mf_Name :: go_string
  mf_Type :: go_string
  mf_Size :: int

record manifest =
  man_ProtocolVersion :: int
  man_Files :: "manifest_file list"
  man_CreatedAt :: go_string

record plain_file =
  pf_Name :: go_string
  pf_Type :: go_string
  pf_Data :: go_string

record recovered_file =
  rf_Name :: go_string
  rf_SafeName :: go_string
  rf_Type :: go_string
  rf_SafeType :: go_string
  rf_Data :: go_string

definition MaxManifestFiles :: nat where "MaxManifestFiles = 1000"
definition MaxFilenameUTF8Bytes :: nat where "MaxFilenameUTF8Bytes = 240"
definition MaxFilenameExtensionBytes :: nat where "MaxFilenameExtensionBytes = 32"
definition MaxMIMETypeUTF8Bytes :: nat where "MaxMIMETypeUTF8Bytes = 255"
definition reservedReceiptName :: go_string where "reservedReceiptName = ''.droppoint-receipt.json''"

lemmas manifest_limits = MaxManifestFiles_def MaxFilenameUTF8Bytes_def MaxFilenameExtensionBytes_def
  MaxMIMETypeUTF8Bytes_def

section \<open>File names\<close>

definition forbiddenFilenameRune :: "nat \<Rightarrow> bool" where
  "forbiddenFilenameRune r \<longleftrightarrow>
     r = 0 \<or> List.member (map byte (CHR ''/'' # CHR 0x5C # CHR 0x22 # ''<>:|?*'')) r
     \<or> is_control r \<or> is_format r"

definition filenameBlank :: "go_string \<Rightarrow> bool" where
  "filenameBlank name \<longleftrightarrow> list_all space_rune (runes name)"

definition filenameCollisionKey :: "library \<Rightarrow> go_string \<Rightarrow> go_string" where
  "filenameCollisionKey lib name = to_lower (lib_NFC lib name)"

text \<open>No rune above U+007F has an upper case or a folding among the letters of the reserved names,
  except the long s, which folds to the s of \<open>.droppoint-receipt.json\<close>. The superscripts 1, 2 and 3
  are their own upper case.\<close>

definition superscripts :: "go_string list" where
  "superscripts = [[CHR 0xC2, CHR 0xB9], [CHR 0xC2, CHR 0xB2], [CHR 0xC2, CHR 0xB3]]"

definition reserved_stems :: "go_string list" where
  "reserved_stems =
     [''CON'', ''PRN'', ''AUX'', ''NUL'']
     @ [p @ d. p \<leftarrow> [''COM'', ''LPT''], d \<leftarrow> map (\<lambda>c. [c]) ''123456789'' @ superscripts]"

definition reservedWindowsName :: "go_string \<Rightarrow> bool" where
  "reservedWindowsName name \<longleftrightarrow>
     List.member reserved_stems (map upper (trim_right '' '' (takeWhile (\<lambda>c. c \<noteq> CHR ''.'') name)))"

definition EqualFold :: "go_string \<Rightarrow> go_string \<Rightarrow> bool" where
  "EqualFold s t \<longleftrightarrow> fold_name s = fold_name t"

definition SanitizeFilename :: "library \<Rightarrow> go_string \<Rightarrow> error + go_string" where
  "SanitizeFilename lib name =
     (if \<not> utf8_valid name then Inl (ErrOther ''filename must be valid UTF-8'')
      else if name = [] then Inl (ErrOther ''filename must not be empty'')
      else if length name > MaxFilenameUTF8Bytes then Inl (ErrOther ''filename exceeds UTF-8 bytes'')
      else if \<not> IsNormalString lib name then Inl (ErrOther ''filename must use Unicode NFC'')
      else if trim_right '' .'' name \<noteq> name
      then Inl (ErrOther ''filename must not end in a space or dot'')
      else if filenameBlank name \<or> name = ''.'' \<or> name = ''..''
      then Inl (ErrOther ''filename is blank or reserved'')
      else if list_ex forbiddenFilenameRune (runes name)
      then Inl (ErrOther ''filename contains a platform-invalid character'')
      else if reservedWindowsName name \<or> EqualFold name reservedReceiptName
      then Inl (ErrOther ''filename is platform-reserved'')
      else Inr name)"

function truncateUTF8 :: "go_string \<Rightarrow> nat \<Rightarrow> go_string" where
  "truncateUTF8 s maxBytes =
     (if length s > maxBytes then truncateUTF8 (take (length s - last_rune_size s) s) maxBytes else s)"
  by pat_completeness auto
termination
proof (relation "measure (\<lambda>(s, m). length s)", goal_cases)
  case (2 s m)
  then show ?case using last_rune_size_pos [of s] by auto
qed simp

declare truncateUTF8.simps [simp del]

text \<open>The stem and the extension that is kept.\<close>

definition split_extension :: "go_string \<Rightarrow> go_string \<times> go_string" where
  "split_extension base =
     (case last_index (CHR ''.'') base of
        None \<Rightarrow> (base, [])
      | Some dot \<Rightarrow>
          if 0 < dot \<and> length (drop dot base) \<le> MaxFilenameExtensionBytes
          then (take dot base, drop dot base) else (base, []))"

definition fitFilename :: "go_string \<Rightarrow> go_string \<Rightarrow> go_string" where
  "fitFilename base suffix =
     (let (stem, extension) = split_extension base;
          budget = int MaxFilenameUTF8Bytes - int (length suffix) - int (length extension);
          (extension, budget) =
            (if budget < 1 then ([], int MaxFilenameUTF8Bytes - int (length suffix)) else (extension, budget));
          stem = trim_right '' .'' (truncateUTF8 stem (nat budget));
          stem = (if filenameBlank stem \<or> stem = ''.'' \<or> stem = ''..'' then ''file'' else stem)
      in stem @ suffix @ extension)"

definition canonicalizeFilename :: "library \<Rightarrow> go_string \<Rightarrow> error + go_string" where
  "canonicalizeFilename lib name =
     (if \<not> utf8_valid name then Inl (ErrOther ''filename must be valid UTF-8'')
      else
        let normalized = lib_NFC lib name;
            candidate = trim_right '' .''
              (concat (map (\<lambda>r. if forbiddenFilenameRune r then ''_'' else utf8_encode r) (runes normalized)));
            candidate = (if filenameBlank candidate \<or> candidate = ''.'' \<or> candidate = ''..''
                         then ''file'' else candidate);
            candidate = (if reservedWindowsName candidate \<or> EqualFold candidate reservedReceiptName
                         then CHR ''_'' # candidate else candidate);
            candidate = fitFilename candidate []
        in case SanitizeFilename lib candidate of
             Inl _ \<Rightarrow> Inl (ErrOther ''could not canonicalize filename'')
           | Inr _ \<Rightarrow> Inr candidate)"

definition suffix_text :: "nat \<Rightarrow> go_string" where
  "suffix_text n = '' ('' @ decimal (int n) @ '')''"

text \<open>\<open>for suffix := 2; ; suffix++\<close>: the loop has no other exit than a free key.\<close>

partial_function (option) free_name ::
    "library \<Rightarrow> go_string list \<Rightarrow> go_string \<Rightarrow> nat \<Rightarrow> go_string \<Rightarrow> go_string option" where
  "free_name lib used base suffix candidate =
     (if List.member used (filenameCollisionKey lib candidate)
      then free_name lib used base (Suc suffix) (fitFilename base (suffix_text suffix))
      else Some candidate)"

fun canonicalize_all ::
    "library \<Rightarrow> go_string list \<Rightarrow> go_string list \<Rightarrow> (error + go_string list) option" where
  "canonicalize_all lib used [] = Some (Inr [])"
| "canonicalize_all lib used (name # names) =
     (case canonicalizeFilename lib name of
        Inl _ \<Rightarrow> Some (Inl (ErrOther ''file name invalid''))
      | Inr base \<Rightarrow>
          (case free_name lib used base 2 base of
             None \<Rightarrow> None
           | Some candidate \<Rightarrow>
               map_option (map_sum id (Cons candidate))
                 (canonicalize_all lib (filenameCollisionKey lib candidate # used) names)))"

definition CanonicalizeFilenames :: "library \<Rightarrow> go_string list \<Rightarrow> (error + go_string list) option" where
  "CanonicalizeFilenames lib names =
     (if length names > MaxManifestFiles then Some (Inl (ErrOther ''bundle contains too many files''))
      else canonicalize_all lib [] names)"

section \<open>MIME types\<close>

definition mime_first :: "char \<Rightarrow> bool" where
  "mime_first c \<longleftrightarrow> in_range 65 90 c \<or> in_range 97 122 c \<or> in_range 48 57 c"

definition mime_char :: "char \<Rightarrow> bool" where
  "mime_char c \<longleftrightarrow> mime_first c \<or> List.member ''!#$&^_.+-'' c"

definition mime_part :: "go_string \<Rightarrow> bool" where
  "mime_part s \<longleftrightarrow> (case s of [] \<Rightarrow> False | c # cs \<Rightarrow> mime_first c \<and> list_all mime_char cs)"

definition safeMIMEPattern :: "go_string \<Rightarrow> bool" where
  "safeMIMEPattern s \<longleftrightarrow>
     mime_part (takeWhile (\<lambda>c. c \<noteq> CHR ''/'') s)
     \<and> (case dropWhile (\<lambda>c. c \<noteq> CHR ''/'') s of [] \<Rightarrow> False | _ # sub \<Rightarrow> mime_part sub)"

definition octet_stream :: go_string where "octet_stream = ''application/octet-stream''"

definition SanitizeMIMEType :: "library \<Rightarrow> go_string \<Rightarrow> error + go_string" where
  "SanitizeMIMEType lib s =
     (if s = [] then Inr octet_stream
      else if \<not> utf8_valid s \<or> length s > MaxMIMETypeUTF8Bytes
      then Inl (ErrOther ''MIME type must be valid UTF-8 and short'')
      else case lib_ParseMediaType lib s of
        None \<Rightarrow> Inl (ErrOther ''mime'')
      | Some (mediaType, parameters) \<Rightarrow>
          if parameters \<noteq> []
          then Inl (ErrOther ''MIME type parameters are not canonical manifest values'')
          else if \<not> safeMIMEPattern (to_lower mediaType) then Inl (ErrOther ''unsafe MIME type'')
          else Inr (to_lower mediaType))"

section \<open>Building\<close>

definition zero_manifest :: manifest where
  "zero_manifest = \<lparr>man_ProtocolVersion = 0, man_Files = [], man_CreatedAt = []\<rparr>"

fun build_files ::
    "library \<Rightarrow> plain_file list \<Rightarrow> go_string list \<Rightarrow> error + manifest_file list \<times> go_string" where
  "build_files lib (file # files) (name # names) =
     (case SanitizeMIMEType lib (pf_Type file) of
        Inl _ \<Rightarrow> Inl (ErrOther ''file MIME type invalid'')
      | Inr mediaType \<Rightarrow>
          map_sum id
            (\<lambda>(entries, payload).
               (\<lparr>mf_Name = name, mf_Type = mediaType, mf_Size = int (length (pf_Data file))\<rparr> # entries,
                pf_Data file @ payload))
            (build_files lib files names))"
| "build_files lib _ _ = Inr ([], [])"

definition BuildManifest ::
    "library \<Rightarrow> plain_file list \<Rightarrow> time \<Rightarrow> (error + manifest \<times> go_string) option" where
  "BuildManifest lib files createdAt =
     (if files = [] then Some (Inl (ErrOther ''bundle must contain at least one file''))
      else if length files > MaxManifestFiles then Some (Inl (ErrOther ''bundle contains too many files''))
      else case CanonicalizeFilenames lib (map pf_Name files) of
        None \<Rightarrow> None
      | Some (Inl err) \<Rightarrow> Some (Inl err)
      | Some (Inr canonicalNames) \<Rightarrow>
          Some (map_sum id
            (\<lambda>(entries, payload).
               (\<lparr>man_ProtocolVersion = ProtocolVersion, man_Files = entries,
                 man_CreatedAt = format_RFC3339Nano createdAt\<rparr>, payload))
            (build_files lib files canonicalNames)))"

text \<open>\<open>json.Marshal(manifest)\<close>.\<close>

definition json_of_file :: "manifest_file \<Rightarrow> json" where
  "json_of_file f =
     JObject [(''name'', JString (mf_Name f)), (''type'', JString (mf_Type f)),
              (''size'', JNumber (decimal (mf_Size f)))]"

definition json_of_manifest :: "manifest \<Rightarrow> json" where
  "json_of_manifest m =
     JObject [(''protocol_version'', JNumber (decimal (man_ProtocolVersion m))),
              (''files'', if man_Files m = [] then JNull else JArray (map json_of_file (man_Files m))),
              (''created_at'', JString (man_CreatedAt m))]"

section \<open>Parsing\<close>

definition manifest_file_fields :: "go_string list" where
  "manifest_file_fields = [''name'', ''type'', ''size'']"

definition manifest_fields :: "go_string list" where
  "manifest_fields = [''protocol_version'', ''files'', ''created_at'']"

definition zero_file :: manifest_file where
  "zero_file = \<lparr>mf_Name = [], mf_Type = [], mf_Size = 0\<rparr>"

definition assign_file :: "go_string \<Rightarrow> json \<Rightarrow> manifest_file \<Rightarrow> manifest_file option" where
  "assign_file f v e =
     (if f = ''name'' then map_option (\<lambda>x. e\<lparr>mf_Name := x\<rparr>) (decode_string v (mf_Name e))
      else if f = ''type'' then map_option (\<lambda>x. e\<lparr>mf_Type := x\<rparr>) (decode_string v (mf_Type e))
      else map_option (\<lambda>x. e\<lparr>mf_Size := x\<rparr>) (decode_int v (mf_Size e)))"

text \<open>An array is decoded into the slice that is there: element \<open>i\<close> starts from what the slice's
  memory holds at \<open>i\<close>, which a field \<open>files\<close> given before under another spelling may have left.\<close>

fun decode_files :: "manifest_file list \<Rightarrow> json list \<Rightarrow> manifest_file list option" where
  "decode_files memory [] = Some []"
| "decode_files memory (v # vs) =
     (case decode_struct manifest_file_fields assign_file v (case memory of [] \<Rightarrow> zero_file | e # _ \<Rightarrow> e) of
        None \<Rightarrow> None
      | Some e \<Rightarrow> map_option (Cons e) (decode_files (tl memory) vs))"

text \<open>The manifest so far and the memory of its slice.\<close>

definition assign_manifest ::
    "go_string \<Rightarrow> json \<Rightarrow> manifest \<times> manifest_file list \<Rightarrow> (manifest \<times> manifest_file list) option" where
  "assign_manifest f v = (\<lambda>(m, memory).
     if f = ''protocol_version''
     then map_option (\<lambda>x. (m\<lparr>man_ProtocolVersion := x\<rparr>, memory)) (decode_int v (man_ProtocolVersion m))
     else if f = ''files''
     then (case v of
             JNull \<Rightarrow> Some (m\<lparr>man_Files := []\<rparr>, [])
           | JArray [] \<Rightarrow> Some (m\<lparr>man_Files := []\<rparr>, [])
           | JArray vs \<Rightarrow>
               map_option (\<lambda>es. (m\<lparr>man_Files := es\<rparr>, es @ drop (length es) memory)) (decode_files memory vs)
           | _ \<Rightarrow> None)
     else map_option (\<lambda>x. (m\<lparr>man_CreatedAt := x\<rparr>, memory)) (decode_string v (man_CreatedAt m)))"

definition ParseManifest :: "go_string \<Rightarrow> error + manifest" where
  "ParseManifest data =
     (if rejectDuplicateJSONFields data \<noteq> None then Inl (ErrOther ''decode manifest JSON'')
      else case decode_one data of
        Decoded v rest \<Rightarrow>
          (case decode_struct manifest_fields assign_manifest v (zero_manifest, []) of
             None \<Rightarrow> Inl (ErrOther ''decode manifest JSON'')
           | Some (m, _) \<Rightarrow>
               (case decode_one rest of
                  EndOfInput \<Rightarrow> Inr m
                | Decoded _ _ \<Rightarrow> Inl (ErrOther ''manifest JSON must contain one value'')
                | DecodeError \<Rightarrow> Inl (ErrOther ''decode manifest JSON'')))
      | _ \<Rightarrow> Inl (ErrOther ''decode manifest JSON''))"

section \<open>Validation and the split\<close>

text \<open>The loop over the entries, with the keys seen and the bytes of the payload that remain.\<close>

fun validate_files :: "library \<Rightarrow> go_string list \<Rightarrow> int \<Rightarrow> manifest_file list \<Rightarrow> error + int" where
  "validate_files lib seen remaining [] = Inr remaining"
| "validate_files lib seen remaining (file # files) =
     (if mf_Size file < 0 then Inl (ErrOther ''manifest file size must be non-negative'')
      else if mf_Size file > remaining
      then Inl (ErrOther ''manifest file size exceeds remaining payload length'')
      else case SanitizeFilename lib (mf_Name file) of
        Inl _ \<Rightarrow> Inl (ErrOther ''manifest file name invalid'')
      | Inr safeName \<Rightarrow>
          if List.member seen (filenameCollisionKey lib safeName)
          then Inl (ErrOther ''manifest file duplicates filename'')
          else case SanitizeMIMEType lib (mf_Type file) of
            Inl _ \<Rightarrow> Inl (ErrOther ''manifest file MIME type invalid'')
          | Inr _ \<Rightarrow>
              validate_files lib (filenameCollisionKey lib safeName # seen) (remaining - mf_Size file) files)"

definition ValidateManifest :: "library \<Rightarrow> manifest \<Rightarrow> go_string \<Rightarrow> error option" where
  "ValidateManifest lib m payloadPlaintext =
     (if man_ProtocolVersion m \<noteq> ProtocolVersion then Some (ErrOther ''manifest protocol_version'')
      else if man_Files m = [] then Some (ErrOther ''manifest must contain at least one file'')
      else if length (man_Files m) > MaxManifestFiles
      then Some (ErrOther ''manifest contains too many files'')
      else if parse_RFC3339Nano (man_CreatedAt m) = None then Some (ErrOther ''manifest created_at is invalid'')
      else case validate_files lib [] (int (length payloadPlaintext)) (man_Files m) of
        Inl err \<Rightarrow> Some err
      | Inr remaining \<Rightarrow> if remaining \<noteq> 0 then Some (ErrOther ''manifest size sum'') else None)"

fun split_files :: "library \<Rightarrow> go_string \<Rightarrow> int \<Rightarrow> manifest_file list \<Rightarrow> error + recovered_file list" where
  "split_files lib payload offset [] = Inr []"
| "split_files lib payload offset (entry # entries) =
     (if mf_Size entry < 0 \<or> mf_Size entry > int (length payload) - offset
      then Inl (ErrOther ''manifest file size is outside the remaining payload'')
      else let next = wrap64 (offset + mf_Size entry) in
        if next < offset \<or> next > int (length payload)
        then Inl (ErrOther ''manifest file payload range is invalid'')
        else case SanitizeFilename lib (mf_Name entry) of
          Inl err \<Rightarrow> Inl err
        | Inr safeName \<Rightarrow>
            (case SanitizeMIMEType lib (mf_Type entry) of
               Inl err \<Rightarrow> Inl err
             | Inr safeType \<Rightarrow>
                 map_sum id
                   (Cons \<lparr>rf_Name = mf_Name entry, rf_SafeName = safeName, rf_Type = mf_Type entry,
                          rf_SafeType = safeType,
                          rf_Data = take (nat (next - offset)) (drop (nat offset) payload)\<rparr>)
                   (split_files lib payload next entries)))"

definition SplitPayload :: "library \<Rightarrow> manifest \<Rightarrow> go_string \<Rightarrow> error + recovered_file list" where
  "SplitPayload lib m payloadPlaintext =
     (case ValidateManifest lib m payloadPlaintext of
        Some err \<Rightarrow> Inl err
      | None \<Rightarrow> split_files lib payloadPlaintext 0 (man_Files m))"

end
