(* ===== verification/Reference.thy ===== *)
theory Reference
  imports Manifest "HOL-Library.Word"
begin

text \<open>
  \<open>internal/cryptoenv/reference.go\<close> and \<open>vectors.go\<close>: the reference client of the protocol, which
  encrypts a bundle for a recipient and decrypts it, and its test vectors. HKDF is built on the
  SHA-256 of Sha256; X25519 and AES-256-GCM are functions of the library record. What random sources
  give is an argument; so is the clock.
\<close>

definition and_then :: "'e + 'a \<Rightarrow> ('a \<Rightarrow> 'e + 'b) \<Rightarrow> 'e + 'b" where
  "and_then r f = (case r of Inl e \<Rightarrow> Inl e | Inr x \<Rightarrow> f x)"

lemma and_then_simps [simp]: "and_then (Inl e) f = Inl e" "and_then (Inr x) f = f x"
  by (simp_all add: and_then_def)

lemma and_then_Inr: "and_then r f = Inr y \<longleftrightarrow> (\<exists>x. r = Inr x \<and> f x = Inr y)"
  by (cases r) auto

section \<open>HKDF\<close>

unbundle bit_operations_syntax

definition xor_byte :: "char \<Rightarrow> char \<Rightarrow> char" where
  "xor_byte a b = char_of ((of_char a :: int) XOR of_char b)"

definition hmac_key :: "go_string \<Rightarrow> go_string" where
  "hmac_key key =
     (let k = (if length key > 64 then sha256 key else key) in k @ replicate (64 - length k) (CHR 0x00))"

definition hmac_sha256 :: "go_string \<Rightarrow> go_string \<Rightarrow> go_string" where
  "hmac_sha256 key message =
     sha256 (map (xor_byte (CHR 0x5C)) (hmac_key key)
             @ sha256 (map (xor_byte (CHR 0x36)) (hmac_key key) @ message))"

text \<open>\<open>hkdf.Expand\<close>: the blocks of output, from the one before and the block's number.\<close>

fun hkdf_blocks :: "go_string \<Rightarrow> go_string \<Rightarrow> go_string \<Rightarrow> nat \<Rightarrow> nat \<Rightarrow> go_string" where
  "hkdf_blocks prk info previous i 0 = []"
| "hkdf_blocks prk info previous i (Suc n) =
     (let block = hmac_sha256 prk (previous @ info @ [char_of i])
      in block @ hkdf_blocks prk info block (Suc i) n)"

definition hkdf_Key :: "go_string \<Rightarrow> go_string \<Rightarrow> go_string \<Rightarrow> nat \<Rightarrow> error + go_string" where
  "hkdf_Key secret salt info keyLength =
     (if keyLength > 255 * 32 then Inl (ErrOther ''hkdf: requested key length too large'')
      else Inr (take keyLength
                 (hkdf_blocks (hmac_sha256 salt secret) info [] 1 ((keyLength + 31) div 32))))"

section \<open>Keys\<close>

definition InfoMetadata :: go_string where "InfoMetadata = ''DropPoint/protocol/v2 key=metadata''"
definition InfoPayload :: go_string where "InfoPayload = ''DropPoint/protocol/v2 key=payload''"
definition aadMetadata :: go_string where "aadMetadata = CHR 0x02 # ''metadata''"
definition aadPayload :: go_string where "aadPayload = CHR 0x02 # ''payload''"

record key_pair =
  kp_PrivateKey :: go_string
  kp_PublicKey :: go_string

text \<open>The base point 9, and the value of a low-order point.\<close>

definition basepoint :: go_string where "basepoint = CHR 0x09 # replicate 31 (CHR 0x00)"
definition all_zero :: go_string where "all_zero = replicate 32 (CHR 0x00)"

definition NewPrivateKey :: "go_string \<Rightarrow> error + go_string" where
  "NewPrivateKey raw =
     (if length raw \<noteq> 32 then Inl (ErrOther ''crypto/ecdh: invalid private key size'') else Inr raw)"

definition NewPublicKey :: "go_string \<Rightarrow> error + go_string" where
  "NewPublicKey raw =
     (if length raw \<noteq> 32 then Inl (ErrOther ''crypto/ecdh: invalid public key'') else Inr raw)"

definition ECDH :: "library \<Rightarrow> go_string \<Rightarrow> go_string \<Rightarrow> error + go_string" where
  "ECDH lib private public =
     (let s = lib_X25519 lib private public
      in if s = all_zero then Inl (ErrOther ''crypto/ecdh: low order point'') else Inr s)"

text \<open>\<open>generated\<close> is the private key the library's \<open>GenerateKey\<close> makes, \<open>None\<close> if it fails.\<close>

definition GenerateX25519KeyPair :: "library \<Rightarrow> go_string option \<Rightarrow> error + key_pair" where
  "GenerateX25519KeyPair lib generated =
     (case generated of
        None \<Rightarrow> Inl (ErrOther ''generate X25519 key pair'')
      | Some private \<Rightarrow>
          Inr \<lparr>kp_PrivateKey = private, kp_PublicKey = lib_X25519 lib private basepoint\<rparr>)"

definition PublicKeyFromPrivate :: "library \<Rightarrow> go_string \<Rightarrow> error + go_string" where
  "PublicKeyFromPrivate lib privateRaw =
     and_then (NewPrivateKey privateRaw) (\<lambda>private. Inr (lib_X25519 lib private basepoint))"

definition SharedSecret :: "library \<Rightarrow> go_string \<Rightarrow> go_string \<Rightarrow> error + go_string" where
  "SharedSecret lib privateRaw publicRaw =
     and_then (NewPrivateKey privateRaw) (\<lambda>private.
     and_then (NewPublicKey publicRaw) (\<lambda>public.
     and_then (ECDH lib private public) (\<lambda>shared.
     if shared = all_zero then Inl (ErrOther ''all-zero shared secret'') else Inr shared)))"

definition DeriveKeys :: "go_string \<Rightarrow> go_string \<Rightarrow> go_string \<Rightarrow> error + go_string \<times> go_string" where
  "DeriveKeys sharedSecret senderEphemeralPublicKey recipientPublicKey =
     (if length sharedSecret \<noteq> X25519PublicKeyBytes then Inl (ErrOther ''shared secret length'')
      else if length senderEphemeralPublicKey \<noteq> X25519PublicKeyBytes
              \<or> length recipientPublicKey \<noteq> X25519PublicKeyBytes
      then Inl (ErrOther ''HKDF salt public keys must both be 32 bytes'')
      else let salt = senderEphemeralPublicKey @ recipientPublicKey in
        and_then (hkdf_Key sharedSecret salt InfoMetadata 32) (\<lambda>metadataKey.
        and_then (hkdf_Key sharedSecret salt InfoPayload 32) (\<lambda>payloadKey.
        Inr (metadataKey, payloadKey))))"

definition newGCM :: "go_string \<Rightarrow> error + go_string" where
  "newGCM key = (if length key \<noteq> 32 then Inl (ErrOther ''AES-256 key length'') else Inr key)"

definition encryptAESGCM :: "library \<Rightarrow> go_string \<Rightarrow> go_string \<Rightarrow> go_string \<Rightarrow> go_string \<Rightarrow> error + go_string" where
  "encryptAESGCM lib key nonce aad plaintext =
     and_then (newGCM key) (\<lambda>key. Inr (lib_Seal lib key nonce aad plaintext))"

definition decryptAESGCM :: "library \<Rightarrow> go_string \<Rightarrow> go_string \<Rightarrow> go_string \<Rightarrow> go_string \<Rightarrow> error + go_string" where
  "decryptAESGCM lib key nonce aad ciphertext =
     and_then (newGCM key) (\<lambda>key.
       case lib_Open lib key nonce aad ciphertext of
         None \<Rightarrow> Inl (ErrOther ''cipher: message authentication failed'')
       | Some plaintext \<Rightarrow> Inr plaintext)"

text \<open>\<open>read\<close> is what \<open>io.ReadFull\<close> put into the 12-byte buffer, \<open>None\<close> if it failed.\<close>

definition nonceOrRandom :: "go_string \<Rightarrow> go_string option \<Rightarrow> error + go_string" where
  "nonceOrRandom given read =
     (if given \<noteq> [] then
        (if length given \<noteq> AESGCMNonceBytes then Inl (ErrOther ''nonce length'') else Inr given)
      else case read of
        None \<Rightarrow> Inl (ErrOther ''generate AES-GCM nonce'')
      | Some nonce \<Rightarrow> Inr nonce)"

section \<open>Bundles\<close>

text \<open>The options without the reader; \<open>randomness\<close> is what it and the system's source give.\<close>

record encrypt_options =
  opt_SenderPrivateKey :: go_string
  opt_MetadataNonce :: go_string
  opt_PayloadNonce :: go_string
  opt_CreatedAt :: time

record randomness =
  rnd_PrivateKey :: "go_string option"
  rnd_MetadataNonce :: "go_string option"
  rnd_PayloadNonce :: "go_string option"

record intermediates =
  int_SharedSecret :: go_string
  int_MetadataKey :: go_string
  int_PayloadKey :: go_string
  int_EncryptedMetadata :: go_string

record encrypt_result =
  er_Envelope :: envelope
  er_EnvelopeJSON :: go_string
  er_EncryptedPayload :: go_string
  er_ManifestJSON :: go_string
  er_PayloadPlaintext :: go_string
  er_Intermediates :: intermediates

definition json_of_envelope :: "envelope \<Rightarrow> json" where
  "json_of_envelope e =
     JObject [(''protocol_version'', JNumber (decimal (env_ProtocolVersion e))),
              (''key_agreement'', JString (env_KeyAgreement e)),
              (''sender_ephemeral_public_key'', JString (env_SenderEphemeralPublicKey e)),
              (''metadata_nonce'', JString (env_MetadataNonce e)),
              (''payload_nonce'', JString (env_PayloadNonce e)),
              (''encrypted_metadata'', JString (env_EncryptedMetadata e))]"

text \<open>The sender's key pair.\<close>

definition senderKeys :: "library \<Rightarrow> go_string \<Rightarrow> go_string option \<Rightarrow> error + key_pair" where
  "senderKeys lib given generated =
     (if given = [] then GenerateX25519KeyPair lib generated
      else and_then (PublicKeyFromPrivate lib given) (\<lambda>public.
        Inr \<lparr>kp_PrivateKey = given, kp_PublicKey = public\<rparr>))"

text \<open>From the shared secret on.\<close>

definition sealBundle ::
    "library \<Rightarrow> go_string \<Rightarrow> key_pair \<Rightarrow> go_string \<Rightarrow> go_string \<Rightarrow> manifest \<Rightarrow> go_string
     \<Rightarrow> error + encrypt_result" where
  "sealBundle lib recipientPublicKey sender metadataNonce payloadNonce m payloadPlaintext =
     (let manifestJSON = marshal (json_of_manifest m) in
      and_then (SharedSecret lib (kp_PrivateKey sender) recipientPublicKey) (\<lambda>shared.
      and_then (DeriveKeys shared (kp_PublicKey sender) recipientPublicKey) (\<lambda>(metadataKey, payloadKey).
      and_then (encryptAESGCM lib metadataKey metadataNonce aadMetadata manifestJSON) (\<lambda>encryptedMetadata.
      and_then (encryptAESGCM lib payloadKey payloadNonce aadPayload payloadPlaintext) (\<lambda>encryptedPayload.
      let env = \<lparr>env_ProtocolVersion = ProtocolVersion, env_KeyAgreement = KeyAgreement,
                 env_SenderEphemeralPublicKey = EncodeBase64URL (kp_PublicKey sender),
                 env_MetadataNonce = EncodeBase64URL metadataNonce,
                 env_PayloadNonce = EncodeBase64URL payloadNonce,
                 env_EncryptedMetadata = EncodeBase64URL encryptedMetadata\<rparr>
      in Inr \<lparr>er_Envelope = env, er_EnvelopeJSON = marshal (json_of_envelope env),
              er_EncryptedPayload = encryptedPayload, er_ManifestJSON = manifestJSON,
              er_PayloadPlaintext = payloadPlaintext,
              er_Intermediates =
                \<lparr>int_SharedSecret = shared, int_MetadataKey = metadataKey, int_PayloadKey = payloadKey,
                 int_EncryptedMetadata = encryptedMetadata\<rparr>\<rparr>)))))"

definition EncryptBundle ::
    "library \<Rightarrow> randomness \<Rightarrow> time \<Rightarrow> go_string \<Rightarrow> plain_file list \<Rightarrow> encrypt_options
     \<Rightarrow> (error + encrypt_result) option" where
  "EncryptBundle lib rnd now recipientPublicKey files opts =
     (if length recipientPublicKey \<noteq> X25519PublicKeyBytes
      then Some (Inl (ErrOther ''recipient public key length''))
      else case and_then (senderKeys lib (opt_SenderPrivateKey opts) (rnd_PrivateKey rnd)) (\<lambda>sender.
             and_then (nonceOrRandom (opt_MetadataNonce opts) (rnd_MetadataNonce rnd)) (\<lambda>metadataNonce.
             and_then (nonceOrRandom (opt_PayloadNonce opts) (rnd_PayloadNonce rnd)) (\<lambda>payloadNonce.
             Inr (sender, metadataNonce, payloadNonce)))) of
        Inl err \<Rightarrow> Some (Inl err)
      | Inr (sender, metadataNonce, payloadNonce) \<Rightarrow>
          map_option (\<lambda>built. and_then built (\<lambda>(m, payloadPlaintext).
              sealBundle lib recipientPublicKey sender metadataNonce payloadNonce m payloadPlaintext))
            (BuildManifest lib files
               (if opt_CreatedAt opts = zero_time then now else opt_CreatedAt opts)))"

definition ParseEnvelopeJSON :: "go_string \<Rightarrow> error + envelope" where
  "ParseEnvelopeJSON data = ValidateEnvelopeJSON data"

definition decodeEnvelopeFields ::
    "envelope \<Rightarrow> error + go_string \<times> go_string \<times> go_string \<times> go_string" where
  "decodeEnvelopeFields env =
     and_then (ValidateEnvelopeJSON (marshal (json_of_envelope env))) (\<lambda>_.
     and_then (DecodeBase64URL (env_SenderEphemeralPublicKey env)) (\<lambda>senderPublic.
     and_then (DecodeBase64URL (env_MetadataNonce env)) (\<lambda>metadataNonce.
     and_then (DecodeBase64URL (env_PayloadNonce env)) (\<lambda>payloadNonce.
     and_then (DecodeBase64URL (env_EncryptedMetadata env)) (\<lambda>encryptedMetadata.
     Inr (senderPublic, metadataNonce, payloadNonce, encryptedMetadata))))))"

definition DecryptBundle ::
    "library \<Rightarrow> go_string \<Rightarrow> envelope \<Rightarrow> go_string \<Rightarrow> error + recovered_file list \<times> intermediates" where
  "DecryptBundle lib recipientPrivateKey env encryptedPayload =
     and_then (PublicKeyFromPrivate lib recipientPrivateKey) (\<lambda>recipientPublicKey.
     and_then (decodeEnvelopeFields env) (\<lambda>(senderPublic, metadataNonce, payloadNonce, encryptedMetadata).
     and_then (SharedSecret lib recipientPrivateKey senderPublic) (\<lambda>shared.
     and_then (DeriveKeys shared senderPublic recipientPublicKey) (\<lambda>(metadataKey, payloadKey).
     and_then (decryptAESGCM lib metadataKey metadataNonce aadMetadata encryptedMetadata) (\<lambda>manifestJSON.
     and_then (decryptAESGCM lib payloadKey payloadNonce aadPayload encryptedPayload) (\<lambda>payloadPlaintext.
     and_then (ParseManifest manifestJSON) (\<lambda>m.
     and_then (SplitPayload lib m payloadPlaintext) (\<lambda>files.
     Inr (files,
          \<lparr>int_SharedSecret = shared, int_MetadataKey = metadataKey, int_PayloadKey = payloadKey,
           int_EncryptedMetadata = encryptedMetadata\<rparr>)))))))))"

section \<open>Test vectors\<close>

record test_vector =
  tv_Name :: go_string
  tv_RecipientPrivateKey :: go_string
  tv_RecipientPublicKey :: go_string
  tv_SenderEphemeralPrivateKey :: go_string
  tv_SenderEphemeralPublicKey :: go_string
  tv_MetadataNonce :: go_string
  tv_PayloadNonce :: go_string
  tv_SharedSecret :: go_string
  tv_MetadataKey :: go_string
  tv_PayloadKey :: go_string
  tv_ManifestJSON :: go_string
  tv_EnvelopeJSON :: go_string
  tv_EncryptedMetadata :: go_string
  tv_EncryptedPayload :: go_string
  tv_PayloadPlaintext :: go_string

text \<open>\<open>start + byte(i)\<close> wraps at 256, as \<^const>\<open>char_of\<close> does.\<close>

definition sequenceBytes :: "nat \<Rightarrow> nat \<Rightarrow> go_string" where
  "sequenceBytes start count = map (\<lambda>i. char_of (start + i)) [0..<count]"

definition vector_definitions :: "(go_string \<times> plain_file list) list" where
  "vector_definitions =
     [(''single-file'',
       [\<lparr>pf_Name = ''scan-01.txt'', pf_Type = ''text/plain'', pf_Data = ''hello drop point'' @ [CHR 0x0A]\<rparr>]),
      (''multi-file'',
       [\<lparr>pf_Name = ''scan-01.txt'', pf_Type = ''text/plain'', pf_Data = ''first file'' @ [CHR 0x0A]\<rparr>,
        \<lparr>pf_Name = ''scan-02.bin'', pf_Type = ''application/octet-stream'',
         pf_Data = [CHR 0x00, CHR 0x01, CHR 0x02, CHR 0x03, CHR 0x04, CHR 0x05]\<rparr>])]"

text \<open>2026-06-30T12:00:00Z.\<close>

definition vector_time :: time where "vector_time = 1782820800 * second"

definition vector_options :: encrypt_options where
  "vector_options =
     \<lparr>opt_SenderPrivateKey = sequenceBytes 65 32, opt_MetadataNonce = sequenceBytes 129 AESGCMNonceBytes,
      opt_PayloadNonce = sequenceBytes 161 AESGCMNonceBytes, opt_CreatedAt = vector_time\<rparr>"

definition test_vector_of :: "go_string \<Rightarrow> go_string \<Rightarrow> go_string \<Rightarrow> encrypt_result \<Rightarrow> test_vector" where
  "test_vector_of name recipientPublic senderPublic result =
     \<lparr>tv_Name = name,
      tv_RecipientPrivateKey = EncodeBase64URL (sequenceBytes 1 32),
      tv_RecipientPublicKey = EncodeBase64URL recipientPublic,
      tv_SenderEphemeralPrivateKey = EncodeBase64URL (opt_SenderPrivateKey vector_options),
      tv_SenderEphemeralPublicKey = EncodeBase64URL senderPublic,
      tv_MetadataNonce = EncodeBase64URL (opt_MetadataNonce vector_options),
      tv_PayloadNonce = EncodeBase64URL (opt_PayloadNonce vector_options),
      tv_SharedSecret = EncodeBase64URL (int_SharedSecret (er_Intermediates result)),
      tv_MetadataKey = EncodeBase64URL (int_MetadataKey (er_Intermediates result)),
      tv_PayloadKey = EncodeBase64URL (int_PayloadKey (er_Intermediates result)),
      tv_ManifestJSON = er_ManifestJSON result,
      tv_EnvelopeJSON = er_EnvelopeJSON result,
      tv_EncryptedMetadata = EncodeBase64URL (int_EncryptedMetadata (er_Intermediates result)),
      tv_EncryptedPayload = EncodeBase64URL (er_EncryptedPayload result),
      tv_PayloadPlaintext = EncodeBase64URL (er_PayloadPlaintext result)\<rparr>"

fun vectors_of ::
    "library \<Rightarrow> randomness \<Rightarrow> time \<Rightarrow> go_string \<Rightarrow> (go_string \<times> plain_file list) list
     \<Rightarrow> (error + test_vector list) option" where
  "vectors_of lib rnd now recipientPublic [] = Some (Inr [])"
| "vectors_of lib rnd now recipientPublic ((name, files) # definitions) =
     (case EncryptBundle lib rnd now recipientPublic files vector_options of
        None \<Rightarrow> None
      | Some (Inl err) \<Rightarrow> Some (Inl err)
      | Some (Inr result) \<Rightarrow>
          (case PublicKeyFromPrivate lib (opt_SenderPrivateKey vector_options) of
             Inl err \<Rightarrow> Some (Inl err)
           | Inr senderPublic \<Rightarrow>
               map_option (map_sum id (Cons (test_vector_of name recipientPublic senderPublic result)))
                 (vectors_of lib rnd now recipientPublic definitions)))"

definition PositiveTestVectors :: "library \<Rightarrow> randomness \<Rightarrow> time \<Rightarrow> (error + test_vector list) option" where
  "PositiveTestVectors lib rnd now =
     (case PublicKeyFromPrivate lib (sequenceBytes 1 32) of
        Inl err \<Rightarrow> Some (Inl err)
      | Inr recipientPublic \<Rightarrow> vectors_of lib rnd now recipientPublic vector_definitions)"

end
