(* ===== verification/Filenames.thy ===== *)
theory Filenames
  imports Manifest
begin

text \<open>
  The file names of a bundle: cutting a name leaves whole runes, the name fitted with a suffix passes
  the receiver's check when the name without it does, suffixes give different comparison keys, and so
  the sender's loop ends with names that are safe and do not collide.
\<close>

section \<open>Cutting at runes\<close>

lemma rune_length_prefix:
  assumes "rune_length (p @ q) = Some n" "n \<le> length p"
  shows "rune_length p = Some n"
proof -
  have "rune_length (take n p) = Some n" using rune_length_take [OF assms(1)] assms(2) by simp
  then have "rune_length (take n p @ drop n p) = Some n" by (rule rune_length_append)
  then show ?thesis by simp
qed

text \<open>An ASCII byte is the start of a rune.\<close>

lemma utf8_valid_cut: "utf8_valid (p @ c # q) \<Longrightarrow> is_ascii c \<Longrightarrow> utf8_valid p \<and> utf8_valid (c # q)"
proof (induction p rule: length_induct)
  case (1 p)
  show ?case
  proof (cases "p = []")
    case False
    from 1(2) obtain n where n: "rune_length (p @ c # q) = Some n" "0 < n" "utf8_valid (drop n (p @ c # q))"
      by (auto elim: utf8_validE)
    have le: "n \<le> length p"
    proof (cases "is_ascii (hd p)")
      case True
      with n(1) False show ?thesis by (cases p) auto
    next
      case nonascii: False
      show ?thesis
      proof (rule ccontr)
        assume "\<not> n \<le> length p"
        then obtain m where "n - length p = Suc m" by (metis Suc_diff_Suc not_le)
        then have "c \<in> set (take n (p @ c # q))" by simp
        with rune_bytes [OF n(1)] nonascii False have "128 \<le> byte c" by simp
        with 1(3) show False by (simp add: is_ascii_def)
      qed
    qed
    have "utf8_valid (drop n p) \<and> utf8_valid (c # q)"
    proof (rule 1(1) [rule_format])
      show "length (drop n p) < length p" using n(2) False by simp
      show "utf8_valid (drop n p @ c # q)" using n(3) le by simp
    qed (rule 1(3))
    moreover have "utf8_valid p" if "utf8_valid (drop n p)"
      using that rune_length_prefix [OF n(1) le] False by (subst utf8_valid.simps) simp
    ultimately show ?thesis by blast
  qed (use 1 in simp)
qed

lemma utf8_valid_ascii_tail:
  "utf8_valid (p @ q) \<Longrightarrow> list_all is_ascii q \<Longrightarrow> utf8_valid p"
  by (cases q) (auto dest: utf8_valid_cut)

lemma continuation_byte: "128 \<le> byte a \<Longrightarrow> byte a < 0xC2 \<Longrightarrow> rune_length (a # s) = None"
  by (auto simp: rune_length_def in_range_def split: list.split)

lemma rune_tail:
  assumes "rune_length r = Some (length r)" "0 < j" "j < length r"
  shows "rune_length (drop j r) = None"
proof -
  consider a where "r = [a]" | a b where "r = [a, b]" | a b c where "r = [a, b, c]"
    | a b c d t where "r = a # b # c # d # t" | "r = []"
    by (metis list.exhaust)
  then have "\<forall>x \<in> set (tl r). 128 \<le> byte x \<and> byte x < 0xC2"
    using assms(1) unfolding rune_length_def in_range_def
    by cases (simp_all only: list.case list.sel split: if_split_asm, auto)
  moreover obtain x s where d: "drop j r = x # s" using assms(3) by (cases "drop j r") auto
  moreover have "x \<in> set (tl r)"
  proof -
    obtain i where "j = Suc i" using assms(2) by (cases j) auto
    with d have "x \<in> set (drop i (tl r))" by (simp add: drop_Suc)
    then show ?thesis by (meson in_set_dropD)
  qed
  ultimately show ?thesis by (simp add: continuation_byte)
qed

lemma last_rune:
  assumes "utf8_valid s" "s \<noteq> []"
  obtains p r where "s = p @ r" "utf8_valid p" "rune_length r = Some (length r)"
proof -
  have "\<exists>p r. s = p @ r \<and> utf8_valid p \<and> rune_length r = Some (length r)"
    using assms
  proof (induction s rule: utf8_valid.induct)
    case (1 s)
    then obtain n where n: "rune_length s = Some n" "0 < n" "n \<le> length s" "utf8_valid (drop n s)"
      by (auto elim: utf8_validE)
    have head: "rune_length (take n s) = Some (length (take n s))"
      using rune_length_take [OF n(1)] n(3) by simp
    show ?case
    proof (cases "drop n s = []")
      case True
      then show ?thesis using head n(3) by (intro exI [of _ "[]"] exI [of _ "take n s"]) simp
    next
      case False
      with 1(1) [OF 1(3) n(1) n(4)] obtain p r where pr: "drop n s = p @ r" "utf8_valid p"
        "rune_length r = Some (length r)" by blast
      have "utf8_valid (take n s)"
        using head n(2) by (subst utf8_valid.simps) auto
      with pr have "s = (take n s @ p) @ r" "utf8_valid (take n s @ p)"
        by (simp_all add: utf8_valid_append flip: pr(1))
      with pr(3) show ?thesis by blast
    qed
  qed
  with that show thesis by blast
qed

lemma last_rune_size:
  assumes "rune_length r = Some (length r)"
  shows "last_rune_size (p @ r) = length r"
proof -
  let ?P = "\<lambda>n. n \<le> length (p @ r) \<and> rune_length (drop (length (p @ r) - n) (p @ r)) = Some n"
  have pos: "0 < length r" using rune_length_pos [OF assms] by simp
  have four: "length r \<le> 4"
    using assms by (auto simp: rune_length_def split: list.splits if_splits)
  have "?P (length r)" using assms by simp
  moreover have "rune_length (drop j r) = None" if "0 < j" "j < length r" for j
    using rune_tail [OF assms] that by simp
  moreover have "length r = 1 \<or> length r = 2 \<or> length r = 3 \<or> length r = 4" using pos four by linarith
  ultimately have "find ?P [1, 2, 3, 4] = Some (length r)" by (elim disjE) simp_all
  then show ?thesis by (simp add: last_rune_size_def)
qed

lemma truncate_prefix:
  "utf8_valid s \<Longrightarrow> \<exists>t. s = truncateUTF8 s k @ t \<and> utf8_valid (truncateUTF8 s k) \<and> utf8_valid t
     \<and> length (truncateUTF8 s k) \<le> k"
proof (induction s k rule: truncateUTF8.induct)
  case (1 s k)
  show ?case
  proof (cases "length s > k")
    case True
    then obtain p r where pr: "s = p @ r" "utf8_valid p" "rune_length r = Some (length r)"
      using last_rune [OF 1(2)] by (metis gr_implies_not0 list.size(3))
    then have step: "truncateUTF8 s k = truncateUTF8 p k"
      using True by (subst truncateUTF8.simps) (simp add: last_rune_size)
    from 1(1) [OF True] pr obtain t where t: "p = truncateUTF8 p k @ t" "utf8_valid (truncateUTF8 p k)"
      "utf8_valid t" "length (truncateUTF8 p k) \<le> k" by (auto simp: last_rune_size)
    have "utf8_valid r"
      using pr(3) rune_length_pos [OF pr(3)] by (subst utf8_valid.simps) auto
    with t pr(1) have "s = truncateUTF8 p k @ (t @ r)" "utf8_valid (t @ r)"
      by (simp_all add: utf8_valid_append)
    with t(2,4) show ?thesis unfolding step by blast
  next
    case False
    with 1(2) show ?thesis by (intro exI [of _ "[]"]) (simp add: truncateUTF8.simps [of s])
  qed
qed

lemma trim_right_prefix: "\<exists>t. s = trim_right cs s @ t \<and> set t \<subseteq> set cs"
proof (intro exI conjI)
  let ?t = "rev (takeWhile (List.member cs) (rev s))"
  have "rev s = takeWhile (List.member cs) (rev s) @ dropWhile (List.member cs) (rev s)" by simp
  then have "rev (rev s) = trim_right cs s @ ?t" unfolding trim_right_def by (metis rev_append)
  then show "s = trim_right cs s @ ?t" by simp
  show "set ?t \<subseteq> set cs" by (auto dest: set_takeWhileD simp: List.member_iff)
qed

lemma trim_right_valid:
  assumes "utf8_valid s" "list_all is_ascii cs"
  shows "utf8_valid (trim_right cs s)"
proof -
  obtain t where t: "s = trim_right cs s @ t" "set t \<subseteq> set cs" using trim_right_prefix by blast
  then have "list_all is_ascii t" using assms(2) by (auto simp: list_all_iff)
  with t(1) assms(1) show ?thesis by (metis utf8_valid_ascii_tail)
qed

lemma trim_right_same: "s \<noteq> [] \<Longrightarrow> last s \<notin> set cs \<Longrightarrow> trim_right cs s = s"
  by (cases s rule: rev_cases) (simp_all add: trim_right_def List.member_iff)

lemma trim_right_last:
  assumes "trim_right cs s = s" "s \<noteq> []"
  shows "last s \<notin> set cs"
proof
  assume last: "last s \<in> set cs"
  obtain t c where s: "s = t @ [c]" using assms(2) by (cases s rule: rev_cases) auto
  with last have "length (trim_right cs s) \<le> length t"
    using length_dropWhile_le [of "List.member cs" "rev t"] by (simp add: trim_right_def)
  with assms(1) s show False by simp
qed

section \<open>Normalization\<close>

text \<open>What the policy relies on of Unicode NFC: it keeps UTF-8 well-formed, leaves ASCII alone, does
  not act across the front of an ASCII character, and is closed under substrings (UAX 15).\<close>

definition nfc_laws :: "library \<Rightarrow> bool" where
  "nfc_laws lib \<longleftrightarrow>
     (\<forall>s. utf8_valid s \<longrightarrow> utf8_valid (lib_NFC lib s))
     \<and> (\<forall>s. list_all is_ascii s \<longrightarrow> lib_NFC lib s = s)
     \<and> (\<forall>s c t. utf8_valid s \<longrightarrow> is_ascii c \<longrightarrow> utf8_valid (c # t) \<longrightarrow>
          lib_NFC lib (s @ c # t) = lib_NFC lib s @ lib_NFC lib (c # t))
     \<and> (\<forall>s t. utf8_valid s \<longrightarrow> utf8_valid t \<longrightarrow> lib_NFC lib (s @ t) = s @ t \<longrightarrow>
          lib_NFC lib s = s \<and> lib_NFC lib t = t)"

lemma nfc_valid: "nfc_laws lib \<Longrightarrow> utf8_valid s \<Longrightarrow> utf8_valid (lib_NFC lib s)"
  and nfc_ascii: "nfc_laws lib \<Longrightarrow> list_all is_ascii s \<Longrightarrow> lib_NFC lib s = s"
  and nfc_part: "nfc_laws lib \<Longrightarrow> utf8_valid s \<Longrightarrow> utf8_valid t \<Longrightarrow> lib_NFC lib (s @ t) = s @ t \<Longrightarrow>
    lib_NFC lib s = s \<and> lib_NFC lib t = t"
  and nfc_boundary: "nfc_laws lib \<Longrightarrow> utf8_valid s \<Longrightarrow> is_ascii c \<Longrightarrow> utf8_valid (c # t) \<Longrightarrow>
    lib_NFC lib (s @ c # t) = lib_NFC lib s @ lib_NFC lib (c # t)"
  unfolding nfc_laws_def by blast+

lemma nfc_append:
  "nfc_laws lib \<Longrightarrow> utf8_valid s \<Longrightarrow> utf8_valid t \<Longrightarrow> t = [] \<or> is_ascii (hd t) \<Longrightarrow>
   lib_NFC lib (s @ t) = lib_NFC lib s @ lib_NFC lib t"
  using nfc_boundary [of lib s "hd t" "tl t"] nfc_ascii [of lib "[]"] by (cases t) simp_all

section \<open>Fitting\<close>

text \<open>The suffix of a collision: a space, digits and parentheses.\<close>

lemma digit_ascii: "ascii_digit c \<Longrightarrow> 48 \<le> byte c \<and> byte c \<le> 57"
proof -
  have "(of_char c :: int) = int (byte c)" unfolding byte_def by (rule of_nat_of_char [symmetric])
  then show "ascii_digit c \<Longrightarrow> 48 \<le> byte c \<and> byte c \<le> 57"
    by (auto simp: ascii_digit_def digit_value_def Let_def split: if_splits)
qed

lemma suffix_digits: "c \<in> set (suffix_text n) \<Longrightarrow>
    c = CHR '' '' \<or> c = CHR ''('' \<or> c = CHR '')'' \<or> ascii_digit c"
  using decimal_digits_ascii [of "int n" c] by (auto simp: suffix_text_def decimal_def)

lemma suffix_bytes: "c \<in> set (suffix_text n) \<Longrightarrow> byte c = 0x20 \<or> 0x28 \<le> byte c \<and> byte c \<le> 0x29
    \<or> 48 \<le> byte c \<and> byte c \<le> 57"
proof -
  have "byte (CHR '' '') = 0x20" "byte (CHR ''('') = 0x28" "byte (CHR '')'') = 0x29"
    by (simp_all add: byte_def)
  moreover assume "c \<in> set (suffix_text n)"
  ultimately show ?thesis using suffix_digits [of c n] digit_ascii [of c] by force
qed

lemma suffix_plain: "list_all (\<lambda>c. is_ascii c \<and> \<not> (65 \<le> byte c \<and> byte c \<le> 90)) (suffix_text n)"
  unfolding list_all_iff
proof
  fix c assume "c \<in> set (suffix_text n)"
  from suffix_bytes [OF this] show "is_ascii c \<and> \<not> (65 \<le> byte c \<and> byte c \<le> 90)"
    by (auto simp: is_ascii_def)
qed

lemma suffix_ascii [simp]: "list_all is_ascii (suffix_text n)"
  using suffix_plain by (simp add: list_all_iff)

lemma suffix_shape: "suffix_text n = CHR '' '' # CHR ''('' # decimal (int n) @ '')''"
  by (simp add: suffix_text_def)

lemma suffix_no_dot: "CHR ''.'' \<notin> set (suffix_text n)"
  using suffix_bytes [of "CHR ''.''" n] by (auto simp: byte_def)

lemma suffix_length: "n < 10 ^ k \<Longrightarrow> 0 < k \<Longrightarrow> length (suffix_text n) \<le> k + 3"
  using length_decimal_digits [of "int n" k] by (simp add: suffix_text_def decimal_def)

text \<open>Equal keys after different suffixes are impossible, whatever the stems.\<close>

lemma suffix_inject:
  assumes "x @ suffix_text m = y @ suffix_text n"
  shows "m = n"
proof -
  have dec: "takeWhile ascii_digit (rev (decimal (int k)) @ CHR ''('' # r) = rev (decimal (int k))" for k r
  proof (subst takeWhile_append2)
    show "\<And>c. c \<in> set (rev (decimal (int k))) \<Longrightarrow> ascii_digit c"
      using decimal_digits_ascii [of "int k"] by (simp add: decimal_def)
    have "\<not> ascii_digit (CHR ''('')" by code_simp
    then show "rev (decimal (int k)) @ takeWhile ascii_digit (CHR ''('' # r) = rev (decimal (int k))" by simp
  qed
  from assms have "rev (x @ suffix_text m) = rev (y @ suffix_text n)" by simp
  then have "rev (decimal (int m)) @ CHR ''('' # CHR '' '' # rev x
      = rev (decimal (int n)) @ CHR ''('' # CHR '' '' # rev y"
    by (simp add: suffix_shape)
  then have "rev (decimal (int m)) = rev (decimal (int n))" using dec by metis
  then show ?thesis by (simp add: decimal_inject)
qed

text \<open>The parts of a fitted name.\<close>

lemma last_index_Some:
  assumes "last_index c s = Some i"
  shows "i < length s \<and> s ! i = c"
proof -
  have c: "c \<in> set s" and i: "i = length s - 1 - length (takeWhile (\<lambda>d. d \<noteq> c) (rev s))"
    using assms by (auto simp: last_index_def split: if_splits)
  let ?k = "length (takeWhile (\<lambda>d. d \<noteq> c) (rev s))"
  have k: "?k < length s"
    using c length_takeWhile_le [of "\<lambda>d. d \<noteq> c" "rev s"] takeWhile_eq_all_conv [of "\<lambda>d. d \<noteq> c" "rev s"]
      takeWhile_eq_take [of "\<lambda>d. d \<noteq> c" "rev s"]
    by (metis length_rev le_neq_implies_less set_rev take_all_iff verit_comp_simplify1(2))
  then have "rev s ! ?k = c" using nth_length_takeWhile [of "\<lambda>d. d \<noteq> c" "rev s"] by simp
  with k i show ?thesis by (simp add: rev_nth)
qed

lemma split_extension_parts:
  assumes "split_extension base = (stem, ext)"
  shows "base = stem @ ext \<and> length ext \<le> 32 \<and> (ext = [] \<or> hd ext = CHR ''.'' \<and> stem \<noteq> [])"
proof (cases "last_index (CHR ''.'') base")
  case None
  with assms show ?thesis by (simp add: split_extension_def)
next
  case (Some i)
  note i = last_index_Some [OF Some]
  show ?thesis
    using assms Some i by (auto simp: split_extension_def manifest_limits hd_drop_conv_nth split: if_splits)
qed

definition small_suffix :: "go_string \<Rightarrow> bool" where
  "small_suffix suffix \<longleftrightarrow> length suffix \<le> 200"

text \<open>The stem that stands before the suffix: a piece of the name's stem, or \<open>file\<close>.\<close>

lemma fitFilename_parts:
  assumes base: "utf8_valid base" "split_extension base = (stem, ext)" and "small_suffix suffix"
  obtains st where "fitFilename base suffix = st @ suffix @ ext" "utf8_valid st"
    "length st + length suffix + length ext \<le> 240"
    "st = ''file'' \<or> (\<not> filenameBlank st \<and> (\<exists>t. stem = st @ t \<and> utf8_valid t))"
proof -
  note parts = split_extension_parts [OF base(2)]
  have valid: "utf8_valid stem"
    using base(1) parts utf8_valid_cut [of stem "CHR ''.''" "tl ext"]
    by (cases ext) (auto simp: is_ascii_def byte_def)
  define budget where "budget = 240 - length suffix - length ext"
  define tr where "tr = truncateUTF8 stem budget"
  define st where "st = trim_right '' .'' tr"
  have budget: "4 \<le> budget" "int 240 - int (length suffix) - int (length ext) = int budget"
    using parts assms(3) by (auto simp: budget_def small_suffix_def)
  obtain u where u: "stem = tr @ u" "utf8_valid tr" "utf8_valid u" "length tr \<le> budget"
    using truncate_prefix [OF valid, of budget] by (auto simp: tr_def)
  obtain v where v: "tr = st @ v" "set v \<subseteq> set '' .''"
    using trim_right_prefix [of tr "'' .''"] by (auto simp: st_def)
  have st: "utf8_valid st" unfolding st_def by (rule trim_right_valid [OF u(2)]) (simp add: is_ascii_def byte_def)
  have v_ascii: "list_all is_ascii v" using v(2) by (auto simp: list_all_iff is_ascii_def byte_def)
  define used where "used = (if filenameBlank st \<or> st = ''.'' \<or> st = ''..'' then ''file'' else st)"
  have fit: "fitFilename base suffix = used @ suffix @ ext"
    using base(2) budget unfolding fitFilename_def used_def st_def tr_def MaxFilenameUTF8Bytes_def
    by (simp add: Let_def)
  show thesis
  proof (rule that [OF fit])
    show "utf8_valid used" using st by (simp add: used_def utf8_valid_all_ascii is_ascii_def byte_def)
    have "length used \<le> budget" using u(4) v(1) budget(1) by (simp add: used_def)
    then show "length used + length suffix + length ext \<le> 240" using budget(2) by simp
    have "utf8_valid (v @ u)" using v_ascii u(3) by (simp add: utf8_valid_append utf8_valid_all_ascii)
    with u(1) v(1) show "used = ''file'' \<or> (\<not> filenameBlank used \<and> (\<exists>t. stem = used @ t \<and> utf8_valid t))"
      by (auto simp: used_def)
  qed
qed

lemma ext_valid:
  assumes "utf8_valid base" "split_extension base = (stem, ext)"
  shows "utf8_valid ext" "ext = [] \<or> is_ascii (hd ext)"
proof -
  note parts = split_extension_parts [OF assms(2)]
  show "ext = [] \<or> is_ascii (hd ext)" using parts by (auto simp: is_ascii_def byte_def)
  show "utf8_valid ext"
    using assms(1) parts utf8_valid_cut [of stem "CHR ''.''" "tl ext"]
    by (cases ext) (auto simp: is_ascii_def byte_def)
qed

lemma suffix_small: "n < 10 ^ 100 \<Longrightarrow> small_suffix (suffix_text n)"
  using suffix_length [of n 100] by (simp add: small_suffix_def)

text \<open>The comparison key of a fitted name keeps the suffix.\<close>

lemma fitted_key:
  assumes nfc: "nfc_laws lib" and base: "utf8_valid base" "split_extension base = (stem, ext)"
    and n: "n < 10 ^ 100"
  shows "\<exists>x. filenameCollisionKey lib (fitFilename base (suffix_text n))
    = x @ suffix_text n @ to_lower (lib_NFC lib ext)"
proof -
  obtain st where st: "fitFilename base (suffix_text n) = st @ suffix_text n @ ext" "utf8_valid st"
    using fitFilename_parts [OF base suffix_small [OF n]] by blast
  note e = ext_valid [OF base]
  have suf: "utf8_valid (suffix_text n)" by (rule utf8_valid_all_ascii) simp
  have front: "is_ascii (hd (suffix_text n @ ext))" by (simp add: suffix_shape is_ascii_def byte_def)
  have "lib_NFC lib (st @ suffix_text n @ ext) = lib_NFC lib st @ lib_NFC lib (suffix_text n @ ext)"
    by (intro nfc_append [OF nfc] st) (simp_all add: utf8_valid_append suf e front)
  also have "lib_NFC lib (suffix_text n @ ext) = suffix_text n @ lib_NFC lib ext"
    using nfc_append [OF nfc suf e] nfc_ascii [OF nfc, of "suffix_text n"] by simp
  finally have "filenameCollisionKey lib (fitFilename base (suffix_text n))
      = to_lower (lib_NFC lib st) @ to_lower (suffix_text n) @ to_lower (lib_NFC lib ext)"
    using nfc_valid [OF nfc st(2)] suf by (simp add: filenameCollisionKey_def st(1) to_lower_append)
  then show ?thesis by (simp add: to_lower_plain [OF suffix_plain])
qed

lemma fitted_key_inject:
  assumes "nfc_laws lib" "utf8_valid base" "m < 10 ^ 100" "n < 10 ^ 100"
    and "filenameCollisionKey lib (fitFilename base (suffix_text m))
      = filenameCollisionKey lib (fitFilename base (suffix_text n))"
  shows "m = n"
proof -
  obtain stem ext where e: "split_extension base = (stem, ext)" by fastforce
  obtain x where x: "filenameCollisionKey lib (fitFilename base (suffix_text m))
      = x @ suffix_text m @ to_lower (lib_NFC lib ext)"
    using fitted_key [OF assms(1,2) e assms(3)] by blast
  obtain y where y: "filenameCollisionKey lib (fitFilename base (suffix_text n))
      = y @ suffix_text n @ to_lower (lib_NFC lib ext)"
    using fitted_key [OF assms(1,2) e assms(4)] by blast
  have "(x @ suffix_text m) @ to_lower (lib_NFC lib ext) = (y @ suffix_text n) @ to_lower (lib_NFC lib ext)"
    unfolding append_assoc x [symmetric] y [symmetric] by (rule assms(5))
  then have "x @ suffix_text m = y @ suffix_text n" by (simp only: append_same_eq)
  then show ?thesis by (rule suffix_inject)
qed

section \<open>The loop for a free name\<close>

text \<open>Among one suffix more than there are keys in use, one gives a free key.\<close>

lemma free_suffix:
  assumes "nfc_laws lib" "utf8_valid base" "length used \<le> 1000"
  shows "\<exists>m \<ge> 2. m \<le> 2 + length used
    \<and> filenameCollisionKey lib (fitFilename base (suffix_text m)) \<notin> set used"
proof (rule ccontr)
  let ?key = "\<lambda>m. filenameCollisionKey lib (fitFilename base (suffix_text m))"
  let ?M = "{2..2 + length used}"
  assume "\<not> ?thesis"
  then have sub: "?key ` ?M \<subseteq> set used" by auto
  have "m < 10 ^ 100" if "m \<in> ?M" for m
  proof -
    have "m \<le> 1002" using that assms(3) by simp
    also have "(1002 :: nat) < 10 ^ 100" by simp
    finally show ?thesis .
  qed
  then have "inj_on ?key ?M"
    using fitted_key_inject [OF assms(1,2)] by (intro inj_onI) blast
  then have "card (?key ` ?M) = Suc (length used)" by (simp add: card_image)
  moreover have "card (?key ` ?M) \<le> length used"
    using card_mono [OF finite_set sub] card_length [of used] by simp
  ultimately show False by simp
qed

lemma free_name_ends:
  assumes "n \<le> m" "filenameCollisionKey lib (fitFilename base (suffix_text m)) \<notin> set used"
  shows "\<exists>r. free_name lib used base n candidate = Some r \<and> filenameCollisionKey lib r \<notin> set used
    \<and> (r = candidate \<or> (\<exists>k. n \<le> k \<and> k \<le> m \<and> r = fitFilename base (suffix_text k)))"
  using assms
proof (induction "m - n" arbitrary: n candidate)
  case 0
  then have "m = n" by simp
  with 0 show ?case
    by (cases "filenameCollisionKey lib candidate \<in> set used") (simp_all add: free_name.simps, blast)
next
  case (Suc d)
  then have less_n: "Suc n \<le> m" "d = m - Suc n" by simp_all
  obtain r where r: "free_name lib used base (Suc n) (fitFilename base (suffix_text n)) = Some r"
      "filenameCollisionKey lib r \<notin> set used"
      "r = fitFilename base (suffix_text n) \<or> (\<exists>k. Suc n \<le> k \<and> k \<le> m \<and> r = fitFilename base (suffix_text k))"
    using Suc(1) [of "Suc n" "fitFilename base (suffix_text n)", OF less_n(2,1) Suc(4)] by blast
  have later: "\<exists>k. n \<le> k \<and> k \<le> m \<and> r = fitFilename base (suffix_text k)"
    using r(3) Suc(3) Suc_leD by blast
  show ?case
  proof (cases "filenameCollisionKey lib candidate \<in> set used")
    case True
    then have "free_name lib used base n candidate = Some r" using r(1) by (subst free_name.simps) simp
    with r(2) later show ?thesis by blast
  next
    case False
    then have "free_name lib used base n candidate = Some candidate" by (subst free_name.simps) simp
    with False show ?thesis by blast
  qed
qed

section \<open>Safe names\<close>

definition safe_name :: "library \<Rightarrow> go_string \<Rightarrow> bool" where
  "safe_name lib name \<longleftrightarrow> SanitizeFilename lib name = Inr name"

lemma safe_name_iff:
  "safe_name lib name \<longleftrightarrow> utf8_valid name \<and> name \<noteq> [] \<and> length name \<le> 240 \<and> lib_NFC lib name = name
     \<and> trim_right '' .'' name = name \<and> \<not> filenameBlank name \<and> name \<noteq> ''.'' \<and> name \<noteq> ''..''
     \<and> (\<forall>r \<in> set (runes name). \<not> forbiddenFilenameRune r) \<and> \<not> reservedWindowsName name
     \<and> \<not> EqualFold name reservedReceiptName"
  unfolding safe_name_def SanitizeFilename_def IsNormalString_def manifest_limits
  by (auto simp: list_ex_iff)

lemma Sanitize_Inr: "SanitizeFilename lib name = Inr s \<longleftrightarrow> s = name \<and> safe_name lib name"
  unfolding safe_name_def SanitizeFilename_def by (auto split: if_splits)

lemma filenameBlank_append:
  "utf8_valid s \<Longrightarrow> filenameBlank (s @ t) \<longleftrightarrow> filenameBlank s \<and> filenameBlank t"
  by (simp add: filenameBlank_def runes_append)

lemma filenameBlank_ascii: "is_ascii c \<Longrightarrow> filenameBlank (c # s) \<longleftrightarrow> space_rune (byte c) \<and> filenameBlank s"
  by (simp add: filenameBlank_def)

lemma suffix_not_blank: "\<not> filenameBlank (suffix_text n @ s)"
  by (simp add: suffix_shape filenameBlank_ascii is_ascii_def byte_def space_rune_def)

lemma suffix_allowed:
  assumes "r \<in> set (runes (suffix_text n))"
  shows "\<not> forbiddenFilenameRune r"
proof -
  have "runes s = map byte s" if "list_all is_ascii s" for s
    using that by (induction s) auto
  then obtain c where c: "c \<in> set (suffix_text n)" "r = byte c" using assms by auto
  from suffix_bytes [OF c(1)] c(2)
  show ?thesis by (auto simp: forbiddenFilenameRune_def is_control_def is_format_def format_ranges_def byte_def)
qed

lemma fold_name_keeps: "CHR ''('' \<in> set s \<Longrightarrow> CHR ''('' \<in> set (fold_name s)"
  by (induction s rule: fold_name.induct) (auto simp: upper_def in_range_def byte_def)

lemma receipt_no_suffix: "CHR ''('' \<in> set s \<Longrightarrow> \<not> EqualFold s reservedReceiptName"
proof
  assume "CHR ''('' \<in> set s" "EqualFold s reservedReceiptName"
  then have "CHR ''('' \<in> set (fold_name reservedReceiptName)"
    using fold_name_keeps [of s] by (simp add: EqualFold_def)
  moreover have "\<not> List.member (fold_name reservedReceiptName) (CHR ''('')" by code_simp
  ultimately show False by simp
qed

lemma reserved_no_paren: "\<not> List.member reserved_stems (x @ '')'')"
proof -
  have "list_all (\<lambda>s. s \<noteq> [] \<and> last s \<noteq> CHR '')'') reserved_stems" by code_simp
  then show ?thesis by (auto simp: list_all_iff)
qed

lemma file_text:
  "utf8_valid ''file''" "list_all is_ascii ''file''" "runes ''file'' = map byte ''file''"
  by (simp_all add: is_ascii_def byte_def)

text \<open>A safe name fitted with a collision suffix is safe.\<close>

lemma fitted_safe:
  assumes nfc: "nfc_laws lib" and safe: "safe_name lib base" and n: "n < 10 ^ 100"
  shows "safe_name lib (fitFilename base (suffix_text n))"
proof -
  obtain stem ext where e: "split_extension base = (stem, ext)" by fastforce
  have base: "utf8_valid base" "lib_NFC lib base = base" "trim_right '' .'' base = base" "base \<noteq> []"
    "\<forall>r \<in> set (runes base). \<not> forbiddenFilenameRune r" "\<not> reservedWindowsName base"
    using safe by (simp_all add: safe_name_iff)
  note parts = split_extension_parts [OF e] and ext = ext_valid [OF base(1) e]
  obtain st where fit: "fitFilename base (suffix_text n) = st @ suffix_text n @ ext" and st: "utf8_valid st"
    and len: "length st + length (suffix_text n) + length ext \<le> 240"
    and shape: "st = ''file'' \<or> (\<not> filenameBlank st \<and> (\<exists>t. stem = st @ t \<and> utf8_valid t))"
    by (rule fitFilename_parts [OF base(1) e suffix_small [OF n]])
  let ?name = "st @ suffix_text n @ ext"
  have suf: "utf8_valid (suffix_text n)" by (rule utf8_valid_all_ascii) simp
  have valid: "utf8_valid ?name" by (simp add: utf8_valid_append st suf ext)
  have whole: "base = stem @ ext" using parts by simp
  have "utf8_valid stem"
    using base(1) ext(2) utf8_valid_cut [of stem "hd ext" "tl ext"] unfolding whole by (cases ext) auto
  moreover have "lib_NFC lib stem = stem \<and> lib_NFC lib ext = ext"
    using base(2) unfolding whole by (rule nfc_part [OF nfc \<open>utf8_valid stem\<close> ext(1)])
  ultimately have stem: "utf8_valid stem" "lib_NFC lib stem = stem" "lib_NFC lib ext = ext" by simp_all
  have st_nfc: "lib_NFC lib st = st"
    using shape stem nfc_part [OF nfc st] nfc_ascii [OF nfc file_text(2)] by auto
  have front: "is_ascii (hd (suffix_text n @ ext))" by (simp add: suffix_shape is_ascii_def byte_def)
  have "lib_NFC lib (suffix_text n @ ext) = suffix_text n @ ext"
    using nfc_append [OF nfc suf ext] nfc_ascii [OF nfc, of "suffix_text n"] stem(3) by simp
  then have nfc_name: "lib_NFC lib ?name = ?name"
    using nfc_append [OF nfc st, of "suffix_text n @ ext"] front by (simp add: utf8_valid_append suf ext st_nfc)
  have last: "last ?name \<notin> set '' .''"
  proof (cases "ext = []")
    case True
    then show ?thesis by (simp add: suffix_shape)
  next
    case False
    then have "last ?name = last base" using parts by simp
    then show ?thesis using trim_right_last [OF base(3,4)] by simp
  qed
  have ne: "?name \<noteq> []" by (simp add: suffix_shape)
  have paren: "CHR ''('' \<in> set ?name" by (simp add: suffix_shape)
  have allowed: "\<not> forbiddenFilenameRune r" if r: "r \<in> set (runes ?name)" for r
  proof -
    have "runes ?name = runes st @ runes (suffix_text n) @ runes ext" by (simp add: runes_append st suf)
    with r consider "r \<in> set (runes st)" | "r \<in> set (runes (suffix_text n))" | "r \<in> set (runes ext)" by auto
    then show ?thesis
    proof cases
      case 1
      show ?thesis
      proof (cases "st = ''file''")
        case True
        with 1 show ?thesis
          by (auto simp: file_text(3) forbiddenFilenameRune_def is_control_def is_format_def
              format_ranges_def byte_def)
      next
        case False
        with shape obtain t where "stem = st @ t" by blast
        then have "runes base = runes st @ runes (t @ ext)" using parts st by (simp add: runes_append)
        with 1 base(5) show ?thesis by simp
      qed
    next
      case 2
      then show ?thesis by (rule suffix_allowed)
    next
      case 3
      have "runes base = runes stem @ runes ext" using parts stem(1) by (simp add: runes_append)
      with 3 base(5) show ?thesis by simp
    qed
  qed
  have stem_of: "takeWhile (\<lambda>c. c \<noteq> CHR ''.'') ?name
      = (if CHR ''.'' \<in> set st then takeWhile (\<lambda>c. c \<noteq> CHR ''.'') st else st @ suffix_text n)"
  proof (cases "CHR ''.'' \<in> set st")
    case True
    then show ?thesis by (simp add: takeWhile_append1)
  next
    case False
    have "takeWhile (\<lambda>c. c \<noteq> CHR ''.'') ext = []" using parts by (cases ext) auto
    then have "takeWhile (\<lambda>c. c \<noteq> CHR ''.'') (suffix_text n @ ext) = suffix_text n"
      using suffix_no_dot [of n] by (subst takeWhile_append2) auto
    with False show ?thesis by (subst takeWhile_append2) auto
  qed
  have unreserved: "\<not> reservedWindowsName ?name"
  proof (cases "CHR ''.'' \<in> set st")
    case True
    with shape obtain t where "stem = st @ t" by auto
    then have "takeWhile (\<lambda>c. c \<noteq> CHR ''.'') base = takeWhile (\<lambda>c. c \<noteq> CHR ''.'') st"
      using parts True by (simp add: takeWhile_append1)
    with base(6) stem_of True show ?thesis by (simp add: reservedWindowsName_def)
  next
    case False
    have upper_case: "map upper (trim_right '' '' (st @ suffix_text n)) = map upper (st @ CHR '' '' # CHR ''('' # decimal (int n)) @ '')''"
      by (subst trim_right_same) (simp_all add: suffix_shape upper_def in_range_def byte_def)
    have "takeWhile (\<lambda>c. c \<noteq> CHR ''.'') ?name = st @ suffix_text n" using stem_of False by simp
    then show ?thesis
      unfolding reservedWindowsName_def by (simp only: upper_case reserved_no_paren not_False_eq_True)
  qed
  have dots: "x \<noteq> ''.'' \<and> x \<noteq> ''..''" if "CHR ''('' \<in> set x" for x using that by auto
  have "\<not> filenameBlank ?name" using suffix_not_blank [of n ext] by (simp add: filenameBlank_append [OF st])
  moreover have "length ?name \<le> 240" using len by simp
  ultimately show ?thesis
    unfolding fit safe_name_iff
    using valid ne nfc_name trim_right_same [OF ne last] dots [OF paren] allowed unreserved
      receipt_no_suffix [OF paren]
    by blast
qed

section \<open>The sender's policy\<close>

lemma canonicalize_safe: "canonicalizeFilename lib name = Inr base \<Longrightarrow> safe_name lib base"
  by (auto simp: canonicalizeFilename_def Let_def Sanitize_Inr split: if_splits sum.splits)

lemma small_power: "k \<le> 1002 \<Longrightarrow> (k :: nat) < 10 ^ 100"
proof -
  assume "k \<le> 1002"
  also have "(1002 :: nat) < 10 ^ 100" by simp
  finally show ?thesis .
qed

lemma free_name_safe:
  assumes nfc: "nfc_laws lib" and safe: "safe_name lib base" and "length used \<le> 1000"
  shows "\<exists>r. free_name lib used base 2 base = Some r \<and> filenameCollisionKey lib r \<notin> set used
    \<and> safe_name lib r"
proof -
  have "utf8_valid base" using safe by (simp add: safe_name_iff)
  from free_suffix [OF nfc this assms(3)] obtain m where m: "2 \<le> m" "m \<le> 2 + length used"
    "filenameCollisionKey lib (fitFilename base (suffix_text m)) \<notin> set used" by blast
  from free_name_ends [OF m(1,3), of base] obtain r where
    r: "free_name lib used base 2 base = Some r" "filenameCollisionKey lib r \<notin> set used"
      "r = base \<or> (\<exists>k. 2 \<le> k \<and> k \<le> m \<and> r = fitFilename base (suffix_text k))" by blast
  have "safe_name lib (fitFilename base (suffix_text k))" if "k \<le> m" for k
  proof (rule fitted_safe [OF nfc safe small_power])
    show "k \<le> 1002" using that m(2) assms(3) by simp
  qed
  with r safe show ?thesis by blast
qed

lemma canonicalize_all_result:
  assumes nfc: "nfc_laws lib" and "length used + length names \<le> 1000"
  shows "\<exists>r. canonicalize_all lib used names = Some r
    \<and> (\<forall>out. r = Inr out \<longrightarrow> length out = length names \<and> list_all (safe_name lib) out
        \<and> distinct (map (filenameCollisionKey lib) out @ used) = distinct used)"
  using assms(2)
proof (induction names arbitrary: used)
  case (Cons name names)
  show ?case
  proof (cases "canonicalizeFilename lib name")
    case (Inr base)
    from Cons.prems have "length used \<le> 1000" by simp
    from free_name_safe [OF nfc canonicalize_safe [OF Inr] this] obtain c where
      c: "free_name lib used base 2 base = Some c" "filenameCollisionKey lib c \<notin> set used" "safe_name lib c"
      by blast
    have "length (filenameCollisionKey lib c # used) + length names \<le> 1000" using Cons.prems by simp
    from Cons.IH [OF this] obtain r where
      r: "canonicalize_all lib (filenameCollisionKey lib c # used) names = Some r"
        "\<forall>out. r = Inr out \<longrightarrow> length out = length names \<and> list_all (safe_name lib) out
          \<and> distinct (map (filenameCollisionKey lib) out @ filenameCollisionKey lib c # used)
            = distinct (filenameCollisionKey lib c # used)" by blast
    have "canonicalize_all lib used (name # names) = Some (map_sum id (Cons c) r)"
      using Inr c(1) r(1) by simp
    moreover have "length out = length (name # names) \<and> list_all (safe_name lib) out
        \<and> distinct (map (filenameCollisionKey lib) out @ used) = distinct used"
      if "map_sum id (Cons c) r = Inr out" for out
    proof -
      from that obtain rest where rest: "r = Inr rest" "out = c # rest" by (cases r) auto
      with r(2) have "length rest = length names" "list_all (safe_name lib) rest"
        "distinct (map (filenameCollisionKey lib) rest @ filenameCollisionKey lib c # used)
            = distinct (filenameCollisionKey lib c # used)" by simp_all
      with rest c(2,3) show ?thesis by auto
    qed
    ultimately show ?thesis by blast
  qed simp
qed simp

lemma canonical_names:
  assumes "nfc_laws lib"
  shows "\<exists>r. CanonicalizeFilenames lib names = Some r
    \<and> (\<forall>out. r = Inr out \<longrightarrow> length out = length names \<and> list_all (safe_name lib) out
        \<and> distinct (map (filenameCollisionKey lib) out))"
proof (cases "length names > MaxManifestFiles")
  case False
  then have "length ([] :: go_string list) + length names \<le> 1000" by (simp add: manifest_limits)
  from canonicalize_all_result [OF assms this] False show ?thesis
    by (simp add: CanonicalizeFilenames_def)
qed (simp add: CanonicalizeFilenames_def)

lemmas ascii_eval = is_ascii_def byte_def

lemma free_name_step:
  "filenameCollisionKey lib c \<notin> set used \<Longrightarrow> free_name lib used base n c = Some c"
  "filenameCollisionKey lib c \<in> set used \<Longrightarrow>
   free_name lib used base n c = free_name lib used base (Suc n) (fitFilename base (suffix_text n))"
  by (subst free_name.simps; simp)+

lemma runes_ascii_text: "list_all is_ascii s \<Longrightarrow> runes s = map byte s"
  by (induction s) auto

lemma encode_ascii: "is_ascii c \<Longrightarrow> utf8_encode (byte c) = [c]"
  by (simp add: utf8_encode_def is_ascii_def)

lemma ascii_kept:
  assumes "list_all (\<lambda>c. is_ascii c \<and> \<not> forbiddenFilenameRune (byte c)) name"
  shows "concat (map (\<lambda>r. if forbiddenFilenameRune r then ''_'' else utf8_encode r) (runes name)) = name"
proof -
  have "list_all is_ascii name" using assms by (simp add: list_all_iff)
  then show ?thesis
    unfolding runes_ascii_text [OF \<open>list_all is_ascii name\<close>] using assms
    by (induction name) (auto simp: encode_ascii)
qed

text \<open>An ASCII name without forbidden characters that the checks accept and that fits stays as it is.\<close>

lemma canonicalize_plain:
  assumes plain: "list_all (\<lambda>c. is_ascii c \<and> \<not> forbiddenFilenameRune (byte c)) name"
    and checks: "lib_NFC lib name = name" "trim_right '' .'' name = name" "\<not> filenameBlank name" "name \<noteq> ''.''"
      "name \<noteq> ''..''" "\<not> reservedWindowsName name" "\<not> EqualFold name reservedReceiptName"
      "fitFilename name [] = name" "length name \<le> 240"
  shows "canonicalizeFilename lib name = Inr name"
proof -
  have ascii: "list_all is_ascii name" using plain by (simp add: list_all_iff)
  note ascii_kept [OF plain]
  moreover have "safe_name lib name"
    using checks plain by (auto simp: safe_name_iff utf8_valid_all_ascii [OF ascii] runes_ascii_text [OF ascii]
        list_all_iff filenameBlank_def)
  ultimately show ?thesis
    using checks utf8_valid_all_ascii [OF ascii] by (simp add: canonicalizeFilename_def safe_name_def)
qed

text \<open>The last step can undo the one before: the space that keeps this name from being the reserved
  one is dropped when the name is fitted, and the bundle is refused instead of its file renamed.\<close>

lemma fitting_uncovers_reserved_name:
  assumes "nfc_laws lib"
  shows "CanonicalizeFilenames lib [''.droppoint-receipt .json''] = Some (Inl (ErrOther ''file name invalid''))"
proof -
  let ?name = "''.droppoint-receipt .json''"
  have reserved: "\<not> reservedWindowsName ?name" "\<not> EqualFold ?name reservedReceiptName"
    "EqualFold ''.droppoint-receipt.json'' reservedReceiptName"
    by code_simp+
  have ascii: "list_all is_ascii ?name" by (simp add: ascii_eval)
  have kept: "concat (map (\<lambda>r. if forbiddenFilenameRune r then ''_'' else utf8_encode r) (runes ?name)) = ?name"
    by (rule ascii_kept) (simp add: ascii_eval forbiddenFilenameRune_def is_control_def is_format_def format_ranges_def)
  have rest: "trim_right '' .'' ?name = ?name" "\<not> filenameBlank ?name"
    "fitFilename ?name [] = ''.droppoint-receipt.json''"
    by (simp_all add: fitFilename_def split_extension_def last_index_def manifest_limits Let_def
        truncateUTF8.simps trim_right_def filenameBlank_def ascii_eval space_rune_def)
  have "SanitizeFilename lib ''.droppoint-receipt.json'' \<noteq> Inr t" for t
    using reserved(3) by (auto simp: Sanitize_Inr safe_name_iff)
  then have "\<exists>e. SanitizeFilename lib ''.droppoint-receipt.json'' = Inl e"
    by (cases "SanitizeFilename lib ''.droppoint-receipt.json''") auto
  then have "canonicalizeFilename lib ?name = Inl (ErrOther ''could not canonicalize filename'')"
    using utf8_valid_all_ascii [OF ascii] nfc_ascii [OF assms ascii] kept rest reserved
    by (auto simp: canonicalizeFilename_def Let_def)
  then show ?thesis by (simp add: CanonicalizeFilenames_def manifest_limits)
qed

section \<open>A library\<close>

text \<open>Functions with the laws above: bytes added position by position for the key exchange, a text with
  16 bytes appended for a sealed one, names taken as normalized.\<close>

definition byte_at :: "go_string \<Rightarrow> nat \<Rightarrow> nat" where
  "byte_at s i = (if i < length s then byte (s ! i) else 0)"

definition sample_library :: library where
  "sample_library =
     \<lparr>lib_NFC = (\<lambda>s. s),
      lib_ParseMediaType = (\<lambda>s. if to_lower s = s \<and> safeMIMEPattern s then Some (s, []) else None),
      lib_X25519 = (\<lambda>a p. map (\<lambda>i. char_of (byte_at a i + byte_at p i)) [0..<32]),
      lib_Seal = (\<lambda>k n a p. p @ replicate 16 (CHR 0x00)),
      lib_Open = (\<lambda>k n a c. Some (take (length c - 16) c))\<rparr>"

lemma sample_nfc: "nfc_laws sample_library"
  by (simp add: nfc_laws_def sample_library_def)

definition sample_files :: "plain_file list" where
  "sample_files =
     [\<lparr>pf_Name = ''report.txt'', pf_Type = ''text/plain'', pf_Data = ''first''\<rparr>,
      \<lparr>pf_Name = ''REPORT.txt'', pf_Type = [], pf_Data = ''second''\<rparr>]"

lemma sample_canonical:
  "canonicalizeFilename sample_library ''report.txt'' = Inr ''report.txt''"
  "canonicalizeFilename sample_library ''REPORT.txt'' = Inr ''REPORT.txt''"
proof -
  have reserved: "\<not> reservedWindowsName ''report.txt''" "\<not> EqualFold ''report.txt'' reservedReceiptName"
    "\<not> reservedWindowsName ''REPORT.txt''" "\<not> EqualFold ''REPORT.txt'' reservedReceiptName"
    by code_simp+
  show "canonicalizeFilename sample_library ''report.txt'' = Inr ''report.txt''"
    by (rule canonicalize_plain) (simp_all add: reserved sample_library_def fitFilename_def split_extension_def last_index_def
      manifest_limits Let_def truncateUTF8.simps trim_right_def filenameBlank_def ascii_eval space_rune_def
      forbiddenFilenameRune_def is_control_def is_format_def format_ranges_def)
  show "canonicalizeFilename sample_library ''REPORT.txt'' = Inr ''REPORT.txt''"
    by (rule canonicalize_plain) (simp_all add: reserved sample_library_def fitFilename_def split_extension_def last_index_def
      manifest_limits Let_def truncateUTF8.simps trim_right_def filenameBlank_def ascii_eval space_rune_def
      forbiddenFilenameRune_def is_control_def is_format_def format_ranges_def)
qed

lemma sample_fit: "fitFilename ''REPORT.txt'' (suffix_text 2) = ''REPORT (2).txt''"
  by (simp add: fitFilename_def split_extension_def last_index_def suffix_text_def decimal_def decimal_digits.simps digit_char_def
      manifest_limits Let_def truncateUTF8.simps trim_right_def filenameBlank_def ascii_eval space_rune_def) code_simp

lemma sample_keys:
  "filenameCollisionKey sample_library ''report.txt'' = ''report.txt''"
  "filenameCollisionKey sample_library ''REPORT.txt'' = ''report.txt''"
  "filenameCollisionKey sample_library ''REPORT (2).txt'' = ''report (2).txt''"
  by (simp_all add: filenameCollisionKey_def sample_library_def to_lower_def ascii_eval lower_rune_def utf8_encode_def) code_simp+

lemma sample_names:
  "CanonicalizeFilenames sample_library (map pf_Name sample_files) = Some (Inr [''report.txt'', ''REPORT (2).txt''])"
  by (simp add: CanonicalizeFilenames_def sample_files_def manifest_limits sample_canonical free_name_step
      sample_keys sample_fit)
text \<open>C34. The sender's search for a free file name ends, and what it finds is what receivers accept:
  whatever names a bundle has, \<open>CanonicalizeFilenames\<close> returns, and when it returns names there is one
  for each file, each of them passes \<open>SanitizeFilename\<close> unchanged, and no two have the same comparison
  key. The only assumption is on Unicode NFC.\<close>

theorem canonical_names_are_safe:
  assumes "nfc_laws lib"
  shows "\<exists>r. CanonicalizeFilenames lib names = Some r
    \<and> (\<forall>out. r = Inr out \<longrightarrow> length out = length names
        \<and> (\<forall>name \<in> set out. SanitizeFilename lib name = Inr name)
        \<and> distinct (map (filenameCollisionKey lib) out))"
  using canonical_names [OF assms, of names] by (simp add: list_all_iff safe_name_def)

theorem canonical_names_are_safe_witness:
  "(\<exists>r. CanonicalizeFilenames sample_library (map pf_Name sample_files) = Some r)
   \<and> SanitizeFilename sample_library ''REPORT (2).txt'' = Inr ''REPORT (2).txt''"
  using canonical_names_are_safe [OF sample_nfc, of "map pf_Name sample_files"] sample_names by simp

end
