(* ===== verification/Manifest_Properties.thy ===== *)
theory Manifest_Properties
  imports Filenames
begin

text \<open>
  What the receiver's checks accept, what the split of the payload gives, and the round trip of a
  bundle: the manifest the sender builds reads back from its JSON text, passes the receiver's checks,
  and splits the payload into the files.
\<close>

section \<open>What is accepted\<close>

text \<open>The specification of an acceptable manifest for a payload of \<open>n\<close> bytes.\<close>

definition acceptable :: "library \<Rightarrow> manifest \<Rightarrow> nat \<Rightarrow> bool" where
  "acceptable lib m n \<longleftrightarrow>
     man_ProtocolVersion m = 2 \<and> 1 \<le> length (man_Files m) \<and> length (man_Files m) \<le> 1000
     \<and> parse_RFC3339Nano (man_CreatedAt m) \<noteq> None
     \<and> (\<forall>f \<in> set (man_Files m). 0 \<le> mf_Size f \<and> safe_name lib (mf_Name f)
          \<and> (\<exists>t. SanitizeMIMEType lib (mf_Type f) = Inr t))
     \<and> distinct (map (\<lambda>f. filenameCollisionKey lib (mf_Name f)) (man_Files m))
     \<and> sum_list (map mf_Size (man_Files m)) = int n"

lemma validate_files_iff:
  "0 \<le> remaining \<Longrightarrow>
   validate_files lib seen remaining files = Inr r \<longleftrightarrow>
     (\<forall>f \<in> set files. 0 \<le> mf_Size f \<and> safe_name lib (mf_Name f)
        \<and> (\<exists>t. SanitizeMIMEType lib (mf_Type f) = Inr t))
     \<and> distinct (map (\<lambda>f. filenameCollisionKey lib (mf_Name f)) files)
     \<and> set (map (\<lambda>f. filenameCollisionKey lib (mf_Name f)) files) \<inter> set seen = {}
     \<and> sum_list (map mf_Size files) \<le> remaining \<and> r = remaining - sum_list (map mf_Size files)"
proof (induction lib seen remaining files arbitrary: r rule: validate_files.induct)
  case (1 lib seen remaining)
  then show ?case by auto
next
  case (2 lib seen remaining entry files)
  have rest: "0 \<le> sum_list (map mf_Size files)" if "\<forall>f \<in> set files. 0 \<le> mf_Size f"
    using that by (intro sum_list_nonneg) auto
  show ?case
  proof (cases "0 \<le> mf_Size entry \<and> mf_Size entry \<le> remaining \<and> safe_name lib (mf_Name entry)
      \<and> filenameCollisionKey lib (mf_Name entry) \<notin> set seen
      \<and> (\<exists>t. SanitizeMIMEType lib (mf_Type entry) = Inr t)")
    case True
    then obtain t where ok: "0 \<le> mf_Size entry" "mf_Size entry \<le> remaining"
      "SanitizeFilename lib (mf_Name entry) = Inr (mf_Name entry)"
      "filenameCollisionKey lib (mf_Name entry) \<notin> set seen" "SanitizeMIMEType lib (mf_Type entry) = Inr t"
      by (auto simp: safe_name_def)
    have "validate_files lib seen remaining (entry # files)
        = validate_files lib (filenameCollisionKey lib (mf_Name entry) # seen) (remaining - mf_Size entry) files"
      using ok by simp
    also have "\<dots> = Inr r \<longleftrightarrow>
        (\<forall>f \<in> set files. 0 \<le> mf_Size f \<and> safe_name lib (mf_Name f)
          \<and> (\<exists>t. SanitizeMIMEType lib (mf_Type f) = Inr t))
        \<and> distinct (map (\<lambda>f. filenameCollisionKey lib (mf_Name f)) files)
        \<and> set (map (\<lambda>f. filenameCollisionKey lib (mf_Name f)) files)
          \<inter> set (filenameCollisionKey lib (mf_Name entry) # seen) = {}
        \<and> sum_list (map mf_Size files) \<le> remaining - mf_Size entry
        \<and> r = remaining - mf_Size entry - sum_list (map mf_Size files)"
      using ok by (intro 2(1) [of "mf_Name entry" t]) simp_all
    finally show ?thesis using True by auto
  next
    case False
    then have "\<exists>e. validate_files lib seen remaining (entry # files) = Inl e"
      by (auto simp: Sanitize_Inr split: sum.splits)
    moreover have "\<not> mf_Size entry \<le> remaining \<Longrightarrow> \<forall>f \<in> set files. 0 \<le> mf_Size f
        \<Longrightarrow> \<not> mf_Size entry + sum_list (map mf_Size files) \<le> remaining"
      using rest by linarith
    ultimately show ?thesis using False by auto
  qed
qed

lemma validate_iff: "ValidateManifest lib m payload = None \<longleftrightarrow> acceptable lib m (length payload)"
proof -
  have "ValidateManifest lib m payload = None \<longleftrightarrow>
      man_ProtocolVersion m = 2 \<and> man_Files m \<noteq> [] \<and> length (man_Files m) \<le> 1000
      \<and> parse_RFC3339Nano (man_CreatedAt m) \<noteq> None
      \<and> validate_files lib [] (int (length payload)) (man_Files m) = Inr 0"
    unfolding ValidateManifest_def ProtocolVersion_def manifest_limits
    by (auto split: sum.splits if_splits)
  then show ?thesis
    unfolding acceptable_def validate_files_iff [OF of_nat_0_le_iff]
    by (cases "man_Files m") auto
qed

text \<open>C36. What a receiver accepts as a manifest: the protocol version, 1 to 1000 files, a timestamp, and
  for every file a size that is not negative, a name that is safe and a usable MIME type, no two names
  with one comparison key, and sizes that add up to the length of the payload. The loop that counts
  the remaining bytes down decides exactly this.\<close>

theorem manifest_acceptance:
  "ValidateManifest lib m payload = None \<longleftrightarrow>
     man_ProtocolVersion m = 2 \<and> 1 \<le> length (man_Files m) \<and> length (man_Files m) \<le> 1000
     \<and> parse_RFC3339Nano (man_CreatedAt m) \<noteq> None
     \<and> list_all (\<lambda>f. 0 \<le> mf_Size f \<and> SanitizeFilename lib (mf_Name f) = Inr (mf_Name f)
          \<and> (\<exists>t. SanitizeMIMEType lib (mf_Type f) = Inr t)) (man_Files m)
     \<and> distinct (map (\<lambda>f. filenameCollisionKey lib (mf_Name f)) (man_Files m))
     \<and> sum_list (map mf_Size (man_Files m)) = int (length payload)"
  unfolding validate_iff acceptable_def list_all_iff safe_name_def by blast

section \<open>The split\<close>

definition recovered_from :: "library \<Rightarrow> manifest_file \<Rightarrow> go_string \<Rightarrow> recovered_file" where
  "recovered_from lib f data =
     \<lparr>rf_Name = mf_Name f, rf_SafeName = mf_Name f, rf_Type = mf_Type f,
      rf_SafeType = (case SanitizeMIMEType lib (mf_Type f) of Inl _ \<Rightarrow> [] | Inr t \<Rightarrow> t), rf_Data = data\<rparr>"

lemma split_files_pieces:
  assumes "list_all2 (\<lambda>f d. mf_Size f = int (length d) \<and> safe_name lib (mf_Name f)
      \<and> (\<exists>t. SanitizeMIMEType lib (mf_Type f) = Inr t)) files pieces"
    and "payload = before @ concat pieces" "is_int64 (int (length payload))"
  shows "split_files lib payload (int (length before)) files = Inr (map2 (recovered_from lib) files pieces)"
  using assms
proof (induction files pieces arbitrary: before rule: list_all2_induct)
  case Nil
  then show ?case by simp
next
  case (Cons f files d pieces)
  then obtain t where f: "mf_Size f = int (length d)" "SanitizeFilename lib (mf_Name f) = Inr (mf_Name f)"
    "SanitizeMIMEType lib (mf_Type f) = Inr t" by (auto simp: safe_name_def)
  have len: "length payload = length before + length d + length (concat pieces)"
    using Cons.prems(1) by simp
  have "is_int64 (int (length before) + int (length d))"
    using Cons.prems(2) len by (auto simp: is_int64_def)
  then have stop: "wrap64 (int (length before) + mf_Size f) = int (length (before @ d))"
    by (simp add: f(1) wrap64_id)
  have "split_files lib payload (int (length (before @ d))) files = Inr (map2 (recovered_from lib) files pieces)"
    using Cons.prems by (intro Cons.IH) simp_all
  moreover have "take (length d) (drop (length before) payload) = d" using Cons.prems(1) by simp
  ultimately show ?case
    using f len stop by (simp add: Let_def recovered_from_def)
qed

lemma cut_pieces:
  "\<forall>n \<in> set sizes. 0 \<le> n \<Longrightarrow> sum_list sizes = int (length payload) \<Longrightarrow>
   \<exists>pieces. list_all2 (\<lambda>n d. n = int (length d)) sizes pieces \<and> payload = concat pieces"
proof (induction sizes arbitrary: payload)
  case (Cons n sizes)
  have "0 \<le> sum_list sizes" using Cons.prems(1) by (intro sum_list_nonneg) simp
  with Cons.prems have n: "nat n \<le> length payload" by simp
  then have "sum_list sizes = int (length (drop (nat n) payload))" using Cons.prems by simp
  with Cons.IH [of "drop (nat n) payload"] Cons.prems(1) obtain pieces where
    "list_all2 (\<lambda>n d. n = int (length d)) sizes pieces" "drop (nat n) payload = concat pieces"
    by (meson list.set_intros(2))
  with n Cons.prems(1) show ?case
    by (intro exI [of _ "take (nat n) payload # pieces"]) (simp flip: \<open>_ = concat pieces\<close>)
qed simp

lemma split_pieces:
  assumes "acceptable lib m (length payload)" "is_int64 (int (length payload))"
    and "list_all2 (\<lambda>f d. mf_Size f = int (length d)) (man_Files m) pieces" "payload = concat pieces"
  shows "SplitPayload lib m payload = Inr (map2 (recovered_from lib) (man_Files m) pieces)"
proof -
  have "list_all2 (\<lambda>f d. mf_Size f = int (length d) \<and> safe_name lib (mf_Name f)
      \<and> (\<exists>t. SanitizeMIMEType lib (mf_Type f) = Inr t)) (man_Files m) pieces"
    using assms(1,3) unfolding acceptable_def list_all2_conv_all_nth by fastforce
  then have "split_files lib payload 0 (man_Files m) = Inr (map2 (recovered_from lib) (man_Files m) pieces)"
    using split_files_pieces [of lib "man_Files m" pieces payload "[]"] assms(2,4) by simp
  moreover have "ValidateManifest lib m payload = None" using assms(1) by (simp only: validate_iff)
  ultimately show ?thesis by (simp only: SplitPayload_def option.case)
qed

lemma ascii_rune: "utf8_valid s \<Longrightarrow> c \<in> set s \<Longrightarrow> is_ascii c \<Longrightarrow> byte c \<in> set (runes s)"
proof -
  assume s: "utf8_valid s" "c \<in> set s" "is_ascii c"
  then obtain p q where "s = p @ c # q" by (meson split_list)
  with s show ?thesis using utf8_valid_cut [of p c q] by (simp add: runes_append)
qed

text \<open>A safe name is no path.\<close>

lemma safe_name_no_path:
  assumes "safe_name lib name"
  shows "name \<noteq> [] \<and> length name \<le> 240 \<and> name \<noteq> ''.'' \<and> name \<noteq> ''..''
    \<and> CHR ''/'' \<notin> set name \<and> CHR 0x5C \<notin> set name \<and> CHR 0x00 \<notin> set name"
proof -
  have "c \<notin> set name" if "forbiddenFilenameRune (byte c)" "is_ascii c" for c
    using ascii_rune [of name c] assms that by (auto simp: safe_name_iff)
  moreover have "forbiddenFilenameRune (byte (CHR ''/''))" "forbiddenFilenameRune (byte (CHR 0x5C))"
    "forbiddenFilenameRune (byte (CHR 0x00))"
    by (simp_all add: forbiddenFilenameRune_def byte_def)
  moreover have "is_ascii (CHR ''/'')" "is_ascii (CHR 0x5C)" "is_ascii (CHR 0x00)"
    by (simp_all add: is_ascii_def byte_def)
  ultimately show ?thesis using assms by (auto simp: safe_name_iff)
qed

lemma list_all2_zipped:
  "list_all2 P xs ys \<Longrightarrow> (\<And>x y. P x y \<Longrightarrow> x \<in> set xs \<Longrightarrow> Q (f x y) x) \<Longrightarrow> list_all2 Q (map2 f xs ys) xs"
  by (induction rule: list_all2_induct) auto

lemma map2_data: "length fs = length ds \<Longrightarrow> map rf_Data (map2 (recovered_from lib) fs ds) = ds"
  by (induction fs ds rule: list_induct2) (simp_all add: recovered_from_def)

lemma map2_names:
  "length fs = length ds \<Longrightarrow> map rf_SafeName (map2 (recovered_from lib) fs ds) = map mf_Name fs"
  by (induction fs ds rule: list_induct2) (simp_all add: recovered_from_def)

section \<open>MIME types\<close>

text \<open>What the code relies on of \<open>mime.ParseMediaType\<close>: it returns a media type in lower case, not longer
  than the text when it has the form the code asks for, and such a media type is its own parse.\<close>

definition media_laws :: "library \<Rightarrow> bool" where
  "media_laws lib \<longleftrightarrow>
     (\<forall>s t ps. lib_ParseMediaType lib s = Some (t, ps) \<longrightarrow>
        to_lower t = t \<and> (safeMIMEPattern t \<longrightarrow> length t \<le> length s))
     \<and> (\<forall>s. safeMIMEPattern s \<longrightarrow> to_lower s = s \<longrightarrow> lib_ParseMediaType lib s = Some (s, []))"

lemma mime_char_ascii: "mime_char c \<Longrightarrow> is_ascii c"
  by (auto simp: mime_char_def mime_first_def in_range_def is_ascii_def byte_def)

lemma safeMIME_ascii:
  assumes "safeMIMEPattern s"
  shows "list_all is_ascii s" "s \<noteq> []"
proof -
  define p q where "p = takeWhile (\<lambda>c. c \<noteq> CHR ''/'') s" and "q = dropWhile (\<lambda>c. c \<noteq> CHR ''/'') s"
  have s: "s = p @ q" by (simp add: p_def q_def)
  have part: "list_all is_ascii t" if "mime_part t" for t
    using that mime_char_ascii by (auto simp: mime_part_def mime_char_def list_all_iff split: list.splits)
  from assms have p: "mime_part p" and q: "\<exists>c t. q = c # t \<and> mime_part t"
    by (auto simp: safeMIMEPattern_def p_def q_def split: list.splits)
  from q obtain c t where ct: "q = c # t" "mime_part t" by blast
  have "c = CHR ''/''" using ct(1) hd_dropWhile [of "\<lambda>c. c \<noteq> CHR ''/''" s] by (simp add: q_def)
  then have "is_ascii c" by (simp add: is_ascii_def byte_def)
  with part p ct s show "list_all is_ascii s" by simp
  from ct s show "s \<noteq> []" by simp
qed

lemma octet_stream_stays: "media_laws lib \<Longrightarrow> SanitizeMIMEType lib octet_stream = Inr octet_stream"
proof -
  assume laws: "media_laws lib"
  have plain: "list_all (\<lambda>c. is_ascii c \<and> \<not> (65 \<le> byte c \<and> byte c \<le> 90)) octet_stream"
    by (simp add: octet_stream_def is_ascii_def byte_def)
  have safe: "safeMIMEPattern octet_stream" by code_simp
  have lower: "to_lower octet_stream = octet_stream" by (rule to_lower_plain [OF plain])
  have "lib_ParseMediaType lib octet_stream = Some (octet_stream, [])"
    using laws safe lower unfolding media_laws_def by blast
  moreover have "utf8_valid octet_stream" by (rule utf8_valid_all_ascii [OF safeMIME_ascii(1) [OF safe]])
  moreover have "octet_stream \<noteq> []" "length octet_stream \<le> MaxMIMETypeUTF8Bytes"
    by (simp_all add: octet_stream_def manifest_limits)
  ultimately show ?thesis by (simp add: SanitizeMIMEType_def safe lower)
qed

text \<open>A sanitized type is accepted as it is.\<close>

lemma sanitized_type_stays:
  assumes laws: "media_laws lib" and "SanitizeMIMEType lib s = Inr t"
  shows "SanitizeMIMEType lib t = Inr t \<and> list_all is_ascii t"
proof (cases "s = []")
  case True
  with assms(2) have "t = octet_stream" by (simp add: SanitizeMIMEType_def)
  then show ?thesis
    using octet_stream_stays [OF laws] by (simp add: octet_stream_def is_ascii_def byte_def)
next
  case False
  with assms(2) obtain u where u: "length s \<le> MaxMIMETypeUTF8Bytes" "lib_ParseMediaType lib s = Some (u, [])"
    "safeMIMEPattern (to_lower u)" "t = to_lower u"
    by (auto simp: SanitizeMIMEType_def split: if_splits option.splits prod.splits)
  have "to_lower u = u \<and> (safeMIMEPattern u \<longrightarrow> length u \<le> length s)"
    using laws u(2) unfolding media_laws_def by blast
  with u have t: "t = u" "to_lower t = t" "safeMIMEPattern t" "length t \<le> MaxMIMETypeUTF8Bytes" by auto
  then have "lib_ParseMediaType lib t = Some (t, [])" using laws unfolding media_laws_def by blast
  moreover note safeMIME_ascii [OF t(3)]
  ultimately show ?thesis
    using t(2-4) by (simp add: SanitizeMIMEType_def utf8_valid_all_ascii)
qed

section \<open>What the sender builds\<close>

lemma build_files_result:
  assumes "length names = length files" "build_files lib files names = Inr (entries, payload)"
  shows "list_all2 (\<lambda>e f. mf_Size e = int (length (pf_Data f))
      \<and> SanitizeMIMEType lib (pf_Type f) = Inr (mf_Type e)) entries files
    \<and> map mf_Name entries = names \<and> payload = concat (map pf_Data files)"
  using assms
proof (induction files arbitrary: names entries payload)
  case (Cons f files)
  from Cons.prems(1) obtain name rest where names: "names = name # rest" by (cases names) auto
  with Cons.prems(2) obtain t es p where
    "SanitizeMIMEType lib (pf_Type f) = Inr t" "build_files lib files rest = Inr (es, p)"
    "entries = \<lparr>mf_Name = name, mf_Type = t, mf_Size = int (length (pf_Data f))\<rparr> # es"
    "payload = pf_Data f @ p"
    by (cases "build_files lib files rest") (auto split: sum.splits)
  with Cons.IH [of rest es p] Cons.prems(1) names show ?case by simp
qed simp

lemma built_manifest:
  assumes "nfc_laws lib" "BuildManifest lib files createdAt = Some (Inr (m, payload))"
  shows "\<exists>names. CanonicalizeFilenames lib (map pf_Name files) = Some (Inr names)
    \<and> length names = length files \<and> list_all (safe_name lib) names
    \<and> distinct (map (filenameCollisionKey lib) names) \<and> map mf_Name (man_Files m) = names
    \<and> list_all2 (\<lambda>e f. mf_Size e = int (length (pf_Data f))
        \<and> SanitizeMIMEType lib (pf_Type f) = Inr (mf_Type e)) (man_Files m) files
    \<and> payload = concat (map pf_Data files) \<and> man_ProtocolVersion m = 2
    \<and> man_CreatedAt m = format_RFC3339Nano createdAt \<and> 1 \<le> length files \<and> length files \<le> 1000"
proof -
  from assms(2) obtain names entries where
    names: "CanonicalizeFilenames lib (map pf_Name files) = Some (Inr names)"
    and built: "build_files lib files names = Inr (entries, payload)"
    and m: "m = \<lparr>man_ProtocolVersion = ProtocolVersion, man_Files = entries,
              man_CreatedAt = format_RFC3339Nano createdAt\<rparr>"
    and count: "files \<noteq> []" "length files \<le> MaxManifestFiles"
    by (auto simp: BuildManifest_def map_sum_def split: if_splits option.splits sum.splits prod.splits)
  from canonical_names [OF assms(1), of "map pf_Name files"] names have
    n: "length names = length files" "list_all (safe_name lib) names"
      "distinct (map (filenameCollisionKey lib) names)" by auto
  have "1 \<le> length files" using count(1) by (cases files) auto
  with names n m count build_files_result [OF n(1) built] show ?thesis
    by (simp add: ProtocolVersion_def manifest_limits)
qed

text \<open>The years \<open>time.RFC3339Nano\<close> can write with four digits.\<close>

definition writable_time :: "time \<Rightarrow> bool" where
  "writable_time t \<longleftrightarrow> 0 \<le> fst (date_of t) \<and> fst (date_of t) < 10000"

lemma built_acceptable:
  assumes "nfc_laws lib" "media_laws lib" "writable_time createdAt"
    and "BuildManifest lib files createdAt = Some (Inr (m, payload))"
  shows "acceptable lib m (length payload)"
proof -
  from built_manifest [OF assms(1,4)] obtain names where
    names: "list_all (safe_name lib) names" "distinct (map (filenameCollisionKey lib) names)"
      "map mf_Name (man_Files m) = names" "length names = length files"
    and sizes: "list_all2 (\<lambda>e f. mf_Size e = int (length (pf_Data f))
        \<and> SanitizeMIMEType lib (pf_Type f) = Inr (mf_Type e)) (man_Files m) files"
    and rest: "payload = concat (map pf_Data files)" "man_ProtocolVersion m = 2"
      "man_CreatedAt m = format_RFC3339Nano createdAt" "1 \<le> length files" "length files \<le> 1000"
    by blast
  have len: "length (man_Files m) = length files" using sizes by (rule list_all2_lengthD)
  obtain y mo d where date: "date_of createdAt = (y, mo, d)" by (cases "date_of createdAt")
  have time: "parse_RFC3339Nano (man_CreatedAt m) = Some ()"
    unfolding rest(3) by (rule parse_format [OF date]) (use assms(3) date in \<open>simp_all add: writable_time_def\<close>)
  have each: "0 \<le> mf_Size e \<and> safe_name lib (mf_Name e) \<and> (\<exists>t. SanitizeMIMEType lib (mf_Type e) = Inr t)"
    if e: "e \<in> set (man_Files m)" for e
  proof -
    from e have "mf_Name e \<in> set (map mf_Name (man_Files m))" by simp
    with names(1,3) have "safe_name lib (mf_Name e)" by (simp add: list_all_iff)
    moreover from e obtain i where "i < length (man_Files m)" "e = man_Files m ! i"
      by (auto simp: in_set_conv_nth)
    with list_all2_nthD [OF sizes] have "mf_Size e = int (length (pf_Data (files ! i)))"
      "SanitizeMIMEType lib (pf_Type (files ! i)) = Inr (mf_Type e)" by simp_all
    ultimately show ?thesis using sanitized_type_stays [OF assms(2)] by auto
  qed
  have "map mf_Size (man_Files m) = map (\<lambda>f. int (length (pf_Data f))) files"
    using sizes by (simp add: list_eq_iff_nth_eq list_all2_conv_all_nth)
  moreover have "sum_list (map (\<lambda>f. int (length (pf_Data f))) files) = int (length payload)"
    unfolding rest(1) by (induction files) simp_all
  moreover have "distinct (map (\<lambda>e. filenameCollisionKey lib (mf_Name e)) (man_Files m))"
    using names(2) unfolding names(3) [symmetric] map_map by (simp add: comp_def)
  ultimately show ?thesis
    using rest len time each by (simp add: acceptable_def)
qed

section \<open>The manifest as JSON\<close>

text \<open>A manifest that \<open>json.Marshal\<close> writes back faithfully.\<close>

definition printable :: "manifest \<Rightarrow> bool" where
  "printable m \<longleftrightarrow> is_int64 (man_ProtocolVersion m) \<and> utf8_valid (man_CreatedAt m) \<and> man_Files m \<noteq> []
     \<and> (\<forall>f \<in> set (man_Files m). utf8_valid (mf_Name f) \<and> utf8_valid (mf_Type f) \<and> is_int64 (mf_Size f))"

lemma text_valid [simp]:
  "utf8_valid ''name''" "utf8_valid ''type''" "utf8_valid ''size''" "utf8_valid ''protocol_version''"
  "utf8_valid ''files''" "utf8_valid ''created_at''"
  by (simp_all add: utf8_valid_all_ascii is_ascii_def byte_def)

lemma faithful_decimal: "is_int64 n \<Longrightarrow> faithful (JNumber (decimal n))"
  by (simp add: parse_decimal)

lemma faithful_file:
  "utf8_valid (mf_Name f) \<Longrightarrow> utf8_valid (mf_Type f) \<Longrightarrow> is_int64 (mf_Size f) \<Longrightarrow>
   faithful (json_of_file f) \<and> nesting (json_of_file f) = 1 \<and> unique_keys (json_of_file f)"
  by (simp add: json_of_file_def parse_decimal)

lemma faithful_manifest:
  assumes "printable m"
  shows "faithful (json_of_manifest m)" "nesting (json_of_manifest m) \<le> maxNestingDepth"
    "unique_keys (json_of_manifest m)"
proof -
  have files: "faithful (json_of_file f) \<and> nesting (json_of_file f) = 1 \<and> unique_keys (json_of_file f)"
    if "f \<in> set (man_Files m)" for f
    using assms that by (intro faithful_file) (auto simp: printable_def)
  then have "foldr max (map nesting (map json_of_file fs)) 0 \<le> 1" if "set fs \<subseteq> set (man_Files m)" for fs
    using that by (induction fs) auto
  from this [of "man_Files m"] show "nesting (json_of_manifest m) \<le> maxNestingDepth"
    by (simp add: json_of_manifest_def maxNestingDepth_def)
  show "faithful (json_of_manifest m)"
    using assms files by (simp add: json_of_manifest_def printable_def list_all_iff parse_decimal)
  show "unique_keys (json_of_manifest m)"
    using files by (simp add: json_of_manifest_def list_all_iff)
qed

lemma decode_file:
  "is_int64 (mf_Size f) \<Longrightarrow>
   decode_struct manifest_file_fields assign_file (json_of_file f) zero_file = Some f"
  by (simp add: json_of_file_def manifest_file_fields_def struct_field_def assign_file_def
      decode_struct_def decode_string_def decode_int_def parse_decimal zero_file_def)

lemma decode_files_map:
  "\<forall>f \<in> set fs. is_int64 (mf_Size f) \<Longrightarrow> decode_files [] (map json_of_file fs) = Some fs"
  by (induction fs) (simp_all add: decode_file)

lemma decode_manifest:
  assumes "printable m"
  shows "\<exists>mem. decode_struct manifest_fields assign_manifest (json_of_manifest m) (zero_manifest, []) = Some (m, mem)"
proof -
  obtain f fs where f: "man_Files m = f # fs" using assms by (cases "man_Files m") (auto simp: printable_def)
  have "decode_files [] (map json_of_file (man_Files m)) = Some (man_Files m)"
    using assms by (intro decode_files_map) (auto simp: printable_def)
  with f have files: "decode_files [] (json_of_file f # map json_of_file fs) = Some (f # fs)" by simp
  have "is_int64 (man_ProtocolVersion m)" using assms by (simp add: printable_def)
  with f files show ?thesis
    by (simp add: json_of_manifest_def manifest_fields_def struct_field_def assign_manifest_def
        decode_struct_def decode_string_def decode_int_def parse_decimal zero_manifest_def
        del: decode_files.simps)
qed

lemma parse_marshal:
  assumes "printable m"
  shows "ParseManifest (marshal (json_of_manifest m)) = Inr m"
proof -
  note w = marshal_whole [OF faithful_manifest(1,2) [OF assms]]
  then obtain rest where d: "decode_one (marshal (json_of_manifest m)) = Decoded (json_of_manifest m) rest"
    "decode_one rest = EndOfInput"
    by (auto simp: whole_value_def split: decoded.splits if_splits)
  obtain mem where "decode_struct manifest_fields assign_manifest (json_of_manifest m) (zero_manifest, [])
      = Some (m, mem)" using decode_manifest [OF assms] by blast
  with d w faithful_manifest(3) [OF assms] show ?thesis
    by (simp add: ParseManifest_def rejectDuplicateJSONFields_def)
qed

lemma padded_is_ascii: "0 \<le> n \<Longrightarrow> list_all is_ascii (padded w n)"
  using padded_ascii [of n _ w] digit_ascii by (fastforce simp: list_all_iff is_ascii_def)

lemma format_is_ascii:
  assumes "writable_time t"
  shows "list_all is_ascii (format_RFC3339Nano t)"
proof -
  obtain y m d where date: "date_of t = (y, m, d)" by (cases "date_of t")
  note v = date_of_valid [OF date]
  have ns: "0 \<le> t mod second" by (simp add: second_def)
  have "list_all is_ascii (fraction_text (t mod second))"
    using padded_is_ascii [OF ns, of 9]
    by (auto simp: fraction_text_def list_all_iff is_ascii_def byte_def dest!: set_dropWhileD)
  with v assms date show ?thesis
    by (simp add: format_RFC3339Nano_def Let_def padded_is_ascii writable_time_def is_ascii_def byte_def
        pos_imp_zdiv_nonneg_iff)
qed

lemma built_printable:
  assumes "nfc_laws lib" "media_laws lib" "writable_time createdAt" "is_int64 (int (length payload))"
    and "BuildManifest lib files createdAt = Some (Inr (m, payload))"
  shows "printable m"
proof -
  from built_manifest [OF assms(1,5)] obtain names where
    names: "list_all (safe_name lib) names" "map mf_Name (man_Files m) = names"
    and sizes: "list_all2 (\<lambda>e f. mf_Size e = int (length (pf_Data f))
        \<and> SanitizeMIMEType lib (pf_Type f) = Inr (mf_Type e)) (man_Files m) files"
    and rest: "payload = concat (map pf_Data files)" "man_ProtocolVersion m = 2"
      "man_CreatedAt m = format_RFC3339Nano createdAt" "1 \<le> length files"
    by blast
  have "length (man_Files m) = length files" using sizes by (rule list_all2_lengthD)
  with rest(4) have "man_Files m \<noteq> []" by auto
  moreover have "utf8_valid (mf_Name e) \<and> utf8_valid (mf_Type e) \<and> is_int64 (mf_Size e)"
    if e: "e \<in> set (man_Files m)" for e
  proof -
    from e have "mf_Name e \<in> set (map mf_Name (man_Files m))" by simp
    with names have "utf8_valid (mf_Name e)" by (simp add: list_all_iff safe_name_iff)
    moreover from e obtain i where i: "i < length (man_Files m)" "e = man_Files m ! i"
      by (auto simp: in_set_conv_nth)
    with list_all2_nthD [OF sizes] have f: "mf_Size e = int (length (pf_Data (files ! i)))"
      "SanitizeMIMEType lib (pf_Type (files ! i)) = Inr (mf_Type e)" by simp_all
    have "files ! i \<in> set files" using i list_all2_lengthD [OF sizes] by simp
    then have "length (pf_Data (files ! i)) \<le> length payload"
      unfolding rest(1) length_concat by (intro member_le_sum_list) auto
    then have "is_int64 (mf_Size e)" unfolding f(1) by (intro is_int64_mono [OF assms(4)]) simp_all
    ultimately show ?thesis
      using sanitized_type_stays [OF assms(2) f(2)] utf8_valid_all_ascii by blast
  qed
  moreover have "utf8_valid (man_CreatedAt m)"
    unfolding rest(3) by (intro utf8_valid_all_ascii format_is_ascii assms)
  ultimately show ?thesis by (simp add: printable_def rest is_int64_def)
qed

text \<open>The receiver's side of what the sender built.\<close>

lemma built_reads_back:
  assumes laws: "nfc_laws lib" "media_laws lib" and "writable_time createdAt" "is_int64 (int (length payload))"
    and "BuildManifest lib files createdAt = Some (Inr (m, payload))"
  shows "ParseManifest (marshal (json_of_manifest m)) = Inr m
    \<and> (\<exists>out. SplitPayload lib m payload = Inr out \<and> map rf_Data out = map pf_Data files
        \<and> CanonicalizeFilenames lib (map pf_Name files) = Some (Inr (map rf_SafeName out)))"
proof
  show "ParseManifest (marshal (json_of_manifest m)) = Inr m"
    by (rule parse_marshal [OF built_printable [OF assms]])
  from built_manifest [OF laws(1) assms(5)] obtain names where
    names: "CanonicalizeFilenames lib (map pf_Name files) = Some (Inr names)" "map mf_Name (man_Files m) = names"
    and sizes: "list_all2 (\<lambda>e f. mf_Size e = int (length (pf_Data f))
        \<and> SanitizeMIMEType lib (pf_Type f) = Inr (mf_Type e)) (man_Files m) files"
    and payload: "payload = concat (map pf_Data files)" by blast
  have "list_all2 (\<lambda>f d. mf_Size f = int (length d)) (man_Files m) (map pf_Data files)"
    unfolding list_all2_map2 by (rule list_all2_mono [OF sizes]) simp
  from split_pieces [OF built_acceptable [OF laws assms(3,5)] assms(4) this payload]
  have split: "SplitPayload lib m payload = Inr (map2 (recovered_from lib) (man_Files m) (map pf_Data files))" .
  have len: "length (man_Files m) = length (map pf_Data files)" using list_all2_lengthD [OF sizes] by simp
  show "\<exists>out. SplitPayload lib m payload = Inr out \<and> map rf_Data out = map pf_Data files
      \<and> CanonicalizeFilenames lib (map pf_Name files) = Some (Inr (map rf_SafeName out))"
    using split names map2_data [OF len, of lib] map2_names [OF len, of lib] by metis
qed

section \<open>A sample bundle\<close>

lemma sample_media: "media_laws sample_library"
  by (simp add: media_laws_def sample_library_def)

lemma sample_types:
  "SanitizeMIMEType sample_library ''text/plain'' = Inr ''text/plain''"
  "SanitizeMIMEType sample_library [] = Inr octet_stream"
proof -
  have "to_lower ''text/plain'' = ''text/plain''" by (rule to_lower_plain) (simp add: ascii_eval)
  moreover have "safeMIMEPattern ''text/plain''" by code_simp
  ultimately show "SanitizeMIMEType sample_library ''text/plain'' = Inr ''text/plain''"
    by (simp add: SanitizeMIMEType_def sample_library_def manifest_limits ascii_eval)
qed (simp add: SanitizeMIMEType_def)

lemma sample_built:
  "\<exists>m. BuildManifest sample_library sample_files t = Some (Inr (m, ''firstsecond''))"
  using sample_names by (simp add: BuildManifest_def sample_files_def manifest_limits sample_types)

lemma sample_manifest:
  "\<exists>m. BuildManifest sample_library sample_files 0 = Some (Inr (m, ''firstsecond''))
    \<and> ValidateManifest sample_library m ''firstsecond'' = None"
proof -
  obtain m where m: "BuildManifest sample_library sample_files 0 = Some (Inr (m, ''firstsecond''))"
    using sample_built by blast
  have "writable_time 0" by code_simp
  from built_acceptable [OF sample_nfc sample_media this m] m show ?thesis
    unfolding validate_iff by blast
qed

section \<open>The split as a property\<close>

text \<open>C35. A receiver that accepts a manifest gets the whole payload, cut into the files the manifest
  lists: the split succeeds exactly when the manifest is valid (its own bounds checks never refuse),
  the pieces have the sizes listed and together are the payload, and every file comes out under a name
  that is not empty, not a path, at most 240 bytes long and different from the others even when case is
  ignored.\<close>

theorem split_is_exact:
  assumes "is_int64 (int (length payload))"
  shows "(ValidateManifest lib m payload = None \<longleftrightarrow> (\<exists>files. SplitPayload lib m payload = Inr files))
    \<and> (\<forall>files. SplitPayload lib m payload = Inr files \<longrightarrow>
        concat (map rf_Data files) = payload
        \<and> list_all2 (\<lambda>f e. rf_SafeName f = mf_Name e \<and> int (length (rf_Data f)) = mf_Size e
             \<and> SanitizeMIMEType lib (mf_Type e) = Inr (rf_SafeType f)) files (man_Files m)
        \<and> (\<forall>f \<in> set files. rf_SafeName f \<noteq> [] \<and> length (rf_SafeName f) \<le> 240
             \<and> rf_SafeName f \<noteq> ''.'' \<and> rf_SafeName f \<noteq> ''..'' \<and> CHR ''/'' \<notin> set (rf_SafeName f)
             \<and> CHR 0x5C \<notin> set (rf_SafeName f) \<and> CHR 0x00 \<notin> set (rf_SafeName f))
        \<and> distinct (map (\<lambda>f. filenameCollisionKey lib (rf_SafeName f)) files))"
proof (cases "acceptable lib m (length payload)")
  case False
  then show ?thesis by (auto simp: SplitPayload_def validate_iff split: option.splits)
next
  case True
  then have sizes: "\<forall>n \<in> set (map mf_Size (man_Files m)). 0 \<le> n"
    "sum_list (map mf_Size (man_Files m)) = int (length payload)"
    by (simp_all add: acceptable_def)
  from cut_pieces [OF sizes] obtain pieces where
    pieces: "list_all2 (\<lambda>f d. mf_Size f = int (length d)) (man_Files m) pieces" "payload = concat pieces"
    by (auto simp: list_all2_map1)
  let ?files = "map2 (recovered_from lib) (man_Files m) pieces"
  note split = split_pieces [OF True assms pieces]
  have len: "length (man_Files m) = length pieces" using pieces(1) by (rule list_all2_lengthD)
  have each: "list_all2 (\<lambda>f e. rf_SafeName f = mf_Name e \<and> int (length (rf_Data f)) = mf_Size e
      \<and> SanitizeMIMEType lib (mf_Type e) = Inr (rf_SafeType f)) ?files (man_Files m)"
    by (rule list_all2_zipped [OF pieces(1)]) (use True in \<open>auto simp: recovered_from_def acceptable_def\<close>)
  have names: "map rf_SafeName ?files = map mf_Name (man_Files m)" by (rule map2_names [OF len])
  have "safe_name lib (rf_SafeName f)" if "f \<in> set ?files" for f
  proof -
    from that have "rf_SafeName f \<in> set (map rf_SafeName ?files)"
      unfolding list.set_map by (rule imageI)
    then show ?thesis unfolding names using True by (auto simp: acceptable_def)
  qed
  then have safe: "\<forall>f \<in> set ?files. rf_SafeName f \<noteq> [] \<and> length (rf_SafeName f) \<le> 240
      \<and> rf_SafeName f \<noteq> ''.'' \<and> rf_SafeName f \<noteq> ''..'' \<and> CHR ''/'' \<notin> set (rf_SafeName f)
      \<and> CHR 0x5C \<notin> set (rf_SafeName f) \<and> CHR 0x00 \<notin> set (rf_SafeName f)"
    using safe_name_no_path by blast
  have "map (\<lambda>f. filenameCollisionKey lib (rf_SafeName f)) ?files
      = map (filenameCollisionKey lib) (map rf_SafeName ?files)" by simp
  also have "\<dots> = map (\<lambda>f. filenameCollisionKey lib (mf_Name f)) (man_Files m)"
    unfolding names by simp
  finally have "distinct (map (\<lambda>f. filenameCollisionKey lib (rf_SafeName f)) ?files)"
    using True by (simp add: acceptable_def)
  moreover have "concat (map rf_Data ?files) = payload"
    unfolding map2_data [OF len] by (rule pieces(2) [symmetric])
  moreover have "ValidateManifest lib m payload = None" using True by (simp add: validate_iff)
  ultimately show ?thesis using split each safe by simp
qed

theorem split_is_exact_witness:
  "\<exists>m files. BuildManifest sample_library sample_files 0 = Some (Inr (m, ''firstsecond''))
     \<and> SplitPayload sample_library m ''firstsecond'' = Inr files \<and> concat (map rf_Data files) = ''firstsecond''"
proof -
  obtain m where m: "BuildManifest sample_library sample_files 0 = Some (Inr (m, ''firstsecond''))"
    "ValidateManifest sample_library m ''firstsecond'' = None"
    using sample_manifest by blast
  have "is_int64 (int (length ''firstsecond''))" by (simp add: is_int64_def)
  from split_is_exact [OF this, of sample_library m] m show ?thesis by blast
qed

end
