(* ===== verification/Reference_Properties.thy ===== *)
theory Reference_Properties
  imports Reference Manifest_Properties
begin

text \<open>
  The reference client: keys have the right lengths, the envelope it writes passes the relay's own
  validation, and what it encrypts for a recipient the recipient decrypts, file by file.
\<close>

section \<open>Primitives\<close>

text \<open>What the protocol relies on: both sides of a Diffie-Hellman exchange reach the same 32 bytes
  (RFC 7748), and AES-256-GCM opens what it sealed under the same key, nonce and additional data,
  adding a tag of 16 bytes.\<close>

definition crypto_laws :: "library \<Rightarrow> bool" where
  "crypto_laws lib \<longleftrightarrow>
     (\<forall>a p. length (lib_X25519 lib a p) = 32)
     \<and> (\<forall>a b. length a = 32 \<longrightarrow> length b = 32 \<longrightarrow>
          lib_X25519 lib a (lib_X25519 lib b basepoint) = lib_X25519 lib b (lib_X25519 lib a basepoint))
     \<and> (\<forall>k n a p. length k = 32 \<longrightarrow> length n = 12 \<longrightarrow>
          lib_Open lib k n a (lib_Seal lib k n a p) = Some p \<and> length (lib_Seal lib k n a p) = length p + 16)"

lemma x25519_length: "crypto_laws lib \<Longrightarrow> length (lib_X25519 lib a p) = 32"
  and x25519_agree: "crypto_laws lib \<Longrightarrow> length a = 32 \<Longrightarrow> length b = 32 \<Longrightarrow>
    lib_X25519 lib a (lib_X25519 lib b basepoint) = lib_X25519 lib b (lib_X25519 lib a basepoint)"
  and gcm_opens: "crypto_laws lib \<Longrightarrow> length k = 32 \<Longrightarrow> length n = 12 \<Longrightarrow>
    lib_Open lib k n a (lib_Seal lib k n a p) = Some p"
  and gcm_tag: "crypto_laws lib \<Longrightarrow> length k = 32 \<Longrightarrow> length n = 12 \<Longrightarrow>
    length (lib_Seal lib k n a p) = length p + 16"
  unfolding crypto_laws_def by blast+

section \<open>Keys\<close>

lemma length_hmac [simp]: "length (hmac_sha256 k m) = 32"
  by (simp add: hmac_sha256_def)

lemma length_hkdf_blocks: "length (hkdf_blocks prk info prev i n) = 32 * n"
  by (induction prk info prev i n rule: hkdf_blocks.induct) (simp_all add: Let_def)

lemma hkdf_Key_length: "hkdf_Key secret salt info n = Inr key \<Longrightarrow> length key = n"
  by (auto simp: hkdf_Key_def length_hkdf_blocks split: if_splits)

lemma hkdf_Key_32: "\<exists>key. hkdf_Key secret salt info 32 = Inr key \<and> length key = 32"
  by (simp add: hkdf_Key_def length_hkdf_blocks)

lemma DeriveKeys_Inr:
  assumes "length shared = 32" "length sender = 32" "length recipient = 32"
  shows "\<exists>mk pk. DeriveKeys shared sender recipient = Inr (mk, pk) \<and> length mk = 32 \<and> length pk = 32"
proof -
  obtain mk where mk: "hkdf_Key shared (sender @ recipient) InfoMetadata 32 = Inr mk" "length mk = 32"
    using hkdf_Key_32 by blast
  obtain pk where pk: "hkdf_Key shared (sender @ recipient) InfoPayload 32 = Inr pk" "length pk = 32"
    using hkdf_Key_32 by blast
  from assms mk pk show ?thesis by (simp add: DeriveKeys_def envelope_constants)
qed

lemma SharedSecret_Inr:
  "SharedSecret lib sk pk = Inr s \<longleftrightarrow>
     length sk = 32 \<and> length pk = 32 \<and> s = lib_X25519 lib sk pk \<and> s \<noteq> all_zero"
  by (auto simp: SharedSecret_def NewPrivateKey_def NewPublicKey_def ECDH_def and_then_def Let_def)

section \<open>The envelope\<close>

lemma b64_digit_ascii: "b64_digit c \<noteq> None \<Longrightarrow> is_ascii c"
proof -
  have "(of_char c :: int) = int (byte c)" unfolding byte_def by (rule of_nat_of_char [symmetric])
  then show "b64_digit c \<noteq> None \<Longrightarrow> is_ascii c"
    by (auto simp: b64_digit_def is_ascii_def Let_def split: if_splits)
qed

lemma base64_valid: "utf8_valid (EncodeBase64URL bs)"
proof (rule utf8_valid_all_ascii)
  have "is_ascii c" if "c \<in> set (EncodeToString bs)" for c
    using DecodeString_chars [OF DecodeString_EncodeToString [of True] that] b64_digit_ascii
    by (auto simp: is_newline_def is_ascii_def byte_def)
  then show "list_all is_ascii (EncodeBase64URL bs)" by (simp add: EncodeBase64URL_def list_all_iff)
qed

lemma field_names_valid [simp]:
  "utf8_valid ''key_agreement''" "utf8_valid ''sender_ephemeral_public_key''" "utf8_valid ''metadata_nonce''"
  "utf8_valid ''payload_nonce''" "utf8_valid ''encrypted_metadata''" "utf8_valid KeyAgreement"
  by (simp_all add: utf8_valid_all_ascii is_ascii_def byte_def KeyAgreement_def)

lemma decode_envelope_json:
  "is_int64 (env_ProtocolVersion e) \<Longrightarrow>
   decode_struct envelope_fields assign_envelope (json_of_envelope e) zero_envelope = Some e"
  by (simp add: json_of_envelope_def envelope_fields_def struct_field_def assign_envelope_def
      decode_struct_def decode_string_def decode_int_def parse_decimal zero_envelope_def)

lemma written_envelope_valid:
  assumes env: "env = \<lparr>env_ProtocolVersion = ProtocolVersion, env_KeyAgreement = KeyAgreement,
        env_SenderEphemeralPublicKey = EncodeBase64URL pk, env_MetadataNonce = EncodeBase64URL mn,
        env_PayloadNonce = EncodeBase64URL pn, env_EncryptedMetadata = EncodeBase64URL md\<rparr>"
    and "length pk = 32" "length mn = 12" "length pn = 12" "16 \<le> length md"
  shows "ValidateEnvelopeJSON (marshal (json_of_envelope env)) = Inr env"
    and "decodeEnvelopeFields env = Inr (pk, mn, pn, md)"
proof -
  have two: "is_int64 2" by (simp add: is_int64_def)
  have "faithful (json_of_envelope env)"
    by (simp add: json_of_envelope_def env base64_valid ProtocolVersion_def parse_decimal two)
  moreover have "nesting (json_of_envelope env) \<le> maxNestingDepth"
    by (simp add: json_of_envelope_def maxNestingDepth_def)
  ultimately have whole: "whole_value (marshal (json_of_envelope env)) = Some (json_of_envelope env)"
    by (rule marshal_whole)
  have unique: "unique_keys (json_of_envelope env)" by (simp add: json_of_envelope_def)
  have decoded: "decode_struct envelope_fields assign_envelope (json_of_envelope env) zero_envelope = Some env"
    by (rule decode_envelope_json) (simp add: env ProtocolVersion_def two)
  have field: "DecodeBase64URL (EncodeBase64URL bs) = Inr bs" if "bs \<noteq> []" for bs
    using that by (simp add: canonical EncodeBase64URL_nonempty)
  have ne: "pk \<noteq> []" "mn \<noteq> []" "pn \<noteq> []" "md \<noteq> []" using assms(2-5) by auto
  show valid: "ValidateEnvelopeJSON (marshal (json_of_envelope env)) = Inr env"
    unfolding Validate_Inr decoded_once
    using whole unique decoded assms(2-5) ne
    by (auto simp: decodeBase64URLField_Inr field env envelope_constants)
  show "decodeEnvelopeFields env = Inr (pk, mn, pn, md)"
    unfolding decodeEnvelopeFields_def valid by (simp add: env field ne)
qed

section \<open>Encrypting and decrypting\<close>

text \<open>A source that gives keys of 32 and nonces of 12 bytes, when it gives any.\<close>

definition sound_randomness :: "randomness \<Rightarrow> bool" where
  "sound_randomness rnd \<longleftrightarrow>
     (\<forall>k. rnd_PrivateKey rnd = Some k \<longrightarrow> length k = 32)
     \<and> (\<forall>n. rnd_MetadataNonce rnd = Some n \<longrightarrow> length n = 12)
     \<and> (\<forall>n. rnd_PayloadNonce rnd = Some n \<longrightarrow> length n = 12)"

lemma senderKeys_Inr:
  assumes "senderKeys lib given generated = Inr kp" "\<forall>k. generated = Some k \<longrightarrow> length k = 32"
  shows "length (kp_PrivateKey kp) = 32 \<and> kp_PublicKey kp = lib_X25519 lib (kp_PrivateKey kp) basepoint"
  using assms
  by (auto simp: senderKeys_def GenerateX25519KeyPair_def PublicKeyFromPrivate_def NewPrivateKey_def and_then_def
      split: if_splits option.splits sum.splits)

lemma nonce_Inr:
  assumes "nonceOrRandom given read = Inr n" "\<forall>k. read = Some k \<longrightarrow> length k = 12"
  shows "length n = 12"
  using assms by (auto simp: nonceOrRandom_def envelope_constants split: if_splits option.splits)

text \<open>Opening a sealed bundle.\<close>

lemma sealed_bundle_opens:
  assumes laws: "crypto_laws lib" and recipient: "length priv = 32"
    and sender: "length (kp_PrivateKey kp) = 32" "kp_PublicKey kp = lib_X25519 lib (kp_PrivateKey kp) basepoint"
    and nonces: "length mn = 12" "length pn = 12"
    and m: "ParseManifest (marshal (json_of_manifest m)) = Inr m" "SplitPayload lib m payload = Inr files"
    and seal: "sealBundle lib (lib_X25519 lib priv basepoint) kp mn pn m payload = Inr res"
  shows "ParseEnvelopeJSON (er_EnvelopeJSON res) = Inr (er_Envelope res)
    \<and> DecryptBundle lib priv (er_Envelope res) (er_EncryptedPayload res) = Inr (files, er_Intermediates res)"
proof -
  let ?pub = "lib_X25519 lib priv basepoint" and ?json = "marshal (json_of_manifest m)"
  let ?shared = "lib_X25519 lib (kp_PrivateKey kp) ?pub"
  have lens: "length ?pub = 32" "length (kp_PublicKey kp) = 32" "length ?shared = 32"
    unfolding sender(2) by (rule x25519_length [OF laws])+
  obtain mk pk where keys: "DeriveKeys ?shared (kp_PublicKey kp) ?pub = Inr (mk, pk)" "length mk = 32" "length pk = 32"
    using DeriveKeys_Inr [OF lens(3,2,1)] by blast
  have nonzero: "?shared \<noteq> all_zero" and shared: "SharedSecret lib (kp_PrivateKey kp) ?pub = Inr ?shared"
    using seal sender(1) lens by (auto simp: sealBundle_def Let_def and_then_Inr SharedSecret_Inr)
  have agree: "lib_X25519 lib priv (kp_PublicKey kp) = ?shared"
    unfolding sender(2) by (rule x25519_agree [OF laws recipient sender(1)])
  then have shared': "SharedSecret lib priv (kp_PublicKey kp) = Inr ?shared"
    using nonzero recipient lens by (simp add: SharedSecret_Inr)
  let ?md = "lib_Seal lib mk mn aadMetadata ?json" and ?pl = "lib_Seal lib pk pn aadPayload payload"
  let ?env = "\<lparr>env_ProtocolVersion = ProtocolVersion, env_KeyAgreement = KeyAgreement,
        env_SenderEphemeralPublicKey = EncodeBase64URL (kp_PublicKey kp), env_MetadataNonce = EncodeBase64URL mn,
        env_PayloadNonce = EncodeBase64URL pn, env_EncryptedMetadata = EncodeBase64URL ?md\<rparr>"
  have tag: "16 \<le> length ?md" using gcm_tag [OF laws keys(2) nonces(1)] by simp
  note written = written_envelope_valid [OF refl lens(2) nonces tag]
  have res: "er_Envelope res = ?env" "er_EnvelopeJSON res = marshal (json_of_envelope ?env)"
    "er_EncryptedPayload res = ?pl"
    "er_Intermediates res = \<lparr>int_SharedSecret = ?shared, int_MetadataKey = mk, int_PayloadKey = pk,
       int_EncryptedMetadata = ?md\<rparr>"
    using seal unfolding sealBundle_def Let_def shared and_then_simps keys(1) prod.case encryptAESGCM_def newGCM_def
    by (auto simp: keys(2,3))
  have "PublicKeyFromPrivate lib priv = Inr ?pub"
    using recipient by (simp add: PublicKeyFromPrivate_def NewPrivateKey_def)
  moreover have "decryptAESGCM lib mk mn aadMetadata ?md = Inr ?json"
    "decryptAESGCM lib pk pn aadPayload ?pl = Inr payload"
    using keys(2,3) gcm_opens [OF laws] nonces by (simp_all add: decryptAESGCM_def newGCM_def)
  ultimately have "DecryptBundle lib priv ?env ?pl = Inr (files, er_Intermediates res)"
    unfolding DecryptBundle_def by (simp add: written(2) shared' keys(1) m res(4))
  with written(1) res(1-3) show ?thesis by (simp add: ParseEnvelopeJSON_def)
qed

text \<open>The instant the manifest carries.\<close>

definition created_at :: "encrypt_options \<Rightarrow> time \<Rightarrow> time" where
  "created_at opts now = (if opt_CreatedAt opts = zero_time then now else opt_CreatedAt opts)"

lemma encrypted_parts:
  assumes "EncryptBundle lib rnd now recipient files opts = Some (Inr res)"
  shows "\<exists>kp mn pn m payload.
      senderKeys lib (opt_SenderPrivateKey opts) (rnd_PrivateKey rnd) = Inr kp
      \<and> nonceOrRandom (opt_MetadataNonce opts) (rnd_MetadataNonce rnd) = Inr mn
      \<and> nonceOrRandom (opt_PayloadNonce opts) (rnd_PayloadNonce rnd) = Inr pn
      \<and> BuildManifest lib files (created_at opts now) = Some (Inr (m, payload))
      \<and> sealBundle lib recipient kp mn pn m payload = Inr res \<and> er_PayloadPlaintext res = payload"
proof -
  from assms obtain kp mn pn m payload where
    parts: "senderKeys lib (opt_SenderPrivateKey opts) (rnd_PrivateKey rnd) = Inr kp"
      "nonceOrRandom (opt_MetadataNonce opts) (rnd_MetadataNonce rnd) = Inr mn"
      "nonceOrRandom (opt_PayloadNonce opts) (rnd_PayloadNonce rnd) = Inr pn"
      "BuildManifest lib files (created_at opts now) = Some (Inr (m, payload))"
      "sealBundle lib recipient kp mn pn m payload = Inr res"
    unfolding EncryptBundle_def created_at_def
    by (auto simp: and_then_Inr split: if_splits sum.splits prod.splits)
  moreover from parts(5) have "er_PayloadPlaintext res = payload"
    by (auto simp: sealBundle_def Let_def and_then_Inr split: prod.splits)
  ultimately show ?thesis by blast
qed

lemma encryption_opens:
  assumes laws: "nfc_laws lib" "media_laws lib" "crypto_laws lib"
    and inputs: "length priv = 32" "sound_randomness rnd" "writable_time (created_at opts now)"
    and enc: "EncryptBundle lib rnd now (lib_X25519 lib priv basepoint) files opts = Some (Inr res)"
    and size: "is_int64 (int (length (er_PayloadPlaintext res)))"
  shows "\<exists>out. ParseEnvelopeJSON (er_EnvelopeJSON res) = Inr (er_Envelope res)
    \<and> DecryptBundle lib priv (er_Envelope res) (er_EncryptedPayload res) = Inr (out, er_Intermediates res)
    \<and> map rf_Data out = map pf_Data files
    \<and> CanonicalizeFilenames lib (map pf_Name files) = Some (Inr (map rf_SafeName out))"
proof -
  from encrypted_parts [OF enc] obtain kp mn pn m payload where
    kp: "senderKeys lib (opt_SenderPrivateKey opts) (rnd_PrivateKey rnd) = Inr kp"
    and mn: "nonceOrRandom (opt_MetadataNonce opts) (rnd_MetadataNonce rnd) = Inr mn"
    and pn: "nonceOrRandom (opt_PayloadNonce opts) (rnd_PayloadNonce rnd) = Inr pn"
    and m: "BuildManifest lib files (created_at opts now) = Some (Inr (m, payload))"
    and seal: "sealBundle lib (lib_X25519 lib priv basepoint) kp mn pn m payload = Inr res"
    and payload: "er_PayloadPlaintext res = payload" by blast
  have rnd: "\<forall>k. rnd_PrivateKey rnd = Some k \<longrightarrow> length k = 32" "\<forall>k. rnd_MetadataNonce rnd = Some k \<longrightarrow> length k = 12"
    "\<forall>k. rnd_PayloadNonce rnd = Some k \<longrightarrow> length k = 12"
    using inputs(2) by (simp_all add: sound_randomness_def)
  note keys = senderKeys_Inr [OF kp rnd(1)]
  from built_reads_back [OF laws(1,2) inputs(3) _ m] size payload obtain out where
    m_back: "ParseManifest (marshal (json_of_manifest m)) = Inr m" "SplitPayload lib m payload = Inr out"
    and out: "map rf_Data out = map pf_Data files"
      "CanonicalizeFilenames lib (map pf_Name files) = Some (Inr (map rf_SafeName out))" by auto
  from sealed_bundle_opens [OF laws(3) inputs(1) keys [THEN conjunct1] keys [THEN conjunct2]
      nonce_Inr [OF mn rnd(2)] nonce_Inr [OF pn rnd(3)] m_back seal] out
  show ?thesis by blast
qed

text \<open>Sealing fails only for a low-order recipient key.\<close>

lemma sealing_succeeds:
  assumes "crypto_laws lib" "length sk = 32" "length recipient = 32"
    and "lib_X25519 lib sk recipient \<noteq> all_zero"
  shows "\<exists>res. sealBundle lib recipient \<lparr>kp_PrivateKey = sk, kp_PublicKey = lib_X25519 lib sk basepoint\<rparr>
    mn pn m payload = Inr res \<and> er_PayloadPlaintext res = payload"
proof -
  have "SharedSecret lib sk recipient = Inr (lib_X25519 lib sk recipient)"
    using assms by (simp add: SharedSecret_Inr)
  moreover obtain mk pk where "DeriveKeys (lib_X25519 lib sk recipient) (lib_X25519 lib sk basepoint) recipient
      = Inr (mk, pk)" "length mk = 32" "length pk = 32"
    using DeriveKeys_Inr [OF x25519_length x25519_length assms(3)] assms(1) by blast
  ultimately show ?thesis by (simp add: sealBundle_def Let_def encryptAESGCM_def newGCM_def)
qed

section \<open>A sample bundle\<close>

lemma sample_exchange:
  "lib_X25519 sample_library a (lib_X25519 sample_library b p) = lib_X25519 sample_library b (lib_X25519 sample_library a p)"
  by (simp add: sample_library_def byte_at_def byte_def mod_simps add.left_commute)

lemma sample_crypto: "crypto_laws sample_library"
  unfolding crypto_laws_def using sample_exchange by (auto simp: sample_library_def)

definition sample_recipient :: go_string where
  "sample_recipient = lib_X25519 sample_library (sequenceBytes 1 32) basepoint"

lemma sample_keys_ok:
  "length (sequenceBytes n 32) = 32" "lib_X25519 sample_library (sequenceBytes 65 32) sample_recipient \<noteq> all_zero"
proof -
  show "length (sequenceBytes n 32) = 32" by (simp add: sequenceBytes_def)
  have "lib_X25519 sample_library (sequenceBytes 65 32) sample_recipient ! 1
      = char_of (byte_at (sequenceBytes 65 32) 1 + byte_at sample_recipient 1)"
    by (simp add: sample_library_def)
  also have "\<dots> = CHR 0x44" by code_simp
  finally show "lib_X25519 sample_library (sequenceBytes 65 32) sample_recipient \<noteq> all_zero"
    by (auto simp: all_zero_def)
qed

definition no_randomness :: randomness where
  "no_randomness = \<lparr>rnd_PrivateKey = None, rnd_MetadataNonce = None, rnd_PayloadNonce = None\<rparr>"

lemma sample_encrypted:
  "\<exists>res. EncryptBundle sample_library no_randomness 0 sample_recipient sample_files vector_options
     = Some (Inr res) \<and> er_PayloadPlaintext res = ''firstsecond''"
proof -
  let ?sk = "sequenceBytes 65 32"
  have pub: "length sample_recipient = 32" by (simp add: sample_recipient_def sample_library_def)
  obtain m where m: "BuildManifest sample_library sample_files vector_time = Some (Inr (m, ''firstsecond''))"
    using sample_built by blast
  obtain res where "sealBundle sample_library sample_recipient
      \<lparr>kp_PrivateKey = ?sk, kp_PublicKey = lib_X25519 sample_library ?sk basepoint\<rparr>
      (sequenceBytes 129 12) (sequenceBytes 161 12) m ''firstsecond'' = Inr res"
      "er_PayloadPlaintext res = ''firstsecond''"
    using sealing_succeeds [OF sample_crypto sample_keys_ok(1) pub sample_keys_ok(2)] by blast
  moreover have "vector_time \<noteq> zero_time" by (simp add: vector_time_def zero_time_def second_def)
  moreover have "length (sequenceBytes n 12) = 12" "sequenceBytes n 12 \<noteq> []" "?sk \<noteq> []" for n
    by (simp_all add: sequenceBytes_def)
  ultimately show ?thesis
    using m pub sample_keys_ok(1)
    by (simp add: EncryptBundle_def vector_options_def envelope_constants senderKeys_def nonceOrRandom_def
        PublicKeyFromPrivate_def NewPrivateKey_def)
qed

text \<open>C4. End to end: what the reference client encrypts for a recipient, the recipient decrypts. The
  envelope passes the validation the relay applies to it, decryption with the recipient's private key
  gives every file's bytes in order, each under its canonical name, and the same intermediate keys. It
  rests on the laws of X25519, AES-256-GCM, Unicode NFC and the media type parser, on random bytes of
  the right number, a creation time in the years 0 to 9999 and a payload whose length is an \<open>int\<close>.\<close>

theorem encrypted_bundle_decrypts:
  assumes "nfc_laws lib" "media_laws lib" "crypto_laws lib"
    and "length recipientPrivate = 32" "sound_randomness rnd" "writable_time (created_at opts now)"
    and "EncryptBundle lib rnd now (lib_X25519 lib recipientPrivate basepoint) files opts = Some (Inr res)"
    and "is_int64 (int (length (er_PayloadPlaintext res)))"
  shows "\<exists>out. ParseEnvelopeJSON (er_EnvelopeJSON res) = Inr (er_Envelope res)
    \<and> DecryptBundle lib recipientPrivate (er_Envelope res) (er_EncryptedPayload res)
        = Inr (out, er_Intermediates res)
    \<and> map rf_Data out = map pf_Data files
    \<and> CanonicalizeFilenames lib (map pf_Name files) = Some (Inr (map rf_SafeName out))"
  by (rule encryption_opens [OF assms])

theorem encrypted_bundle_decrypts_witness:
  "\<exists>res out. EncryptBundle sample_library no_randomness 0 sample_recipient sample_files vector_options = Some (Inr res)
    \<and> DecryptBundle sample_library (sequenceBytes 1 32) (er_Envelope res) (er_EncryptedPayload res)
        = Inr (out, er_Intermediates res)
    \<and> map rf_Data out = [''first'', ''second''] \<and> map rf_SafeName out = [''report.txt'', ''REPORT (2).txt'']"
proof -
  obtain res where res: "EncryptBundle sample_library no_randomness 0 sample_recipient sample_files vector_options
      = Some (Inr res)" "er_PayloadPlaintext res = ''firstsecond''"
    using sample_encrypted by blast
  have rnd: "sound_randomness no_randomness" by (simp add: sound_randomness_def no_randomness_def)
  have time: "writable_time (created_at vector_options 0)" by code_simp
  have size: "is_int64 (int (length (er_PayloadPlaintext res)))" by (simp add: res(2) is_int64_def)
  from encrypted_bundle_decrypts [OF sample_nfc sample_media sample_crypto sample_keys_ok(1) rnd time
      res(1) [unfolded sample_recipient_def] size] obtain out where
    out: "DecryptBundle sample_library (sequenceBytes 1 32) (er_Envelope res) (er_EncryptedPayload res)
        = Inr (out, er_Intermediates res)"
      "map rf_Data out = map pf_Data sample_files"
      "CanonicalizeFilenames sample_library (map pf_Name sample_files) = Some (Inr (map rf_SafeName out))" by blast
  have data: "map rf_Data out = [''first'', ''second'']" using out(2) by (simp add: sample_files_def)
  have names: "map rf_SafeName out = [''report.txt'', ''REPORT (2).txt'']" using out(3) sample_names by simp
  show ?thesis
    by (rule exI [of _ res], rule exI [of _ out]) (intro conjI res(1) out(1) data names)
qed

end
