(* ===== verification/Spec2Isabelle.thy ===== *)
theory Spec2Isabelle
  imports Prelude Go_Strings Droppoint Sha256 Token Dropname Schema Filesystem World Statements
    Db_Invariant Store Store_Facts Samples
    Store_Properties Blobstore Blob_Facts Blob_Properties Cleanup Cleanup_Facts Cleanup_Frames
    Cleanup_Success Cleanup_Properties
    Utf8 Json Envelope Config Server Http Http_Create Http_Drop Http_Receiver
    Middleware Router Cleanup_Guard Relay_State Relay_Guard Repo_Success Relay_Handlers
    Flags Cli Database Relay_Submit Relay_Steps Relay_Storage Relay_Pickup Relay_Upload
    Relay_Accept Relay_Reading Routing_Facts Relay_Samples Access_Log
    Config_Properties Relay_Create Relay_Example Relay_Properties
    Receiver_Properties Receiver_Progress Timestamps Lifecycle Relay_Refused Cli_Properties
    Go_Format Unicode_Case Json_Marshal Manifest Reference
    Filenames Manifest_Properties Reference_Properties
begin

text \<open>
  DropPoint is a relay for encrypted files: an operator's API token creates a drop point, anybody
  with its drop link uploads encrypted submissions to it, and the holder of its pickup token lists,
  picks up and acknowledges them. Rows live in SQLite, envelopes and payloads in a directory tree,
  and a cleanup service reclaims both. These theories translate the Go program, \<open>cmd/droppoint\<close> and
  \<open>internal/\<close>, and prove what each part and the whole relay guarantee.

  \<^bold>\<open>How the code is modelled.\<close> A Go string or byte slice is a list of characters, read as bytes. A
  64-bit integer is an \<open>int\<close> with the wrap-around written out (\<open>wrap64\<close>) where arithmetic is done on
  it, a time is an \<open>int\<close> of nanoseconds. A pure function is a HOL function of the same name; its
  error result is the left side of a sum with the constructors of \<open>error\<close>. A function with effects is
  a program of the state monad over \<open>world\<close> (theory World): the database, the directory tree, the
  clock, the random bytes, and a list of faults. Every call of the database, the file system or the
  network consumes one fault: none, a failure before the effect, or a failure after it (an error is
  reported although the effect took place). Theorems that do not restrict \<open>w_faults\<close> hold for every
  such schedule; \<open>w_faults w = []\<close> says that nothing fails from there on. \<open>triple P m Q\<close> and
  \<open>holds P m\<close> are the Hoare triples the proofs are written in, \<open>keeps R m\<close> says that every run of \<open>m\<close>
  relates its first and last world by \<open>R\<close>.

  \<^bold>\<open>Parts.\<close>
  \<^item> Domain and leaf packages: Droppoint (\<open>droppoint\<close>: statuses, records, the lifecycle operations),
    Sha256 and Token (\<open>token\<close>), Dropname (\<open>dropname\<close>), Go_Strings, Go_Format, Utf8, Unicode_Case,
    Json, Json_Marshal and Flags (what the source uses of the standard library).
  \<^item> Configuration: Config (\<open>config.go\<close>: defaults, file, environment, validation) and
    Config_Properties (durations and limits stay exact).
  \<^item> Database: Schema (the tables as lists of rows, scanning), Statements (each SQL statement of
    \<open>repository.go\<close> and \<open>api_tokens.go\<close> as a function on the database), Store (each repository
    method), Db_Invariant (keys, references, well-formed rows and queue quotas under every
    statement), Store_Facts and Store_Properties (outcomes, refinement of the domain operations),
    Repo_Success (what a reported success has really done), Timestamps (the texts of the time columns
    compare as the instants the rows hold), Database (\<open>store.go\<close> and \<open>migrate.go\<close>:
    opening the file and migrating, with permission bits and schema version as its state).
  \<^item> Blob store: Filesystem (the tree and the \<open>os\<close> calls), Blobstore (\<open>blobstore.go\<close>), Blob_Facts and
    Blob_Properties.
  \<^item> Cleanup: Cleanup (\<open>cleanup.go\<close>), Cleanup_Frames (what a pass may change), Cleanup_Guard and
    Cleanup_Facts (what it never touches), Cleanup_Success (what a successful pass has achieved),
    Cleanup_Properties.
  \<^item> Server and command line: Server (\<open>server.go\<close>, \<open>datadir.go\<close>), Lifecycle (the goroutines
    of \<open>ListenAndServe\<close> as a step relation: how the server runs and stops), Cli (\<open>main.go\<close>)
    and Cli_Properties (a token that was printed authenticates).
  \<^item> HTTP: Http (requests, responses, \<open>responses.go\<close>, \<open>auth.go\<close>), Http_Create, Http_Drop,
    Http_Receiver (the handlers), Middleware (\<open>middleware.go\<close>, \<open>cors.go\<close>, \<open>health.go\<close>,
    \<open>drop_page.go\<close>), Router (\<open>router.go\<close>), Routing_Facts (the route table as a decision on method and
    path), Access_Log (what a log line can show). Envelope (\<open>cryptoenv/envelope.go\<close>) validates the
    envelope of an upload.
  \<^item> The protocol between sender and receiver: Manifest (\<open>cryptoenv/manifest.go\<close>: manifests, file
    names, the split of the payload), Filenames (the sender's search for free names ends in safe and
    distinct ones), Manifest_Properties (what a receiver accepts and what it gets), Reference
    (\<open>reference.go\<close> and \<open>vectors.go\<close>: encrypting and decrypting a bundle, the test vectors) and
    Reference_Properties (the round trip).
  \<^item> The relay as a whole: Relay_Steps (the steps: requests through the router, cleanup passes, starts,
    operator commands; reachable worlds), Relay_State, Relay_Guard, Relay_Submit and Relay_Handlers
    (the storage invariant under every operation), Relay_Storage (it is an invariant of the relay),
    Relay_Pickup, Relay_Upload, Relay_Accept, Relay_Create and Relay_Reading (what uploads, pickups
    and creations achieve), Relay_Properties, Relay_Refused (a refused upload leaves nothing
    behind), Receiver_Properties and Receiver_Progress (what the holder of a pickup token can do and
    nobody else). Samples, Relay_Samples and Relay_Example hold the
    concrete worlds on which the properties are instantiated.

  \<^bold>\<open>How the parts interact.\<close> A request passes the middleware and the router to one handler, which calls
  the repository and the blob store. An upload begins a \<open>receiving\<close> row, writes the two files into
  temporary names and renames them, then commits the row to \<open>ready\<close>; when a step fails it deletes the
  files and the row again, and when the commit is ambiguous it looks at the row. Acknowledging marks
  the row, deletes the files, then clears the paths. The cleanup pass does the same for what was
  interrupted, expired or closed. The storage invariant ties the two halves together: in every
  reachable world a ready submission of an open drop point has both its files, whatever failed
  before.

  \<^bold>\<open>Interfaces.\<close> The locales name what one part needs of another: \<open>keyed_update\<close> for row updates by key,
  \<open>io_frame\<close> for a relation that all effects keep, \<open>reclaim_frame\<close> and \<open>pass_frame\<close> for the relations
  of a cleanup pass, \<open>guarded_pass\<close> and \<open>guarded_service\<close> for a submission a pass must spare,
  \<open>invariant_system\<close> for the invariants of a step relation, \<open>relay_invariant\<close> for a predicate every step of the relay keeps. Each is interpreted on the model's
  own definitions, most of them several times.

  \<^bold>\<open>Bounds.\<close> No definition uses fuel. Loops of the source are recursion on a list or on the attempts
  that are left (three for creation and for names); the JSON reader and the scanners recurse on the
  rest of their input, with termination proofs. The one loop without a bound in the code, the search
  for a free file name, is a partial function whose value \<open>None\<close> is a run that does not end;
  Filenames proves that it ends.

  \<^bold>\<open>Parameters.\<close> Code outside \<open>src/\<close> is an argument: \<open>net/url\<close>, \<open>mime\<close> and \<open>mime/multipart\<close> as parsing
  functions, petname as a list of names, the embedded files of the drop page, what the SQLite driver
  does to its files and answers for the journal mode. The reference client takes Unicode NFC
  (\<open>golang.org/x/text\<close>), X25519 and AES-256-GCM as functions of the record \<open>library\<close>; the laws it
  relies on are the predicates \<open>nfc_laws\<close>, \<open>media_laws\<close> and \<open>crypto_laws\<close>.

  \<^bold>\<open>Not modelled.\<close> Interleaving inside a handler: a handler runs to its end before the next step,
  except that \<open>Expire_between\<close> opens the orphan phase of a cleanup pass to other steps. The
  rendering of JSON bodies, log lines other than the access log and those of the cleanup loop,
  multipart boundaries, what \<open>net/http\<close> does below its documented behaviour, contexts other than as
  faults and as the signal to stop.
  The comments and documents that differ from the code are listed in the findings of the manifest.
\<close>

end
